(* ===== verification/Prelude.thy ===== *)
theory Prelude
  imports Main "HOL-Library.Word" "HOL-Library.Monad_Syntax"
begin

text \<open>
  What every component shares: the types that stand for the Rust types (\<open>u8\<close>, \<open>u16\<close>,
  \<open>u32\<close>, byte slices, strings), calls that may panic, checked indexing and slicing, the
  functions of the Rust standard library and of \<open>memchr\<close> that the code uses on bytes and on
  strings, and the collections of rewrite rules the component theories add to their proofs.
\<close>

unbundle bit_operations_syntax

named_theorems beS \<open>values of big-endian reads\<close>
named_theorems strS \<open>byte and string helpers, unfolded on concrete input\<close>

section \<open>Types\<close>

type_synonym byte = "8 word"
type_synonym u16 = "16 word"
type_synonym u32 = "32 word"
type_synonym u64 = "64 word"
type_synonym bytes = "byte list"

text \<open>
  A call that does not return a value is \<open>None\<close>: a panic (index out of range, a slice whose
  bounds do not fit, arithmetic overflow), or a loop that runs forever. A \<open>Result\<close> of the
  source is a sum, its error on the left.
\<close>

type_synonym 'a run = "'a option"

definition idx :: "'a list \<Rightarrow> nat \<Rightarrow> 'a run" where
  "idx xs i = (if i < length xs then Some (xs ! i) else None)"

definition slice :: "'a list \<Rightarrow> nat \<Rightarrow> nat \<Rightarrow> 'a list run" where
  "slice xs i j = (if i \<le> j \<and> j \<le> length xs then Some (take (j - i) (drop i xs)) else None)"

lemma idx_Some [simp]: "i < length xs \<Longrightarrow> idx xs i = Some (xs ! i)"
  by (simp add: idx_def)

lemma slice_Some [simp]:
  "i \<le> j \<Longrightarrow> j \<le> length xs \<Longrightarrow> slice xs i j = Some (take (j - i) (drop i xs))"
  by (simp add: slice_def)

text \<open>What was read is read again from a longer buffer.\<close>

lemma idx_append: "idx data i = Some v \<Longrightarrow> idx (data @ rest) i = Some v"
  by (auto simp: idx_def nth_append split: if_splits)

lemma slice_append: "slice data i j = Some v \<Longrightarrow> slice (data @ rest) i j = Some v"
  by (auto simp: slice_def split: if_splits)

section \<open>Big-endian reads\<close>

definition be16 :: "byte \<Rightarrow> byte \<Rightarrow> u16" where
  "be16 a b = push_bit 8 (ucast a) OR ucast b"

definition be32 :: "byte \<Rightarrow> byte \<Rightarrow> byte \<Rightarrow> byte \<Rightarrow> u32" where
  "be32 a b c d =
     push_bit 24 (ucast a) OR push_bit 16 (ucast b) OR push_bit 8 (ucast c) OR ucast d"

text \<open>A loop \<open>acc = (acc << 8) | byte\<close> over a slice, at a width and without one.\<close>

definition be_word :: "bytes \<Rightarrow> 'w::len word" where
  "be_word bs = foldl (\<lambda>acc b. push_bit 8 acc OR ucast b) 0 bs"

definition be_nat :: "bytes \<Rightarrow> nat" where
  "be_nat bs = foldl (\<lambda>acc b. acc * 256 + unat b) 0 bs"

lemma byte_lt: "unat (b :: byte) < 256"
  using unsigned_less [of b] by simp

lemma push8_or_ucast:
  fixes acc :: "'w::len word" and b :: byte
  assumes "8 \<le> LENGTH('w)" and "unat acc * 256 < 2 ^ LENGTH('w)"
  shows "unat (push_bit 8 acc OR ucast b) = unat acc * 256 + unat b"
proof -
  have "push_bit 8 acc OR ucast b = push_bit 8 acc + (ucast b :: 'w word)"
    by (rule disjunctive_add [symmetric]) (auto simp: bit_simps dest: bit_imp_le_length)
  moreover have "unat (push_bit 8 acc) = unat acc * 256"
    using assms by (simp only: unsigned_push_bit_eq) (simp add: push_bit_eq_mult take_bit_eq_mod)
  moreover have "unat (ucast b :: 'w word) = unat b"
  proof -
    have "(256::nat) \<le> 2 ^ LENGTH('w)"
      using power_increasing [of 8 "LENGTH('w)" "2::nat"] assms(1) by simp
    then show ?thesis
      using byte_lt [of b] by (simp add: unsigned_ucast_eq take_bit_eq_mod)
  qed
  moreover have "unat acc * 256 + unat b < 2 ^ LENGTH('w)"
  proof -
    obtain k where k: "LENGTH('w) = 8 + k"
      using assms(1) le_Suc_ex by blast
    with assms(2) byte_lt [of b] have "unat acc < 2 ^ k"
      by (simp add: power_add)
    then have "Suc (unat acc) * 256 \<le> 2 ^ k * 256"
      by (simp del: mult_Suc)
    with byte_lt [of b] k show ?thesis
      by (simp add: power_add)
  qed
  ultimately show ?thesis
    by (simp add: unat_word_ariths)
qed

lemma foldl_be_bound:
  fixes bs :: bytes
  shows "foldl (\<lambda>acc b. acc * 256 + unat b) n bs < (n + 1) * 256 ^ length bs"
proof (induction bs arbitrary: n)
  case Nil
  then show ?case by simp
next
  case (Cons b bs)
  have "foldl (\<lambda>acc b. acc * 256 + unat b) (n * 256 + unat b) bs
      < (n * 256 + unat b + 1) * 256 ^ length bs"
    by (rule Cons.IH)
  also have "\<dots> \<le> ((n + 1) * 256) * 256 ^ length bs"
    using byte_lt [of b] by (intro mult_right_mono) auto
  finally show ?case
    by (simp add: algebra_simps)
qed

lemma be_nat_bound: "be_nat bs < 256 ^ length bs"
  using foldl_be_bound [of 0 bs] by (simp add: be_nat_def)

lemma unat_foldl_be:
  fixes acc :: "'w::len word" and bs :: bytes
  assumes "(unat acc + 1) * 256 ^ length bs \<le> 2 ^ LENGTH('w)" and "8 \<le> LENGTH('w)"
  shows "unat (foldl (\<lambda>acc b. push_bit 8 acc OR ucast b) acc bs)
       = foldl (\<lambda>acc b. acc * 256 + unat b) (unat acc) bs"
  using assms
proof (induction bs arbitrary: acc)
  case Nil
  then show ?case by simp
next
  case (Cons b bs)
  have p: "1 \<le> (256::nat) ^ length bs" by simp
  have "unat acc * 256 < (unat acc + 1) * 256" by simp
  also have "\<dots> \<le> (unat acc + 1) * 256 ^ length (b # bs)"
    using mult_le_mono2 [OF p, of "(unat acc + 1) * 256"] by (simp add: algebra_simps)
  also have "\<dots> \<le> 2 ^ LENGTH('w)" by (rule Cons.prems(1))
  finally have s: "unat (push_bit 8 acc OR ucast b) = unat acc * 256 + unat b"
    using Cons.prems(2) by (intro push8_or_ucast)
  have "(unat acc * 256 + unat b + 1) * 256 ^ length bs \<le> ((unat acc + 1) * 256) * 256 ^ length bs"
    using byte_lt [of b] by (intro mult_right_mono) auto
  also have "\<dots> \<le> 2 ^ LENGTH('w)"
    using Cons.prems(1) by (simp add: algebra_simps)
  finally show ?case
    using Cons.IH [of "push_bit 8 acc OR ucast b"] Cons.prems(2) by (simp add: s)
qed

lemma unat_be_word:
  assumes "8 * length bs \<le> LENGTH('w)" and "8 \<le> LENGTH('w::len)"
  shows "unat (be_word bs :: 'w word) = be_nat bs"
proof -
  have "256 ^ length bs = (2::nat) ^ (8 * length bs)"
    by (simp add: power_mult)
  also have "\<dots> \<le> 2 ^ LENGTH('w)"
    using assms(1) by (simp add: power_increasing)
  finally show ?thesis
    using unat_foldl_be [of "0 :: 'w word" bs] assms by (simp add: be_word_def be_nat_def)
qed

lemma be32_be_word: "be32 a b c d = be_word [a, b, c, d]"
  by (simp add: be32_def be_word_def push_bit_or ac_simps)

lemma be16_be_word: "be16 a b = be_word [a, b]"
  by (simp add: be16_def be_word_def)

lemma unat_be32 [beS]:
  "unat (be32 a b c d) = unat a * 2 ^ 24 + unat b * 2 ^ 16 + unat c * 2 ^ 8 + unat d"
  by (simp add: be32_be_word unat_be_word be_nat_def)

lemma unat_be16 [beS]: "unat (be16 a b) = unat a * 256 + unat b"
  by (simp add: be16_be_word unat_be_word be_nat_def)

text \<open>The bytes a value is written as: what the reads above invert.\<close>

definition byte_at :: "nat \<Rightarrow> 'w::len word \<Rightarrow> byte" where
  "byte_at k w = ucast (drop_bit (8 * k) w)"

definition enc16 :: "u16 \<Rightarrow> bytes" where
  "enc16 w = [byte_at 1 w, byte_at 0 w]"

definition enc32 :: "u32 \<Rightarrow> bytes" where
  "enc32 w = [byte_at 3 w, byte_at 2 w, byte_at 1 w, byte_at 0 w]"

lemma be16_enc: "be16 (byte_at 1 w) (byte_at 0 w) = w"
  by (rule bit_word_eqI) (auto simp: be16_def byte_at_def bit_simps)

lemma be32_enc: "be32 (byte_at 3 w) (byte_at 2 w) (byte_at 1 w) (byte_at 0 w) = w"
proof (rule bit_word_eqI)
  fix n
  assume "n < LENGTH(32)"
  then show "bit (be32 (byte_at 3 w) (byte_at 2 w) (byte_at 1 w) (byte_at 0 w)) n = bit w n"
    by (cases "n < 8"; cases "n < 16"; cases "n < 24") (auto simp: be32_def byte_at_def bit_simps)
qed

lemmas be_enc [beS] = be16_enc [simplified] be32_enc [simplified]

section \<open>Bytes and strings\<close>

text \<open>
  A Rust \<open>String\<close> is its UTF-8 bytes, a \<open>string\<close> here. A byte slice becomes a string
  when it is well-formed UTF-8 (\<open>str::from_utf8\<close>), and the other direction is
  \<open>as_bytes\<close>. The byte literals \<open>b"..."\<close> of the code are \<open>as_bytes ''...''\<close>.
\<close>

definition byte_of_char :: "char \<Rightarrow> byte" where
  "byte_of_char c = of_nat (of_char c)"

definition as_bytes :: "string \<Rightarrow> bytes" where
  "as_bytes s = map byte_of_char s"

definition char_of_byte :: "byte \<Rightarrow> char" where
  "char_of_byte b = char_of (unat b)"

definition utf8_cont :: "byte \<Rightarrow> bool" where
  "utf8_cont b \<longleftrightarrow> 0x80 \<le> b \<and> b \<le> 0xBF"

definition utf8_second3 :: "byte \<Rightarrow> byte \<Rightarrow> bool" where
  "utf8_second3 b0 b1 \<longleftrightarrow>
     (if b0 = 0xE0 then 0xA0 \<le> b1 \<and> b1 \<le> 0xBF
      else if b0 = 0xED then 0x80 \<le> b1 \<and> b1 \<le> 0x9F
      else utf8_cont b1)"

definition utf8_second4 :: "byte \<Rightarrow> byte \<Rightarrow> bool" where
  "utf8_second4 b0 b1 \<longleftrightarrow>
     (if b0 = 0xF0 then 0x90 \<le> b1 \<and> b1 \<le> 0xBF
      else if b0 = 0xF4 then 0x80 \<le> b1 \<and> b1 \<le> 0x8F
      else utf8_cont b1)"

fun utf8_valid :: "bytes \<Rightarrow> bool" where
  "utf8_valid [] = True"
| "utf8_valid (b0 # bs) =
     (if b0 < 0x80 then utf8_valid bs
      else if 0xC2 \<le> b0 \<and> b0 \<le> 0xDF then
        (case bs of b1 # r \<Rightarrow> utf8_cont b1 \<and> utf8_valid r | _ \<Rightarrow> False)
      else if 0xE0 \<le> b0 \<and> b0 \<le> 0xEF then
        (case bs of b1 # b2 # r \<Rightarrow> utf8_second3 b0 b1 \<and> utf8_cont b2 \<and> utf8_valid r | _ \<Rightarrow> False)
      else if 0xF0 \<le> b0 \<and> b0 \<le> 0xF4 then
        (case bs of b1 # b2 # b3 # r \<Rightarrow>
           utf8_second4 b0 b1 \<and> utf8_cont b2 \<and> utf8_cont b3 \<and> utf8_valid r | _ \<Rightarrow> False)
      else False)"

declare utf8_valid.simps(2) [simp del]

definition from_utf8 :: "bytes \<Rightarrow> string option" where
  "from_utf8 bs = (if utf8_valid bs then Some (map char_of_byte bs) else None)"

lemma char_byte_inverse [simp]:
  "char_of_byte (byte_of_char c) = c" "byte_of_char (char_of_byte b) = b"
  using byte_lt [of b] nat_of_char_less_256 [of c]
  by (simp_all add: char_of_byte_def byte_of_char_def unsigned_of_nat take_bit_eq_mod of_char_of)

lemma utf8_valid_ascii: "\<forall>b \<in> set bs. b < 0x80 \<Longrightarrow> utf8_valid bs"
  by (induction bs) (auto simp: utf8_valid.simps(2))

lemma from_utf8_inverse: "from_utf8 bs = Some s \<Longrightarrow> as_bytes s = bs"
  by (auto simp: from_utf8_def as_bytes_def o_def split: if_splits)

lemma from_utf8_as_bytes: "utf8_valid (as_bytes s) \<Longrightarrow> from_utf8 (as_bytes s) = Some s"
  by (auto simp: from_utf8_def as_bytes_def o_def)

text \<open>\<open>u8::is_ascii_whitespace\<close> and the ASCII case folding of \<open>eq_ignore_ascii_case\<close>.\<close>

definition is_ascii_whitespace :: "byte \<Rightarrow> bool" where
  "is_ascii_whitespace b \<longleftrightarrow> b = 0x20 \<or> b = 0x09 \<or> b = 0x0A \<or> b = 0x0C \<or> b = 0x0D"

definition ascii_lower :: "byte \<Rightarrow> byte" where
  "ascii_lower b = (if 65 \<le> b \<and> b \<le> 90 then b + 32 else b)"

definition str_eq_ignore_case :: "string \<Rightarrow> string \<Rightarrow> bool" where
  "str_eq_ignore_case s t \<longleftrightarrow> map ascii_lower (as_bytes s) = map ascii_lower (as_bytes t)"

lemma str_eq_ignore_case_refl [simp]: "str_eq_ignore_case s s"
  by (simp add: str_eq_ignore_case_def)

lemma str_eq_ignore_case_sym: "str_eq_ignore_case s t \<longleftrightarrow> str_eq_ignore_case t s"
  by (auto simp: str_eq_ignore_case_def)

lemma str_eq_ignore_case_length: "str_eq_ignore_case s t \<Longrightarrow> length s = length t"
  unfolding str_eq_ignore_case_def as_bytes_def by (metis length_map)

text \<open>
  \<open>slice::starts_with\<close>, \<open>slice::ends_with\<close>, and the position of the first occurrence of a
  needle (\<open>memchr::memmem::find\<close>).
\<close>

fun starts_with :: "'a list \<Rightarrow> 'a list \<Rightarrow> bool" where
  "starts_with xs [] = True"
| "starts_with [] (p # ps) = False"
| "starts_with (x # xs) (p # ps) = (x = p \<and> starts_with xs ps)"

definition ends_with :: "'a list \<Rightarrow> 'a list \<Rightarrow> bool" where
  "ends_with xs suf = starts_with (rev xs) (rev suf)"

fun find_sub :: "'a list \<Rightarrow> 'a list \<Rightarrow> nat option" where
  "find_sub [] needle = (if needle = [] then Some 0 else None)"
| "find_sub (x # xs) needle =
     (if starts_with (x # xs) needle then Some 0 else map_option Suc (find_sub xs needle))"

definition contains_sub :: "'a list \<Rightarrow> 'a list \<Rightarrow> bool" where
  "contains_sub xs needle = (find_sub xs needle \<noteq> None)"

lemma starts_with_iff: "starts_with xs ps \<longleftrightarrow> (\<exists>r. xs = ps @ r)"
  by (induction xs ps rule: starts_with.induct) auto

lemma starts_with_take: "starts_with xs ps \<longleftrightarrow> take (length ps) xs = ps"
  by (induction xs ps rule: starts_with.induct) auto

lemma starts_with_append: "starts_with xs ps \<Longrightarrow> starts_with (xs @ ys) ps"
  by (auto simp: starts_with_iff)

lemma ends_with_iff: "ends_with xs suf \<longleftrightarrow> (\<exists>r. xs = r @ suf)"
  unfolding ends_with_def starts_with_iff
  by (metis rev_append rev_rev_ident)

lemma find_sub_Some: "find_sub xs p = Some n \<Longrightarrow> \<exists>a b. xs = a @ p @ b \<and> length a = n"
proof (induction xs arbitrary: n)
  case Nil
  then show ?case by (simp split: if_splits)
next
  case (Cons x xs)
  show ?case
  proof (cases "starts_with (x # xs) p")
    case True
    with Cons.prems show ?thesis by (auto simp: starts_with_iff intro: exI [of _ "[]"])
  next
    case False
    with Cons.prems obtain m where "find_sub xs p = Some m" and "n = Suc m" by auto
    with Cons.IH [of m] obtain a b where "xs = a @ p @ b" "length a = m" by auto
    then show ?thesis using \<open>n = Suc m\<close> by (intro exI [of _ "x # a"] exI [of _ b]) simp
  qed
qed

lemma find_sub_exists: "find_sub (a @ p @ b) p \<noteq> None"
proof (induction a)
  case Nil
  have "starts_with (p @ b) p" by (auto simp: starts_with_iff)
  then show ?case by (cases "p @ b") auto
next
  case (Cons x a)
  then show ?case by simp
qed

lemma contains_sub_iff: "contains_sub xs p \<longleftrightarrow> (\<exists>a b. xs = a @ p @ b)"
  unfolding contains_sub_def using find_sub_Some find_sub_exists by fastforce

lemma contains_sub_append: "contains_sub xs p \<Longrightarrow> contains_sub (xs @ ys) p"
  unfolding contains_sub_iff by (metis append.assoc)

text \<open>\<open>Option<bool>::unwrap_or_default\<close> and \<open>Option::unwrap_or\<close>.\<close>

definition unwrap_or :: "'a option \<Rightarrow> 'a \<Rightarrow> 'a" where
  "unwrap_or x d = (case x of Some v \<Rightarrow> v | None \<Rightarrow> d)"

abbreviation is_set :: "bool option \<Rightarrow> bool" where
  "is_set x \<equiv> unwrap_or x False"

lemma unwrap_or_simps [simp]: "unwrap_or (Some v) d = v" "unwrap_or None d = d"
  by (simp_all add: unwrap_or_def)

lemma is_set_iff: "is_set x \<longleftrightarrow> x = Some True"
  by (cases x) simp_all

section \<open>Numbers in text\<close>

text \<open>
  \<open>str::parse\<close> of a \<open>w\<close>-bit unsigned integer: an optional plus sign, then at least one digit and
  nothing else, the value below \<open>2 ^ w\<close>.
\<close>

definition is_digit :: "char \<Rightarrow> bool" where
  "is_digit c \<longleftrightarrow> 48 \<le> (of_char c :: nat) \<and> (of_char c :: nat) \<le> 57"

definition parse_uint :: "nat \<Rightarrow> string \<Rightarrow> nat option" where
  "parse_uint w s =
     (let ds = (case s of c # r \<Rightarrow> if c = CHR ''+'' then r else s | [] \<Rightarrow> []) in
      if ds = [] \<or> \<not> list_all is_digit ds then None
      else
        (let n = foldl (\<lambda>acc c. acc * 10 + (of_char c - 48)) 0 ds in
         if n < 2 ^ w then Some n else None))"

section \<open>Chains of checked steps\<close>

lemma those_map_Some: "(\<And>x. x \<in> set xs \<Longrightarrow> f x = Some (g x)) \<Longrightarrow> those (map f xs) = Some (map g xs)"
  by (induction xs) auto

lemma bind_total: "x \<noteq> None \<Longrightarrow> (\<And>v. x = Some v \<Longrightarrow> f v \<noteq> None) \<Longrightarrow> x \<bind> f \<noteq> None"
  by (cases x) auto

lemma if_total: "(c \<Longrightarrow> a \<noteq> None) \<Longrightarrow> (\<not> c \<Longrightarrow> b \<noteq> None) \<Longrightarrow> (if c then a else b) \<noteq> None"
  by simp

section \<open>Formatting\<close>

text \<open>\<open>{}\<close> of an unsigned integer and \<open>{:02X}\<close> of a byte.\<close>

definition digit_char :: "nat \<Rightarrow> char" where
  "digit_char d = ''0123456789ABCDEF'' ! d"

fun dec :: "nat \<Rightarrow> string" where
  "dec n = (if n < 10 then [digit_char n] else dec (n div 10) @ [digit_char (n mod 10)])"

declare dec.simps [simp del]

definition hex_byte :: "byte \<Rightarrow> string" where
  "hex_byte b = [digit_char (unat b div 16), digit_char (unat b mod 16)]"

end
