(* ===== verification/Incremental.thy ===== *)
theory Incremental
  imports Prelude
begin

text \<open>
  The interface between a byte buffer and the parsers that take one item at a time from its
  front (HTTP/2 frames, WebSocket frames, HTTP/1 messages): every one of them answers "not yet"
  or returns an item and the number of bytes it consumed. The traffic observers call such a
  parser in a loop (\<open>loop { match parse(buf) { Ok => .. pop consumed .., Err => break } }\<close>).
  What they rely on is that the answer does not depend on how the bytes arrived in chunks.
\<close>

text \<open>
  The loop. \<open>h\<close> is its body: it uses the item and updates the loop's own state. \<open>None\<close>: the
  parser panicked, or the loop never ends (a parser that consumes nothing).
\<close>

partial_function (option) drain_with ::
  "('b list \<Rightarrow> ('e + 'f \<times> nat) run) \<Rightarrow> ('f \<Rightarrow> 's \<Rightarrow> 's) \<Rightarrow> 'b list \<Rightarrow> 's \<Rightarrow> ('s \<times> 'b list) option"
  where
  "drain_with p h buf s =
     (case p buf of
        None \<Rightarrow> None
      | Some (Inl _) \<Rightarrow> Some (s, buf)
      | Some (Inr (f, n)) \<Rightarrow> drain_with p h (drop n buf) (h f s))"

lemma drain_with_stop: "p buf = Some (Inl e) \<Longrightarrow> drain_with p h buf s = Some (s, buf)"
  by (subst drain_with.simps) simp

lemma drain_with_step:
  "p buf = Some (Inr (f, n)) \<Longrightarrow> drain_with p h buf s = drain_with p h (drop n buf) (h f s)"
  by (subst drain_with.simps) simp

text \<open>Induction over a loop that ended: the shape every invariant of such a loop is proved by.\<close>

lemma drain_with_induct [consumes 1, case_names stop step]:
  assumes "drain_with p h buf s = Some r"
    and "\<And>buf s e. p buf = Some (Inl e) \<Longrightarrow> P buf s (s, buf)"
    and "\<And>buf s f n r. p buf = Some (Inr (f, n)) \<Longrightarrow> drain_with p h (drop n buf) (h f s) = Some r \<Longrightarrow>
           P (drop n buf) (h f s) r \<Longrightarrow> P buf s r"
  shows "P buf s r"
proof -
  have "p = p \<longrightarrow> h = h \<longrightarrow> drain_with p h buf s = Some r \<and> P buf s r"
  proof (rule drain_with.raw_induct [where P = "\<lambda>p' h' buf s r. p' = p \<longrightarrow> h' = h \<longrightarrow>
      drain_with p h buf s = Some r \<and> P buf s r", OF _ assms(1)], intro impI)
    fix d p' h' buf s r
    assume IH: "\<And>p' h' buf s r. d p' h' buf s = Some r \<Longrightarrow> p' = p \<longrightarrow> h' = h \<longrightarrow>
        drain_with p h buf s = Some r \<and> P buf s r"
      and eq: "(case p' buf of None \<Rightarrow> None | Some (Inl _) \<Rightarrow> Some (s, buf)
        | Some (Inr (f, n)) \<Rightarrow> d p' h' (drop n buf) (h' f s)) = Some r"
      and pp: "p' = p" and hh: "h' = h"
    show "drain_with p h buf s = Some r \<and> P buf s r"
    proof (cases "p buf")
      case None
      with eq pp show ?thesis by simp
    next
      case (Some x)
      show ?thesis
      proof (cases x)
        case (Inl e)
        with eq pp Some have "r = (s, buf)" by simp
        with Inl Some show ?thesis by (simp add: drain_with_stop assms(2))
      next
        case (Inr fn)
        obtain f n where fn: "fn = (f, n)" by (cases fn)
        with eq pp hh Some Inr have "d p h (drop n buf) (h f s) = Some r" by simp
        from IH [OF this] have "drain_with p h (drop n buf) (h f s) = Some r"
          and "P (drop n buf) (h f s) r" by simp_all
        with Some Inr fn show ?thesis by (simp add: drain_with_step assms(3))
      qed
    qed
  qed
  then show ?thesis by simp
qed

section \<open>The contract of an incremental parser\<close>

locale incremental_parser =
  fixes parse :: "'b list \<Rightarrow> ('e + 'f \<times> nat) run"
  assumes consumed_le: "parse buf = Some (Inr (f, n)) \<Longrightarrow> n \<le> length buf"
    and more_input: "parse buf = Some (Inr (f, n)) \<Longrightarrow> parse (buf @ more) = Some (Inr (f, n))"
begin

text \<open>
  Chunk independence: what arrives later continues the loop exactly where it would have
  continued had all the bytes been there from the start.
\<close>

lemma drain_append:
  assumes "drain_with parse h buf s = Some (s', rest)"
  shows "drain_with parse h (buf @ more) s = drain_with parse h (rest @ more) s'"
proof -
  have "\<And>r. drain_with parse h buf s = Some r \<Longrightarrow>
      drain_with parse h (buf @ more) s = drain_with parse h (snd r @ more) (fst r)"
  proof -
    fix r
    assume "drain_with parse h buf s = Some r"
    then show "drain_with parse h (buf @ more) s = drain_with parse h (snd r @ more) (fst r)"
    proof (induction rule: drain_with_induct)
      case (stop buf s e)
      then show ?case by simp
    next
      case (step buf s f n r)
      then show ?case
        using consumed_le [OF step.hyps(1)]
        by (simp add: drain_with_step [where p = parse, OF more_input [OF step.hyps(1)]])
    qed
  qed
  from this [OF assms] show ?thesis by simp
qed

lemma drain_leftover:
  assumes "drain_with parse h buf s = Some (s', rest)"
  shows "\<exists>k \<le> length buf. rest = drop k buf"
proof -
  have "\<And>r. drain_with parse h buf s = Some r \<Longrightarrow> \<exists>k \<le> length buf. snd r = drop k buf"
  proof -
    fix r
    assume "drain_with parse h buf s = Some r"
    then show "\<exists>k \<le> length buf. snd r = drop k buf"
    proof (induction rule: drain_with_induct)
      case (stop buf s e)
      show ?case by (intro exI [of _ 0]) simp
    next
      case (step buf s f n r)
      then obtain k where k: "k \<le> length (drop n buf)" "snd r = drop k (drop n buf)" by blast
      with consumed_le [OF step.hyps(1)] show ?case by (intro exI [of _ "k + n"]) auto
    qed
  qed
  from this [OF assms] show ?thesis by simp
qed

end

text \<open>
  A parser that never panics and consumes at least one byte per item: the loop ends on every
  buffer.
\<close>

locale total_parser = incremental_parser parse
  for parse :: "'b list \<Rightarrow> ('e + 'f \<times> nat) run" +
  assumes no_panic: "parse buf \<noteq> None"
    and consumed_pos: "parse buf = Some (Inr (f, n)) \<Longrightarrow> 0 < n"
begin

lemma drain_total: "\<exists>r. drain_with parse h buf s = Some r"
proof (induction buf arbitrary: s rule: length_induct)
  case (1 buf)
  show ?case
  proof (cases "parse buf")
    case None
    then show ?thesis using no_panic by simp
  next
    case (Some x)
    show ?thesis
    proof (cases x)
      case (Inl e)
      with Some show ?thesis by (auto simp: drain_with_stop)
    next
      case (Inr fn)
      obtain f n where fn: "fn = (f, n)" by (cases fn)
      with Some Inr have p: "parse buf = Some (Inr (f, n))" by simp
      from consumed_pos [OF p] consumed_le [OF p] have "length (drop n buf) < length buf" by simp
      with 1 have "\<exists>r. drain_with parse h (drop n buf) (h f s) = Some r" by blast
      with p show ?thesis by (simp add: drain_with_step)
    qed
  qed
qed

end

end
