(* ===== verification/H2_Parser.thy ===== *)
theory H2_Parser
  imports Incremental
begin

text \<open>
  The HTTP/2 traffic observer, \<open>src/tcp_proxy/h2_parser.rs\<close>: the per-direction buffers and
  the connection preface, the frame reader, the per-stream state, one handler per frame type,
  and the polling that turns buffered bytes into events. The HPACK decoder is a third-party
  crate: it is the argument \<open>hpack\<close>, a function of the decoder's state and a header block that
  returns the decoded list (\<open>None\<close> for a decoding error) and the decoder's next state. Wakers
  and log output are not modelled.
\<close>

section \<open>Data\<close>

datatype H2FrameDirection = Incoming | Outgoing

type_synonym header_map = "string \<rightharpoonup> string"

record PartialHeadersState =
  ph_stream_id :: u32
  ph_flags :: byte
  ph_header_block :: bytes
  ph_initial_parsed :: bool

record HttpRequest =
  rq_stream_id :: u32
  rq_method :: string
  rq_path :: string
  rq_headers :: header_map
  rq_body :: bytes

record H2Response =
  rp_stream_id :: u32
  rp_status :: string
  rp_headers :: header_map
  rp_body :: bytes

datatype SettingIdentifier =
    HeaderTableSize | EnablePush | MaxConcurrentStreams | InitialWindowSize
  | MaxFrameSize | MaxHeaderListSize | EnableConnectProtocol | UnknownSetting u16

record DecodedSettings =
  set_identifier :: SettingIdentifier
  set_value :: u32

definition from_u16 :: "u16 \<Rightarrow> SettingIdentifier" where
  "from_u16 i =
     (if i = 0x1 then HeaderTableSize
      else if i = 0x2 then EnablePush
      else if i = 0x3 then MaxConcurrentStreams
      else if i = 0x4 then InitialWindowSize
      else if i = 0x5 then MaxFrameSize
      else if i = 0x6 then MaxHeaderListSize
      else if i = 0x8 then EnableConnectProtocol
      else UnknownSetting i)"

datatype H2Frame =
    FData u32 byte bytes
  | FHeaders u32 byte bytes
  | FPriority u32 bool u32 byte
  | FRstStream u32 u32
  | FSettings byte "(u16 \<times> u32) list"
  | FPushPromise u32 u32 bytes
  | FPing byte bytes
  | FGoaway u32 u32 bytes
  | FWindowUpdate u32 u32
  | FContinuation u32 byte bytes
  | FUnknown byte u32 byte bytes

datatype H2Event =
    IncomingRequest HttpRequest
  | OutgoingRequest HttpRequest
  | OutgoingResponse H2Response
  | PartialOutgoingResponse H2Response
  | OutgoingHeaders u32 header_map
  | IncomingHeaders u32 header_map
  | Data u32 bytes H2FrameDirection bool
  | Priority u32 bool u32 byte
  | GoAway u32 u32 bytes
  | WindowUpdate H2FrameDirection u32 u32
  | Settings H2FrameDirection byte "DecodedSettings list"
  | Ping H2FrameDirection byte bytes
  | PushPromise u32 u32 bytes
  | Unknown H2Frame

definition stream_id :: "H2Event \<Rightarrow> u32 option" where
  "stream_id ev =
     (case ev of
        IncomingRequest r \<Rightarrow> Some (rq_stream_id r)
      | OutgoingRequest r \<Rightarrow> Some (rq_stream_id r)
      | OutgoingResponse r \<Rightarrow> Some (rp_stream_id r)
      | PartialOutgoingResponse r \<Rightarrow> Some (rp_stream_id r)
      | OutgoingHeaders s _ \<Rightarrow> Some s
      | IncomingHeaders s _ \<Rightarrow> Some s
      | Data s _ _ _ \<Rightarrow> Some s
      | Priority s _ _ _ \<Rightarrow> Some s
      | GoAway _ _ _ \<Rightarrow> None
      | WindowUpdate _ s _ \<Rightarrow> Some s
      | Settings _ _ _ \<Rightarrow> None
      | Ping _ _ _ \<Rightarrow> None
      | PushPromise s _ _ \<Rightarrow> Some s
      | Unknown _ \<Rightarrow> None)"

section \<open>Streams\<close>

record StreamState =
  st_headers :: "header_map option"
  st_header_blocks :: bytes
  st_body :: bytes
  st_is_continuous :: bool
  st_incoming_data :: bytes
  st_outgoing_data :: bytes
  stream_window_size :: u32

definition StreamState_new :: StreamState where
  "StreamState_new =
     \<lparr> st_headers = None, st_header_blocks = [], st_body = [], st_is_continuous = False,
       st_incoming_data = [], st_outgoing_data = [], stream_window_size = 65535 \<rparr>"

definition to_request :: "StreamState \<Rightarrow> u32 \<Rightarrow> HttpRequest" where
  "to_request st sid =
     (let hdrs = unwrap_or (st_headers st) Map.empty in
      \<lparr> rq_stream_id = sid,
        rq_method = unwrap_or (hdrs '':method'') ''GET'',
        rq_path = unwrap_or (hdrs '':path'') ''/'',
        rq_headers = hdrs,
        rq_body = st_body st \<rparr>)"

definition to_response :: "StreamState \<Rightarrow> u32 \<Rightarrow> H2Response" where
  "to_response st sid =
     (let hdrs = unwrap_or (st_headers st) Map.empty in
      \<lparr> rp_stream_id = sid,
        rp_status = unwrap_or (hdrs '':status'') ''200'',
        rp_headers = hdrs,
        rp_body = st_body st \<rparr>)"

definition is_continuous_stream :: "header_map \<Rightarrow> bool" where
  "is_continuous_stream hm =
     (case hm '':method'' of
        Some m \<Rightarrow> m \<notin> set [''GET'', ''POST'', ''PUT'', ''DELETE'', ''PATCH'', ''HEAD'', ''OPTIONS'']
      | None \<Rightarrow> True)"

definition vec_to_string :: "bytes \<Rightarrow> string" where
  "vec_to_string bs = unwrap_or (from_utf8 bs) ''failed to convert to string..''"

definition headers_of_list :: "(bytes \<times> bytes) list \<Rightarrow> header_map" where
  "headers_of_list l = map_of (rev (map (\<lambda>(k, v). (vec_to_string k, vec_to_string v)) l))"

section \<open>Buffers\<close>

record H2Buffer =
  hb_buffer :: bytes
  hb_needs_preface :: bool
  hb_preface_consumed :: bool

definition H2Buffer_new :: "bool \<Rightarrow> H2Buffer" where
  "H2Buffer_new needs = \<lparr> hb_buffer = [], hb_needs_preface = needs, hb_preface_consumed = False \<rparr>"

definition PREFACE :: bytes where
  "PREFACE = as_bytes ''PRI * HTTP/2.0'' @ [13, 10, 13, 10] @ as_bytes ''SM'' @ [13, 10, 13, 10]"

definition consume_preface :: "H2Buffer \<Rightarrow> H2Buffer" where
  "consume_preface b =
     (if length (hb_buffer b) < length PREFACE then b
      else if take (length PREFACE) (hb_buffer b) = PREFACE then
        b\<lparr> hb_buffer := drop (length PREFACE) (hb_buffer b), hb_preface_consumed := True \<rparr>
      else b\<lparr> hb_buffer := [] \<rparr>)"

definition buffer_write :: "H2Buffer \<Rightarrow> bytes \<Rightarrow> H2Buffer" where
  "buffer_write b data =
     (let b = b\<lparr> hb_buffer := hb_buffer b @ data \<rparr> in
      if \<not> hb_preface_consumed b \<and> hb_needs_preface b then consume_preface b else b)"

section \<open>Frames\<close>

record FrameHeader =
  frame_type :: byte
  fh_flags :: byte
  fh_stream_id :: u32
  fh_payload :: bytes

definition parse_next_frame :: "bytes \<Rightarrow> (unit + FrameHeader \<times> nat) run" where
  "parse_next_frame buf =
     (if length buf < 9 then Some (Inl ())
      else do {
        b0 \<leftarrow> idx buf 0; b1 \<leftarrow> idx buf 1; b2 \<leftarrow> idx buf 2;
        let length' = push_bit 16 (ucast b0) OR push_bit 8 (ucast b1) OR (ucast b2 :: u32);
        ftype \<leftarrow> idx buf 3;
        flags \<leftarrow> idx buf 4;
        b5 \<leftarrow> idx buf 5; b6 \<leftarrow> idx buf 6; b7 \<leftarrow> idx buf 7; b8 \<leftarrow> idx buf 8;
        let sid_raw = push_bit 24 (ucast b5) OR push_bit 16 (ucast b6) OR push_bit 8 (ucast b7)
                      OR (ucast b8 :: u32);
        let sid = sid_raw AND 0x7FFFFFFF;
        let total_len = 9 + unat length';
        if length buf < total_len then Some (Inl ())
        else do {
          payload \<leftarrow> slice buf 9 total_len;
          Some (Inr (\<lparr> frame_type = ftype, fh_flags = flags, fh_stream_id = sid,
                       fh_payload = payload \<rparr>, total_len)) } })"

definition parse_headers_payload :: "byte \<Rightarrow> bytes \<Rightarrow> (bytes \<times> bool) option" where
  "parse_headers_payload flags payload =
     do {
       (cursor, pad_len) \<leftarrow>
         (if flags AND 0x8 \<noteq> 0 then
            (case payload of
               [] \<Rightarrow> None
             | p # c \<Rightarrow> if length c < unat p then None else Some (c, unat p))
          else Some (payload, 0));
       cursor \<leftarrow>
         (if flags AND 0x20 \<noteq> 0 then
            if length cursor < 5 then None else Some (drop 5 cursor)
          else Some cursor);
       if length cursor < pad_len then None
       else Some (take (length cursor - pad_len) cursor, flags AND 0x4 \<noteq> 0) }"

definition parse_data_payload :: "byte \<Rightarrow> bytes \<Rightarrow> (bytes \<times> bool) option" where
  "parse_data_payload flags payload =
     do {
       (cursor, pad_len) \<leftarrow>
         (if flags AND 0x8 \<noteq> 0 then
            (case payload of
               [] \<Rightarrow> None
             | p # c \<Rightarrow> if length c < unat p then None else Some (c, unat p))
          else Some (payload, 0));
       Some (take (length cursor - pad_len) cursor, flags AND 0x1 \<noteq> 0) }"

section \<open>The observer\<close>

record 'd H2Observer =
  connection_window_size :: u32
  incoming :: H2Buffer
  outgoing :: H2Buffer
  hpack_decoder_incoming :: 'd
  hpack_decoder_outgoing :: 'd
  streams :: "u32 \<rightharpoonup> StreamState"
  partial_headers :: "PartialHeadersState option"
  partial_headers_direction :: "H2FrameDirection option"

type_synonym 'd hpack = "'d \<Rightarrow> bytes \<Rightarrow> (bytes \<times> bytes) list option \<times> 'd"

definition H2Observer_new :: "'d \<Rightarrow> 'd H2Observer" where
  "H2Observer_new d =
     \<lparr> connection_window_size = 65535,
       incoming = H2Buffer_new True,
       outgoing = H2Buffer_new False,
       hpack_decoder_incoming = d,
       hpack_decoder_outgoing = d,
       streams = Map.empty,
       partial_headers = None,
       partial_headers_direction = None \<rparr>"

definition write_incoming :: "'d H2Observer \<Rightarrow> bytes \<Rightarrow> 'd H2Observer" where
  "write_incoming ob data = ob\<lparr> incoming := buffer_write (incoming ob) data \<rparr>"

definition write_outgoing :: "'d H2Observer \<Rightarrow> bytes \<Rightarrow> 'd H2Observer" where
  "write_outgoing ob data = ob\<lparr> outgoing := buffer_write (outgoing ob) data \<rparr>"

text \<open>\<open>streams.entry(id).or_insert_with(StreamState::new)\<close>.\<close>

definition stream_entry :: "'d H2Observer \<Rightarrow> u32 \<Rightarrow> StreamState" where
  "stream_entry ob sid = unwrap_or (streams ob sid) StreamState_new"

definition put_stream :: "u32 \<Rightarrow> StreamState \<Rightarrow> 'd H2Observer \<Rightarrow> 'd H2Observer" where
  "put_stream sid st ob = ob\<lparr> streams := (streams ob)(sid \<mapsto> st) \<rparr>"

definition remove_stream :: "u32 \<Rightarrow> 'd H2Observer \<Rightarrow> 'd H2Observer" where
  "remove_stream sid ob = ob\<lparr> streams := (streams ob)(sid := None) \<rparr>"

definition hpack_decode ::
  "'d hpack \<Rightarrow> H2FrameDirection \<Rightarrow> bytes \<Rightarrow> 'd H2Observer \<Rightarrow> (bytes \<times> bytes) list option \<times> 'd H2Observer"
  where
  "hpack_decode hpack dir block ob =
     (case dir of
        Incoming \<Rightarrow> (let (r, d) = hpack (hpack_decoder_incoming ob) block
                     in (r, ob\<lparr> hpack_decoder_incoming := d \<rparr>))
      | Outgoing \<Rightarrow> (let (r, d) = hpack (hpack_decoder_outgoing ob) block
                     in (r, ob\<lparr> hpack_decoder_outgoing := d \<rparr>)))"

definition handle_complete_headers ::
  "'d hpack \<Rightarrow> H2FrameDirection \<Rightarrow> u32 \<Rightarrow> byte \<Rightarrow> bytes \<Rightarrow> 'd H2Observer \<Rightarrow> H2Event option \<times> 'd H2Observer"
  where
  "handle_complete_headers hpack dir sid flags block ob =
     (let (res, ob) = hpack_decode hpack dir block ob in
      case res of
        None \<Rightarrow> (Some (Unknown (FRstStream sid 0x1)), ob)
      | Some l \<Rightarrow>
          (let headers_map = headers_of_list l;
               st = (stream_entry ob sid)\<lparr> st_headers := Some headers_map \<rparr>;
               ob = put_stream sid st ob;
               end_stream = (flags AND 0x1 \<noteq> 0) in
           case dir of
             Incoming \<Rightarrow>
               if end_stream \<and> \<not> is_continuous_stream headers_map then
                 (Some (IncomingRequest (to_request st sid)), remove_stream sid ob)
               else (Some (IncomingHeaders sid headers_map), ob)
           | Outgoing \<Rightarrow>
               if headers_map '':method'' \<noteq> None then
                 if end_stream \<and> \<not> is_continuous_stream headers_map then
                   (Some (OutgoingRequest (to_request st sid)), remove_stream sid ob)
                 else (Some (OutgoingRequest (to_request st sid)), ob)
               else if headers_map '':status'' \<noteq> None then
                 if end_stream then
                   (Some (OutgoingResponse (to_response st sid)), remove_stream sid ob)
                 else (Some (PartialOutgoingResponse (to_response st sid)), ob)
               else (Some (OutgoingHeaders sid headers_map), ob)))"

definition unknown_frame :: "FrameHeader \<Rightarrow> H2Event" where
  "unknown_frame fh =
     Unknown (FUnknown (frame_type fh) (fh_stream_id fh) (fh_flags fh) (fh_payload fh))"

text \<open>Four payload bytes as a 31-bit value: the reserved top bit is masked off.\<close>

definition be31 :: "byte \<Rightarrow> byte \<Rightarrow> byte \<Rightarrow> byte \<Rightarrow> u32" where
  "be31 a b c d =
     push_bit 24 (ucast a AND 0x7F) OR push_bit 16 (ucast b) OR push_bit 8 (ucast c) OR ucast d"

definition handle_priority_frame :: "FrameHeader \<Rightarrow> H2Event" where
  "handle_priority_frame frame =
     (case fh_payload frame of
        [a, b, c, d, weight] \<Rightarrow>
          Priority (fh_stream_id frame) (a AND 0x80 \<noteq> 0) (be31 a b c d) weight
      | _ \<Rightarrow> unknown_frame frame)"

definition handle_push_promise :: "FrameHeader \<Rightarrow> H2Event" where
  "handle_push_promise fh =
     (case fh_payload fh of
        a # b # c # d # fragment \<Rightarrow> PushPromise (fh_stream_id fh) (be31 a b c d) fragment
      | _ \<Rightarrow> unknown_frame fh)"

definition handle_goaway :: "FrameHeader \<Rightarrow> H2Event" where
  "handle_goaway fh =
     (case fh_payload fh of
        a # b # c # d # e # f # g # h # debug_data \<Rightarrow>
          GoAway (be31 a b c d) (be32 e f g h) debug_data
      | _ \<Rightarrow> unknown_frame fh)"

definition handle_ping :: "H2FrameDirection \<Rightarrow> FrameHeader \<Rightarrow> H2Event" where
  "handle_ping dir fh =
     (if length (fh_payload fh) = 8 then Ping dir (fh_flags fh) (fh_payload fh)
      else unknown_frame fh)"

text \<open>Six bytes per setting; leftover bytes are dropped (the code only logs them).\<close>

fun decode_settings :: "bytes \<Rightarrow> DecodedSettings list" where
  "decode_settings (a # b # c # d # e # f # rest) =
     \<lparr> set_identifier = from_u16 (push_bit 8 (ucast a) OR ucast b), set_value = be32 c d e f \<rparr>
       # decode_settings rest"
| "decode_settings _ = []"

definition handle_settings_frame :: "H2FrameDirection \<Rightarrow> FrameHeader \<Rightarrow> H2Event" where
  "handle_settings_frame dir fh = Settings dir (fh_flags fh) (decode_settings (fh_payload fh))"

text \<open>\<open>checked_add(..).unwrap_or(u32::MAX)\<close>.\<close>

definition saturating_add :: "u32 \<Rightarrow> u32 \<Rightarrow> u32" where
  "saturating_add a b = (if unat a + unat b < 2 ^ 32 then a + b else 0xFFFFFFFF)"

definition handle_window_update ::
  "H2FrameDirection \<Rightarrow> FrameHeader \<Rightarrow> 'd H2Observer \<Rightarrow> H2Event \<times> 'd H2Observer" where
  "handle_window_update dir fh ob =
     (case fh_payload fh of
        [a, b, c, d] \<Rightarrow>
          (let inc = be31 a b c d; sid = fh_stream_id fh;
               ob = (if sid = 0 then
                       ob\<lparr> connection_window_size := saturating_add (connection_window_size ob) inc \<rparr>
                     else
                       (let st = stream_entry ob sid in
                        put_stream sid
                          (st\<lparr> stream_window_size := saturating_add (stream_window_size st) inc \<rparr>) ob))
           in (WindowUpdate dir sid inc, ob))
      | _ \<Rightarrow> (unknown_frame fh, ob))"

definition handle_rst_stream :: "FrameHeader \<Rightarrow> H2Event" where
  "handle_rst_stream fh =
     (case fh_payload fh of
        [a, b, c, d] \<Rightarrow> Unknown (FRstStream (fh_stream_id fh) (be32 a b c d))
      | _ \<Rightarrow> unknown_frame fh)"

definition handle_data_frame ::
  "H2FrameDirection \<Rightarrow> FrameHeader \<Rightarrow> 'd H2Observer \<Rightarrow> H2Event option \<times> 'd H2Observer" where
  "handle_data_frame dir frame ob =
     (case parse_data_payload (fh_flags frame) (fh_payload frame) of
        None \<Rightarrow> (Some (unknown_frame frame), ob)
      | Some (data, end_stream) \<Rightarrow>
          (let sid = fh_stream_id frame;
               st0 = stream_entry ob sid;
               st = st0\<lparr> st_body := st_body st0 @ data \<rparr>;
               ob = put_stream sid st ob;
               plain = Data sid data dir end_stream in
           if end_stream \<and> st_headers st \<noteq> None then
             (let hm = unwrap_or (st_headers st) Map.empty in
              case dir of
                Incoming \<Rightarrow>
                  if \<not> is_continuous_stream hm then (Some plain, remove_stream sid ob)
                  else (Some plain, ob)
              | Outgoing \<Rightarrow>
                  if hm '':method'' \<noteq> None then
                    (Some (OutgoingRequest (to_request st sid)), remove_stream sid ob)
                  else if hm '':status'' \<noteq> None then
                    (Some (OutgoingResponse (to_response st sid)), remove_stream sid ob)
                  else (Some plain, ob))
           else (Some plain, ob)))"

definition handle_regular_frame ::
  "'d hpack \<Rightarrow> H2FrameDirection \<Rightarrow> FrameHeader \<Rightarrow> 'd H2Observer \<Rightarrow> H2Event option \<times> 'd H2Observer"
  where
  "handle_regular_frame hpack dir frame ob =
     (if frame_type frame = 0x0 then handle_data_frame dir frame ob
      else if frame_type frame = 0x1 then
        (case parse_headers_payload (fh_flags frame) (fh_payload frame) of
           Some (block, end_headers) \<Rightarrow>
             if end_headers then
               handle_complete_headers hpack dir (fh_stream_id frame) (fh_flags frame) block ob
             else
               (None, ob\<lparr> partial_headers :=
                            Some \<lparr> ph_stream_id = fh_stream_id frame, ph_flags = fh_flags frame,
                                   ph_header_block = block, ph_initial_parsed = True \<rparr>,
                          partial_headers_direction := Some dir \<rparr>)
         | None \<Rightarrow> (Some (Unknown (FRstStream (fh_stream_id frame) 0x1)), ob))
      else if frame_type frame = 0x2 then (Some (handle_priority_frame frame), ob)
      else if frame_type frame = 0x3 then (Some (handle_rst_stream frame), ob)
      else if frame_type frame = 0x4 then (Some (handle_settings_frame dir frame), ob)
      else if frame_type frame = 0x5 then (Some (handle_push_promise frame), ob)
      else if frame_type frame = 0x6 then (Some (handle_ping dir frame), ob)
      else if frame_type frame = 0x7 then (Some (handle_goaway frame), ob)
      else if frame_type frame = 0x8 then
        (let (ev, ob) = handle_window_update dir frame ob in (Some ev, ob))
      else (Some (unknown_frame frame), ob))"

section \<open>Polling\<close>

definition dir_buffer :: "H2FrameDirection \<Rightarrow> 'd H2Observer \<Rightarrow> bytes" where
  "dir_buffer dir ob =
     (case dir of Incoming \<Rightarrow> hb_buffer (incoming ob) | Outgoing \<Rightarrow> hb_buffer (outgoing ob))"

definition advance :: "H2FrameDirection \<Rightarrow> nat \<Rightarrow> 'd H2Observer \<Rightarrow> 'd H2Observer" where
  "advance dir n ob =
     (case dir of
        Incoming \<Rightarrow> ob\<lparr> incoming := (incoming ob)\<lparr> hb_buffer := drop n (hb_buffer (incoming ob)) \<rparr> \<rparr>
      | Outgoing \<Rightarrow> ob\<lparr> outgoing := (outgoing ob)\<lparr> hb_buffer := drop n (hb_buffer (outgoing ob)) \<rparr> \<rparr>)"

text \<open>
  \<open>next_frame\<close> is the call \<open>parse_next_frame(&mut buffer.buffer)\<close>: on a frame the buffer
  advances past it. The polling distinguishes, as the code does, a pending HEADERS block of the
  same direction from every other state.
\<close>

definition next_frame :: "H2FrameDirection \<Rightarrow> 'd H2Observer \<Rightarrow> (FrameHeader \<times> 'd H2Observer) option" where
  "next_frame dir ob =
     (case parse_next_frame (dir_buffer dir ob) of
        Some (Inr (frame, n)) \<Rightarrow> Some (frame, advance dir n ob)
      | _ \<Rightarrow> None)"

definition poll_one_frame ::
  "'d hpack \<Rightarrow> H2FrameDirection \<Rightarrow> 'd H2Observer \<Rightarrow> H2Event option \<times> 'd H2Observer" where
  "poll_one_frame hpack dir ob =
     (case (partial_headers ob, partial_headers_direction ob = Some dir) of
        (Some partial, True) \<Rightarrow>
          (case next_frame dir ob of
             None \<Rightarrow> (None, ob)
           | Some (frame, ob) \<Rightarrow>
               if frame_type frame \<noteq> 0x9 \<or> fh_stream_id frame \<noteq> ph_stream_id partial then
                 handle_regular_frame hpack dir frame ob
               else
                 (let block = ph_header_block partial @ fh_payload frame in
                  if fh_flags frame AND 0x4 \<noteq> 0 then
                    handle_complete_headers hpack dir (ph_stream_id partial) (ph_flags partial) block
                      (ob\<lparr> partial_headers := None, partial_headers_direction := None \<rparr>)
                  else (None, ob\<lparr> partial_headers := Some (partial\<lparr> ph_header_block := block \<rparr>) \<rparr>)))
      | _ \<Rightarrow>
          (case next_frame dir ob of
             Some (frame, ob) \<Rightarrow> handle_regular_frame hpack dir frame ob
           | None \<Rightarrow> (None, ob)))"

section \<open>Reading frames\<close>

lemma length24: "unat (push_bit 16 (ucast b0) OR push_bit 8 (ucast b1) OR (ucast b2 :: u32)) = be_nat [b0, b1, b2]"
proof -
  have "push_bit 16 (ucast b0) OR push_bit 8 (ucast b1) OR (ucast b2 :: u32) = be_word [b0, b1, b2]"
    by (simp add: be_word_def push_bit_or ac_simps)
  then show ?thesis by (simp add: unat_be_word)
qed

lemma parse_next_frame_short: "length buf < 9 \<Longrightarrow> parse_next_frame buf = Some (Inl ())"
  by (simp add: parse_next_frame_def)

lemma parse_next_frame_header:
  "parse_next_frame (b0 # b1 # b2 # t # fl # b5 # b6 # b7 # b8 # rest) =
     (if length rest < be_nat [b0, b1, b2] then Some (Inl ())
      else Some (Inr (\<lparr> frame_type = t, fh_flags = fl, fh_stream_id = be32 b5 b6 b7 b8 AND 0x7FFFFFFF,
                       fh_payload = take (be_nat [b0, b1, b2]) rest \<rparr>, 9 + be_nat [b0, b1, b2])))"
  by (simp add: parse_next_frame_def idx_def slice_def length24 be32_def Let_def)

lemma nine_bytes:
  assumes "9 \<le> length buf"
  obtains b0 b1 b2 t fl b5 b6 b7 b8 rest where "buf = b0 # b1 # b2 # t # fl # b5 # b6 # b7 # b8 # rest"
  using assms by (auto simp: numeral_eq_Suc Suc_le_length_iff)

lemma parse_next_frame_cases:
  assumes "parse_next_frame buf = Some (Inr (f, n))"
  obtains b0 b1 b2 b5 b6 b7 b8 rest where
    "buf = b0 # b1 # b2 # frame_type f # fh_flags f # b5 # b6 # b7 # b8 # rest"
    "be_nat [b0, b1, b2] \<le> length rest" "n = 9 + be_nat [b0, b1, b2]"
    "fh_stream_id f = be32 b5 b6 b7 b8 AND 0x7FFFFFFF"
    "fh_payload f = take (be_nat [b0, b1, b2]) rest"
proof (cases "length buf < 9")
  case True
  with assms show ?thesis by (simp add: parse_next_frame_short)
next
  case False
  then have "9 \<le> length buf" by simp
  then obtain b0 b1 b2 t fl b5 b6 b7 b8 rest where "buf = b0 # b1 # b2 # t # fl # b5 # b6 # b7 # b8 # rest"
    by (rule nine_bytes)
  with assms that show ?thesis by (auto simp: parse_next_frame_header split: if_splits)
qed

interpretation h2_frames: total_parser parse_next_frame
proof (unfold_locales, goal_cases)
  case (1 buf f n)
  then show ?case by (rule parse_next_frame_cases) simp
next
  case (2 buf f n more)
  then show ?case by (rule parse_next_frame_cases) (simp add: parse_next_frame_header)
next
  case (3 buf)
  show ?case
  proof (cases "length buf < 9")
    case False
    then have "9 \<le> length buf" by simp
    then show ?thesis by (rule nine_bytes) (simp add: parse_next_frame_header)
  qed (simp add: parse_next_frame_short)
next
  case (4 buf f n)
  then show ?case by (rule parse_next_frame_cases) simp
qed

text \<open>
  The wire form of a frame (RFC 9113, section 4.1): 24-bit length, type, flags, 31-bit stream
  identifier, payload.
\<close>

definition encode_frame :: "FrameHeader \<Rightarrow> bytes" where
  "encode_frame f =
     (let len = of_nat (length (fh_payload f)) :: u32 in
      [byte_at 2 len, byte_at 1 len, byte_at 0 len, frame_type f, fh_flags f]
      @ enc32 (fh_stream_id f) @ fh_payload f)"

definition frame_wf :: "FrameHeader \<Rightarrow> bool" where
  "frame_wf f \<longleftrightarrow> length (fh_payload f) < 2 ^ 24 \<and> unat (fh_stream_id f) < 2 ^ 31"

lemma length_bytes: 
  assumes "n < 2 ^ 24"
  shows "be_nat [byte_at 2 (of_nat n :: u32), byte_at 1 (of_nat n :: u32), byte_at 0 (of_nat n :: u32)] = n"
proof -
  have "byte_at 3 (of_nat n :: u32) = 0"
  proof -
    have "unat (drop_bit 24 (of_nat n :: u32)) = drop_bit 24 (unat (of_nat n :: u32))"
      by (rule unat_drop_bit_eq)
    also have "\<dots> = 0"
      using assms by (simp add: drop_bit_eq_div unsigned_of_nat take_bit_eq_mod)
    finally have "drop_bit 24 (of_nat n :: u32) = 0" by (simp only: unsigned_eq_0_iff)
    then show ?thesis by (simp only: byte_at_def) simp
  qed
  moreover have "unat (be32 (byte_at 3 (of_nat n :: u32)) (byte_at 2 (of_nat n :: u32))
      (byte_at 1 (of_nat n :: u32)) (byte_at 0 (of_nat n :: u32))) = n"
    using assms by (simp add: be_enc unsigned_of_nat take_bit_eq_mod)
  ultimately show ?thesis by (simp add: unat_be32 be_nat_def)
qed

lemma clear_top_bit: "unat w < 2 ^ 31 \<Longrightarrow> w AND 0x7FFFFFFF = (w :: u32)"
proof -
  assume "unat w < 2 ^ 31"
  have "w AND mask 31 = take_bit 31 w" by (simp add: take_bit_eq_mask)
  also have "\<dots> = w" using \<open>unat w < 2 ^ 31\<close>
    by (simp only: word_unat_eq_iff unsigned_take_bit_eq take_bit_nat_eq_self)
  finally show ?thesis by (simp add: mask_eq_exp_minus_1)
qed

lemma parse_encode_frame:
  assumes "frame_wf f"
  shows "parse_next_frame (encode_frame f @ rest) = Some (Inr (f, length (encode_frame f)))"
  using assms by (simp add: encode_frame_def enc32_def parse_next_frame_header frame_wf_def length_bytes [simplified] be_enc clear_top_bit Let_def)

section \<open>What polling does to the buffer\<close>

lemma dir_buffer_update [simp]:
  "dir_buffer dir (ob\<lparr> connection_window_size := w \<rparr>) = dir_buffer dir ob"
  "dir_buffer dir (ob\<lparr> hpack_decoder_incoming := d \<rparr>) = dir_buffer dir ob"
  "dir_buffer dir (ob\<lparr> hpack_decoder_outgoing := d \<rparr>) = dir_buffer dir ob"
  "dir_buffer dir (ob\<lparr> streams := ss \<rparr>) = dir_buffer dir ob"
  "dir_buffer dir (ob\<lparr> partial_headers := ph \<rparr>) = dir_buffer dir ob"
  "dir_buffer dir (ob\<lparr> partial_headers_direction := phd \<rparr>) = dir_buffer dir ob"
  by (simp_all add: dir_buffer_def split: H2FrameDirection.splits)

lemma dir_buffer_put_stream [simp]: "dir_buffer dir (put_stream sid st ob) = dir_buffer dir ob"
  by (simp add: put_stream_def)

lemma dir_buffer_remove_stream [simp]: "dir_buffer dir (remove_stream sid ob) = dir_buffer dir ob"
  by (simp add: remove_stream_def)

lemma dir_buffer_advance [simp]: "dir_buffer dir (advance dir n ob) = drop n (dir_buffer dir ob)"
  by (simp add: dir_buffer_def advance_def split: H2FrameDirection.splits)

lemma dir_buffer_hpack_decode [simp]:
  "dir_buffer dir (snd (hpack_decode hpack d block ob)) = dir_buffer dir ob"
  by (simp add: hpack_decode_def split: H2FrameDirection.splits prod.splits)

lemma dir_buffer_complete_headers [simp]:
  "dir_buffer dir (snd (handle_complete_headers hpack d sid fl block ob)) = dir_buffer dir ob"
proof -
  obtain r ob' where r: "hpack_decode hpack d block ob = (r, ob')" by fastforce
  then have "dir_buffer dir ob' = dir_buffer dir ob"
    using dir_buffer_hpack_decode [of dir hpack d block ob] by simp
  with r show ?thesis
    by (simp add: handle_complete_headers_def Let_def split: option.splits H2FrameDirection.splits)
qed

lemma dir_buffer_data_frame [simp]:
  "dir_buffer dir (snd (handle_data_frame d fr ob)) = dir_buffer dir ob"
  by (simp add: handle_data_frame_def Let_def split: option.splits H2FrameDirection.splits prod.splits)

lemma dir_buffer_window_update [simp]:
  "dir_buffer dir (snd (handle_window_update d fr ob)) = dir_buffer dir ob"
  by (simp add: handle_window_update_def Let_def split: list.splits)

lemma dir_buffer_regular_frame [simp]:
  "dir_buffer dir (snd (handle_regular_frame hpack d fr ob)) = dir_buffer dir ob"
  by (simp add: handle_regular_frame_def split: option.splits prod.splits)
     (metis dir_buffer_window_update snd_conv)

lemma next_frame_shrinks:
  assumes "next_frame dir ob = Some (f, ob')"
  shows "length (dir_buffer dir ob') < length (dir_buffer dir ob)"
proof -
  from assms obtain n where p: "parse_next_frame (dir_buffer dir ob) = Some (Inr (f, n))"
    and ob': "ob' = advance dir n ob"
    by (auto simp: next_frame_def split: option.splits sum.splits)
  from h2_frames.consumed_pos [OF p] h2_frames.consumed_le [OF p] show ?thesis
    by (simp add: ob')
qed

lemma poll_shrinks:
  assumes "poll_one_frame hpack dir ob = (Some ev, ob')"
  shows "length (dir_buffer dir ob') < length (dir_buffer dir ob)"
  using assms 
  apply (auto simp: poll_one_frame_def Let_def split: option.splits prod.splits bool.splits if_splits dest!: next_frame_shrinks)
  apply (metis dir_buffer_regular_frame dir_buffer_complete_headers dir_buffer_update snd_conv)+
  done

text \<open>
  \<open>while let Some(e) = self.poll_one_frame(dir) { evs.push(e); }\<close>: every iteration takes at
  least one byte off the buffer (\<open>poll_shrinks\<close>), so the loop ends.
\<close>

function poll_all ::
  "'d hpack \<Rightarrow> H2FrameDirection \<Rightarrow> 'd H2Observer \<Rightarrow> H2Event list \<times> 'd H2Observer" where
  "poll_all hpack dir ob =
     (case poll_one_frame hpack dir ob of
        (Some e, ob') \<Rightarrow> (let (es, ob'') = poll_all hpack dir ob' in (e # es, ob''))
      | (None, ob') \<Rightarrow> ([], ob'))"
  by pat_completeness auto
termination
  by (relation "measure (\<lambda>(hpack, dir, ob). length (dir_buffer dir ob))")
     (auto dest: poll_shrinks [OF sym])

declare poll_all.simps [simp del]

definition get_all_events :: "'d hpack \<Rightarrow> 'd H2Observer \<Rightarrow> H2Event list \<times> 'd H2Observer" where
  "get_all_events hpack ob =
     (let (es, ob) = poll_all hpack Incoming ob;
          (es', ob) = poll_all hpack Outgoing ob
      in (es @ es', ob))"

lemma poll_all_None: "poll_one_frame hpack dir ob = (None, ob') \<Longrightarrow> poll_all hpack dir ob = ([], ob')"
  by (subst poll_all.simps) simp

lemma poll_all_Some:
  "poll_one_frame hpack dir ob = (Some e, ob') \<Longrightarrow>
     poll_all hpack dir ob = (e # fst (poll_all hpack dir ob'), snd (poll_all hpack dir ob'))"
  by (subst poll_all.simps) (simp split: prod.splits)

text \<open>\<open>poll_next\<close>: \<open>None\<close> stands for \<open>Poll::Pending\<close> (the wakers are then registered).\<close>

definition poll_next :: "'d hpack \<Rightarrow> 'd H2Observer \<Rightarrow> H2Event option \<times> 'd H2Observer" where
  "poll_next hpack ob =
     (case poll_one_frame hpack Incoming ob of
        (Some e, ob) \<Rightarrow> (Some e, ob)
      | (None, ob) \<Rightarrow> poll_one_frame hpack Outgoing ob)"

section \<open>Header blocks split over CONTINUATION frames\<close>

lemma next_frame_encode:
  assumes "dir_buffer dir ob = encode_frame f @ rest" and "frame_wf f"
  shows "next_frame dir ob = Some (f, advance dir (length (encode_frame f)) ob)"
  using assms by (simp add: next_frame_def parse_encode_frame)

lemma advance_advance [simp]: "advance dir m (advance dir n ob) = advance dir (n + m) ob"
  by (cases dir) (simp_all add: advance_def add.commute)

lemma advance_partial [simp]:
  "advance dir n (ob\<lparr> partial_headers := ph \<rparr>) = (advance dir n ob)\<lparr> partial_headers := ph \<rparr>"
  "advance dir n (ob\<lparr> partial_headers_direction := d \<rparr>) = (advance dir n ob)\<lparr> partial_headers_direction := d \<rparr>"
  "partial_headers (advance dir n ob) = partial_headers ob"
  "partial_headers_direction (advance dir n ob) = partial_headers_direction ob"
  by (cases dir; simp add: advance_def)+

lemma poll_idle:
  assumes "dir_buffer dir ob = encode_frame f @ rest" and "frame_wf f" and "partial_headers ob = None"
  shows "poll_one_frame hpack dir ob =
           handle_regular_frame hpack dir f (advance dir (length (encode_frame f)) ob)"
  using assms by (simp add: poll_one_frame_def next_frame_encode)

text \<open>\<open>n\<close> polls of one direction, whatever each of them answers.\<close>

fun poll_many ::
  "'d hpack \<Rightarrow> H2FrameDirection \<Rightarrow> nat \<Rightarrow> 'd H2Observer \<Rightarrow> H2Event option list \<times> 'd H2Observer" where
  "poll_many hpack dir 0 ob = ([], ob)"
| "poll_many hpack dir (Suc n) ob =
     (let (e, ob) = poll_one_frame hpack dir ob; (es, ob) = poll_many hpack dir n ob in (e # es, ob))"

definition continuation :: "u32 \<Rightarrow> bool \<Rightarrow> FrameHeader \<Rightarrow> bool" where
  "continuation sid fin f \<longleftrightarrow>
     frame_wf f \<and> frame_type f = 0x9 \<and> fh_stream_id f = sid \<and> (fh_flags f AND 0x4 \<noteq> 0) = fin"

definition pending :: "H2FrameDirection \<Rightarrow> u32 \<Rightarrow> byte \<Rightarrow> bytes \<Rightarrow> 'd H2Observer \<Rightarrow> 'd H2Observer" where
  "pending dir sid fl block ob =
     ob\<lparr> partial_headers := Some \<lparr> ph_stream_id = sid, ph_flags = fl, ph_header_block = block,
                                  ph_initial_parsed = True \<rparr>,
        partial_headers_direction := Some dir \<rparr>"

lemma poll_continuation:
  assumes "dir_buffer dir ob = encode_frame c @ rest" and "continuation sid False c"
  shows "poll_one_frame hpack dir (pending dir sid fl block ob) =
           (None, pending dir sid fl (block @ fh_payload c) (advance dir (length (encode_frame c)) ob))"
proof -
  have "dir_buffer dir (pending dir sid fl block ob) = encode_frame c @ rest"
    using assms by (simp add: pending_def)
  moreover have "frame_wf c" using assms by (simp add: continuation_def)
  ultimately have "next_frame dir (pending dir sid fl block ob) =
      Some (c, advance dir (length (encode_frame c)) (pending dir sid fl block ob))"
    by (rule next_frame_encode)
  with assms show ?thesis
    by (simp add: poll_one_frame_def pending_def continuation_def)
qed

lemma poll_last_continuation:
  assumes "dir_buffer dir ob = encode_frame c @ rest" and "continuation sid True c"
  shows "poll_one_frame hpack dir (pending dir sid fl block ob) =
           handle_complete_headers hpack dir sid fl (block @ fh_payload c)
             ((advance dir (length (encode_frame c)) ob)
                \<lparr> partial_headers := None, partial_headers_direction := None \<rparr>)"
proof -
  have "dir_buffer dir (pending dir sid fl block ob) = encode_frame c @ rest"
    using assms by (simp add: pending_def)
  moreover have "frame_wf c" using assms by (simp add: continuation_def)
  ultimately have "next_frame dir (pending dir sid fl block ob) =
      Some (c, advance dir (length (encode_frame c)) (pending dir sid fl block ob))"
    by (rule next_frame_encode)
  with assms show ?thesis
    by (simp add: poll_one_frame_def pending_def continuation_def)
qed

lemma poll_continuations:
  assumes "dir_buffer dir ob = concat (map encode_frame cs) @ encode_frame c @ rest"
    and "\<forall>f \<in> set cs. continuation sid False f" and "continuation sid True c"
    and "handle_complete_headers hpack dir sid fl (block @ concat (map fh_payload cs) @ fh_payload c)
           ((advance dir (length (concat (map encode_frame cs) @ encode_frame c)) ob)
              \<lparr> partial_headers := None, partial_headers_direction := None \<rparr>) = (ev, ob')"
  shows "poll_many hpack dir (length cs + 1) (pending dir sid fl block ob) =
           (replicate (length cs) None @ [ev], ob')"
  using assms
proof (induction cs arbitrary: ob block)
  case Nil
  then show ?case using poll_last_continuation [of dir ob c rest sid hpack fl block] by simp
next
  case (Cons f cs)
  have "poll_one_frame hpack dir (pending dir sid fl block ob) =
      (None, pending dir sid fl (block @ fh_payload f) (advance dir (length (encode_frame f)) ob))"
    using Cons.prems by (intro poll_continuation) auto
  moreover have "poll_many hpack dir (length cs + 1)
      (pending dir sid fl (block @ fh_payload f) (advance dir (length (encode_frame f)) ob)) =
      (replicate (length cs) None @ [ev], ob')"
    using Cons.prems by (intro Cons.IH) (simp_all add: ac_simps)
  ultimately show ?case by simp
qed

definition split_headers :: "u32 \<Rightarrow> bytes \<Rightarrow> FrameHeader \<Rightarrow> bool" where
  "split_headers sid block h \<longleftrightarrow>
     frame_wf h \<and> frame_type h = 0x1 \<and> fh_stream_id h = sid \<and>
     parse_headers_payload (fh_flags h) (fh_payload h) = Some (block, False)"

lemma poll_split_headers:
  assumes "dir_buffer dir ob = encode_frame h @ rest" and "split_headers sid block h"
    and "partial_headers ob = None"
  shows "poll_one_frame hpack dir ob =
           (None, pending dir sid (fh_flags h) block (advance dir (length (encode_frame h)) ob))"
  using assms by (simp add: poll_idle split_headers_def handle_regular_frame_def pending_def)

text \<open>A HEADERS frame without END_HEADERS followed by CONTINUATION frames gives, when the last
  one arrives, the event of the concatenated header block.\<close>

theorem continuation_reassembly:
  assumes "partial_headers ob = None"
    and "split_headers sid block h"
    and "\<forall>f \<in> set cs. continuation sid False f"
    and "continuation sid True c"
    and "dir_buffer dir ob = encode_frame h @ concat (map encode_frame cs) @ encode_frame c @ rest"
    and "n = length (dir_buffer dir ob) - length rest"
    and "handle_complete_headers hpack dir sid (fh_flags h)
           (block @ concat (map fh_payload cs) @ fh_payload c)
           ((advance dir n ob)\<lparr> partial_headers := None, partial_headers_direction := None \<rparr>)
           = (ev, ob')"
  shows "poll_many hpack dir (length cs + 2) ob = (replicate (length cs + 1) None @ [ev], ob')
         \<and> dir_buffer dir ob' = rest"
proof -
  have p: "poll_one_frame hpack dir ob =
      (None, pending dir sid (fh_flags h) block (advance dir (length (encode_frame h)) ob))"
    using assms by (intro poll_split_headers)
  have "poll_many hpack dir (length cs + 1)
      (pending dir sid (fh_flags h) block (advance dir (length (encode_frame h)) ob)) =
      (replicate (length cs) None @ [ev], ob')"
    using assms by (intro poll_continuations [where c = c and rest = rest]) (simp_all add: ac_simps)
  with p have "poll_many hpack dir (length cs + 2) ob = (replicate (length cs + 1) None @ [ev], ob')"
    by (simp add: eval_nat_numeral)
  moreover have "dir_buffer dir ob' = rest"
    using dir_buffer_complete_headers [of dir hpack dir sid "fh_flags h"
      "block @ concat (map fh_payload cs) @ fh_payload c"
      "(advance dir n ob)\<lparr> partial_headers := None, partial_headers_direction := None \<rparr>"]
    by (simp only: assms(7) snd_conv) (simp add: assms(5,6))
  ultimately show ?thesis by simp
qed

text \<open>get_all_events returns nothing after a HEADERS frame without END_HEADERS and leaves
  every frame behind it unread, although they are complete.\<close>

theorem split_headers_stall:
  assumes "partial_headers ob = None" and "split_headers sid block h"
    and "hb_buffer (incoming ob) = encode_frame h @ rest"
    and "hb_buffer (outgoing ob) = []"
  shows "\<exists>ob'. get_all_events hpack ob = ([], ob') \<and> hb_buffer (incoming ob') = rest"
proof -
  let ?ob = "pending Incoming sid (fh_flags h) block (advance Incoming (length (encode_frame h)) ob)"
  have "poll_one_frame hpack Incoming ob = (None, ?ob)"
    using assms by (intro poll_split_headers [where rest = rest]) (simp_all add: dir_buffer_def)
  then have "poll_all hpack Incoming ob = ([], ?ob)"
    by (rule poll_all_None)
  moreover have "poll_one_frame hpack Outgoing ?ob = (None, ?ob)"
    using assms by (simp add: poll_one_frame_def pending_def next_frame_def dir_buffer_def advance_def
        parse_next_frame_short)
  then have "poll_all hpack Outgoing ?ob = ([], ?ob)"
    by (rule poll_all_None)
  moreover have "hb_buffer (incoming ?ob) = rest"
    using assms by (simp add: pending_def advance_def)
  ultimately show ?thesis by (simp add: get_all_events_def)
qed

section \<open>The connection preface\<close>

lemma length_PREFACE: "length PREFACE = 24"
  by (simp add: PREFACE_def as_bytes_def)

lemma preface_not_a_frame:
  assumes "starts_with PREFACE bs"
  shows "parse_next_frame bs = Some (Inl ())"
proof (cases "length bs < 9")
  case False
  from assms obtain r where r: "PREFACE = bs @ r" by (auto simp: starts_with_iff)
  then have le: "length bs \<le> 24" using length_PREFACE by (metis length_append le_add1)
  from False have "9 \<le> length bs" by simp
  then show ?thesis
  proof (rule nine_bytes)
    fix b0 b1 b2 t fl b5 b6 b7 b8 rest
    assume bs: "bs = b0 # b1 # b2 # t # fl # b5 # b6 # b7 # b8 # rest"
    with r have "b0 = 80" "b1 = 82" "b2 = 73" by (simp_all add: PREFACE_def as_bytes_def byte_of_char_def)
    with bs le show ?thesis by (simp add: parse_next_frame_header be_nat_def)
  qed
qed (simp add: parse_next_frame_short)

definition proper_preface :: "bytes \<Rightarrow> H2Buffer \<Rightarrow> bool" where
  "proper_preface seen b \<longleftrightarrow>
     (if length seen < length PREFACE
      then starts_with PREFACE seen \<and> b = \<lparr> hb_buffer = seen, hb_needs_preface = True, hb_preface_consumed = False \<rparr>
      else take (length PREFACE) seen = PREFACE \<and>
           b = \<lparr> hb_buffer = drop (length PREFACE) seen, hb_needs_preface = True, hb_preface_consumed = True \<rparr>)"

lemma buffer_write_preface:
  assumes "proper_preface seen b" and "\<exists>more. starts_with (seen @ data @ more) PREFACE"
  shows "proper_preface (seen @ data) (buffer_write b data)"
proof (cases "length seen < length PREFACE")
  case True
  with assms(1) have b: "b = \<lparr> hb_buffer = seen, hb_needs_preface = True, hb_preface_consumed = False \<rparr>"
    by (simp add: proper_preface_def)
  obtain more r where m: "seen @ data @ more = PREFACE @ r"
    using assms(2) by (auto simp: starts_with_iff)
  show ?thesis
  proof (cases "length (seen @ data) < length PREFACE")
    case True
    from m have "(seen @ data) @ more = PREFACE @ r" by simp
    then obtain us where "(seen @ data) @ us = PREFACE \<or> seen @ data = PREFACE @ us"
      unfolding append_eq_append_conv2 by blast
    with True have "starts_with PREFACE (seen @ data)"
      unfolding starts_with_iff by (metis append.assoc leD le_add1 length_append)
    with True show ?thesis
      by (simp add: b proper_preface_def buffer_write_def consume_preface_def)
  next
    case False
    have "take (length PREFACE) (seen @ data) = take (length PREFACE) ((seen @ data) @ more)"
      using False by simp
    also have "\<dots> = PREFACE" using m by simp
    finally have t: "take (length PREFACE) (seen @ data) = PREFACE" .
    with False show ?thesis
      by (simp add: b proper_preface_def buffer_write_def consume_preface_def del: take_append)
  qed
next
  case False
  with assms(1) show ?thesis
    by (simp add: proper_preface_def buffer_write_def)
qed

lemma buffer_writes_preface:
  assumes "proper_preface seen b" and "starts_with (seen @ concat chunks) PREFACE"
  shows "proper_preface (seen @ concat chunks) (foldl buffer_write b chunks)"
  using assms
proof (induction chunks arbitrary: seen b)
  case Nil
  then show ?case by simp
next
  case (Cons c cs)
  then have "proper_preface (seen @ c) (buffer_write b c)"
    by (intro buffer_write_preface) auto
  with Cons.IH [of "seen @ c"] Cons.prems(2) show ?case by simp
qed

text \<open>However the client's bytes are cut into chunks, the connection preface is removed once
  and what follows it is kept, and nothing is released before the preface is complete.\<close>

theorem preface_any_chunking:
  assumes "concat chunks = PREFACE @ rest"
  shows "foldl buffer_write (H2Buffer_new True) chunks =
           \<lparr> hb_buffer = rest, hb_needs_preface = True, hb_preface_consumed = True \<rparr>
         \<and> (\<forall>k. length (concat (take k chunks)) < length PREFACE \<longrightarrow>
              parse_next_frame (hb_buffer (foldl buffer_write (H2Buffer_new True) (take k chunks)))
                = Some (Inl ()))"
proof -
  have init: "proper_preface [] (H2Buffer_new True)"
    by (simp add: proper_preface_def H2Buffer_new_def length_PREFACE)
  have "starts_with ([] @ concat chunks) PREFACE"
    using assms by (auto simp: starts_with_iff)
  from buffer_writes_preface [OF init this] have final:
    "foldl buffer_write (H2Buffer_new True) chunks =
       \<lparr> hb_buffer = rest, hb_needs_preface = True, hb_preface_consumed = True \<rparr>"
    using assms by (simp add: proper_preface_def)
  have "parse_next_frame (hb_buffer (foldl buffer_write (H2Buffer_new True) (take k chunks))) = Some (Inl ())"
    if short: "length (concat (take k chunks)) < length PREFACE" for k
  proof -
    have pre: "proper_preface [] (H2Buffer_new True) \<Longrightarrow>
        proper_preface (concat (take j chunks)) (foldl buffer_write (H2Buffer_new True) (take j chunks))" for j
    proof (induction j)
      case 0
      then show ?case by simp
    next
      case (Suc j)
      show ?case
      proof (cases "j < length chunks")
        case True
        have "concat (take j chunks) @ chunks ! j @ concat (drop (Suc j) chunks) = concat chunks"
          using True by (metis append.assoc append_take_drop_id concat_append take_Suc_conv_app_nth
              concat.simps append_Nil2)
        then have "\<exists>more. starts_with (concat (take j chunks) @ chunks ! j @ more) PREFACE"
          using assms by (metis starts_with_iff)
        with Suc buffer_write_preface True show ?thesis
          by (simp add: take_Suc_conv_app_nth)
      qed (use Suc in simp)
    qed
    from pre [OF init, of k] short show ?thesis
      by (simp add: proper_preface_def preface_not_a_frame)
  qed
  with final show ?thesis by blast
qed

section \<open>Flow-control windows\<close>

text \<open>WINDOW_UPDATE adds its 31-bit increment to the connection or the stream window,
  saturating at the 32-bit bounds.\<close>

theorem window_update_saturates:
  assumes "fh_payload fh = [a, b, c, d]"
  shows "let inc = unat (be31 a b c d);
             (ev, ob') = handle_window_update dir fh ob
         in ev = WindowUpdate dir (fh_stream_id fh) (be31 a b c d) \<and>
            (if fh_stream_id fh = 0
             then unat (connection_window_size ob') =
                    min (unat (connection_window_size ob) + inc) (2 ^ 32 - 1) \<and>
                  streams ob' = streams ob
             else unat (stream_window_size (stream_entry ob' (fh_stream_id fh))) =
                    min (unat (stream_window_size (stream_entry ob (fh_stream_id fh))) + inc) (2 ^ 32 - 1) \<and>
                  connection_window_size ob' = connection_window_size ob)"
proof -
  have sat: "unat (saturating_add x y) = min (unat x + unat y) (2 ^ 32 - 1)" for x y
    by (simp add: saturating_add_def unat_word_ariths)
  show ?thesis
    using assms by (simp add: handle_window_update_def Let_def sat put_stream_def stream_entry_def)
qed

section \<open>A response, from its HEADERS to its last DATA frame\<close>

definition body_frame :: "u32 \<Rightarrow> bool \<Rightarrow> FrameHeader \<Rightarrow> bytes \<Rightarrow> bool" where
  "body_frame sid fin f data \<longleftrightarrow>
     frame_wf f \<and> frame_type f = 0x0 \<and> fh_stream_id f = sid \<and>
     parse_data_payload (fh_flags f) (fh_payload f) = Some (data, fin)"

lemma advance_fields [simp]:
  "streams (advance dir n ob) = streams ob"
  "partial_headers (put_stream sid st ob) = partial_headers ob"
  "partial_headers (remove_stream sid ob) = partial_headers ob"
  "hpack_decoder_outgoing (advance dir n ob) = hpack_decoder_outgoing ob"
  by (cases dir; simp add: advance_def put_stream_def remove_stream_def)+

lemma poll_body_frame:
  assumes "dir_buffer Outgoing ob = encode_frame f @ rest" and "body_frame sid False f data"
    and "partial_headers ob = None" and "streams ob sid = Some st"
  shows "poll_one_frame hpack Outgoing ob =
           (Some (Data sid data Outgoing False),
            put_stream sid (st\<lparr> st_body := st_body st @ data \<rparr>) (advance Outgoing (length (encode_frame f)) ob))"
  using assms
  by (simp add: poll_idle body_frame_def handle_regular_frame_def handle_data_frame_def stream_entry_def)

lemma poll_last_body_frame:
  assumes "dir_buffer Outgoing ob = encode_frame f @ rest" and "body_frame sid True f data"
    and "partial_headers ob = None" and "streams ob sid = Some st"
    and "st_headers st = Some hm" and "hm '':method'' = None" and "hm '':status'' \<noteq> None"
  shows "poll_one_frame hpack Outgoing ob =
           (Some (OutgoingResponse (to_response (st\<lparr> st_body := st_body st @ data \<rparr>) sid)),
            remove_stream sid (put_stream sid (st\<lparr> st_body := st_body st @ data \<rparr>)
              (advance Outgoing (length (encode_frame f)) ob)))"
  using assms
  by (auto simp: poll_idle body_frame_def handle_regular_frame_def handle_data_frame_def stream_entry_def Let_def)

lemma poll_all_empty:
  assumes "dir_buffer dir ob = []" and "partial_headers ob = None"
  shows "poll_all hpack dir ob = ([], ob)"
  using assms by (simp add: poll_all_None poll_one_frame_def next_frame_def parse_next_frame_short)

lemma poll_all_body:
  assumes "list_all2 (body_frame sid False) fs ds" and "body_frame sid True l d"
    and "dir_buffer Outgoing ob = concat (map encode_frame fs) @ encode_frame l"
    and "partial_headers ob = None" and "streams ob sid = Some st"
    and "st_headers st = Some hm" and "hm '':method'' = None" and "hm '':status'' \<noteq> None"
  shows "\<exists>ob'. poll_all hpack Outgoing ob =
           (map (\<lambda>d. Data sid d Outgoing False) ds
              @ [OutgoingResponse (to_response (st\<lparr> st_body := st_body st @ concat ds @ d \<rparr>) sid)], ob')
         \<and> streams ob' = (streams ob)(sid := None) \<and> dir_buffer Outgoing ob' = []"
  using assms
proof (induction fs arbitrary: ds ob st)
  case Nil
  let ?ob = "remove_stream sid (put_stream sid (st\<lparr> st_body := st_body st @ d \<rparr>)
              (advance Outgoing (length (encode_frame l)) ob))"
  have "poll_one_frame hpack Outgoing ob =
      (Some (OutgoingResponse (to_response (st\<lparr> st_body := st_body st @ d \<rparr>) sid)), ?ob)"
    using Nil.prems by (intro poll_last_body_frame [where rest = "[]"]) simp_all
  moreover have "poll_all hpack Outgoing ?ob = ([], ?ob)"
    using Nil.prems by (intro poll_all_empty) simp_all
  ultimately show ?case
    using Nil.prems by (simp add: poll_all_Some) (simp add: remove_stream_def put_stream_def fun_eq_iff)
next
  case (Cons f fs)
  then obtain e es where ds: "ds = e # es" "body_frame sid False f e" "list_all2 (body_frame sid False) fs es"
    by (auto simp: list_all2_Cons1)
  let ?st = "st\<lparr> st_body := st_body st @ e \<rparr>"
  let ?ob = "put_stream sid ?st (advance Outgoing (length (encode_frame f)) ob)"
  have "poll_one_frame hpack Outgoing ob = (Some (Data sid e Outgoing False), ?ob)"
    using Cons.prems ds by (intro poll_body_frame) simp_all
  moreover have "\<exists>ob'. poll_all hpack Outgoing ?ob =
      (map (\<lambda>d. Data sid d Outgoing False) es
        @ [OutgoingResponse (to_response (?st\<lparr> st_body := st_body ?st @ concat es @ d \<rparr>) sid)], ob')
      \<and> streams ob' = (streams ?ob)(sid := None) \<and> dir_buffer Outgoing ob' = []"
    using Cons.prems ds by (intro Cons.IH) (simp_all add: put_stream_def)
  ultimately show ?case
    by (auto simp: poll_all_Some ds put_stream_def)
qed

text \<open>A response sent as HEADERS and DATA frames, the last one ending the stream, is reported
  once, with the decoded headers and the concatenated bodies.\<close>

theorem response_reassembly:
  assumes "frame_wf h" and "frame_type h = 0x1" and "fh_stream_id h = sid"
    and "parse_headers_payload (fh_flags h) (fh_payload h) = Some (block, True)"
    and "fh_flags h AND 0x1 = 0"
    and "hpack (hpack_decoder_outgoing ob) block = (Some l, d')"
    and "headers_of_list l '':method'' = None" and "headers_of_list l '':status'' \<noteq> None"
    and "list_all2 (body_frame sid False) fs ds" and "body_frame sid True f d"
    and "dir_buffer Outgoing ob = encode_frame h @ concat (map encode_frame fs) @ encode_frame f"
    and "partial_headers ob = None" and "streams ob sid = None"
  shows "\<exists>ob'. poll_all hpack Outgoing ob =
           (PartialOutgoingResponse
              \<lparr> rp_stream_id = sid, rp_status = the (headers_of_list l '':status''),
                rp_headers = headers_of_list l, rp_body = [] \<rparr>
            # map (\<lambda>x. Data sid x Outgoing False) ds
            @ [OutgoingResponse
                 \<lparr> rp_stream_id = sid, rp_status = the (headers_of_list l '':status''),
                   rp_headers = headers_of_list l, rp_body = concat ds @ d \<rparr>], ob')
         \<and> streams ob' = streams ob \<and> dir_buffer Outgoing ob' = []"
proof -
  let ?hm = "headers_of_list l"
  let ?st = "StreamState_new\<lparr> st_headers := Some ?hm \<rparr>"
  let ?ob = "put_stream sid ?st ((advance Outgoing (length (encode_frame h)) ob)\<lparr> hpack_decoder_outgoing := d' \<rparr>)"
  have resp: "to_response (?st\<lparr> st_body := b \<rparr>) sid =
      \<lparr> rp_stream_id = sid, rp_status = the (?hm '':status''), rp_headers = ?hm, rp_body = b \<rparr>" for b
    using assms(8) by (auto simp: to_response_def StreamState_new_def)
  have st: "?st\<lparr> st_body := [] \<rparr> = ?st" by (simp add: StreamState_new_def)
  have "poll_one_frame hpack Outgoing ob = (Some (PartialOutgoingResponse (to_response ?st sid)), ?ob)"
    using assms
    by (simp add: poll_idle handle_regular_frame_def handle_complete_headers_def hpack_decode_def
        stream_entry_def put_stream_def Let_def)
  moreover have "\<exists>ob'. poll_all hpack Outgoing ?ob =
      (map (\<lambda>x. Data sid x Outgoing False) ds
        @ [OutgoingResponse (to_response (?st\<lparr> st_body := st_body ?st @ concat ds @ d \<rparr>) sid)], ob')
      \<and> streams ob' = (streams ?ob)(sid := None) \<and> dir_buffer Outgoing ob' = []"
    using assms by (intro poll_all_body) (simp_all add: put_stream_def)
  ultimately show ?thesis
    using assms(13) resp [of "[]"] resp [of "concat ds @ d"]
    by (auto simp: poll_all_Some put_stream_def st StreamState_new_def)
qed

section \<open>Where polling stops\<close>

lemma complete_headers_answers [simp]: "handle_complete_headers hpack dir sid fl block ob \<noteq> (None, ob')"
  by (simp add: handle_complete_headers_def Let_def split: prod.splits option.splits H2FrameDirection.splits)

lemma data_frame_answers [simp]: "handle_data_frame dir f ob \<noteq> (None, ob')"
  by (simp add: handle_data_frame_def Let_def split: prod.splits option.splits H2FrameDirection.splits)

lemma regular_frame_None:
  assumes "handle_regular_frame hpack dir f ob = (None, ob')"
  shows "partial_headers ob' \<noteq> None"
  using assms
  by (auto simp: handle_regular_frame_def split: if_splits option.splits prod.splits)

lemma poll_None:
  assumes "poll_one_frame hpack dir ob = (None, ob')"
  shows "partial_headers ob' \<noteq> None \<or> next_frame dir ob' = None"
  using assms
  by (auto simp: poll_one_frame_def Let_def dest!: regular_frame_None
      split: option.splits prod.splits bool.splits if_splits)

text \<open>Polling a direction until it answers None leaves no complete frame in its buffer, unless
  a header block is being put together.\<close>

theorem polling_stops_only_without_frames:
  "let ob' = snd (poll_all hpack dir ob)
   in partial_headers ob' \<noteq> None \<or> parse_next_frame (dir_buffer dir ob') = Some (Inl ())"
proof -
  have stop: "next_frame dir ob' = None \<Longrightarrow> parse_next_frame (dir_buffer dir ob') = Some (Inl ())" for ob' :: "'a H2Observer"
    using h2_frames.no_panic [of "dir_buffer dir ob'"]
    by (auto simp: next_frame_def split: option.splits sum.splits)
  have "partial_headers (snd (poll_all hpack dir ob)) \<noteq> None \<or> next_frame dir (snd (poll_all hpack dir ob)) = None"
  proof (induction hpack dir ob rule: poll_all.induct)
    case (1 hpack dir ob)
    obtain r ob' where r: "poll_one_frame hpack dir ob = (r, ob')" by fastforce
    show ?case
    proof (cases r)
      case None
      with r show ?thesis using poll_None [of hpack dir ob ob'] by (simp add: poll_all_None)
    next
      case (Some e)
      with r show ?thesis using 1 [OF r [symmetric]] by (simp add: poll_all_Some)
    qed
  qed
  with stop show ?thesis by (auto simp: Let_def)
qed

text \<open>C26: An encoded HTTP/2 frame is parsed back to itself whatever follows it, and no proper
  prefix of it is taken for a frame.\<close>

theorem frame_roundtrip:
  assumes "frame_wf f"
  shows "parse_next_frame (encode_frame f @ rest) = Some (Inr (f, length (encode_frame f)))
         \<and> (\<forall>k < length (encode_frame f). parse_next_frame (take k (encode_frame f)) = Some (Inl ()))"
proof -
  have "parse_next_frame (take k (encode_frame f)) = Some (Inl ())" if k: "k < length (encode_frame f)" for k
  proof (rule ccontr)
    assume "parse_next_frame (take k (encode_frame f)) \<noteq> Some (Inl ())"
    with h2_frames.no_panic [of "take k (encode_frame f)"] obtain g n where
      p: "parse_next_frame (take k (encode_frame f)) = Some (Inr (g, n))"
      by (cases "parse_next_frame (take k (encode_frame f))"; cases "the (parse_next_frame (take k (encode_frame f)))") auto
    have "parse_next_frame (take k (encode_frame f) @ drop k (encode_frame f)) = Some (Inr (g, n))"
      by (rule h2_frames.more_input [OF p])
    with parse_encode_frame [OF assms, of "[]"] have "n = length (encode_frame f)" by auto
    with h2_frames.consumed_le [OF p] k show False by simp
  qed
  with parse_encode_frame [OF assms] show ?thesis by blast
qed

lemma frame_roundtrip_witness:
  "parse_next_frame (encode_frame \<lparr> frame_type = 6, fh_flags = 1, fh_stream_id = 3, fh_payload = [7, 8] \<rparr> @ [0]) =
     Some (Inr (\<lparr> frame_type = 6, fh_flags = 1, fh_stream_id = 3, fh_payload = [7, 8] \<rparr>, 11))"
  using frame_roundtrip [of "\<lparr> frame_type = 6, fh_flags = 1, fh_stream_id = 3, fh_payload = [7, 8] \<rparr>" "[0]"]
  by (simp add: frame_wf_def encode_frame_def enc32_def)

section \<open>Concrete input\<close>

definition status_hpack :: "unit hpack" where
  "status_hpack d block = (Some [(as_bytes '':status'', as_bytes ''200'')], d)"

definition headers_sample :: "byte \<Rightarrow> FrameHeader" where
  "headers_sample fl = \<lparr> frame_type = 1, fh_flags = fl, fh_stream_id = 1, fh_payload = [0x88] \<rparr>"

definition continuation_sample :: "byte \<Rightarrow> FrameHeader" where
  "continuation_sample fl = \<lparr> frame_type = 9, fh_flags = fl, fh_stream_id = 1, fh_payload = [5, 6] \<rparr>"

definition data_sample :: "byte \<Rightarrow> FrameHeader" where
  "data_sample fl = \<lparr> frame_type = 0, fh_flags = fl, fh_stream_id = 1, fh_payload = [10, 11] \<rparr>"

definition observer_sample :: "bytes \<Rightarrow> bytes \<Rightarrow> unit H2Observer" where
  "observer_sample inc out =
     (H2Observer_new ())\<lparr> incoming := \<lparr> hb_buffer = inc, hb_needs_preface = True, hb_preface_consumed = True \<rparr>,
                          outgoing := \<lparr> hb_buffer = out, hb_needs_preface = False, hb_preface_consumed = False \<rparr> \<rparr>"

lemmas sample_defs = status_hpack_def headers_sample_def continuation_sample_def data_sample_def
  observer_sample_def split_headers_def continuation_def body_frame_def frame_wf_def
  parse_headers_payload_def parse_data_payload_def dir_buffer_def H2Observer_new_def

lemma status_headers: "headers_of_list [(as_bytes '':status'', as_bytes ''200'')] = ['':status'' \<mapsto> ''200'']"
proof -
  have "utf8_valid (as_bytes '':status'')" "utf8_valid (as_bytes ''200'')" by code_simp+
  then show ?thesis by (simp add: headers_of_list_def vec_to_string_def from_utf8_as_bytes)
qed

lemma continuation_reassembly_witness:
  "\<exists>ev ob'. poll_many status_hpack Outgoing 3
       (observer_sample [] (encode_frame (headers_sample 1) @ encode_frame (continuation_sample 0)
          @ encode_frame (continuation_sample 4) @ [42])) = ([None, None, ev], ob')
     \<and> dir_buffer Outgoing ob' = [42]"
proof -
  let ?ob = "observer_sample [] (encode_frame (headers_sample 1) @ encode_frame (continuation_sample 0)
          @ encode_frame (continuation_sample 4) @ [42])"
  obtain ev ob' where r: "handle_complete_headers status_hpack Outgoing 1 (fh_flags (headers_sample 1))
      ([0x88] @ concat (map fh_payload [continuation_sample 0]) @ fh_payload (continuation_sample 4))
      ((advance Outgoing (length (dir_buffer Outgoing ?ob) - length [42::byte]) ?ob)
         \<lparr> partial_headers := None, partial_headers_direction := None \<rparr>) = (ev, ob')"
    by fastforce
  have "poll_many status_hpack Outgoing (length [continuation_sample 0] + 2) ?ob =
      (replicate (length [continuation_sample 0] + 1) None @ [ev], ob') \<and> dir_buffer Outgoing ob' = [42]"
    by (rule continuation_reassembly [OF _ _ _ _ _ refl r]) (simp_all add: sample_defs)
  then show ?thesis by (simp add: numeral_3_eq_3)
qed

lemma split_headers_stall_witness:
  "\<exists>ob'. get_all_events status_hpack
       (observer_sample (encode_frame (headers_sample 1) @ encode_frame (continuation_sample 4)) []) = ([], ob')
     \<and> hb_buffer (incoming ob') = encode_frame (continuation_sample 4)"
  by (rule split_headers_stall [where sid = 1 and block = "[0x88]" and h = "headers_sample 1"])
     (simp_all add: sample_defs)

lemma preface_any_chunking_witness:
  "foldl buffer_write (H2Buffer_new True) [take 5 PREFACE, drop 5 PREFACE @ [0, 0], [1]] =
     \<lparr> hb_buffer = [0, 0, 1], hb_needs_preface = True, hb_preface_consumed = True \<rparr>"
  using preface_any_chunking [of "[take 5 PREFACE, drop 5 PREFACE @ [0, 0], [1]]" "[0, 0, 1]"] by simp

lemma window_update_saturates_witness:
  "unat (connection_window_size (snd (handle_window_update Incoming
      \<lparr> frame_type = 8, fh_flags = 0, fh_stream_id = 0, fh_payload = [0x7F, 0xFF, 0xFF, 0xFF] \<rparr>
      ((H2Observer_new ())\<lparr> connection_window_size := 0xFFFFFFF0 \<rparr>)))) = 2 ^ 32 - 1"
  using window_update_saturates [of "\<lparr> frame_type = 8, fh_flags = 0, fh_stream_id = 0, fh_payload = [0x7F, 0xFF, 0xFF, 0xFF] \<rparr>"
      "0x7F" "0xFF" "0xFF" "0xFF" Incoming "(H2Observer_new ())\<lparr> connection_window_size := 0xFFFFFFF0 \<rparr>"]
  by (simp add: Let_def be31_def split: prod.splits)

lemma response_reassembly_witness:
  "\<exists>ob'. poll_all status_hpack Outgoing
       (observer_sample [] (encode_frame (headers_sample 4) @ encode_frame (data_sample 0)
          @ encode_frame (data_sample 1))) =
     ([PartialOutgoingResponse \<lparr> rp_stream_id = 1, rp_status = ''200'',
          rp_headers = ['':status'' \<mapsto> ''200''], rp_body = [] \<rparr>,
       Data 1 [10, 11] Outgoing False,
       OutgoingResponse \<lparr> rp_stream_id = 1, rp_status = ''200'',
          rp_headers = ['':status'' \<mapsto> ''200''], rp_body = [10, 11, 10, 11] \<rparr>], ob')"
proof -
  let ?ob = "observer_sample [] (encode_frame (headers_sample 4) @ encode_frame (data_sample 0)
          @ encode_frame (data_sample 1))"
  have hm: "headers_of_list [(as_bytes '':status'', as_bytes ''200'')] '':status'' = Some ''200''"
    "headers_of_list [(as_bytes '':status'', as_bytes ''200'')] '':method'' = None"
    by (simp_all add: status_headers)
  have "list_all2 (body_frame 1 False) [data_sample 0] [[10, 11]]" by (simp add: sample_defs)
  moreover have "body_frame 1 True (data_sample 1) [10, 11]" by (simp add: sample_defs)
  moreover have "status_hpack (hpack_decoder_outgoing ?ob) [0x88] =
      (Some [(as_bytes '':status'', as_bytes ''200'')], ())"
    by (simp add: status_hpack_def)
  ultimately have "\<exists>ob'. poll_all status_hpack Outgoing ?ob =
     (PartialOutgoingResponse
        \<lparr> rp_stream_id = 1, rp_status = the (headers_of_list [(as_bytes '':status'', as_bytes ''200'')] '':status''),
          rp_headers = headers_of_list [(as_bytes '':status'', as_bytes ''200'')], rp_body = [] \<rparr>
      # map (\<lambda>x. Data 1 x Outgoing False) [[10, 11]]
      @ [OutgoingResponse
           \<lparr> rp_stream_id = 1, rp_status = the (headers_of_list [(as_bytes '':status'', as_bytes ''200'')] '':status''),
             rp_headers = headers_of_list [(as_bytes '':status'', as_bytes ''200'')],
             rp_body = concat [[10, 11]] @ [10, 11] \<rparr>], ob')
     \<and> streams ob' = streams ?ob \<and> dir_buffer Outgoing ob' = []"
    by (intro response_reassembly [where h = "headers_sample 4" and block = "[0x88]" and d' = "()"
          and f = "data_sample 1" and fs = "[data_sample 0]"])
       (simp_all add: hm, simp_all add: sample_defs)
  then show ?thesis by (auto simp: hm status_headers)
qed

lemma polling_stops_only_without_frames_witness:
  "parse_next_frame (dir_buffer Incoming (snd (poll_all status_hpack Incoming (observer_sample [0] [])))) = Some (Inl ())"
proof -
  have p: "poll_all status_hpack Incoming (observer_sample [0] []) = ([], observer_sample [0] [])"
    by (subst poll_all.simps)
      (simp add: poll_one_frame_def next_frame_def dir_buffer_def observer_sample_def H2Observer_new_def parse_next_frame_def)
  show ?thesis
    using polling_stops_only_without_frames [of status_hpack Incoming "observer_sample [0] []"]
    unfolding p Let_def snd_conv by (simp add: observer_sample_def H2Observer_new_def)
qed

end
