(* ===== verification/H1_Parser.thy ===== *)
theory H1_Parser
  imports Incremental
begin

text \<open>
  The HTTP/1 and WebSocket traffic observer, \<open>src/tcp_proxy/h1_parser.rs\<close>. The \<open>httparse\<close>
  crate is a parameter: \<open>hq\<close> for requests and \<open>hp\<close> for responses, each a function from the
  buffer to \<open>Complete\<close> with the number of bytes of the head, \<open>Partial\<close> or \<open>Malformed\<close>.
  Display implementations are not modelled.
\<close>

section \<open>Data\<close>

record ParsedRequest =
  pq_method :: string
  pq_path :: string
  pq_version :: byte
  pq_headers :: "(string \<times> string) list"
  pq_body :: "bytes option"

record ParsedResponse =
  pr_version :: byte
  pr_status_code :: u16
  pr_reason :: string
  pr_headers :: "(string \<times> string) list"
  pr_body :: "bytes option"

record WebSocketFrame =
  ws_fin :: bool
  ws_opcode :: byte
  ws_masked :: bool
  ws_payload :: bytes

datatype HttpData =
    Request ParsedRequest
  | Response ParsedResponse
  | WebSocketSend WebSocketFrame
  | WebSocketReceive WebSocketFrame
  | WebSocketOpened
  | WebSocketClosed
  | ProtocolSwitchedToWebSocket

datatype ConnectionState = Http | UpgradeRequested | WebSocket

datatype DataDirection = ClientToServer | ServerToClient

record H1Observer =
  client_to_server :: bytes
  server_to_client :: bytes
  conn_state :: ConnectionState

definition H1Observer_default :: H1Observer where
  "H1Observer_default = \<lparr> client_to_server = [], server_to_client = [], conn_state = Http \<rparr>"

section \<open>WebSocket frames\<close>

datatype ws_error =
    IncompleteHeader | IncompleteLength126 | IncompleteLength127 | IncompleteKey | IncompletePayload

text \<open>
  \<open>index + payload_len\<close> is a \<open>usize\<close> addition: past \<open>2 ^ 64\<close> it panics with overflow checks, and
  without them the wrapped bound is below \<open>index\<close>, so that the slice panics.
\<close>

definition unmask :: "bytes \<Rightarrow> bytes \<Rightarrow> bytes" where
  "unmask key payload = map (\<lambda>i. payload ! i XOR key ! (i mod 4)) [0..<length payload]"

definition ws_finish ::
  "bytes \<Rightarrow> bool \<Rightarrow> byte \<Rightarrow> bytes option \<Rightarrow> nat \<Rightarrow> nat \<Rightarrow> (ws_error + WebSocketFrame \<times> nat) run" where
  "ws_finish buf fin opcode masking_key index payload_len =
     (if 2 ^ 64 \<le> index + payload_len then None
      else if length buf < index + payload_len then Some (Inl IncompletePayload)
      else do {
        payload \<leftarrow> slice buf index (index + payload_len);
        Some (Inr (\<lparr> ws_fin = fin, ws_opcode = opcode, ws_masked = (masking_key \<noteq> None),
                     ws_payload = (case masking_key of Some key \<Rightarrow> unmask key payload | None \<Rightarrow> payload) \<rparr>,
                   index + payload_len)) })"

definition parse_websocket_frame :: "bytes \<Rightarrow> (ws_error + WebSocketFrame \<times> nat) run" where
  "parse_websocket_frame buf =
     (if length buf < 2 then Some (Inl IncompleteHeader)
      else do {
        first_byte \<leftarrow> idx buf 0;
        second_byte \<leftarrow> idx buf 1;
        (let fin = (first_byte AND 0x80 \<noteq> 0);
             opcode = first_byte AND 0x0F;
             masked = (second_byte AND 0x80 \<noteq> 0);
             payload_len = unat (second_byte AND 0x7F);
             index = 2;
             len =
               (if payload_len = 126 then
                  if length buf < index + 2 then Inl IncompleteLength126
                  else Inr (index + 2, unat (be_word (take 2 (drop index buf)) :: u64))
                else if payload_len = 127 then
                  if length buf < index + 8 then Inl IncompleteLength127
                  else Inr (index + 8, unat (be_word (take 8 (drop index buf)) :: u64))
                else Inr (index, payload_len)) in
         case len of
           Inl e \<Rightarrow> Some (Inl e)
         | Inr (index, payload_len) \<Rightarrow>
             if masked then
               if length buf < index + 4 then Some (Inl IncompleteKey)
               else do {
                 key \<leftarrow> slice buf index (index + 4);
                 ws_finish buf fin opcode (Some key) (index + 4) payload_len }
             else ws_finish buf fin opcode None index payload_len) })"

section \<open>HTTP messages\<close>

text \<open>What \<open>httparse\<close> fills in on \<open>Ok(Status::Complete(n))\<close>.\<close>

record http_head =
  hh_method :: "string option"
  hh_path :: "string option"
  hh_version :: "byte option"
  hh_code :: "u16 option"
  hh_reason :: "string option"
  hh_headers :: "(string \<times> bytes) list"

datatype httparse_status = Complete nat http_head | Partial | Malformed

type_synonym httparse = "bytes \<Rightarrow> httparse_status"

datatype h1_error = IncompleteBody | IncompleteMessage | FailedToParse

definition header_text :: "bytes \<Rightarrow> string" where
  "header_text v = unwrap_or (from_utf8 v) ''<invalid UTF-8>''"

definition content_length :: "(string \<times> string) list \<Rightarrow> nat" where
  "content_length hs =
     (case List.find (\<lambda>(name, value). str_eq_ignore_case name ''Content-Length'') hs of
        Some (name, value) \<Rightarrow> unwrap_or (parse_uint 64 value) 0
      | None \<Rightarrow> 0)"

text \<open>The body after a head of \<open>n\<close> bytes: the part both parsers have in common.\<close>

definition take_body :: "bytes \<Rightarrow> nat \<Rightarrow> nat \<Rightarrow> (h1_error + bytes option) run" where
  "take_body buf n cl =
     (if 2 ^ 64 \<le> n + cl then None
      else if length buf < n + cl then Some (Inl IncompleteBody)
      else if 0 < cl then do { b \<leftarrow> slice buf n (n + cl); Some (Inr (Some b)) }
      else Some (Inr None))"

definition parse_http_request :: "httparse \<Rightarrow> bytes \<Rightarrow> (h1_error + ParsedRequest \<times> nat) run" where
  "parse_http_request hq buf =
     (case hq buf of
        Complete n head \<Rightarrow>
          (let parsed_headers = map (\<lambda>(name, value). (name, header_text value)) (hh_headers head);
               cl = content_length parsed_headers in
           case take_body buf n cl of
             None \<Rightarrow> None
           | Some (Inl e) \<Rightarrow> Some (Inl e)
           | Some (Inr body) \<Rightarrow>
               Some (Inr (\<lparr> pq_method = unwrap_or (hh_method head) '''',
                            pq_path = unwrap_or (hh_path head) '''',
                            pq_version = unwrap_or (hh_version head) 1,
                            pq_headers = parsed_headers, pq_body = body \<rparr>, n + cl)))
      | Partial \<Rightarrow> Some (Inl IncompleteMessage)
      | Malformed \<Rightarrow> Some (Inl FailedToParse))"

definition parse_http_response :: "httparse \<Rightarrow> bytes \<Rightarrow> (h1_error + ParsedResponse \<times> nat) run" where
  "parse_http_response hp buf =
     (case hp buf of
        Complete n head \<Rightarrow>
          (let parsed_headers = map (\<lambda>(name, value). (name, header_text value)) (hh_headers head);
               cl = content_length parsed_headers in
           case take_body buf n cl of
             None \<Rightarrow> None
           | Some (Inl e) \<Rightarrow> Some (Inl e)
           | Some (Inr body) \<Rightarrow>
               Some (Inr (\<lparr> pr_version = unwrap_or (hh_version head) 1,
                            pr_status_code = unwrap_or (hh_code head) 200,
                            pr_reason = unwrap_or (hh_reason head) '''',
                            pr_headers = parsed_headers, pr_body = body \<rparr>, n + cl)))
      | Partial \<Rightarrow> Some (Inl IncompleteMessage)
      | Malformed \<Rightarrow> Some (Inl FailedToParse))"

text \<open>
  \<open>value.to_lowercase().contains("upgrade")\<close>: lower-casing is Unicode's, but no character outside
  ASCII has one of the letters of \<open>upgrade\<close> in its lower case, so the ASCII fold decides the same.
\<close>

definition upgrade_headers :: "(string \<times> string) list \<Rightarrow> bool" where
  "upgrade_headers hs \<longleftrightarrow>
     list_ex (\<lambda>(name, value). str_eq_ignore_case name ''Upgrade'' \<and> str_eq_ignore_case value ''websocket'') hs \<and>
     list_ex (\<lambda>(name, value). str_eq_ignore_case name ''Connection'' \<and>
                contains_sub (map ascii_lower (as_bytes value)) (as_bytes ''upgrade'')) hs"

definition is_websocket_upgrade :: "HttpData \<Rightarrow> bool" where
  "is_websocket_upgrade event =
     (case event of
        Request req \<Rightarrow> upgrade_headers (pq_headers req)
      | Response resp \<Rightarrow> pr_status_code resp = 101 \<and> upgrade_headers (pr_headers resp)
      | _ \<Rightarrow> False)"

section \<open>The observer\<close>

definition push :: "DataDirection \<Rightarrow> bytes \<Rightarrow> H1Observer \<Rightarrow> H1Observer" where
  "push dir data ob =
     (case dir of
        ClientToServer \<Rightarrow> ob\<lparr> client_to_server := client_to_server ob @ data \<rparr>
      | ServerToClient \<Rightarrow> ob\<lparr> server_to_client := server_to_client ob @ data \<rparr>)"

text \<open>The bodies of the loops of \<open>parse\<close>: they append events and may change the state.\<close>

type_synonym h1_acc = "HttpData list \<times> ConnectionState"

definition on_request :: "ParsedRequest \<Rightarrow> h1_acc \<Rightarrow> h1_acc" where
  "on_request req acc =
     (let (evs, st) = acc; evs = evs @ [Request req] in
      if is_websocket_upgrade (Request req) then (evs @ [ProtocolSwitchedToWebSocket], UpgradeRequested)
      else (evs, st))"

definition on_response :: "ParsedResponse \<Rightarrow> h1_acc \<Rightarrow> h1_acc" where
  "on_response resp acc =
     (let (evs, st) = acc; evs = evs @ [Response resp] in
      if is_websocket_upgrade (Response resp) then (evs @ [WebSocketOpened], WebSocket) else (evs, st))"

definition on_frame :: "(WebSocketFrame \<Rightarrow> HttpData) \<Rightarrow> WebSocketFrame \<Rightarrow> h1_acc \<Rightarrow> h1_acc" where
  "on_frame event frame acc =
     (let (evs, st) = acc; evs = evs @ [event frame] in
      if ws_opcode frame = 0x8 then (evs @ [WebSocketClosed], Http) else (evs, st))"

definition parse :: "httparse \<Rightarrow> httparse \<Rightarrow> H1Observer \<Rightarrow> (HttpData list \<times> H1Observer) run" where
  "parse hq hp ob =
     (case conn_state ob of
        Http \<Rightarrow> do {
          (acc, c2s) \<leftarrow> drain_with (parse_http_request hq) on_request (client_to_server ob) ([], Http);
          ((evs, st), s2c) \<leftarrow> drain_with (parse_http_response hp) on_response (server_to_client ob) acc;
          Some (evs, \<lparr> client_to_server = c2s, server_to_client = s2c, conn_state = st \<rparr>) }
      | UpgradeRequested \<Rightarrow> do {
          ((evs, st), s2c) \<leftarrow>
            drain_with (parse_http_response hp) on_response (server_to_client ob) ([], UpgradeRequested);
          Some (evs, ob\<lparr> server_to_client := s2c, conn_state := st \<rparr>) }
      | WebSocket \<Rightarrow> do {
          (acc, c2s) \<leftarrow>
            drain_with parse_websocket_frame (on_frame WebSocketSend) (client_to_server ob) ([], WebSocket);
          ((evs, st), s2c) \<leftarrow>
            drain_with parse_websocket_frame (on_frame WebSocketReceive) (server_to_client ob) acc;
          Some (evs, \<lparr> client_to_server = c2s, server_to_client = s2c, conn_state = st \<rparr>) })"

section \<open>WebSocket frames, read and written\<close>

lemma ws_finish_cases:
  assumes "ws_finish buf fin op key i n = Some (Inr (f, m))"
  shows "m = i + n \<and> m \<le> length buf \<and> m < 2 ^ 64"
  using assms by (auto simp: ws_finish_def bind_eq_Some_conv split: if_splits)

lemma ws_finish_append:
  assumes "ws_finish buf fin op key i n = Some (Inr r)"
  shows "ws_finish (buf @ rest) fin op key i n = Some (Inr r)"
proof -
  obtain f m where r: "r = (f, m)" by (cases r)
  with ws_finish_cases assms have l: "i + n \<le> length buf" "i + n < 2 ^ 64" by blast+
  then have "n - (length buf - i) = 0" "i - length buf = 0" by simp_all
  with l assms show ?thesis by (simp add: ws_finish_def)
qed

interpretation ws_frames: incremental_parser parse_websocket_frame
proof (unfold_locales, goal_cases)
  case (1 buf f n)
  then show ?case
    by (auto simp: parse_websocket_frame_def Let_def dest!: ws_finish_cases
        split: if_splits sum.splits prod.splits bind_splits)
next
  case (2 buf f n more)
  then show ?case
    by (auto simp: parse_websocket_frame_def Let_def nth_append ws_finish_append idx_append
        split: if_splits sum.splits prod.splits bind_splits)
qed

text \<open>The wire form of a frame (RFC 6455, section 5.2), with the shortest length field.\<close>

definition enc64 :: "u64 \<Rightarrow> bytes" where
  "enc64 w = map (\<lambda>k. byte_at k w) [7, 6, 5, 4, 3, 2, 1, 0]"

definition encode_ws_length :: "bool \<Rightarrow> nat \<Rightarrow> bytes" where
  "encode_ws_length masked n =
     (let m = (if masked then 0x80 else 0) in
      if n < 126 then [m OR of_nat n]
      else if n < 2 ^ 16 then [m OR 126] @ enc16 (of_nat n)
      else [m OR 127] @ enc64 (of_nat n))"

definition encode_ws_frame :: "bytes option \<Rightarrow> WebSocketFrame \<Rightarrow> bytes" where
  "encode_ws_frame key f =
     [(if ws_fin f then 0x80 else 0) OR ws_opcode f]
     @ encode_ws_length (key \<noteq> None) (length (ws_payload f))
     @ (case key of Some k \<Rightarrow> k @ unmask k (ws_payload f) | None \<Rightarrow> ws_payload f)"

lemma unmask_unmask: "unmask key (unmask key payload) = payload"
  by (rule nth_equalityI) (simp_all add: unmask_def xor.assoc)

lemma length_unmask [simp]: "length (unmask key payload) = length payload"
  by (simp add: unmask_def)

lemma foldl_byte_at:
  fixes acc w :: "'w::len word"
  shows "foldl (\<lambda>acc b. push_bit 8 acc OR ucast b) acc (map (\<lambda>k. byte_at k w) (rev [0..<n]))
       = push_bit (8 * n) acc OR take_bit (8 * n) w"
proof (induction n arbitrary: acc)
  case 0
  then show ?case by simp
next
  case (Suc n)
  have "push_bit (8 * n) (push_bit 8 acc OR ucast (byte_at n w)) OR take_bit (8 * n) w
      = push_bit (8 * Suc n) acc OR take_bit (8 * Suc n) w"
    by (rule bit_word_eqI) (auto simp: byte_at_def bit_simps ac_simps)
  with Suc show ?case by simp
qed

lemma be_word_enc64: "be_word (enc64 w) = (w :: u64)"
proof -
  have "rev [0..<8] = [7, 6, 5, 4, 3, 2, 1, 0::nat]" by code_simp
  then show ?thesis
    using foldl_byte_at [of "0 :: u64" w 8] by (simp add: be_word_def enc64_def take_bit_word_eq_self)
qed

lemma be_word_enc16: "unat (be_word (enc16 w) :: u64) = unat w"
proof -
  have "be_nat (enc16 w) = unat (be16 (byte_at 1 w) (byte_at 0 w))"
    unfolding unat_be16 by (simp add: be_nat_def enc16_def)
  then show ?thesis by (simp add: unat_be_word enc16_def be16_enc [simplified])
qed

lemma byte_masks:
  assumes "n < 128" and "m = 0 \<or> m = 0x80"
  shows "unat ((m OR of_nat n) AND 0x7F :: byte) = n \<and> ((m OR of_nat n) AND 0x80 \<noteq> (0 :: byte)) = (m = 0x80)"
proof -
  have "\<forall>n \<in> set [0..<128]. \<forall>m \<in> set [0, 0x80 :: byte]. unat ((m OR of_nat n) AND 0x7F :: byte) = n
      \<and> ((m OR of_nat n) AND 0x80 \<noteq> (0 :: byte)) = (m = 0x80)"
    by code_simp
  with assms show ?thesis by auto
qed


definition ws_frame_wf :: "bytes option \<Rightarrow> WebSocketFrame \<Rightarrow> bool" where
  "ws_frame_wf key f \<longleftrightarrow>
     unat (ws_opcode f) < 16 \<and> length (ws_payload f) < 2 ^ 63 \<and> ws_masked f = (key \<noteq> None) \<and>
     (case key of Some k \<Rightarrow> length k = 4 | None \<Rightarrow> True)"

lemma ws_finish_at:
  assumes "i = length pre" and "n = length payload" and "i + n < 2 ^ 64"
  shows "ws_finish (pre @ payload @ rest) fin op key i n =
    Some (Inr (\<lparr> ws_fin = fin, ws_opcode = op, ws_masked = (key \<noteq> None),
                ws_payload = (case key of Some k \<Rightarrow> unmask k payload | None \<Rightarrow> payload) \<rparr>, i + n))"
  using assms by (simp add: ws_finish_def split: option.split)

text \<open>The three length forms, read back.\<close>

definition parse_ws_length :: "bytes \<Rightarrow> (ws_error + nat \<times> nat)" where
  "parse_ws_length buf =
     (let payload_len = unat (buf ! 1 AND 0x7F); index = 2 in
      if payload_len = 126 then
        if length buf < index + 2 then Inl IncompleteLength126
        else Inr (index + 2, unat (be_word (take 2 (drop index buf)) :: u64))
      else if payload_len = 127 then
        if length buf < index + 8 then Inl IncompleteLength127
        else Inr (index + 8, unat (be_word (take 8 (drop index buf)) :: u64))
      else Inr (index, payload_len))"

lemma parse_ws_length_encode:
  assumes "n < 2 ^ 63"
  shows "parse_ws_length (b0 # encode_ws_length masked n @ rest)
       = Inr (1 + length (encode_ws_length masked n), n)"
    and "((encode_ws_length masked n @ rest) ! 0 AND 0x80 \<noteq> 0) = masked"
    and "encode_ws_length masked n \<noteq> []"
proof -
  define m :: byte where "m = (if masked then 0x80 else 0)"
  have m: "m = 0 \<or> m = 0x80" "(m = 0x80) = masked" by (auto simp: m_def)
  consider "n < 126" | "126 \<le> n" "n < 2 ^ 16" | "2 ^ 16 \<le> n" by linarith
  then have "parse_ws_length (b0 # encode_ws_length masked n @ rest)
       = Inr (1 + length (encode_ws_length masked n), n) \<and>
     ((encode_ws_length masked n @ rest) ! 0 AND 0x80 \<noteq> 0) = masked \<and> encode_ws_length masked n \<noteq> []"
  proof cases
    case 1
    with m byte_masks [of n m] show ?thesis
      by (simp add: encode_ws_length_def parse_ws_length_def Let_def flip: m_def)
  next
    case 2
    have "unat (of_nat n :: u16) = n" using 2 by (simp add: unsigned_of_nat take_bit_eq_mod)
    moreover have "take 2 (enc16 (of_nat n) @ rest) = enc16 (of_nat n)" "length (enc16 (of_nat n)) = 2"
      by (simp_all add: enc16_def)
    ultimately show ?thesis using m byte_masks [of 126 m] 2
      by (simp add: encode_ws_length_def parse_ws_length_def Let_def be_word_enc16 flip: m_def)
  next
    case 3
    have "unat (of_nat n :: u64) = n" using assms by (simp add: unsigned_of_nat take_bit_eq_mod)
    moreover have "take 8 (enc64 (of_nat n) @ rest) = enc64 (of_nat n)" "length (enc64 (of_nat n)) = 8"
      by (simp_all add: enc64_def)
    ultimately show ?thesis using m byte_masks [of 127 m] 3
      by (simp add: encode_ws_length_def parse_ws_length_def Let_def be_word_enc64 flip: m_def)
  qed
  then show "parse_ws_length (b0 # encode_ws_length masked n @ rest)
       = Inr (1 + length (encode_ws_length masked n), n)"
    and "((encode_ws_length masked n @ rest) ! 0 AND 0x80 \<noteq> 0) = masked"
    and "encode_ws_length masked n \<noteq> []" by simp_all
qed

lemma parse_websocket_frame_split:
  assumes "2 \<le> length buf"
  shows "parse_websocket_frame buf =
    (case parse_ws_length buf of
       Inl e \<Rightarrow> Some (Inl e)
     | Inr (index, payload_len) \<Rightarrow>
         if buf ! 1 AND 0x80 \<noteq> 0 then
           if length buf < index + 4 then Some (Inl IncompleteKey)
           else do {
             key \<leftarrow> slice buf index (index + 4);
             ws_finish buf (buf ! 0 AND 0x80 \<noteq> 0) (buf ! 0 AND 0x0F) (Some key) (index + 4) payload_len }
         else ws_finish buf (buf ! 0 AND 0x80 \<noteq> 0) (buf ! 0 AND 0x0F) None index payload_len)"
proof -
  have "buf \<noteq> []" using assms by auto
  with assms show ?thesis by (simp add: parse_websocket_frame_def parse_ws_length_def Let_def)
qed

lemma first_byte_masks:
  assumes "unat op < 16"
  shows "((if fin then 0x80 else 0) OR op) AND 0x0F = (op :: byte)"
    and "(((if fin then 0x80 else 0) OR op) AND 0x80 \<noteq> (0 :: byte)) = fin"
proof -
  have "\<forall>n \<in> set [0..<16]. \<forall>fin \<in> set [False, True]. ((if fin then 0x80 else 0) OR of_nat n) AND 0x0F = (of_nat n :: byte)
      \<and> (((if fin then 0x80 else 0) OR of_nat n) AND 0x80 \<noteq> (0 :: byte)) = fin"
    by code_simp
  then have "((if fin then 0x80 else 0) OR of_nat (unat op)) AND 0x0F = (of_nat (unat op) :: byte)
      \<and> (((if fin then 0x80 else 0) OR of_nat (unat op)) AND 0x80 \<noteq> (0 :: byte)) = fin"
  proof -
    assume all: "\<forall>n \<in> set [0..<16]. \<forall>fin \<in> set [False, True]. ((if fin then 0x80 else 0) OR of_nat n) AND 0x0F = (of_nat n :: byte)
      \<and> (((if fin then 0x80 else 0) OR of_nat n) AND 0x80 \<noteq> (0 :: byte)) = fin"
    have "unat op \<in> set [0..<16]" "fin \<in> set [False, True]" using assms by auto
    with all show ?thesis by blast
  qed
  then show "((if fin then 0x80 else 0) OR op) AND 0x0F = (op :: byte)"
    and "(((if fin then 0x80 else 0) OR op) AND 0x80 \<noteq> (0 :: byte)) = fin" by simp_all
qed

text \<open>An encoded WebSocket frame, masked or not and of any of the three length forms, is
  parsed back to itself with its payload unmasked, and exactly its bytes are consumed.\<close>

theorem websocket_frame_roundtrip:
  assumes "ws_frame_wf key f"
  shows "parse_websocket_frame (encode_ws_frame key f @ rest) =
           Some (Inr (f, length (encode_ws_frame key f)))"
proof -
  let ?len = "encode_ws_length (key \<noteq> None) (length (ws_payload f))"
  let ?b0 = "(if ws_fin f then 0x80 else 0) OR ws_opcode f"
  have n: "length (ws_payload f) < 2 ^ 63" and op: "unat (ws_opcode f) < 16"
    using assms by (simp_all add: ws_frame_wf_def)
  note L = parse_ws_length_encode [OF n]
  have short: "length ?len \<le> 9" by (simp add: encode_ws_length_def enc16_def enc64_def)
  show ?thesis
  proof (cases key)
    case None
    have buf: "encode_ws_frame key f @ rest = (?b0 # ?len) @ ws_payload f @ rest"
      by (simp add: encode_ws_frame_def None)
    have "2 \<le> length ((?b0 # ?len) @ ws_payload f @ rest)"
      using L(3) [of "key \<noteq> None"] by (cases ?len) auto
    then show ?thesis
      unfolding buf parse_websocket_frame_split [OF \<open>2 \<le> length ((?b0 # ?len) @ ws_payload f @ rest)\<close>]
      using L(1) [of ?b0 "key \<noteq> None" "ws_payload f @ rest"] L(2) [of "key \<noteq> None" "ws_payload f @ rest"] None short n assms
        ws_finish_at [of "1 + length ?len" "?b0 # ?len" "length (ws_payload f)" "ws_payload f" rest]
      by (simp add: first_byte_masks [OF op] encode_ws_frame_def ws_frame_wf_def)
  next
    case (Some k)
    have buf: "encode_ws_frame key f @ rest = (?b0 # ?len) @ k @ unmask k (ws_payload f) @ rest"
      by (simp add: encode_ws_frame_def Some)
    have k: "length k = 4" using assms Some by (simp add: ws_frame_wf_def)
    let ?buf = "(?b0 # ?len) @ k @ unmask k (ws_payload f) @ rest" and ?i = "1 + length ?len"
    have two: "2 \<le> length ?buf" using k by simp
    have pl: "parse_ws_length ?buf = Inr (?i, length (ws_payload f))"
      using L(1) [of ?b0 "key \<noteq> None" "k @ unmask k (ws_payload f) @ rest"] by simp
    have hd: "?buf ! 0 = ?b0" and mask: "?buf ! 1 AND 0x80 \<noteq> 0"
      using L(2) [of "key \<noteq> None" "k @ unmask k (ws_payload f) @ rest"] Some by simp_all
    have sl: "slice ?buf ?i (?i + 4) = Some k" and four: "\<not> length ?buf < ?i + 4"
      using k by (simp_all add: slice_def)
    have fin: "ws_finish ?buf (ws_fin f) (ws_opcode f) (Some k) (?i + 4) (length (ws_payload f)) =
        Some (Inr (\<lparr> ws_fin = ws_fin f, ws_opcode = ws_opcode f, ws_masked = True, ws_payload = ws_payload f \<rparr>,
                   ?i + 4 + length (ws_payload f)))"
    proof -
      have "?i + 4 = length (?b0 # ?len @ k)" "?i + 4 + length (ws_payload f) < 2 ^ 64"
        using k n short by simp_all
      from ws_finish_at [OF this(1) _ this(2), of "unmask k (ws_payload f)" rest]
      show ?thesis by (simp add: unmask_unmask)
    qed
    have "parse_websocket_frame ?buf = Some (Inr (\<lparr> ws_fin = ws_fin f, ws_opcode = ws_opcode f,
        ws_masked = True, ws_payload = ws_payload f \<rparr>, ?i + 4 + length (ws_payload f)))"
      by (simp only: parse_websocket_frame_split [OF two] pl hd mask sl four fin first_byte_masks [OF op]
          sum.case prod.case if_True if_False Option.bind.bind_lunit not_False_eq_True)
    then show ?thesis
      unfolding buf using assms Some k by (simp add: encode_ws_frame_def ws_frame_wf_def)
  qed
qed

section \<open>Lengths that overflow\<close>

text \<open>A WebSocket frame that announces a 64-bit length close to the maximum makes the observer
  panic: index + payload_len overflows.\<close>

theorem websocket_length_overflow_panics:
  assumes "conn_state ob = WebSocket"
    and "client_to_server ob = [first, 0x7F] @ enc64 len @ rest" and "2 ^ 64 - 10 \<le> unat len"
  shows "parse hq hp ob = None"
proof -
  have l: "length (enc64 len) = 8" by (simp add: enc64_def)
  have "parse_websocket_frame (client_to_server ob) = None"
    using assms(2,3) l
    by (simp add: parse_websocket_frame_split parse_ws_length_def Let_def be_word_enc64 ws_finish_def)
  then have "drain_with parse_websocket_frame (on_frame WebSocketSend) (client_to_server ob) ([], WebSocket) = None"
    by (subst drain_with.simps) simp
  with assms(1) show ?thesis by (simp add: parse_def)
qed

lemma websocket_length_overflow_panics_witness:
  "parse (\<lambda>_. Partial) (\<lambda>_. Partial)
     \<lparr> client_to_server = [0x81, 0x7F] @ enc64 0xFFFFFFFFFFFFFFFF @ [], server_to_client = [], conn_state = WebSocket \<rparr> = None"
  by (rule websocket_length_overflow_panics [where first = "0x81" and len = "0xFFFFFFFFFFFFFFFF" and rest = "[]"]) simp_all

section \<open>What the loops add to the events\<close>

definition request_events :: "ParsedRequest \<Rightarrow> HttpData list" where
  "request_events r = Request r # (if is_websocket_upgrade (Request r) then [ProtocolSwitchedToWebSocket] else [])"

definition response_events :: "ParsedResponse \<Rightarrow> HttpData list" where
  "response_events r = Response r # (if is_websocket_upgrade (Response r) then [WebSocketOpened] else [])"

definition frame_events :: "(WebSocketFrame \<Rightarrow> HttpData) \<Rightarrow> WebSocketFrame \<Rightarrow> HttpData list" where
  "frame_events ev f = ev f # (if ws_opcode f = 0x8 then [WebSocketClosed] else [])"

text \<open>Every item the loop takes off a buffer, and the bytes it leaves.\<close>

definition items :: "('b list \<Rightarrow> ('e + 'f \<times> nat) run) \<Rightarrow> 'b list \<Rightarrow> ('f list \<times> 'b list) option" where
  "items p buf = drain_with p (\<lambda>x xs. xs @ [x]) buf []"

lemma drain_events:
  assumes body: "\<And>x evs st. h x (evs, st) = (evs @ out x, if sw x then target else st)"
    and run: "drain_with p h buf acc = Some (acc', rest)"
  shows "\<exists>xs. items p buf = Some (xs, rest) \<and> fst acc' = fst acc @ concat (map out xs) \<and>
           snd acc' = (if \<exists>x \<in> set xs. sw x then target else snd acc)"
proof -
  have "\<And>r. drain_with p h buf acc = Some r \<Longrightarrow>
      \<exists>xs. (\<forall>ys. drain_with p (\<lambda>x xs. xs @ [x]) buf ys = Some (ys @ xs, snd r)) \<and>
        fst (fst r) = fst acc @ concat (map out xs) \<and> snd (fst r) = (if \<exists>x \<in> set xs. sw x then target else snd acc)"
  proof -
    fix r
    assume "drain_with p h buf acc = Some r"
    then show "\<exists>xs. (\<forall>ys. drain_with p (\<lambda>x xs. xs @ [x]) buf ys = Some (ys @ xs, snd r)) \<and>
        fst (fst r) = fst acc @ concat (map out xs) \<and> snd (fst r) = (if \<exists>x \<in> set xs. sw x then target else snd acc)"
    proof (induction rule: drain_with_induct)
      case (stop buf s e)
      then show ?case by (intro exI [of _ "[]"]) (simp add: drain_with_stop)
    next
      case (step buf s f n r)
      then obtain xs where xs: "\<forall>ys. drain_with p (\<lambda>x xs. xs @ [x]) (drop n buf) ys = Some (ys @ xs, snd r)"
        "fst (fst r) = fst (h f s) @ concat (map out xs)"
        "snd (fst r) = (if \<exists>x \<in> set xs. sw x then target else snd (h f s))" by blast
      obtain evs st where s: "s = (evs, st)" by (cases s)
      show ?case
        using xs by (intro exI [of _ "f # xs"]) (simp add: s body drain_with_step [where p = p, OF step.hyps(1)])
    qed
  qed
  from this [OF run] obtain xs where "\<forall>ys. drain_with p (\<lambda>x xs. xs @ [x]) buf ys = Some (ys @ xs, rest)"
    and "fst acc' = fst acc @ concat (map out xs)" "snd acc' = (if \<exists>x \<in> set xs. sw x then target else snd acc)"
    by auto
  then show ?thesis by (intro exI [of _ xs]) (simp add: items_def)
qed

lemma on_request_body:
  "on_request r (evs, st) = (evs @ request_events r, if is_websocket_upgrade (Request r) then UpgradeRequested else st)"
  by (simp add: on_request_def request_events_def Let_def)

lemma on_response_body:
  "on_response r (evs, st) = (evs @ response_events r, if is_websocket_upgrade (Response r) then WebSocket else st)"
  by (simp add: on_response_def response_events_def Let_def)

lemma on_frame_body:
  "on_frame ev f (evs, st) = (evs @ frame_events ev f, if ws_opcode f = 0x8 then Http else st)"
  by (simp add: on_frame_def frame_events_def Let_def)

lemmas drain_requests = drain_events [where h = on_request, OF on_request_body]
lemmas drain_responses = drain_events [where h = on_response, OF on_response_body]
lemmas drain_frames = drain_events [where h = "on_frame ev" for ev, OF on_frame_body]


section \<open>Arrival in chunks\<close>

lemma drain_with_shift:
  assumes shift: "\<And>f s. h f (g s) = g (h f s)" and run: "drain_with p h buf s = Some (s', rest)"
  shows "drain_with p h buf (g s) = Some (g s', rest)"
proof -
  have "\<And>r. drain_with p h buf s = Some r \<Longrightarrow> drain_with p h buf (g s) = Some (g (fst r), snd r)"
  proof -
    fix r
    assume "drain_with p h buf s = Some r"
    then show "drain_with p h buf (g s) = Some (g (fst r), snd r)"
      by (induction rule: drain_with_induct) (simp_all add: drain_with_stop drain_with_step shift)
  qed
  from this [OF run] show ?thesis by simp
qed

definition after :: "HttpData list \<Rightarrow> h1_acc \<Rightarrow> h1_acc" where
  "after pre acc = (pre @ fst acc, snd acc)"

text \<open>One direction, its loop resumed on the bytes left over.\<close>

lemma drain_chunks:
  assumes "incremental_parser p"
    and "\<And>f acc. h f (after pre acc) = after pre (h f acc)"
    and "drain_with p h (c @ a) ([], st) = Some ((pre, st'), rest)"
    and "drain_with p h (rest @ b) ([], st') = Some ((evs, st''), rest')"
  shows "drain_with p h (c @ a @ b) ([], st) = Some ((pre @ evs, st''), rest')"
proof -
  have "drain_with p h ((c @ a) @ b) ([], st) = drain_with p h (rest @ b) (after pre ([], st'))"
    using incremental_parser.drain_append [OF assms(1,3), of b] by (simp add: after_def)
  also have "\<dots> = Some (after pre (evs, st''), rest')"
    using drain_with_shift [where g = "after pre", OF assms(2,4)] by simp
  finally show ?thesis by (simp add: after_def)
qed

text \<open>WebSocket bytes that arrive in two chunks give the same events and the same observer as
  the bytes arriving at once.\<close>

theorem websocket_chunks:
  assumes "conn_state ob = WebSocket" and "server_to_client ob = []"
    and "parse hq hp (push ClientToServer a ob) = Some (evs1, ob1)" and "conn_state ob1 = WebSocket"
    and "parse hq hp (push ClientToServer b ob1) = Some (evs2, ob2)"
  shows "parse hq hp (push ClientToServer (a @ b) ob) = Some (evs1 @ evs2, ob2)"
proof -
  let ?h = "on_frame WebSocketSend"
  have none: "drain_with parse_websocket_frame h [] acc = Some (acc, [])" for h :: "_ \<Rightarrow> h1_acc \<Rightarrow> h1_acc" and acc
    by (rule drain_with_stop [where e = IncompleteHeader]) (simp add: parse_websocket_frame_def)
  from assms(1,2,3,4) obtain r1 where
    d1: "drain_with parse_websocket_frame ?h (client_to_server ob @ a) ([], WebSocket) = Some ((evs1, WebSocket), r1)"
    and ob1: "ob1 = \<lparr> client_to_server = r1, server_to_client = [], conn_state = WebSocket \<rparr>"
    by (auto simp: parse_def push_def bind_eq_Some_conv none)
  from assms(5) obtain r2 st2 where
    d2: "drain_with parse_websocket_frame ?h (r1 @ b) ([], WebSocket) = Some ((evs2, st2), r2)"
    and ob2: "ob2 = \<lparr> client_to_server = r2, server_to_client = [], conn_state = st2 \<rparr>"
    by (auto simp: parse_def push_def bind_eq_Some_conv none ob1)
  have "drain_with parse_websocket_frame ?h (client_to_server ob @ a @ b) ([], WebSocket) = Some ((evs1 @ evs2, st2), r2)"
    by (rule drain_chunks [OF ws_frames.incremental_parser_axioms _ d1 d2])
       (auto simp: on_frame_def after_def Let_def split: prod.splits)
  with assms(1,2) show ?thesis by (simp add: parse_def push_def none ob2)
qed

lemma websocket_chunks_witness:
  "parse (\<lambda>_. Partial) (\<lambda>_. Partial) (push ClientToServer ([0x81] @ [0x01, 65]) (H1Observer_default\<lparr> conn_state := WebSocket \<rparr>))
   = Some ([] @ [WebSocketSend \<lparr> ws_fin = True, ws_opcode = 1, ws_masked = False, ws_payload = [65] \<rparr>],
           H1Observer_default\<lparr> conn_state := WebSocket \<rparr>)"
proof -
  let ?hp = "\<lambda>_. Partial" and ?ws = "H1Observer_default\<lparr> conn_state := WebSocket \<rparr>"
  let ?f = "\<lparr> ws_fin = True, ws_opcode = 1, ws_masked = False, ws_payload = [65] \<rparr>"
  have none: "drain_with parse_websocket_frame h [] acc = Some (acc, [])" for h :: "_ \<Rightarrow> h1_acc \<Rightarrow> h1_acc" and acc
    by (rule drain_with_stop [where e = IncompleteHeader]) (simp add: parse_websocket_frame_def)
  have one: "drain_with parse_websocket_frame h [0x81] acc = Some (acc, [0x81])" for h :: "_ \<Rightarrow> h1_acc \<Rightarrow> h1_acc" and acc
    by (rule drain_with_stop [where e = IncompleteHeader]) (simp add: parse_websocket_frame_def)
  have "parse_websocket_frame [0x81, 0x01, 65] = Some (Inr (?f, 3))"
    by (simp add: parse_websocket_frame_def Let_def ws_finish_def)
  then have full: "drain_with parse_websocket_frame h [0x81, 0x01, 65] acc = Some (h ?f acc, [])"
    for h :: "_ \<Rightarrow> h1_acc \<Rightarrow> h1_acc" and acc
    by (simp add: drain_with_step none)
  let ?ob1 = "?ws\<lparr> client_to_server := [0x81] \<rparr>"
  show ?thesis
  proof (rule websocket_chunks)
    show "parse ?hp ?hp (push ClientToServer [0x81] ?ws) = Some ([], ?ob1)"
      by (simp add: parse_def push_def H1Observer_default_def one none)
    show "parse ?hp ?hp (push ClientToServer [0x01, 65] ?ob1) = Some ([WebSocketSend ?f], ?ws)"
      by (simp add: parse_def push_def H1Observer_default_def full none on_frame_def)
  qed (simp_all add: H1Observer_default_def)
qed

section \<open>HTTP messages from an incremental head parser\<close>

text \<open>
  What the observer relies on of \<open>httparse\<close>: a complete head is at least one byte and lies in the
  buffer, and bytes after it do not change the answer.
\<close>

definition httparse_law :: "httparse \<Rightarrow> bool" where
  "httparse_law hq \<longleftrightarrow>
     (\<forall>buf n head. hq buf = Complete n head \<longrightarrow> 0 < n \<and> n \<le> length buf \<and> (\<forall>rest. hq (buf @ rest) = Complete n head))"

lemma take_body_bound: "take_body buf n cl = Some (Inr b) \<Longrightarrow> n + cl \<le> length buf"
  by (auto simp: take_body_def split: if_splits)

lemma take_body_append:
  assumes "take_body buf n cl = Some (Inr b)"
  shows "take_body (buf @ rest) n cl = Some (Inr b)"
proof -
  have l: "n + cl \<le> length buf" by (rule take_body_bound [OF assms])
  then have "cl - (length buf - n) = 0" by simp
  with l assms show ?thesis by (auto simp: take_body_def split: if_splits)
qed

lemma http_requests_incremental:
  assumes "httparse_law hq"
  shows "incremental_parser (parse_http_request hq)"
proof (unfold_locales, goal_cases)
  case (1 buf f n)
  then show ?case
    by (auto simp: parse_http_request_def Let_def take_body_bound split: httparse_status.splits option.splits sum.splits)
next
  case (2 buf f n more)
  then show ?case
    using assms
    by (auto simp: parse_http_request_def httparse_law_def Let_def take_body_append
        split: httparse_status.splits option.splits sum.splits)
qed

text \<open>HTTP/1 requests that arrive in two chunks give the same events and the same observer as
  arriving at once, if httparse does not change a complete answer when more bytes follow.\<close>

theorem request_chunks:
  assumes "httparse_law hq" and "hp [] = Partial"
    and "conn_state ob = Http" and "server_to_client ob = []"
    and "parse hq hp (push ClientToServer a ob) = Some (evs1, ob1)" and "conn_state ob1 = Http"
    and "parse hq hp (push ClientToServer b ob1) = Some (evs2, ob2)"
  shows "parse hq hp (push ClientToServer (a @ b) ob) = Some (evs1 @ evs2, ob2)"
proof -
  have none: "drain_with (parse_http_response hp) h [] acc = Some (acc, [])" for h :: "_ \<Rightarrow> h1_acc \<Rightarrow> h1_acc" and acc
    by (rule drain_with_stop [where e = IncompleteMessage]) (simp add: parse_http_response_def assms(2))
  from assms(3-6) obtain r1 where
    d1: "drain_with (parse_http_request hq) on_request (client_to_server ob @ a) ([], Http) = Some ((evs1, Http), r1)"
    and ob1: "ob1 = \<lparr> client_to_server = r1, server_to_client = [], conn_state = Http \<rparr>"
    by (auto simp: parse_def push_def bind_eq_Some_conv none)
  from assms(7) obtain r2 st2 where
    d2: "drain_with (parse_http_request hq) on_request (r1 @ b) ([], Http) = Some ((evs2, st2), r2)"
    and ob2: "ob2 = \<lparr> client_to_server = r2, server_to_client = [], conn_state = st2 \<rparr>"
    by (auto simp: parse_def push_def bind_eq_Some_conv none ob1)
  have "drain_with (parse_http_request hq) on_request (client_to_server ob @ a @ b) ([], Http) = Some ((evs1 @ evs2, st2), r2)"
    by (rule drain_chunks [OF http_requests_incremental [OF assms(1)] _ d1 d2])
       (auto simp: on_request_def after_def Let_def split: prod.splits)
  with assms(3,4) show ?thesis by (simp add: parse_def push_def none ob2)
qed

text \<open>A 101 upgrade response that answers no request switches the observer to WebSocket.\<close>

theorem unrequested_switch:
  assumes "conn_state ob = Http" and "client_to_server ob = []" and "hq [] = Partial" and "hp [] = Partial"
    and "parse_http_response hp (server_to_client ob) = Some (Inr (r, length (server_to_client ob)))"
    and "is_websocket_upgrade (Response r)"
  shows "parse hq hp ob =
    Some ([Response r, WebSocketOpened], \<lparr> client_to_server = [], server_to_client = [], conn_state = WebSocket \<rparr>)"
proof -
  have req: "drain_with (parse_http_request hq) h [] acc = Some (acc, [])" for h :: "_ \<Rightarrow> h1_acc \<Rightarrow> h1_acc" and acc
    by (rule drain_with_stop [where e = IncompleteMessage]) (simp add: parse_http_request_def assms(3))
  have none: "drain_with (parse_http_response hp) h [] acc = Some (acc, [])" for h :: "_ \<Rightarrow> h1_acc \<Rightarrow> h1_acc" and acc
    by (rule drain_with_stop [where e = IncompleteMessage]) (simp add: parse_http_response_def assms(4))
  have "drain_with (parse_http_response hp) on_response (server_to_client ob) ([], Http) = Some (on_response r ([], Http), [])"
    using assms(5) by (simp add: drain_with_step none)
  with assms show ?thesis by (simp add: parse_def req on_response_def)
qed

section \<open>Concrete input\<close>

text \<open>A head parser that satisfies the law: every byte is a complete head.\<close>

definition byte_heads :: "http_head \<Rightarrow> httparse" where
  "byte_heads head buf = (if buf = [] then Partial else Complete 1 head)"

definition plain_head :: http_head where
  "plain_head = \<lparr> hh_method = Some ''GET'', hh_path = Some ''/'', hh_version = Some 1, hh_code = Some 200,
                  hh_reason = Some ''OK'', hh_headers = [] \<rparr>"

definition switch_head :: http_head where
  "switch_head = plain_head\<lparr> hh_code := Some 101,
     hh_headers := [(''upgrade'', as_bytes ''WebSocket''), (''connection'', as_bytes ''keep-alive, Upgrade'')] \<rparr>"

definition plain_request :: ParsedRequest where
  "plain_request = \<lparr> pq_method = ''GET'', pq_path = ''/'', pq_version = 1, pq_headers = [], pq_body = None \<rparr>"

definition switch_response :: ParsedResponse where
  "switch_response = \<lparr> pr_version = 1, pr_status_code = 101, pr_reason = ''OK'',
     pr_headers = [(''upgrade'', ''WebSocket''), (''connection'', ''keep-alive, Upgrade'')], pr_body = None \<rparr>"

lemma byte_heads_law: "httparse_law (byte_heads head)"
  by (auto simp: httparse_law_def byte_heads_def Suc_le_eq split: if_splits)

lemma byte_heads_request: "parse_http_request (byte_heads plain_head) (b # bs) = Some (Inr (plain_request, 1))"
  by (simp add: parse_http_request_def byte_heads_def plain_head_def plain_request_def content_length_def take_body_def)

lemma byte_heads_response: "parse_http_response (byte_heads switch_head) [b] = Some (Inr (switch_response, 1))"
proof -
  have "header_text (as_bytes ''WebSocket'') = ''WebSocket''"
    "header_text (as_bytes ''keep-alive, Upgrade'') = ''keep-alive, Upgrade''" by code_simp+
  moreover have "content_length [(''upgrade'', ''WebSocket''), (''connection'', ''keep-alive, Upgrade'')] = 0" by code_simp
  ultimately show ?thesis
    by (simp add: parse_http_response_def byte_heads_def switch_head_def plain_head_def switch_response_def take_body_def)
qed

lemma switch_is_upgrade: "is_websocket_upgrade (Response switch_response)" by code_simp

lemma plain_not_upgrade: "\<not> is_websocket_upgrade (Request plain_request)" by code_simp

lemma request_chunks_witness:
  "parse (byte_heads plain_head) (\<lambda>_. Partial) (push ClientToServer ([1] @ [2]) H1Observer_default) =
     Some ([Request plain_request] @ [Request plain_request], H1Observer_default)"
proof (rule request_chunks)
  let ?hp = "\<lambda>_. Partial"
  have none: "drain_with (parse_http_response ?hp) h [] acc = Some (acc, [])" for h :: "_ \<Rightarrow> h1_acc \<Rightarrow> h1_acc" and acc
    by (rule drain_with_stop [where e = IncompleteMessage]) (simp add: parse_http_response_def)
  have nil: "drain_with (parse_http_request (byte_heads plain_head)) h [] acc = Some (acc, [])"
    for h :: "_ \<Rightarrow> h1_acc \<Rightarrow> h1_acc" and acc
    by (rule drain_with_stop [where e = IncompleteMessage]) (simp add: parse_http_request_def byte_heads_def)
  have step: "drain_with (parse_http_request (byte_heads plain_head)) h [b] acc = Some (h plain_request acc, [])"
    for h :: "_ \<Rightarrow> h1_acc \<Rightarrow> h1_acc" and acc b
    using byte_heads_request [of b "[]"] by (simp add: drain_with_step nil)
  show "parse (byte_heads plain_head) ?hp (push ClientToServer [1] H1Observer_default) =
      Some ([Request plain_request], H1Observer_default)"
    by (simp add: parse_def push_def H1Observer_default_def step none on_request_def plain_not_upgrade)
  show "parse (byte_heads plain_head) ?hp (push ClientToServer [2] H1Observer_default) =
      Some ([Request plain_request], H1Observer_default)"
    by (simp add: parse_def push_def H1Observer_default_def step none on_request_def plain_not_upgrade)
qed (simp_all add: byte_heads_law H1Observer_default_def)

lemma unrequested_switch_witness:
  "parse (\<lambda>_. Partial) (byte_heads switch_head)
     \<lparr> client_to_server = [], server_to_client = [7], conn_state = Http \<rparr> =
   Some ([Response switch_response, WebSocketOpened],
         \<lparr> client_to_server = [], server_to_client = [], conn_state = WebSocket \<rparr>)"
  by (rule unrequested_switch)
     (simp_all add: byte_heads_response [simplified] byte_heads_def [of _ "[]"] switch_is_upgrade)


lemma websocket_frame_roundtrip_witness:
  "parse_websocket_frame (encode_ws_frame (Some [1, 2, 3, 4])
     \<lparr> ws_fin = True, ws_opcode = 0x1, ws_masked = True, ws_payload = [0x68, 0x69] \<rparr> @ [0x81]) =
   Some (Inr (\<lparr> ws_fin = True, ws_opcode = 0x1, ws_masked = True, ws_payload = [0x68, 0x69] \<rparr>, 8))"
proof -
  let ?f = "\<lparr> ws_fin = True, ws_opcode = 0x1, ws_masked = True, ws_payload = [0x68, 0x69] \<rparr>"
  have "ws_frame_wf (Some [1, 2, 3, 4]) ?f" by (simp add: ws_frame_wf_def)
  from websocket_frame_roundtrip [OF this, of "[0x81]"] show ?thesis
    by (simp add: encode_ws_frame_def encode_ws_length_def)
qed

end
