(* ===== verification/Http1_Initial.thy ===== *)
theory Http1_Initial
  imports Prelude
begin

text \<open>
  The first look at a plain-text connection: \<open>src/tcp_proxy/http1.rs\<close> (is it an HTTP/1 request,
  and of which version), \<open>src/tcp_proxy/h1_initial_parser.rs\<close> (its Host header and whether it
  asks for an h2c upgrade) and \<open>src/tcp_proxy/http2.rs\<close> (the HTTP/2 preface test and the search
  for \<open>:authority\<close>). \<open>anyhow\<close> errors are values of \<open>http1_error\<close>, one constructor per message.
\<close>

section \<open>Request and version\<close>

datatype http_version = HTTP_09 | HTTP_10 | HTTP_11 | HTTP_2 | HTTP_3

datatype http1_error =
    NoMethodFound | UnsupportedMethod bytes | InvalidHttpRequest | NoHostHeader

definition METHODS :: "bytes list" where
  "METHODS = map as_bytes [''GET '', ''POST '', ''PUT '', ''DELETE '', ''HEAD '', ''OPTIONS '',
     ''PATCH '', ''CONNECT '', ''TRACE '']"

definition version_tag :: "string \<Rightarrow> bytes" where
  "version_tag v = as_bytes ('' HTTP/'' @ v) @ [13, 10]"

text \<open>\<open>bytes.windows(6).position(|w| w.starts_with(b"HTTP/"))\<close>.\<close>

definition window_position :: "bytes \<Rightarrow> nat option" where
  "window_position bs =
     List.find (\<lambda>i. starts_with (take 6 (drop i bs)) (as_bytes ''HTTP/'')) [0..<length bs - 5]"

definition is_valid_http_request :: "bytes \<Rightarrow> http1_error + http_version" where
  "is_valid_http_request bs =
     (if \<not> list_ex (starts_with bs) METHODS then Inl NoMethodFound
      else
        (let version =
           (if contains_sub bs (version_tag ''1.1'') then Inr HTTP_11
            else if contains_sub bs (version_tag ''1.0'') then Inr HTTP_10
            else if contains_sub bs (version_tag ''2.0'') then Inr HTTP_2
            else if contains_sub bs (version_tag ''3.0'') then Inr HTTP_3
            else if contains_sub bs (version_tag ''0.9'') then Inr HTTP_09
            else (case window_position bs of
                    Some start \<Rightarrow>
                      if start + 8 \<le> length bs then Inl (UnsupportedMethod (take 8 (drop start bs)))
                      else Inl NoMethodFound
                  | None \<Rightarrow> Inl NoMethodFound)) in
         case version of
           Inl e \<Rightarrow> Inl e
         | Inr v \<Rightarrow>
             (let has_headers = contains_sub bs [13, 10, 13, 10] in
              if has_headers \<or> v = HTTP_09 then Inr v else Inl InvalidHttpRequest)))"

section \<open>Host and h2c\<close>

record ParsedHttpRequest =
  hr_host :: string
  is_h2c_upgrade :: bool

definition trim_start :: "bytes \<Rightarrow> bytes" where
  "trim_start bs = dropWhile is_ascii_whitespace bs"

definition trim_end :: "bytes \<Rightarrow> bytes" where
  "trim_end bs = rev (dropWhile is_ascii_whitespace (rev bs))"

definition eq_ignore_ascii_case :: "bytes \<Rightarrow> bytes \<Rightarrow> bool" where
  "eq_ignore_ascii_case a b \<longleftrightarrow>
     length a = length b \<and> list_all (\<lambda>(x, y). ascii_lower x = ascii_lower y) (zip a b)"

definition contains_ignore_ascii_case :: "bytes \<Rightarrow> bytes \<Rightarrow> bool" where
  "contains_ignore_ascii_case hay needle \<longleftrightarrow>
     (if needle = [] then True
      else list_ex (\<lambda>i. eq_ignore_ascii_case (take (length needle) (drop i hay)) needle)
             [0..<length hay + 1 - length needle])"

definition get_header_value :: "bytes \<Rightarrow> string" where
  "get_header_value bs =
     unwrap_or (from_utf8 (trim_end (dropWhile (\<lambda>b. b = 58 \<or> is_ascii_whitespace b) bs))) ''''"

text \<open>The variables of the loop of \<open>parse_http_request_fast\<close>.\<close>

record header_scan =
  sc_host :: "string option"
  has_upgrade_h2c :: bool
  has_connection_upgrade :: bool
  has_http2_settings :: bool

definition header_scan_start :: header_scan where
  "header_scan_start = \<lparr> sc_host = None, has_upgrade_h2c = False, has_connection_upgrade = False,
                         has_http2_settings = False \<rparr>"

definition strip_line_end :: "bytes \<Rightarrow> bytes" where
  "strip_line_end line =
     (if ends_with line [13, 10] then take (length line - 2) line
      else if ends_with line [10] then take (length line - 1) line
      else line)"

definition has_name :: "bytes \<Rightarrow> string \<Rightarrow> bool" where
  "has_name line name \<longleftrightarrow>
     length name \<le> length line \<and> eq_ignore_ascii_case (take (length name) line) (as_bytes name)"

definition process_line :: "bytes \<Rightarrow> header_scan \<Rightarrow> header_scan" where
  "process_line line sc =
     (let line = trim_start line in
      if has_name line ''Host:'' then
        sc\<lparr> sc_host := Some (get_header_value (drop 5 line)) \<rparr>
      else if has_name line ''Upgrade:'' then
        (if eq_ignore_ascii_case (as_bytes (get_header_value (drop 8 line))) (as_bytes ''h2c'')
         then sc\<lparr> has_upgrade_h2c := True \<rparr> else sc)
      else if has_name line ''Connection:'' then
        (if contains_ignore_ascii_case (as_bytes (get_header_value (drop 11 line))) (as_bytes ''upgrade'')
         then sc\<lparr> has_connection_upgrade := True \<rparr> else sc)
      else if has_name line ''HTTP2-Settings:'' then sc\<lparr> has_http2_settings := True \<rparr>
      else sc)"

text \<open>The line that starts at \<open>pos\<close>, its newline included (to the end when there is none).\<close>

definition line_length :: "bytes \<Rightarrow> nat" where
  "line_length rest = (case find_sub rest [10] of Some i \<Rightarrow> i + 1 | None \<Rightarrow> length rest)"

lemma line_length_pos: "rest \<noteq> [] \<Longrightarrow> 0 < line_length rest"
  by (simp add: line_length_def split: option.split)

text \<open>\<open>while pos < len\<close>: the argument is \<open>request[pos..]\<close>.\<close>

function scan_lines :: "bytes \<Rightarrow> header_scan \<Rightarrow> header_scan" where
  "scan_lines rest sc =
     (if rest = [] then sc
      else
        (let line = take (line_length rest) rest in
         if line = [13, 10] \<or> line = [10] then sc
         else scan_lines (drop (line_length rest) rest) (process_line (strip_line_end line) sc)))"
  by pat_completeness auto
termination
  by (relation "measure (\<lambda>(rest, sc). length rest)") (auto intro: diff_less line_length_pos)

declare scan_lines.simps [simp del]

definition finish_scan :: "header_scan \<Rightarrow> http1_error + ParsedHttpRequest" where
  "finish_scan sc =
     (let h2c = has_upgrade_h2c sc \<and> has_connection_upgrade sc \<and> has_http2_settings sc in
      case sc_host sc of
        Some host \<Rightarrow> Inr \<lparr> hr_host = host, is_h2c_upgrade = h2c \<rparr>
      | None \<Rightarrow> Inl NoHostHeader)"

definition parse_http_request_fast :: "bytes \<Rightarrow> http1_error + ParsedHttpRequest" where
  "parse_http_request_fast request = finish_scan (scan_lines request header_scan_start)"

definition try_decode_http_host_and_h2c :: "bytes \<Rightarrow> http1_error + ParsedHttpRequest" where
  "try_decode_http_host_and_h2c = parse_http_request_fast"

section \<open>HTTP/2\<close>

definition is_valid_http2_request :: "bytes \<Rightarrow> bool" where
  "is_valid_http2_request bs = starts_with bs (as_bytes ''PRI * HTTP/2.0'')"

text \<open>
  \<open>decompress_hpack\<close>: a fresh third-party decoder (\<open>hpack\<close>, \<open>None\<close> for its error), then UTF-8
  for every name and value.
\<close>

definition decompress_hpack ::
  "(bytes \<Rightarrow> (bytes \<times> bytes) list option) \<Rightarrow> bytes \<Rightarrow> (string \<times> string) list option" where
  "decompress_hpack hpack fragment =
     do {
       l \<leftarrow> hpack fragment;
       those (map (\<lambda>(k, v). do { h \<leftarrow> from_utf8 k; v \<leftarrow> from_utf8 v; Some (h, v) }) l) }"

text \<open>
  The loop over frames; \<open>None\<close> is the panic of a frame whose announced length exceeds the
  buffer. Each iteration moves \<open>current\<close> past a 9-byte frame header.
\<close>

function find_http2_authority_from ::
  "(bytes \<Rightarrow> (bytes \<times> bytes) list option) \<Rightarrow> bytes \<Rightarrow> nat \<Rightarrow> string option run" where
  "find_http2_authority_from hpack bs current =
     (if current + 9 \<le> length bs then
        (let len = unat (be32 0 (bs ! current) (bs ! (current + 1)) (bs ! (current + 2)));
             ftype = bs ! (current + 3);
             sid = be32 0 (bs ! (current + 5)) (bs ! (current + 6)) (bs ! (current + 7)) AND 0x7fffffff;
             current' = current + 9 in
         if ftype = 0x1 \<and> unat sid mod 2 \<noteq> 0 then
           (case slice bs current' (current' + len) of
              None \<Rightarrow> None
            | Some fragment \<Rightarrow>
                (case decompress_hpack hpack fragment of
                   None \<Rightarrow> Some None
                 | Some headers \<Rightarrow>
                     (case List.find (\<lambda>(k, v). k = '':authority'') headers of
                        Some (k, v) \<Rightarrow> Some (Some v)
                      | None \<Rightarrow> find_http2_authority_from hpack bs (current' + len))))
         else find_http2_authority_from hpack bs (current' + len))
      else Some None)"
  by pat_completeness auto
termination
  by (relation "measure (\<lambda>(hpack, bs, current). length bs - current)") (auto simp: Let_def)

declare find_http2_authority_from.simps [simp del]

definition find_http2_authority ::
  "(bytes \<Rightarrow> (bytes \<times> bytes) list option) \<Rightarrow> bytes \<Rightarrow> string option run" where
  "find_http2_authority hpack bs = find_http2_authority_from hpack bs 0"

section \<open>Comparing without case\<close>

lemma eq_ignore_ascii_case_iff:
  "eq_ignore_ascii_case a b \<longleftrightarrow> map ascii_lower a = map ascii_lower b"
  unfolding eq_ignore_ascii_case_def list_eq_iff_nth_eq by (auto simp: list_all_length)

lemma has_name_iff:
  "has_name line name \<longleftrightarrow> map ascii_lower (take (length name) line) = map ascii_lower (as_bytes name)"
proof -
  have "length name \<le> length line"
    if "map ascii_lower (take (length name) line) = map ascii_lower (as_bytes name)"
  proof -
    have "min (length line) (length name) = length name"
      using that unfolding as_bytes_def by (metis length_map length_take)
    then show ?thesis by linarith
  qed
  then show ?thesis unfolding has_name_def eq_ignore_ascii_case_iff by blast
qed

lemma has_name_nth:
  assumes "has_name line name" and "i < length name"
  shows "ascii_lower (line ! i) = ascii_lower (byte_of_char (name ! i))"
proof -
  from assms(1) have "map ascii_lower (take (length name) line) ! i = map ascii_lower (as_bytes name) ! i"
    by (simp add: has_name_iff)
  moreover from assms(1) have "length name \<le> length line"
    by (simp add: has_name_def)
  ultimately show ?thesis using assms(2) by (simp add: as_bytes_def)
qed

lemma header_names_distinct:
  assumes "has_name l ''Host:''"
  shows "\<not> has_name l ''Upgrade:''" "\<not> has_name l ''Connection:''" "\<not> has_name l ''HTTP2-Settings:''"
  using has_name_nth [OF assms, of 0] has_name_nth [OF assms, of 1]
    has_name_nth [of l "''Upgrade:''" 0] has_name_nth [of l "''Connection:''" 0]
    has_name_nth [of l "''HTTP2-Settings:''" 1]
  by (auto simp: ascii_lower_def byte_of_char_def)

lemma upgrade_names_distinct:
  assumes "has_name l ''Upgrade:''"
  shows "\<not> has_name l ''Connection:''" "\<not> has_name l ''HTTP2-Settings:''"
  using has_name_nth [OF assms, of 0] has_name_nth [of l "''Connection:''" 0]
    has_name_nth [of l "''HTTP2-Settings:''" 0]
  by (auto simp: ascii_lower_def byte_of_char_def)

lemma connection_names_distinct:
  assumes "has_name l ''Connection:''"
  shows "\<not> has_name l ''HTTP2-Settings:''"
  using has_name_nth [OF assms, of 0] has_name_nth [of l "''HTTP2-Settings:''" 0]
  by (auto simp: ascii_lower_def byte_of_char_def)

section \<open>The scan of a request's lines\<close>

text \<open>Lines without CR or LF, each ended by CRLF, then the empty line and the body.\<close>

definition header_line :: "bytes \<Rightarrow> bool" where
  "header_line l \<longleftrightarrow> l \<noteq> [] \<and> 10 \<notin> set l \<and> 13 \<notin> set l"

definition render_request :: "bytes list \<Rightarrow> bytes \<Rightarrow> bytes" where
  "render_request ls body = concat (map (\<lambda>l. l @ [13, 10]) ls) @ [13, 10] @ body"

lemma find_newline: "10 \<notin> set l \<Longrightarrow> find_sub (l @ 10 # rest) [10::byte] = Some (length l)"
  by (induction l) auto

lemma line_length_crlf: "10 \<notin> set l \<Longrightarrow> line_length (l @ 13 # 10 # rest) = length l + 2"
  using find_newline [of "l @ [13]" rest] by (simp add: line_length_def)

lemma strip_line_crlf: "strip_line_end (l @ [13, 10]) = l"
  by (simp add: strip_line_end_def ends_with_iff)

lemma scan_lines_header:
  assumes "header_line l"
  shows "scan_lines (l @ 13 # 10 # rest) sc = scan_lines rest (process_line l sc)"
proof -
  have len: "line_length (l @ 13 # 10 # rest) = length l + 2"
    using assms by (simp add: line_length_crlf header_line_def)
  have "l @ [13, 10] \<noteq> [13, 10]" "l @ [13, 10] \<noteq> [10]"
    using assms by (auto simp: header_line_def)
  then show ?thesis
    by (subst scan_lines.simps) (simp add: len Let_def strip_line_crlf)
qed

lemma scan_lines_request:
  assumes "list_all header_line ls"
  shows "scan_lines (render_request ls body) sc = fold process_line ls sc"
  using assms
proof (induction ls arbitrary: sc)
  case Nil
  have "line_length (13 # 10 # body) = 2" using line_length_crlf [of "[]" body] by simp
  then show ?case by (simp add: render_request_def) (subst scan_lines.simps, simp)
next
  case (Cons l ls)
  then show ?case by (simp add: render_request_def scan_lines_header)
qed

definition host_line :: "bytes \<Rightarrow> bool" where
  "host_line l \<longleftrightarrow> has_name (trim_start l) ''Host:''"

definition host_value :: "bytes \<Rightarrow> string" where
  "host_value l = get_header_value (drop 5 (trim_start l))"

definition upgrade_line :: "bytes \<Rightarrow> bool" where
  "upgrade_line l \<longleftrightarrow> has_name (trim_start l) ''Upgrade:'' \<and>
     eq_ignore_ascii_case (as_bytes (get_header_value (drop 8 (trim_start l)))) (as_bytes ''h2c'')"

definition connection_line :: "bytes \<Rightarrow> bool" where
  "connection_line l \<longleftrightarrow> has_name (trim_start l) ''Connection:'' \<and>
     contains_ignore_ascii_case (as_bytes (get_header_value (drop 11 (trim_start l)))) (as_bytes ''upgrade'')"

definition settings_line :: "bytes \<Rightarrow> bool" where
  "settings_line l \<longleftrightarrow> has_name (trim_start l) ''HTTP2-Settings:''"

lemma process_line_fields:
  "sc_host (process_line l sc) = (if host_line l then Some (host_value l) else sc_host sc)"
  "has_upgrade_h2c (process_line l sc) \<longleftrightarrow> has_upgrade_h2c sc \<or> upgrade_line l"
  "has_connection_upgrade (process_line l sc) \<longleftrightarrow> has_connection_upgrade sc \<or> connection_line l"
  "has_http2_settings (process_line l sc) \<longleftrightarrow> has_http2_settings sc \<or> settings_line l"
  using header_names_distinct [of "trim_start l"] upgrade_names_distinct [of "trim_start l"]
    connection_names_distinct [of "trim_start l"]
  by (auto simp: process_line_def host_line_def host_value_def upgrade_line_def connection_line_def
      settings_line_def Let_def)

lemma fold_process_line:
  "sc_host (fold process_line ls sc) =
     (if filter host_line ls = [] then sc_host sc else Some (host_value (last (filter host_line ls))))"
  "has_upgrade_h2c (fold process_line ls sc) \<longleftrightarrow> has_upgrade_h2c sc \<or> (\<exists>l \<in> set ls. upgrade_line l)"
  "has_connection_upgrade (fold process_line ls sc) \<longleftrightarrow> has_connection_upgrade sc \<or> (\<exists>l \<in> set ls. connection_line l)"
  "has_http2_settings (fold process_line ls sc) \<longleftrightarrow> has_http2_settings sc \<or> (\<exists>l \<in> set ls. settings_line l)"
proof (induction ls arbitrary: sc)
  case (Cons l ls)
  {
    case 1
    then show ?case using Cons.IH(1) by (simp add: process_line_fields)
  next
    case 2
    then show ?case using Cons.IH(2) by (auto simp: process_line_fields)
  next
    case 3
    then show ?case using Cons.IH(3) by (auto simp: process_line_fields)
  next
    case 4
    then show ?case using Cons.IH(4) by (auto simp: process_line_fields)
  }
qed simp_all

text \<open>The host and the h2c upgrade read from a request are those of its header lines (the last
  Host line counts), and nothing after the empty line matters.\<close>

theorem request_head_decides:
  assumes "list_all header_line ls"
  shows "parse_http_request_fast (render_request ls body) =
           (if filter host_line ls = [] then Inl NoHostHeader
            else Inr \<lparr> hr_host = host_value (last (filter host_line ls)),
                       is_h2c_upgrade = ((\<exists>l \<in> set ls. upgrade_line l) \<and>
                                         (\<exists>l \<in> set ls. connection_line l) \<and>
                                         (\<exists>l \<in> set ls. settings_line l)) \<rparr>)"
  using assms
  by (simp add: parse_http_request_fast_def finish_scan_def scan_lines_request fold_process_line
      header_scan_start_def)

text \<open>A value as a header line carries it: what \<open>get_header_value\<close> recovers.\<close>

definition clean_value :: "string \<Rightarrow> bool" where
  "clean_value v \<longleftrightarrow> v \<noteq> [] \<and> utf8_valid (as_bytes v) \<and>
     hd (as_bytes v) \<noteq> 58 \<and> \<not> is_ascii_whitespace (hd (as_bytes v)) \<and>
     \<not> is_ascii_whitespace (last (as_bytes v))"

lemma get_header_value_clean:
  assumes "clean_value v" and "list_all (\<lambda>b. b = 58 \<or> is_ascii_whitespace b) pre"
    and "list_all is_ascii_whitespace post"
  shows "get_header_value (pre @ as_bytes v @ post) = v"
proof -
  let ?ws = "\<lambda>b. b = 58 \<or> is_ascii_whitespace b"
  have ne: "as_bytes v \<noteq> []" using assms(1) by (simp add: clean_value_def as_bytes_def)
  have "dropWhile ?ws (pre @ as_bytes v @ post) = dropWhile ?ws (as_bytes v @ post)"
    using assms(2) by (simp add: dropWhile_append2 list_all_iff)
  also have "\<dots> = as_bytes v @ post"
    using ne assms(1) by (cases "as_bytes v") (auto simp: clean_value_def)
  finally have d: "dropWhile ?ws (pre @ as_bytes v @ post) = as_bytes v @ post" .
  have "dropWhile is_ascii_whitespace (rev post @ rev (as_bytes v)) = dropWhile is_ascii_whitespace (rev (as_bytes v))"
    using assms(3) by (subst dropWhile_append2) (auto simp: list_all_iff)
  also have "\<dots> = rev (as_bytes v)"
    using ne assms(1) by (cases "rev (as_bytes v)") (auto simp: clean_value_def last_conv_nth hd_conv_nth
        dest: arg_cong [of _ _ hd] simp flip: hd_rev)
  finally have "trim_end (as_bytes v @ post) = as_bytes v" by (simp add: trim_end_def)
  with d assms(1) show ?thesis
    by (simp add: get_header_value_def clean_value_def from_utf8_as_bytes)
qed

lemma host_name_line:
  assumes "map ascii_lower (as_bytes name) = as_bytes ''host''" and "clean_value host"
  shows "host_line (as_bytes name @ [58, 32] @ as_bytes host)"
    and "host_value (as_bytes name @ [58, 32] @ as_bytes host) = host"
proof -
  obtain a b c d where n: "as_bytes name = [a, b, c, d]"
    and l: "ascii_lower a = 104" "ascii_lower b = 111" "ascii_lower c = 115" "ascii_lower d = 116"
  proof -
    have "length (as_bytes name) = 4"
      using arg_cong [OF assms(1), of length] by (simp add: as_bytes_def)
    then obtain a b c d where n: "as_bytes name = [a, b, c, d]"
      by (auto simp: numeral_eq_Suc length_Suc_conv)
    moreover have "as_bytes ''host'' = [104, 111, 115, 116]"
      by (simp add: as_bytes_def byte_of_char_def)
    ultimately show ?thesis using assms(1) that [of a b c d] by simp
  qed
  have "\<not> is_ascii_whitespace a"
    using l(1) by (auto simp: is_ascii_whitespace_def ascii_lower_def split: if_splits)
  with n have t: "trim_start (as_bytes name @ [58, 32] @ as_bytes host) = as_bytes name @ [58, 32] @ as_bytes host"
    by (simp add: trim_start_def)
  have "ascii_lower 58 = 58" by (simp add: ascii_lower_def)
  with t n l show "host_line (as_bytes name @ [58, 32] @ as_bytes host)"
    by (simp add: host_line_def has_name_iff) (simp add: as_bytes_def byte_of_char_def ascii_lower_def)
  show "host_value (as_bytes name @ [58, 32] @ as_bytes host) = host"
    using get_header_value_clean [OF assms(2), of "[32]" "[]"] n t
    by (simp add: host_value_def is_ascii_whitespace_def)
qed

text \<open>A Host header written in any case of its name is read back exactly, wherever the line
  stands in the head.\<close>

theorem host_header_roundtrip:
  assumes "list_all header_line (before @ after)" and "\<not> list_ex host_line after"
    and "map ascii_lower (as_bytes name) = as_bytes ''host''"
    and "clean_value host" and "10 \<notin> set (as_bytes host)" and "13 \<notin> set (as_bytes host)"
  shows "\<exists>h2c. parse_http_request_fast
           (render_request (before @ [as_bytes name @ [58, 32] @ as_bytes host] @ after) body)
         = Inr \<lparr> hr_host = host, is_h2c_upgrade = h2c \<rparr>"
proof -
  let ?line = "as_bytes name @ [58, 32] @ as_bytes host"
  have "10 \<notin> set (as_bytes name)" "13 \<notin> set (as_bytes name)"
  proof -
    have "ascii_lower x \<in> set (as_bytes ''host'')" if "x \<in> set (as_bytes name)" for x
      using that assms(3) by (metis image_eqI list.set_map)
    from this [of 10] this [of 13] show "10 \<notin> set (as_bytes name)" "13 \<notin> set (as_bytes name)"
      by (auto simp: as_bytes_def byte_of_char_def ascii_lower_def)
  qed
  with assms(5,6) have "header_line ?line" by (simp add: header_line_def)
  with assms(1) have all: "list_all header_line (before @ [?line] @ after)" by simp
  have "filter host_line after = []"
    using assms(2) by (auto simp: filter_empty_conv list_ex_iff)
  then have "filter host_line (before @ [?line] @ after) = filter host_line before @ [?line]"
    using host_name_line(1) [OF assms(3,4)] by simp
  with request_head_decides [OF all, of body] host_name_line(2) [OF assms(3,4)]
  show ?thesis by simp
qed

lemma host_header_roundtrip_witness:
  "\<exists>h2c. parse_http_request_fast
     (render_request ([as_bytes ''GET / HTTP/1.1''] @ [as_bytes ''HOST'' @ [58, 32] @ as_bytes ''a.dev:80''] @ [as_bytes ''X: y''])
        (as_bytes ''Host: evil''))
   = Inr \<lparr> hr_host = ''a.dev:80'', is_h2c_upgrade = h2c \<rparr>"
  by (rule host_header_roundtrip; code_simp)

lemma request_head_decides_witness:
  "parse_http_request_fast (render_request
     [as_bytes ''GET / HTTP/1.1'', as_bytes ''Host: a'', as_bytes ''connection: keep-alive, Upgrade'',
      as_bytes ''Upgrade: H2C'', as_bytes ''HTTP2-Settings: AAMA''] [1])
   = Inr \<lparr> hr_host = ''a'', is_h2c_upgrade = True \<rparr>"
proof -
  let ?ls = "[as_bytes ''GET / HTTP/1.1'', as_bytes ''Host: a'', as_bytes ''connection: keep-alive, Upgrade'',
      as_bytes ''Upgrade: H2C'', as_bytes ''HTTP2-Settings: AAMA'']"
  have "list_all header_line ?ls" by code_simp
  moreover have "filter host_line ?ls = [as_bytes ''Host: a'']" by code_simp
  moreover have "host_value (as_bytes ''Host: a'') = ''a''" by code_simp
  moreover have "list_ex upgrade_line ?ls" "list_ex connection_line ?ls" "list_ex settings_line ?ls" by code_simp+
  ultimately show ?thesis
    using request_head_decides [of ?ls "[1]"] by (simp add: list_ex_iff)
qed

section \<open>Request validity\<close>

fun version_string :: "http_version \<Rightarrow> string" where
  "version_string HTTP_09 = ''0.9''"
| "version_string HTTP_10 = ''1.0''"
| "version_string HTTP_11 = ''1.1''"
| "version_string HTTP_2 = ''2.0''"
| "version_string HTTP_3 = ''3.0''"

definition mentions :: "bytes \<Rightarrow> http_version \<Rightarrow> bool" where
  "mentions bs v \<longleftrightarrow> contains_sub bs (version_tag (version_string v))"

text \<open>A buffer is a valid HTTP request exactly when it starts with a known method, mentions a
  version somewhere, and contains an empty line or is HTTP/0.9; the version is the first of the
  code's order that is mentioned.\<close>

theorem request_validity:
  "is_valid_http_request bs = Inr v \<longleftrightarrow>
     (\<exists>m \<in> set METHODS. starts_with bs m) \<and>
     List.find (mentions bs) [HTTP_11, HTTP_10, HTTP_2, HTTP_3, HTTP_09] = Some v \<and>
     (contains_sub bs [13, 10, 13, 10] \<or> v = HTTP_09)"
  by (auto simp: is_valid_http_request_def mentions_def list_ex_iff Let_def split: option.splits if_splits)

text \<open>A buffer that is a valid HTTP/1 or later request stays valid when more bytes arrive.\<close>

theorem valid_request_stable:
  assumes "is_valid_http_request bs = Inr v" and "v \<noteq> HTTP_09"
  shows "\<exists>v'. is_valid_http_request (bs @ rest) = Inr v'"
proof -
  have m: "mentions (bs @ rest) u" if "mentions bs u" for u
    using that by (simp add: mentions_def contains_sub_append)
  have "(\<exists>m \<in> set METHODS. starts_with (bs @ rest) m)"
    using assms starts_with_append unfolding request_validity by blast
  moreover have "contains_sub (bs @ rest) [13, 10, 13, 10] \<or> v = HTTP_09"
    using assms contains_sub_append unfolding request_validity by blast
  ultimately show ?thesis
    using assms m [of HTTP_11] m [of HTTP_10] m [of HTTP_2] m [of HTTP_3] m [of HTTP_09]
    unfolding request_validity by (auto split: if_splits)
qed

lemma valid_request_stable_witness:
  "\<exists>v'. is_valid_http_request ((as_bytes ''GET / HTTP/1.0'' @ [13, 10, 13, 10]) @ [1, 2]) = Inr v'"
proof -
  have "is_valid_http_request (as_bytes ''GET / HTTP/1.0'' @ [13, 10, 13, 10]) = Inr HTTP_10" by code_simp
  then show ?thesis by (rule valid_request_stable) simp
qed

text \<open>The version of an HTTP request is searched for in the whole buffer: a body that mentions
  HTTP/1.1 changes the version of an HTTP/1.0 request.\<close>

theorem version_read_from_body:
  "is_valid_http_request (as_bytes ''POST / HTTP/1.0'' @ [13, 10, 13, 10]) = Inr HTTP_10 \<and>
   is_valid_http_request (as_bytes ''POST / HTTP/1.0'' @ [13, 10, 13, 10] @ as_bytes ''x HTTP/1.1'' @ [13, 10]) = Inr HTTP_11"
  by code_simp

section \<open>The search for \<open>:authority\<close>\<close>

text \<open>find_http2_authority finds no authority in a HEADERS frame of a stream below 256, as the
  stream id is read one byte too early.\<close>

theorem authority_missed_on_low_streams:
  assumes "length payload = unat (be32 0 a b c)"
  shows "find_http2_authority hpack ([a, b, c, 0x1, flags, 0, 0, 0, sid] @ payload) = Some None"
proof -
  let ?bs = "[a, b, c, 0x1, flags, 0, 0, 0, sid] @ payload"
  have "find_http2_authority_from hpack ?bs (0 + 9 + unat (be32 0 a b c)) = Some None"
    using assms by (subst find_http2_authority_from.simps) simp
  then show ?thesis
    unfolding find_http2_authority_def
    by (subst find_http2_authority_from.simps) (simp add: Let_def be32_def)
qed

lemma authority_missed_on_low_streams_witness:
  "find_http2_authority (\<lambda>_. Some [(as_bytes '':authority'', as_bytes ''a.dev'')])
     ([0, 0, 1, 0x1, 4, 0, 0, 0, 1] @ [0x41]) = Some None"
  by (rule authority_missed_on_low_streams) code_simp

end
