(* ===== verification/Client_Hello.thy ===== *)
theory Client_Hello
  imports Prelude
begin

text \<open>
  The TLS ClientHello reader: \<open>src/tcp_proxy/tls/client_hello.rs\<close> (\<open>TryFrom<&[u8]>\<close> and the
  host name of the SNI extension) and \<open>src/tcp_proxy/tls/extension.rs\<close> (extension numbers).
  Every index and slice of the code is a checked one here, so that \<open>None\<close> is a panic; the
  theorems show that no input reaches one.
\<close>

section \<open>Extensions\<close>

datatype TlsExtensionType =
    ServerName | MaxFragmentLength | StatusRequest | SupportedGroups | SignatureAlgorithms
  | ApplicationLayerProtocolNegotiation | SignedCertificateTimestamp | KeyShare | PreSharedKey
  | EarlyData | SupportedVersions | Cookie | PskKeyExchangeModes | UnknownExtension u16

record TlsExtension =
  ext_typ :: TlsExtensionType
  ext_data :: bytes

definition extension_from :: "u16 \<Rightarrow> TlsExtensionType" where
  "extension_from v =
     (if v = 0x0000 then ServerName
      else if v = 0x0001 then MaxFragmentLength
      else if v = 0x0005 then StatusRequest
      else if v = 0x000a then SupportedGroups
      else if v = 0x000d then SignatureAlgorithms
      else if v = 0x0010 then ApplicationLayerProtocolNegotiation
      else if v = 0x0012 then SignedCertificateTimestamp
      else if v = 0x0028 then KeyShare
      else if v = 0x0029 then PreSharedKey
      else if v = 0x002a then EarlyData
      else if v = 0x002b then SupportedVersions
      else if v = 0x002c then Cookie
      else if v = 0x002d then PskKeyExchangeModes
      else UnknownExtension v)"

definition extension_into :: "TlsExtensionType \<Rightarrow> u16" where
  "extension_into t =
     (case t of
        ServerName \<Rightarrow> 0x0000
      | MaxFragmentLength \<Rightarrow> 0x0001
      | StatusRequest \<Rightarrow> 0x0005
      | SupportedGroups \<Rightarrow> 0x000a
      | SignatureAlgorithms \<Rightarrow> 0x000d
      | ApplicationLayerProtocolNegotiation \<Rightarrow> 0x0010
      | SignedCertificateTimestamp \<Rightarrow> 0x0012
      | KeyShare \<Rightarrow> 0x0028
      | PreSharedKey \<Rightarrow> 0x0029
      | EarlyData \<Rightarrow> 0x002a
      | SupportedVersions \<Rightarrow> 0x002b
      | Cookie \<Rightarrow> 0x002c
      | PskKeyExchangeModes \<Rightarrow> 0x002d
      | UnknownExtension v \<Rightarrow> v)"

section \<open>The message\<close>

datatype TlsClientHelloError = NotTLSHandshake | NotClientHello | MessageIncomplete nat

record TlsClientHello =
  protocol_version :: "byte \<times> byte"
  random :: bytes
  session_id :: bytes
  cipher_suites :: "u16 list"
  compression_methods :: bytes
  extensions :: "TlsExtension list"

text \<open>\<open>u16::from_be_bytes([data[i], data[i + 1]])\<close>, which panics out of range.\<close>

definition read_u16 :: "bytes \<Rightarrow> nat \<Rightarrow> u16 run" where
  "read_u16 data i = do { a \<leftarrow> idx data i; b \<leftarrow> idx data (i + 1); Some (be16 a b) }"

text \<open>The cipher suites: \<open>(0..n / 2).map(..).collect()\<close>.\<close>

definition read_suites :: "bytes \<Rightarrow> nat \<Rightarrow> nat \<Rightarrow> u16 list run" where
  "read_suites data start n = those (map (\<lambda>i. read_u16 data (start + i * 2)) [0..<n div 2])"

text \<open>The loop over the extensions, from \<open>current\<close> to \<open>end'\<close>.\<close>

function read_extensions ::
  "bytes \<Rightarrow> nat \<Rightarrow> nat \<Rightarrow> (TlsClientHelloError + TlsExtension list) run" where
  "read_extensions data current end' =
     (if current + 4 \<le> end' then
        (case (read_u16 data current, read_u16 data (current + 2)) of
           (Some typ, Some len) \<Rightarrow>
             (let current = current + 4; len = unat len in
              if end' < current + len then Some (Inl (MessageIncomplete current))
              else if length data < current + len then Some (Inl (MessageIncomplete current))
              else
                (case slice data current (current + len) of
                   None \<Rightarrow> None
                 | Some d \<Rightarrow>
                     (case read_extensions data (current + len) end' of
                        None \<Rightarrow> None
                      | Some (Inl e) \<Rightarrow> Some (Inl e)
                      | Some (Inr exts) \<Rightarrow>
                          Some (Inr (\<lparr> ext_typ = extension_from typ, ext_data = d \<rparr> # exts)))))
         | _ \<Rightarrow> None)
      else Some (Inr []))"
  by pat_completeness auto
termination
  by (relation "measure (\<lambda>(data, current, end'). end' - current)") auto

declare read_extensions.simps [simp del]

definition try_from :: "bytes \<Rightarrow> (TlsClientHelloError + TlsClientHello) run" where
  "try_from data =
    (if length data < 6 then Some (Inl NotTLSHandshake) else do {
     b0 \<leftarrow> idx data 0;
     if b0 \<noteq> 0x16 then Some (Inl NotTLSHandshake) else
     (let current = 1 in
     if length data < current + 4 then Some (Inl (MessageIncomplete current)) else
     (let current = current + 4 in
     if length data \<le> current then Some (Inl NotClientHello) else do {
     b5 \<leftarrow> idx data current;
     if b5 \<noteq> 0x01 then Some (Inl NotClientHello) else
     (let current = current + 1 in
     if length data < current + 3 then Some (Inl (MessageIncomplete current)) else
     (let current = current + 3 in
     if length data < current + 2 then Some (Inl (MessageIncomplete current)) else do {
     v0 \<leftarrow> idx data current; v1 \<leftarrow> idx data (current + 1);
     (let current = current + 2 in
     if length data < current + 32 then Some (Inl (MessageIncomplete current)) else do {
     rnd \<leftarrow> slice data current (current + 32);
     (let current = current + 32 in
     if length data \<le> current then Some (Inl (MessageIncomplete current)) else do {
     sl \<leftarrow> idx data current;
     (let session_id_length = unat sl in
     if length data < current + 1 + session_id_length then Some (Inl (MessageIncomplete current)) else do {
     sid \<leftarrow> slice data (current + 1) (current + 1 + session_id_length);
     (let current = current + (1 + session_id_length) in
     if length data < current + 2 then Some (Inl (MessageIncomplete current)) else do {
     cl \<leftarrow> read_u16 data current;
     (let cipher_suites_length = unat cl in
     if length data < current + 2 + cipher_suites_length then Some (Inl (MessageIncomplete current)) else do {
     suites \<leftarrow> read_suites data (current + 2) cipher_suites_length;
     (let current = current + (2 + cipher_suites_length) in
     if length data \<le> current then Some (Inl (MessageIncomplete current)) else do {
     ml \<leftarrow> idx data current;
     (let compression_methods_length = unat ml in
     if length data < current + 1 + compression_methods_length then Some (Inl (MessageIncomplete current)) else do {
     methods \<leftarrow> slice data (current + 1) (current + 1 + compression_methods_length);
     (let current = current + (1 + compression_methods_length) in
     if length data < current + 2 then Some (Inl (MessageIncomplete current)) else do {
     el \<leftarrow> read_u16 data current;
     (let extensions_length = unat el; current = current + 2; extensions_end = current + extensions_length in
     if length data < extensions_end then Some (Inl (MessageIncomplete current)) else do {
     r \<leftarrow> read_extensions data current extensions_end;
     (case r of
        Inl e \<Rightarrow> Some (Inl e)
      | Inr exts \<Rightarrow>
          Some (Inr \<lparr> protocol_version = (v0, v1), random = rnd, session_id = sid, cipher_suites = suites,
                     compression_methods = methods, extensions = exts \<rparr>)) }) }) }) }) }) }) }) }) }) })) })) })"

section \<open>Printing\<close>

definition get_protocol_version_str :: "TlsClientHello \<Rightarrow> string" where
  "get_protocol_version_str h =
     (if protocol_version h = (3, 3) then ''TLS 1.2''
      else if protocol_version h = (3, 4) then ''TLS 1.3''
      else ''Unknown TLS Version '' @ dec (unat (fst (protocol_version h))) @ ''.''
           @ dec (unat (snd (protocol_version h))))"

definition get_session_id_hex :: "TlsClientHello \<Rightarrow> string" where
  "get_session_id_hex h = concat (map hex_byte (session_id h))"

definition get_random_hex :: "TlsClientHello \<Rightarrow> string" where
  "get_random_hex h = concat (map hex_byte (random h))"

definition cipher_suite_names :: "(u16 \<times> string) list" where
  "cipher_suite_names =
    [(0x1301, ''TLS_AES_128_GCM_SHA256''),
     (0x1302, ''TLS_AES_256_GCM_SHA384''),
     (0x1303, ''TLS_CHACHA20_POLY1305_SHA256''),
     (0x1304, ''TLS_AES_128_CCM_SHA256''),
     (0x1305, ''TLS_AES_128_CCM_8_SHA256''),
     (0xc02b, ''TLS_ECDHE_ECDSA_WITH_AES_128_GCM_SHA256''),
     (0xc02c, ''TLS_ECDHE_ECDSA_WITH_AES_256_GCM_SHA384''),
     (0xc023, ''TLS_ECDHE_ECDSA_WITH_AES_128_CBC_SHA256''),
     (0xc024, ''TLS_ECDHE_ECDSA_WITH_AES_256_CBC_SHA384''),
     (0xc02f, ''TLS_ECDHE_RSA_WITH_AES_128_GCM_SHA256''),
     (0xc030, ''TLS_ECDHE_RSA_WITH_AES_256_GCM_SHA384''),
     (0xc027, ''TLS_ECDHE_RSA_WITH_AES_128_CBC_SHA256''),
     (0xc028, ''TLS_ECDHE_RSA_WITH_AES_256_CBC_SHA384''),
     (0x009e, ''TLS_DHE_RSA_WITH_AES_128_GCM_SHA256''),
     (0x009f, ''TLS_DHE_RSA_WITH_AES_256_GCM_SHA384''),
     (0x0067, ''TLS_DHE_RSA_WITH_AES_128_CBC_SHA256''),
     (0x006b, ''TLS_DHE_RSA_WITH_AES_256_CBC_SHA256''),
     (0x009c, ''TLS_RSA_WITH_AES_128_GCM_SHA256''),
     (0x009d, ''TLS_RSA_WITH_AES_256_GCM_SHA384''),
     (0x003c, ''TLS_RSA_WITH_AES_128_CBC_SHA256''),
     (0x003d, ''TLS_RSA_WITH_AES_256_CBC_SHA256''),
     (0x00ae, ''TLS_PSK_WITH_AES_128_GCM_SHA256''),
     (0x00af, ''TLS_PSK_WITH_AES_256_GCM_SHA384''),
     (0x008c, ''TLS_PSK_WITH_AES_128_CBC_SHA256''),
     (0x008d, ''TLS_PSK_WITH_AES_256_CBC_SHA384''),
     (0x0005, ''TLS_RSA_WITH_RC4_128_SHA''),
     (0x000a, ''TLS_RSA_WITH_3DES_EDE_CBC_SHA''),
     (0x002f, ''TLS_RSA_WITH_AES_128_CBC_SHA''),
     (0x0035, ''TLS_RSA_WITH_AES_256_CBC_SHA'')]"

definition cipher_suite_to_str :: "u16 \<Rightarrow> string" where
  "cipher_suite_to_str suite = unwrap_or (map_of cipher_suite_names suite) ''UNKNOWN''"

definition compression_method_to_str :: "byte \<Rightarrow> string" where
  "compression_method_to_str m =
     (if m = 0 then ''null (no compression)'' else ''Unknown Compression Method 0x'' @ hex_byte m)"

definition get_cipher_suites_str :: "TlsClientHello \<Rightarrow> string list" where
  "get_cipher_suites_str h = map cipher_suite_to_str (cipher_suites h)"

definition get_compression_methods_str :: "TlsClientHello \<Rightarrow> string list" where
  "get_compression_methods_str h = map compression_method_to_str (compression_methods h)"

section \<open>The host name\<close>

datatype SniParserError = NoSniFound | InvalidExtensionFormat | Utf8Error

fun read_sni :: "TlsExtension list \<Rightarrow> (SniParserError + string) run" where
  "read_sni [] = Some (Inl NoSniFound)"
| "read_sni (e # es) =
     (if ext_typ e = ServerName then
        if length (ext_data e) < 5 then Some (Inl InvalidExtensionFormat)
        else do {
          name_type \<leftarrow> idx (ext_data e) 2;
          if name_type \<noteq> 0 then read_sni es
          else do {
            nl \<leftarrow> read_u16 (ext_data e) 3;
            let name_length = unat nl;
            if length (ext_data e) - 5 < name_length then Some (Inl InvalidExtensionFormat)
            else do {
              name \<leftarrow> slice (ext_data e) 5 (5 + name_length);
              (case from_utf8 name of
                 None \<Rightarrow> Some (Inl Utf8Error)
               | Some hostname \<Rightarrow> Some (Inr hostname)) } } }
      else read_sni es)"

definition read_sni_hostname :: "TlsClientHello \<Rightarrow> (SniParserError + string) run" where
  "read_sni_hostname hello = read_sni (extensions hello)"

section \<open>No input panics\<close>

lemma read_u16_Some [simp]: "i + 1 < length data \<Longrightarrow> read_u16 data i = Some (be16 (data ! i) (data ! (i + 1)))"
  by (simp add: read_u16_def)

lemma read_extensions_step:
  assumes "current + 4 \<le> end'" and "end' \<le> length data"
  shows "read_extensions data current end' =
    (let typ = be16 (data ! current) (data ! (current + 1));
         len = unat (be16 (data ! (current + 2)) (data ! (current + 3))) in
     if end' < current + 4 + len then Some (Inl (MessageIncomplete (current + 4)))
     else map_option (map_sum id ((#) \<lparr> ext_typ = extension_from typ, ext_data = take len (drop (current + 4) data) \<rparr>))
            (read_extensions data (current + 4 + len) end'))"
  using assms
  by (subst read_extensions.simps) (simp add: Let_def numeral_eq_Suc split: option.splits sum.splits)

lemma read_extensions_end: "end' < current + 4 \<Longrightarrow> read_extensions data current end' = Some (Inr [])"
  by (subst read_extensions.simps) simp

lemma read_extensions_total:
  assumes "end' \<le> length data"
  shows "read_extensions data current end' \<noteq> None"
proof (induction "end' - current" arbitrary: current rule: less_induct)
  case less
  show ?case
  proof (cases "current + 4 \<le> end'")
    case True
    with less assms show ?thesis by (simp add: read_extensions_step Let_def)
  next
    case False
    then show ?thesis by (simp add: read_extensions_end)
  qed
qed

lemma read_suites_Some:
  assumes "start + n \<le> length data"
  shows "read_suites data start n =
    Some (map (\<lambda>i. be16 (data ! (start + i * 2)) (data ! (start + i * 2 + 1))) [0..<n div 2])"
  using assms unfolding read_suites_def by (intro those_map_Some read_u16_Some) auto

lemma read_sni_total: "read_sni es \<noteq> None"
proof (induction es)
  case (Cons e es)
  then show ?case by (auto simp: Let_def split: option.splits)
qed simp

lemma try_from_total: "try_from data \<noteq> None"
proof (cases "length data < 6")
  case False
  then have ne: "data \<noteq> []" by auto
  show ?thesis
    unfolding try_from_def Let_def
    by (intro if_total bind_total)
       (simp_all add: ne read_extensions_total read_suites_Some split: sum.splits)
qed (simp add: try_from_def)

text \<open>C27: Neither the ClientHello parser nor the reader of the server name panics, on any
  bytes: every index and every slice is in range.\<close>

theorem client_hello_never_panics:
  "try_from data \<noteq> None \<and> read_sni_hostname hello \<noteq> None"
  by (simp add: try_from_total read_sni_hostname_def read_sni_total)

section \<open>The wire form of a ClientHello\<close>

definition encode_extension :: "TlsExtension \<Rightarrow> bytes" where
  "encode_extension e =
     enc16 (extension_into (ext_typ e)) @ enc16 (of_nat (length (ext_data e))) @ ext_data e"

definition extension_wf :: "TlsExtension \<Rightarrow> bool" where
  "extension_wf e \<longleftrightarrow> length (ext_data e) < 2 ^ 16 \<and> extension_from (extension_into (ext_typ e)) = ext_typ e"

lemma length_encode_extension: "length (encode_extension e) = 4 + length (ext_data e)"
  by (simp add: encode_extension_def enc16_def)

lemma unat_len16: "n < 2 ^ 16 \<Longrightarrow> unat (of_nat n :: u16) = n"
  by (simp add: unsigned_of_nat take_bit_eq_mod)

lemma read_extensions_encode:
  assumes "list_all extension_wf es"
  shows "read_extensions (pre @ concat (map encode_extension es) @ post) (length pre)
           (length pre + length (concat (map encode_extension es))) = Some (Inr es)"
  using assms
proof (induction es arbitrary: pre)
  case Nil
  then show ?case by (simp add: read_extensions_end)
next
  case (Cons e es)
  let ?t = "extension_into (ext_typ e)" and ?n = "of_nat (length (ext_data e)) :: u16"
  let ?tail = "concat (map encode_extension es) @ post"
  let ?data = "pre @ encode_extension e @ ?tail"
  have wf: "unat ?n = length (ext_data e)" "extension_from ?t = ext_typ e"
    using Cons.prems by (simp_all add: extension_wf_def unat_len16)
  have d: "?data = pre @ byte_at 1 ?t # byte_at 0 ?t # byte_at 1 ?n # byte_at 0 ?n # ext_data e @ ?tail"
    by (simp add: encode_extension_def enc16_def)
  have b: "be16 (?data ! length pre) (?data ! (length pre + 1)) = ?t"
    "be16 (?data ! (length pre + 2)) (?data ! (length pre + 3)) = ?n"
    unfolding d by (simp_all add: nth_append beS)
  have t: "take (length (ext_data e)) (drop (length pre + 4) ?data) = ext_data e"
    unfolding d by simp
  have IH: "read_extensions ((pre @ encode_extension e) @ ?tail) (length (pre @ encode_extension e))
      (length (pre @ encode_extension e) + length (concat (map encode_extension es))) = Some (Inr es)"
    using Cons by (intro Cons.IH) simp
  have "read_extensions ?data (length pre) (length pre + length (concat (map encode_extension (e # es)))) =
      Some (Inr (\<lparr> ext_typ = ext_typ e, ext_data = ext_data e \<rparr> # es))"
    using IH
    by (subst read_extensions_step)
       (simp_all only: b t wf Let_def, simp_all add: length_encode_extension add.assoc)
  then show ?case by simp
qed


definition encode_hello :: "TlsClientHello \<Rightarrow> bytes \<Rightarrow> bytes \<Rightarrow> bytes" where
  "encode_hello h rec_hdr len3 =
     [0x16] @ rec_hdr @ [0x01] @ len3 @ [fst (protocol_version h), snd (protocol_version h)] @ random h
     @ [of_nat (length (session_id h))] @ session_id h
     @ enc16 (of_nat (2 * length (cipher_suites h))) @ concat (map enc16 (cipher_suites h))
     @ [of_nat (length (compression_methods h))] @ compression_methods h
     @ enc16 (of_nat (length (concat (map encode_extension (extensions h)))))
     @ concat (map encode_extension (extensions h))"

definition hello_wf :: "TlsClientHello \<Rightarrow> bool" where
  "hello_wf h \<longleftrightarrow>
     length (random h) = 32 \<and> length (session_id h) < 256 \<and> length (cipher_suites h) < 2 ^ 15 \<and>
     length (compression_methods h) < 256 \<and> list_all extension_wf (extensions h) \<and>
     length (concat (map encode_extension (extensions h))) < 2 ^ 16"

lemma idx_at: "n = length pre \<Longrightarrow> idx (pre @ x # r) n = Some x"
  by (simp add: idx_def)

lemma slice_at: "i = length pre \<Longrightarrow> j = length pre + length mid \<Longrightarrow> slice (pre @ mid @ r) i j = Some mid"
  by (simp add: slice_def)

lemma read_u16_at: "n = length pre \<Longrightarrow> read_u16 (pre @ enc16 w @ r) n = Some w"
  by (simp add: read_u16_def enc16_def nth_append beS)

lemma length_enc16_concat [simp]: "length (concat (map enc16 ws)) = 2 * length ws"
  by (induction ws) (simp_all add: enc16_def)

lemma read_suites_at:
  assumes "start = length pre" and "n = 2 * length ws"
  shows "read_suites (pre @ concat (map enc16 ws) @ r) start n = Some ws"
proof -
  have "read_u16 (pre @ concat (map enc16 ws) @ r) (start + i * 2) = Some (ws ! i)" if "i < length ws" for i
  proof -
    have "ws = take i ws @ ws ! i # drop (Suc i) ws" using that by (rule id_take_nth_drop)
    then have "pre @ concat (map enc16 ws) @ r =
        (pre @ concat (map enc16 (take i ws))) @ enc16 (ws ! i) @ (concat (map enc16 (drop (Suc i) ws)) @ r)"
      by (metis append.assoc concat.simps(2) concat_append list.simps(9) map_append)
    moreover have "start + i * 2 = length (pre @ concat (map enc16 (take i ws)))"
      using that assms(1) by simp
    ultimately show ?thesis using read_u16_at by metis
  qed
  then have "read_suites (pre @ concat (map enc16 ws) @ r) start n = Some (map ((!) ws) [0..<length ws])"
    using assms(2) unfolding read_suites_def by (intro those_map_Some [THEN trans]) auto
  then show ?thesis by (simp add: map_nth)
qed

text \<open>C28: A well-formed ClientHello, encoded as TLS does and followed by anything, is parsed
  back to itself.\<close>

theorem client_hello_roundtrip:
  assumes "hello_wf h" and "length rec_hdr = 4" and "length len3 = 3"
  shows "try_from (encode_hello h rec_hdr len3 @ rest) = Some (Inr h)"
proof -
  let ?D = "encode_hello h rec_hdr len3 @ rest"
  let ?S = "session_id h" and ?C = "cipher_suites h" and ?M = "compression_methods h"
  let ?E = "concat (map encode_extension (extensions h))"
  let ?v0 = "fst (protocol_version h)" and ?v1 = "snd (protocol_version h)"
  note wf = assms [unfolded hello_wf_def]
  define c where "c = (of_nat (2 * length ?C) :: u16)"
  define p1 where "p1 = [0x16] @ rec_hdr"
  define p2 where "p2 = p1 @ [0x01] @ len3"
  define p3 where "p3 = p2 @ [?v0, ?v1]"
  define p4 where "p4 = p3 @ random h"
  define p5 where "p5 = p4 @ [of_nat (length ?S)]"
  define p6 where "p6 = p5 @ ?S"
  define p7 where "p7 = p6 @ enc16 c"
  define p8 where "p8 = p7 @ concat (map enc16 ?C)"
  define p9 where "p9 = p8 @ [of_nat (length ?M)]"
  define p10 where "p10 = p9 @ ?M"
  define p11 where "p11 = p10 @ enc16 (of_nat (length ?E))"
  define t11 where "t11 = ?E @ rest"
  define t10 where "t10 = enc16 (of_nat (length ?E)) @ t11"
  define t9 where "t9 = ?M @ t10"
  define t8 where "t8 = of_nat (length ?M) # t9"
  define t7 where "t7 = concat (map enc16 ?C) @ t8"
  define t6 where "t6 = enc16 c @ t7"
  define t5 where "t5 = ?S @ t6"
  define t4 where "t4 = of_nat (length ?S) # t5"
  define t3 where "t3 = random h @ t4"
  define t2 where "t2 = ?v1 # t3"
  define t1 where "t1 = len3 @ ?v0 # t2"
  note ts = t1_def t2_def t3_def t4_def t5_def t6_def t7_def t8_def t9_def t10_def t11_def
  note ps = p1_def p2_def p3_def p4_def p5_def p6_def p7_def p8_def p9_def p10_def p11_def
  have len: "length p1 = 5" "length p2 = 9" "length p3 = 11" "length p4 = 43" "length p5 = 44"
    "length p6 = 44 + length ?S" "length p7 = 46 + length ?S" "length p8 = 46 + length ?S + 2 * length ?C"
    "length p9 = 47 + length ?S + 2 * length ?C" "length p10 = 47 + length ?S + 2 * length ?C + length ?M"
    "length p11 = 49 + length ?S + 2 * length ?C + length ?M"
    using wf by (simp_all add: ps enc16_def)
  have D: "?D = [] @ 0x16 # (rec_hdr @ 0x01 # t1)" "?D = p1 @ 0x01 # t1"
    "?D = p2 @ ?v0 # t2" "?D = (p2 @ [?v0]) @ ?v1 # t3" "?D = p3 @ random h @ t4"
    "?D = p4 @ of_nat (length ?S) # t5" "?D = p5 @ ?S @ t6"
    "?D = p6 @ enc16 c @ t7" "?D = p7 @ concat (map enc16 ?C) @ t8"
    "?D = p8 @ of_nat (length ?M) # t9" "?D = p9 @ ?M @ t10"
    "?D = p10 @ enc16 (of_nat (length ?E)) @ t11" "?D = p11 @ ?E @ rest"
    by (simp_all add: encode_hello_def ps ts c_def)
  have lenD: "length (encode_hello h rec_hdr len3) = length p11 + length ?E"
    using arg_cong [OF D(13), of length] by simp
  have u: "unat (of_nat (length ?S) :: byte) = length ?S" "unat (of_nat (length ?M) :: byte) = length ?M"
    "unat c = 2 * length ?C" "unat (of_nat (length ?E) :: u16) = length ?E"
    subgoal using wf by (simp add: unsigned_of_nat take_bit_eq_mod)
    subgoal using wf by (simp add: unsigned_of_nat take_bit_eq_mod)
    subgoal unfolding c_def by (rule unat_len16) (use wf in simp)
    subgoal by (rule unat_len16) (use wf in simp)
    done
  have i: "idx ?D 0 = Some 0x16" "idx ?D 5 = Some 0x01" "idx ?D 9 = Some ?v0" "idx ?D 10 = Some ?v1"
    "slice ?D 11 43 = Some (random h)" "idx ?D 43 = Some (of_nat (length ?S))"
    "slice ?D 44 (44 + length ?S) = Some ?S"
    "read_u16 ?D (44 + length ?S) = Some c"
    "read_suites ?D (46 + length ?S) (2 * length ?C) = Some ?C"
    "idx ?D (46 + length ?S + 2 * length ?C) = Some (of_nat (length ?M))"
    "slice ?D (47 + length ?S + 2 * length ?C) (47 + length ?S + 2 * length ?C + length ?M) = Some ?M"
    "read_u16 ?D (47 + length ?S + 2 * length ?C + length ?M) = Some (of_nat (length ?E))"
    "read_extensions ?D (49 + length ?S + 2 * length ?C + length ?M)
       (49 + length ?S + 2 * length ?C + length ?M + length ?E) = Some (Inr (extensions h))"
    subgoal by (subst D(1), rule idx_at, simp)
    subgoal by (subst D(2), rule idx_at, simp add: len)
    subgoal by (subst D(3), rule idx_at, simp add: len)
    subgoal by (subst D(4), rule idx_at, simp add: len)
    subgoal using wf by (subst D(5), intro slice_at, simp_all add: len)
    subgoal by (subst D(6), rule idx_at, simp add: len)
    subgoal by (subst D(7), rule slice_at, simp_all add: len)
    subgoal by (subst D(8), rule read_u16_at, simp add: len)
    subgoal by (subst D(9), rule read_suites_at, simp_all add: len)
    subgoal by (subst D(10), rule idx_at, simp add: len)
    subgoal by (subst D(11), rule slice_at, simp_all add: len)
    subgoal by (subst D(12), rule read_u16_at, simp add: len)
    subgoal using read_extensions_encode [of "extensions h" p11 rest] wf by (subst D(13), simp add: len)
    done
  have at: "idx ?D n = Some (of_nat (length ?M))" if "n = 46 + length ?S + 2 * length ?C" for n
    using that i by simp
  have sl: "slice ?D m n = Some ?M"
    if "m = 47 + length ?S + 2 * length ?C" and "n = 47 + length ?S + 2 * length ?C + length ?M" for m n
    using that i by simp
  have ru: "read_u16 ?D n = Some (of_nat (length ?E))"
    if "n = 47 + length ?S + 2 * length ?C + length ?M" for n
    using that i by simp
  have re: "read_extensions ?D m n = Some (Inr (extensions h))"
    if "m = 49 + length ?S + 2 * length ?C + length ?M"
      and "n = 49 + length ?S + 2 * length ?C + length ?M + length ?E" for m n
    using that i by simp
  show ?thesis
    unfolding try_from_def Let_def
    by (simp add: lenD len i(1-9) at sl ru re u del: idx_Some slice_Some read_u16_Some)
qed

definition sni_extension :: "string \<Rightarrow> TlsExtension" where
  "sni_extension host =
     \<lparr> ext_typ = ServerName,
       ext_data = enc16 (of_nat (length host + 3)) @ [0] @ enc16 (of_nat (length host)) @ as_bytes host \<rparr>"

text \<open>The host name of the first server_name extension is the one read from a ClientHello.\<close>

theorem sni_hostname_found:
  assumes "extensions h = before @ sni_extension host # after"
    and "\<forall>e \<in> set before. ext_typ e \<noteq> ServerName"
    and "length host < 2 ^ 16" and "utf8_valid (as_bytes host)"
  shows "read_sni_hostname h = Some (Inr host)"
proof -
  have skip: "read_sni (before @ es) = read_sni es" for es
    using assms(2) by (induction before) auto
  have n: "unat (of_nat (length host) :: u16) = length host"
    using assms(3) by (simp add: unat_len16)
  have s: "slice (ext_data (sni_extension host)) 5 (5 + length host) = Some (as_bytes host)"
    and l: "length (ext_data (sni_extension host)) = 5 + length host"
    and u: "read_u16 (ext_data (sni_extension host)) 3 = Some (of_nat (length host))"
    and i: "idx (ext_data (sni_extension host)) 2 = Some 0"
    by (simp_all add: sni_extension_def enc16_def slice_def read_u16_def idx_def nth_append beS as_bytes_def)
  have "ext_typ (sni_extension host) = ServerName" by (simp add: sni_extension_def)
  then have "read_sni (sni_extension host # after) = Some (Inr host)"
    using from_utf8_as_bytes [OF assms(4)] by (simp add: s l u i n)
  then show ?thesis by (simp add: read_sni_hostname_def assms(1) skip)
qed

definition hello_sample :: TlsClientHello where
  "hello_sample =
     \<lparr> protocol_version = (3, 3), random = replicate 32 7, session_id = [1, 2], cipher_suites = [0x1301, 0xC02B],
       compression_methods = [0],
       extensions = [\<lparr> ext_typ = UnknownExtension 0x0017, ext_data = [] \<rparr>, sni_extension ''a.dev''] \<rparr>"

lemma sni_hostname_found_witness: "read_sni_hostname hello_sample = Some (Inr ''a.dev'')"
proof (rule sni_hostname_found)
  show "extensions hello_sample =
      [\<lparr> ext_typ = UnknownExtension 0x0017, ext_data = [] \<rparr>] @ sni_extension ''a.dev'' # []"
    by (simp add: hello_sample_def)
  show "utf8_valid (as_bytes ''a.dev'')" by code_simp
qed simp_all

lemma client_hello_roundtrip_witness:
  "try_from (encode_hello hello_sample [3, 1, 0, 99] [0, 0, 95] @ [0, 0]) = Some (Inr hello_sample)"
proof (rule client_hello_roundtrip)
  show "hello_wf hello_sample"
    by (simp add: hello_wf_def hello_sample_def extension_wf_def sni_extension_def encode_extension_def
        enc16_def as_bytes_def extension_into_def extension_from_def)
qed simp_all

text \<open>Extension numbers survive the conversion to the enumeration and back; the number taken
  for KeyShare is 0x0028, and 0x0033 is unknown.\<close>

theorem extension_numbers:
  "extension_into (extension_from v) = v \<and>
   (extension_from v = KeyShare \<longleftrightarrow> v = 0x0028) \<and> extension_from 0x0033 = UnknownExtension 0x0033"
  by (simp add: extension_from_def extension_into_def)

section \<open>Growing buffers\<close>

text \<open>
  \<open>answer_kept r r'\<close>: what was answered on a buffer, \<open>r\<close>, is that more bytes are needed, or is
  also the answer \<open>r'\<close> on the longer buffer.
\<close>

definition answer_kept ::
  "(TlsClientHelloError + 'a) run \<Rightarrow> (TlsClientHelloError + 'a) run \<Rightarrow> bool" where
  "answer_kept r r' \<longleftrightarrow> (\<exists>n. r = Some (Inl (MessageIncomplete n))) \<or> r = None \<or> r = r'"

lemma kept_incomplete:
  "(c' \<Longrightarrow> c) \<Longrightarrow> (\<not> c \<Longrightarrow> answer_kept a b) \<Longrightarrow>
     answer_kept (if c then Some (Inl (MessageIncomplete n)) else a) (if c' then Some (Inl (MessageIncomplete n)) else b)"
  by (auto simp: answer_kept_def)

lemma kept_if: "(\<not> c \<Longrightarrow> answer_kept a b) \<Longrightarrow> answer_kept (if c then r else a) (if c then r else b)"
  by (auto simp: answer_kept_def)

lemma kept_not_hello:
  "\<not> c \<Longrightarrow> \<not> c' \<Longrightarrow> answer_kept a b \<Longrightarrow> answer_kept (if c then r else a) (if c' then r else b)"
  by (auto simp: answer_kept_def)

lemma kept_bind:
  "(\<And>v. x = Some v \<Longrightarrow> x' = Some v) \<Longrightarrow> (\<And>v. x = Some v \<Longrightarrow> answer_kept (f v) (g v)) \<Longrightarrow>
     answer_kept (x \<bind> f) (x' \<bind> g)"
  by (cases x) (auto simp: answer_kept_def)

lemma read_u16_append: "read_u16 data i = Some v \<Longrightarrow> read_u16 (data @ rest) i = Some v"
  by (auto simp: read_u16_def idx_append bind_eq_Some_conv)

lemma read_suites_append:
  "start + n \<le> length data \<Longrightarrow> read_suites (data @ rest) start n = read_suites data start n"
  by (auto simp: read_suites_Some nth_append)

lemma read_extensions_append:
  "end' \<le> length data \<Longrightarrow> read_extensions (data @ rest) current end' = read_extensions data current end'"
proof (induction "end' - current" arbitrary: current rule: less_induct)
  case less
  show ?case
  proof (cases "current + 4 \<le> end'")
    case True
    let ?len = "unat (be16 (data ! (current + 2)) (data ! (current + 3)))"
    have "read_extensions (data @ rest) (current + 4 + ?len) end' = read_extensions data (current + 4 + ?len) end'"
      using less True by auto
    with True less.prems show ?thesis
      by (simp add: read_extensions_step nth_append Let_def)
  qed (simp add: read_extensions_end)
qed

lemma try_from_kept:
  assumes "6 \<le> length data"
  shows "answer_kept (try_from data) (try_from (data @ rest))"
  unfolding try_from_def Let_def
  apply (rule kept_not_hello)
    apply (use assms in simp)
   apply (use assms in simp)
  apply (rule kept_bind, erule idx_append)
  apply (rule kept_if)
  apply (rule kept_incomplete, simp)
  apply (rule kept_not_hello)
    apply (use assms in simp)
   apply (use assms in simp)
  apply (intro kept_bind kept_if kept_incomplete;
      (erule idx_append slice_append read_u16_append | simp add: read_suites_append read_extensions_append)?)
  apply (simp add: answer_kept_def)
  done

text \<open>Once the ClientHello parser answers anything but an incomplete message, more bytes do
  not change the answer.\<close>

theorem client_hello_answer_stable:
  assumes "6 \<le> length data"
  shows "(\<exists>n. try_from data = Some (Inl (MessageIncomplete n))) \<or> try_from (data @ rest) = try_from data"
  using try_from_kept [OF assms, of rest] try_from_total [of data] by (auto simp: answer_kept_def)

lemma client_hello_answer_stable_witness:
  "try_from ([0x16, 3, 1, 0, 99, 2] @ [0, 0, 1]) = try_from [0x16, 3, 1, 0, 99, 2]"
proof -
  have "try_from [0x16, 3, 1, 0, 99, 2] = Some (Inl NotClientHello)"
    by (simp add: try_from_def)
  then show ?thesis using client_hello_answer_stable [of "[0x16, 3, 1, 0, 99, 2]" "[0, 0, 1]"] by simp
qed

end
