(* ===== verification/Config_V3.thy ===== *)
theory Config_V3
  imports Prelude
begin

text \<open>
  The current configuration schema, \<open>src/configuration/v3.rs\<close> with the shared types of
  \<open>src/configuration/mod.rs\<close>: the records, the hand-written equality of sites, and the choice
  of a backend. Serde attributes and documentation strings are not modelled; an \<open>IpAddr\<close> is the
  text it prints as.
\<close>

section \<open>Data\<close>

record EnvVar =
  ev_key :: string
  ev_value :: string

datatype LogFormat = standard | dotnet

datatype LogLevel = Trace | Debug | Info | Warn | Error

type_synonym ProcId = string

record DirServer =
  ds_dir :: string
  ds_host_name :: string
  ds_capture_subdomains :: "bool option"
  ds_enable_lets_encrypt :: "bool option"
  ds_enable_directory_browsing :: "bool option"
  ds_redirect_to_https :: "bool option"
  ds_render_markdown :: "bool option"
  ds_cache_control_max_age_in_seconds :: "u64 option"

datatype Hint = H2 | H2C | H2CPK | H1 | H3

record Backend =
  bk_address :: string
  bk_port :: u16
  bk_https :: "bool option"
  bk_hints :: "Hint list option"

record InProcessSiteConfig =
  hp_proc_id :: ProcId
  hp_active_port :: "u16 option"
  hp_terminate_tls :: "bool option"
  hp_terminate_http :: "bool option"
  hp_hints :: "Hint list option"
  hp_host_name :: string
  hp_dir :: "string option"
  hp_bin :: string
  hp_args :: "string list option"
  hp_env_vars :: "EnvVar list option"
  hp_log_format :: "LogFormat option"
  hp_auto_start :: "bool option"
  hp_port :: "u16 option"
  hp_https :: "bool option"
  hp_capture_subdomains :: "bool option"
  hp_forward_subdomains :: "bool option"
  hp_exclude_from_start_all :: "bool option"
  hp_enable_lets_encrypt :: "bool option"
  hp_log_level :: "LogLevel option"
  hp_redirect_to_https :: "bool option"

record FullyResolvedInProcessSiteConfig =
  fr_excluded_from_start_all :: bool
  fr_proc_id :: ProcId
  fr_active_port :: "u16 option"
  fr_terminate_tls :: "bool option"
  fr_hints :: "Hint list option"
  fr_host_name :: string
  fr_dir :: "string option"
  fr_bin :: string
  fr_args :: "string list option"
  fr_env_vars :: "EnvVar list option"
  fr_log_format :: "LogFormat option"
  fr_log_level :: "LogLevel option"
  fr_auto_start :: "bool option"
  fr_port :: "u16 option"
  fr_https :: "bool option"
  fr_capture_subdomains :: "bool option"
  fr_forward_subdomains :: "bool option"

record RemoteSiteConfig =
  rs_host_name :: string
  rs_backends :: "Backend list"
  rs_capture_subdomains :: "bool option"
  rs_terminate_tls :: "bool option"
  rs_terminate_http :: "bool option"
  rs_forward_subdomains :: "bool option"
  rs_enable_lets_encrypt :: "bool option"
  rs_keep_original_host_header :: "bool option"
  rs_redirect_to_https :: "bool option"

text \<open>\<open>version\<close> has the single value \<open>V3\<close> and is left out.\<close>

record OddBoxV3Config =
  cfg_path :: "string option"
  cfg_root_dir :: "string option"
  cfg_log_level :: "LogLevel option"
  cfg_alpn :: "bool option"
  cfg_port_range_start :: u16
  cfg_default_log_format :: LogFormat
  cfg_ip :: "string option"
  cfg_http_port :: "u16 option"
  cfg_tls_port :: "u16 option"
  cfg_auto_start :: "bool option"
  cfg_env_vars :: "EnvVar list"
  cfg_remote_target :: "RemoteSiteConfig list option"
  cfg_hosted_process :: "InProcessSiteConfig list option"
  cfg_dir_server :: "DirServer list option"
  cfg_lets_encrypt_account_email :: "string option"
  cfg_odd_box_url :: "string option"
  cfg_odd_box_password :: "string option"
  cfg_use_loopback_ip_for_procs :: "bool option"

section \<open>Equality of sites\<close>

definition compare_option_bool :: "bool option \<Rightarrow> bool option \<Rightarrow> bool" where
  "compare_option_bool a b =
     (case (a, b) of
        (None, Some False) \<Rightarrow> True
      | (Some False, None) \<Rightarrow> True
      | _ \<Rightarrow> a = b)"

definition compare_option_log_format :: "LogFormat option \<Rightarrow> LogFormat option \<Rightarrow> bool" where
  "compare_option_log_format a b =
     (case (a, b) of
        (None, Some standard) \<Rightarrow> True
      | (Some standard, None) \<Rightarrow> True
      | _ \<Rightarrow> a = b)"

definition process_eq :: "InProcessSiteConfig \<Rightarrow> InProcessSiteConfig \<Rightarrow> bool" where
  "process_eq a b \<longleftrightarrow>
     hp_log_level a = hp_log_level b \<and>
     compare_option_bool (hp_terminate_tls a) (hp_terminate_tls b) \<and>
     compare_option_bool (hp_terminate_http a) (hp_terminate_http b) \<and>
     hp_hints a = hp_hints b \<and>
     hp_host_name a = hp_host_name b \<and>
     hp_dir a = hp_dir b \<and>
     hp_bin a = hp_bin b \<and>
     hp_args a = hp_args b \<and>
     hp_env_vars a = hp_env_vars b \<and>
     compare_option_log_format (hp_log_format a) (hp_log_format b) \<and>
     compare_option_bool (hp_auto_start a) (hp_auto_start b) \<and>
     hp_port a = hp_port b \<and>
     hp_https a = hp_https b \<and>
     compare_option_bool (hp_capture_subdomains a) (hp_capture_subdomains b) \<and>
     compare_option_bool (hp_forward_subdomains a) (hp_forward_subdomains b) \<and>
     compare_option_bool (hp_exclude_from_start_all a) (hp_exclude_from_start_all b)"

definition remote_eq :: "RemoteSiteConfig \<Rightarrow> RemoteSiteConfig \<Rightarrow> bool" where
  "remote_eq a b \<longleftrightarrow>
     rs_host_name a = rs_host_name b \<and>
     rs_backends a = rs_backends b \<and>
     compare_option_bool (rs_keep_original_host_header a) (rs_keep_original_host_header b) \<and>
     compare_option_bool (rs_enable_lets_encrypt a) (rs_enable_lets_encrypt b) \<and>
     compare_option_bool (rs_capture_subdomains a) (rs_capture_subdomains b) \<and>
     compare_option_bool (rs_terminate_tls a) (rs_terminate_tls b) \<and>
     compare_option_bool (rs_forward_subdomains a) (rs_forward_subdomains b) \<and>
     compare_option_bool (rs_terminate_http a) (rs_terminate_http b)"

lemma compare_option_bool_iff: "compare_option_bool a b \<longleftrightarrow> is_set a = is_set b"
  by (cases a; cases b) (auto simp: compare_option_bool_def split: bool.splits)

lemma compare_option_log_format_iff:
  "compare_option_log_format a b \<longleftrightarrow> unwrap_or a standard = unwrap_or b standard"
  by (auto simp: compare_option_log_format_def split: option.splits LogFormat.splits)

text \<open>What the equality sees of a site: absent flags read as false, some fields not at all.\<close>

definition remote_view :: "RemoteSiteConfig \<Rightarrow> RemoteSiteConfig" where
  "remote_view r =
     r\<lparr> rs_keep_original_host_header := Some (is_set (rs_keep_original_host_header r)),
        rs_enable_lets_encrypt := Some (is_set (rs_enable_lets_encrypt r)),
        rs_capture_subdomains := Some (is_set (rs_capture_subdomains r)),
        rs_terminate_tls := Some (is_set (rs_terminate_tls r)),
        rs_forward_subdomains := Some (is_set (rs_forward_subdomains r)),
        rs_terminate_http := Some (is_set (rs_terminate_http r)),
        rs_redirect_to_https := None \<rparr>"

definition process_view :: "InProcessSiteConfig \<Rightarrow> InProcessSiteConfig" where
  "process_view p =
     p\<lparr> hp_terminate_tls := Some (is_set (hp_terminate_tls p)),
        hp_terminate_http := Some (is_set (hp_terminate_http p)),
        hp_log_format := Some (unwrap_or (hp_log_format p) standard),
        hp_auto_start := Some (is_set (hp_auto_start p)),
        hp_capture_subdomains := Some (is_set (hp_capture_subdomains p)),
        hp_forward_subdomains := Some (is_set (hp_forward_subdomains p)),
        hp_exclude_from_start_all := Some (is_set (hp_exclude_from_start_all p)),
        hp_proc_id := [], hp_active_port := None, hp_enable_lets_encrypt := None,
        hp_redirect_to_https := None \<rparr>"

text \<open>Two sites are equal exactly when they agree on the compared settings, absent and false
  taken as the same: the settings left out of the comparison never make a difference.\<close>

theorem site_equality:
  "(remote_eq a b \<longleftrightarrow> remote_view a = remote_view b) \<and> (process_eq p q \<longleftrightarrow> process_view p = process_view q)"
proof
  show "remote_eq a b \<longleftrightarrow> remote_view a = remote_view b"
    unfolding remote_eq_def remote_view_def compare_option_bool_iff
    by (cases a; cases b) (simp, blast)
  show "process_eq p q \<longleftrightarrow> process_view p = process_view q"
    unfolding process_eq_def process_view_def compare_option_bool_iff compare_option_log_format_iff
    by (cases p; cases q) (simp, blast)
qed

section \<open>Backends\<close>

datatype BackendFilter = Any | H2OrH2cpk | Http2 | Http1 | H2CPriorKnowledge | H2Cleartext | AnyTLS

definition filter_backend :: "Backend \<Rightarrow> BackendFilter \<Rightarrow> bool" where
  "filter_backend backend flt =
     (let hints = unwrap_or (bk_hints backend) [] in
      case flt of
        Any \<Rightarrow> True
      | AnyTLS \<Rightarrow> is_set (bk_https backend)
      | H2OrH2cpk \<Rightarrow> list_ex (\<lambda>h. h = H2 \<or> h = H2CPK) hints
      | Http2 \<Rightarrow> list_ex (\<lambda>h. h = H2) hints
      | Http1 \<Rightarrow> length hints = 0 \<or> list_ex (\<lambda>h. h = H1) hints
      | H2CPriorKnowledge \<Rightarrow> list_ex (\<lambda>h. h = H2CPK) hints
      | H2Cleartext \<Rightarrow> list_ex (\<lambda>h. h = H2C) hints)"

text \<open>
  What \<open>next_backend\<close> reads of the global state: the number of requests counted per host name
  (\<open>lb_access_count_per_hostname\<close>) and the loopback setting.
\<close>

record BalancerState =
  lb_access_count_per_hostname :: "string \<rightharpoonup> nat"
  bs_use_loopback :: "bool option"

definition pick_backend :: "BalancerState \<Rightarrow> string \<Rightarrow> Backend list \<Rightarrow> Backend option" where
  "pick_backend st host_name filtered =
     (if length filtered = 1 then Some (filtered ! 0)
      else if length filtered = 0 then None
      else
        (let count = unwrap_or (lb_access_count_per_hostname st host_name) 0 in
         Some (filtered ! (count mod length filtered))))"

definition process_backend :: "BalancerState \<Rightarrow> InProcessSiteConfig \<Rightarrow> Backend" where
  "process_backend st self =
     (let port = (case hp_active_port self of
                    Some p \<Rightarrow> p
                  | None \<Rightarrow>
                      (case hp_port self of
                         Some p \<Rightarrow> p
                       | None \<Rightarrow> if is_set (hp_https self) then 443 else 80));
          local_addr = (if is_set (bs_use_loopback st) then ''127.0.0.1'' else ''localhost'')
      in \<lparr> bk_address = local_addr, bk_port = port, bk_https = hp_https self, bk_hints = hp_hints self \<rparr>)"

definition process_next_backend ::
  "BalancerState \<Rightarrow> BackendFilter \<Rightarrow> InProcessSiteConfig \<Rightarrow> Backend option" where
  "process_next_backend st flt self =
     pick_backend st (hp_host_name self) (filter (\<lambda>x. filter_backend x flt) [process_backend st self])"

definition remote_next_backend ::
  "BalancerState \<Rightarrow> BackendFilter \<Rightarrow> RemoteSiteConfig \<Rightarrow> Backend option" where
  "remote_next_backend st flt self =
     pick_backend st (rs_host_name self) (filter (\<lambda>x. filter_backend x flt) (rs_backends self))"

text \<open>
  The interface the connection handlers rely on, for both kinds of site: the backend returned is
  one of the site's own and passes the filter, and there is one whenever some backend passes.
\<close>

locale backend_selector =
  fixes candidates :: "BalancerState \<Rightarrow> 's \<Rightarrow> Backend list"
    and select :: "BalancerState \<Rightarrow> BackendFilter \<Rightarrow> 's \<Rightarrow> Backend option"
  assumes select_sound: "select st flt s = Some b \<Longrightarrow> b \<in> set (candidates st s) \<and> filter_backend b flt"
    and select_complete: "b \<in> set (candidates st s) \<Longrightarrow> filter_backend b flt \<Longrightarrow> select st flt s \<noteq> None"
begin

lemma select_None_iff: "select st flt s = None \<longleftrightarrow> (\<forall>b \<in> set (candidates st s). \<not> filter_backend b flt)"
  using select_sound select_complete by (metis not_None_eq)

lemma tls_backend: "select st AnyTLS s = Some b \<Longrightarrow> bk_https b = Some True"
  using select_sound [of st AnyTLS s b] by (simp add: filter_backend_def is_set_iff)

lemma any_backend: "candidates st s \<noteq> [] \<Longrightarrow> select st Any s \<noteq> None"
  using select_complete [of "hd (candidates st s)" st s Any] by (simp add: filter_backend_def)

lemma http1_without_hints:
  "b \<in> set (candidates st s) \<Longrightarrow> bk_hints b = None \<Longrightarrow> select st Http1 s \<noteq> None"
  using select_complete [of b st s Http1] by (simp add: filter_backend_def)

end

lemma pick_backend_sound: "pick_backend st h bs = Some b \<Longrightarrow> b \<in> set bs"
  by (auto simp: pick_backend_def split: if_splits)

lemma pick_backend_complete: "bs \<noteq> [] \<Longrightarrow> pick_backend st h bs \<noteq> None"
  by (auto simp: pick_backend_def)

interpretation remote_selector: backend_selector "\<lambda>_. rs_backends" remote_next_backend
proof (unfold_locales, goal_cases)
  case (1 st flt s b)
  then show ?case by (auto simp: remote_next_backend_def dest!: pick_backend_sound)
next
  case (2 b st s flt)
  then show ?case
    unfolding remote_next_backend_def by (intro pick_backend_complete) (auto simp: filter_empty_conv)
qed

interpretation process_selector: backend_selector "\<lambda>st s. [process_backend st s]" process_next_backend
proof (unfold_locales, goal_cases)
  case (1 st flt s b)
  then show ?case
    by (auto simp: process_next_backend_def dest!: pick_backend_sound split: if_splits)
next
  case (2 b st s flt)
  then show ?case
    unfolding process_next_backend_def by (intro pick_backend_complete) (auto simp: filter_empty_conv)
qed

text \<open>Over one round of consecutive access counts, next_backend of a remote site hands out
  each backend that passes the filter exactly once, in configuration order.\<close>

theorem round_robin:
  assumes "eligible = filter (\<lambda>b. filter_backend b flt) (rs_backends r)" and "eligible \<noteq> []"
  shows "map (\<lambda>i. remote_next_backend
               (st\<lparr> lb_access_count_per_hostname := (lb_access_count_per_hostname st)(rs_host_name r \<mapsto> n * length eligible + i) \<rparr>)
               flt r) [0..<length eligible]
         = map Some eligible"
proof (rule nth_equalityI)
  fix i
  assume "i < length (map (\<lambda>i. remote_next_backend
               (st\<lparr> lb_access_count_per_hostname := (lb_access_count_per_hostname st)(rs_host_name r \<mapsto> n * length eligible + i) \<rparr>)
               flt r) [0..<length eligible])"
  then have i: "i < length eligible" by simp
  have "pick_backend (st\<lparr> lb_access_count_per_hostname := (lb_access_count_per_hostname st)(rs_host_name r \<mapsto> n * length eligible + i) \<rparr>)
      (rs_host_name r) eligible = Some (eligible ! i)"
    using i by (auto simp: pick_backend_def)
  with i show "map (\<lambda>i. remote_next_backend
               (st\<lparr> lb_access_count_per_hostname := (lb_access_count_per_hostname st)(rs_host_name r \<mapsto> n * length eligible + i) \<rparr>)
               flt r) [0..<length eligible] ! i = map Some eligible ! i"
    by (simp add: remote_next_backend_def flip: assms(1))
qed simp

text \<open>next_backend returns a configured backend that passes the filter, and none only when no
  backend passes it, for remote sites and for hosted processes.\<close>

theorem remote_backend_selection:
  "(case remote_next_backend st flt r of
      Some b \<Rightarrow> b \<in> set (rs_backends r) \<and> filter_backend b flt
    | None \<Rightarrow> (\<forall>b \<in> set (rs_backends r). \<not> filter_backend b flt)) \<and>
   (case process_next_backend st flt p of
      Some b \<Rightarrow> b = process_backend st p \<and> filter_backend b flt
    | None \<Rightarrow> \<not> filter_backend (process_backend st p) flt)"
  using remote_selector.select_sound [of st flt r] remote_selector.select_None_iff [of st flt r]
    process_selector.select_sound [of st flt p] process_selector.select_None_iff [of st flt p]
  by (auto split: option.split)

definition backend_sample :: "string \<Rightarrow> Hint list option \<Rightarrow> Backend" where
  "backend_sample a hs = \<lparr> bk_address = a, bk_port = 80, bk_https = None, bk_hints = hs \<rparr>"

definition remote_sample :: "Backend list \<Rightarrow> RemoteSiteConfig" where
  "remote_sample bs =
     \<lparr> rs_host_name = ''a.dev'', rs_backends = bs, rs_capture_subdomains = None, rs_terminate_tls = None,
       rs_terminate_http = None, rs_forward_subdomains = None, rs_enable_lets_encrypt = None,
       rs_keep_original_host_header = None, rs_redirect_to_https = None \<rparr>"

lemma round_robin_witness:
  "let b = backend_sample ''x'' None; c = backend_sample ''y'' (Some [H2]); d = backend_sample ''z'' (Some [H1]);
       st = \<lparr> lb_access_count_per_hostname = Map.empty, bs_use_loopback = None \<rparr>
   in map (\<lambda>i. remote_next_backend
               (st\<lparr> lb_access_count_per_hostname := (lb_access_count_per_hostname st)(''a.dev'' \<mapsto> 3 * 2 + i) \<rparr>)
               Http1 (remote_sample [b, c, d])) [0..<2] = [Some b, Some d]"
proof -
  let ?b = "backend_sample ''x'' None" and ?c = "backend_sample ''y'' (Some [H2])" and ?d = "backend_sample ''z'' (Some [H1])"
  have "[?b, ?d] = filter (\<lambda>b. filter_backend b Http1) (rs_backends (remote_sample [?b, ?c, ?d]))"
    by (simp add: filter_backend_def backend_sample_def remote_sample_def)
  from round_robin [OF this, of "\<lparr> lb_access_count_per_hostname = Map.empty, bs_use_loopback = None \<rparr>" 3]
  show ?thesis by (simp only: Let_def) (simp add: remote_sample_def upt_conv_Cons)
qed

lemma remote_backend_selection_witness:
  "remote_next_backend \<lparr> lb_access_count_per_hostname = Map.empty, bs_use_loopback = None \<rparr> Http2
     (remote_sample [backend_sample ''x'' None]) = None"
proof -
  let ?st = "\<lparr> lb_access_count_per_hostname = Map.empty, bs_use_loopback = None \<rparr>"
  let ?r = "remote_sample [backend_sample ''x'' None]"
  have "\<not> filter_backend b Http2" if "b \<in> set (rs_backends ?r)" for b
    using that by (simp add: remote_sample_def backend_sample_def filter_backend_def)
  then show ?thesis
    using conjunct1 [OF remote_backend_selection [where st = ?st and flt = Http2 and r = ?r]]
    by (cases "remote_next_backend ?st Http2 ?r") auto
qed

end
