(* ===== verification/Configuration.thy ===== *)
theory Configuration
  imports Config_V3 "HOL-Library.Multiset"
begin

text \<open>
  The run-time configuration, \<open>ConfigWrapper\<close> of \<open>src/configuration/mod.rs\<close>: the maps built from
  the configuration's lists, its validation, the edits of the administration API, the choice of
  the port of a hosted process and the resolution of the \<open>$root_dir\<close>, \<open>$cfg_dir\<close> and \<open>~\<close>
  variables. What the operating system answers is an argument: which ports are free, a random
  free port, whether the file was written, the home and current directories, and
  \<open>std::fs::canonicalize\<close>.
\<close>

section \<open>The wrapper\<close>

record ConfigWrapper =
  internal_configuration :: OddBoxV3Config
  remote_sites :: "string \<rightharpoonup> RemoteSiteConfig"
  hosted_processes :: "string \<rightharpoonup> InProcessSiteConfig"
  wrapper_cache_map_is_dirty :: bool
  internal_version :: nat

definition keyed_map :: "('a \<Rightarrow> string) \<Rightarrow> 'a list option \<Rightarrow> string \<rightharpoonup> 'a" where
  "keyed_map key xs = foldl (\<lambda>m x. m(key x \<mapsto> x)) Map.empty (unwrap_or xs [])"

definition ConfigWrapper_new :: "OddBoxV3Config \<Rightarrow> ConfigWrapper" where
  "ConfigWrapper_new config =
     \<lparr> internal_configuration = config,
       remote_sites = keyed_map rs_host_name (cfg_remote_target config),
       hosted_processes = keyed_map hp_host_name (cfg_hosted_process config),
       wrapper_cache_map_is_dirty = False,
       internal_version = 0 \<rparr>"

definition reload_dashmaps :: "ConfigWrapper \<Rightarrow> ConfigWrapper" where
  "reload_dashmaps w =
     w\<lparr> remote_sites := keyed_map rs_host_name (cfg_remote_target (internal_configuration w)),
        hosted_processes := keyed_map hp_host_name (cfg_hosted_process (internal_configuration w)),
        wrapper_cache_map_is_dirty := False \<rparr>"

text \<open>\<open>persist\<close> lists the maps in the order the DashMap iterates (the argument \<open>ri\<close>, \<open>hi\<close>).\<close>

definition persist ::
  "((string \<rightharpoonup> RemoteSiteConfig) \<Rightarrow> RemoteSiteConfig list) \<Rightarrow>
   ((string \<rightharpoonup> InProcessSiteConfig) \<Rightarrow> InProcessSiteConfig list) \<Rightarrow> ConfigWrapper \<Rightarrow> ConfigWrapper" where
  "persist ri hi w =
     (let remote_targets = ri (remote_sites w);
          hosted = hi (hosted_processes w);
          c = internal_configuration w;
          c = c\<lparr> cfg_remote_target := (if remote_targets = [] then None else Some remote_targets),
                 cfg_hosted_process := (if hosted = [] then None else Some hosted) \<rparr>
      in w\<lparr> internal_configuration := c, wrapper_cache_map_is_dirty := False \<rparr>)"

section \<open>Validation\<close>

datatype config_error =
    GlobalPortVariable
  | RemoteTunnelLetsEncrypt string
  | RemoteWildcardLetsEncrypt string
  | ProcessTunnelLetsEncrypt string
  | ProcessWildcardLetsEncrypt string
  | PortVariableMismatch string
  | DuplicateHostNames "string list"
  | DuplicatePorts "(u16 \<times> string list) list"

text \<open>The checks a loop makes on its items, stopped at the first error.\<close>

fun check_each :: "('a \<Rightarrow> 'e option) \<Rightarrow> 'a list \<Rightarrow> 'e option" where
  "check_each chk [] = None"
| "check_each chk (x # xs) = (case chk x of Some e \<Rightarrow> Some e | None \<Rightarrow> check_each chk xs)"

definition check_remote :: "RemoteSiteConfig \<Rightarrow> config_error option" where
  "check_remote target =
     (if is_set (rs_enable_lets_encrypt target) then
        if \<not> is_set (rs_terminate_tls target) then Some (RemoteTunnelLetsEncrypt (rs_host_name target))
        else if is_set (rs_capture_subdomains target) then Some (RemoteWildcardLetsEncrypt (rs_host_name target))
        else None
      else None)"

definition check_port_variable :: "u16 \<Rightarrow> string \<Rightarrow> EnvVar \<Rightarrow> config_error option" where
  "check_port_variable port host env_var =
     (if str_eq_ignore_case (ev_key env_var) ''port'' then
        (case parse_uint 16 (ev_value env_var) of
           Some env_port \<Rightarrow> if env_port \<noteq> unat port then Some (PortVariableMismatch host) else None
         | None \<Rightarrow> None)
      else None)"

definition check_process :: "InProcessSiteConfig \<Rightarrow> config_error option" where
  "check_process p =
     (if is_set (hp_enable_lets_encrypt p) \<and> \<not> is_set (hp_terminate_tls p) then
        Some (ProcessTunnelLetsEncrypt (hp_host_name p))
      else if is_set (hp_enable_lets_encrypt p) \<and> is_set (hp_capture_subdomains p) then
        Some (ProcessWildcardLetsEncrypt (hp_host_name p))
      else
        (case hp_port p of
           None \<Rightarrow> None
         | Some port \<Rightarrow>
             check_each (check_port_variable port (hp_host_name p)) (unwrap_or (hp_env_vars p) [])))"

text \<open>The keys counted more than once, and what they were counted for.\<close>

definition duplicates :: "'a list \<Rightarrow> 'a list" where
  "duplicates xs = filter (\<lambda>x. 1 < count_list xs x) (remdups xs)"

definition configured_ports :: "InProcessSiteConfig list \<Rightarrow> (u16 \<times> string) list" where
  "configured_ports ps =
     concat (map (\<lambda>p. case hp_port p of Some port \<Rightarrow> [(port, hp_host_name p)] | None \<Rightarrow> []) ps)"

definition all_host_names :: "OddBoxV3Config \<Rightarrow> string list" where
  "all_host_names c =
     map ds_host_name (unwrap_or (cfg_dir_server c) []) @
     map rs_host_name (unwrap_or (cfg_remote_target c) []) @
     map hp_host_name (unwrap_or (cfg_hosted_process c) [])"

definition is_valid :: "OddBoxV3Config \<Rightarrow> config_error + unit" where
  "is_valid c =
     (if list_ex (\<lambda>x. str_eq_ignore_case (ev_key x) ''port'') (cfg_env_vars c) then Inl GlobalPortVariable
      else
        (case check_each check_remote (unwrap_or (cfg_remote_target c) []) of
           Some e \<Rightarrow> Inl e
         | None \<Rightarrow>
             (case check_each check_process (unwrap_or (cfg_hosted_process c) []) of
                Some e \<Rightarrow> Inl e
              | None \<Rightarrow>
                  (let dup = duplicates (all_host_names c) in
                   if dup \<noteq> [] then Inl (DuplicateHostNames dup)
                   else
                     (let ports = configured_ports (unwrap_or (cfg_hosted_process c) []);
                          dup_ports = map (\<lambda>p. (p, map snd (filter (\<lambda>x. fst x = p) ports)))
                                        (duplicates (map fst ports)) in
                      if dup_ports \<noteq> [] then Inl (DuplicatePorts dup_ports) else Inr ())))))"

section \<open>Edits\<close>

definition add_or_replace_hosted_process ::
  "(OddBoxV3Config \<Rightarrow> bool) \<Rightarrow> string \<Rightarrow> InProcessSiteConfig \<Rightarrow> ConfigWrapper \<Rightarrow> (unit + unit) \<times> ConfigWrapper" where
  "add_or_replace_hosted_process write hostname item w =
     (let c = internal_configuration w;
          c = (case cfg_hosted_process c of
                 Some sites \<Rightarrow>
                   c\<lparr> cfg_hosted_process := Some
                       (filter (\<lambda>x. hp_host_name x \<noteq> hostname)
                         (filter (\<lambda>x. hp_host_name x \<noteq> hp_host_name item) sites) @ [item]) \<rparr>
               | None \<Rightarrow> c\<lparr> cfg_hosted_process := Some [item] \<rparr>)
      in (if write c then Inr () else Inl (), w\<lparr> internal_configuration := c \<rparr>))"

definition add_or_replace_dir_site ::
  "(OddBoxV3Config \<Rightarrow> bool) \<Rightarrow> string \<Rightarrow> DirServer \<Rightarrow> ConfigWrapper \<Rightarrow> (unit + unit) \<times> ConfigWrapper" where
  "add_or_replace_dir_site write old_hostname item w =
     (let c = internal_configuration w;
          c = (case cfg_dir_server c of
                 Some sites \<Rightarrow>
                   c\<lparr> cfg_dir_server := Some
                       (filter (\<lambda>x. ds_host_name x \<noteq> ds_host_name item)
                         (filter (\<lambda>x. ds_host_name x \<noteq> old_hostname) sites) @ [item]) \<rparr>
               | None \<Rightarrow> c\<lparr> cfg_dir_server := Some [item] \<rparr>)
      in (if write c then Inr () else Inl (), w\<lparr> internal_configuration := c \<rparr>))"

definition add_or_replace_remote_site ::
  "(OddBoxV3Config \<Rightarrow> bool) \<Rightarrow> string \<Rightarrow> RemoteSiteConfig \<Rightarrow> ConfigWrapper \<Rightarrow> (unit + unit) \<times> ConfigWrapper" where
  "add_or_replace_remote_site write hostname item w =
     (let c = internal_configuration w;
          c = (case cfg_remote_target c of
                 Some sites \<Rightarrow>
                   c\<lparr> cfg_remote_target := Some
                       (filter (\<lambda>x. rs_host_name x \<noteq> rs_host_name item)
                         (filter (\<lambda>x. rs_host_name x \<noteq> hostname) sites) @ [item]) \<rparr>
               | None \<Rightarrow> c\<lparr> cfg_remote_target := Some [item] \<rparr>)
      in (if write c then Inr () else Inl (), w\<lparr> internal_configuration := c \<rparr>))"

section \<open>Ports\<close>

definition busy_ports :: "OddBoxV3Config \<Rightarrow> (ProcId \<times> u16) list" where
  "busy_ports c =
     concat (map (\<lambda>x.
        (case hp_port x of Some p \<Rightarrow> [(hp_proc_id x, p)] | None \<Rightarrow> []) @
        (case hp_active_port x of Some p \<Rightarrow> [(hp_proc_id x, p)] | None \<Rightarrow> []))
      (unwrap_or (cfg_hosted_process c) []))"

definition find_and_set_unused_port :: "OddBoxV3Config \<Rightarrow> InProcessSiteConfig \<Rightarrow> unit + u16" where
  "find_and_set_unused_port c proc =
     (case (cfg_hosted_process c, hp_port proc) of
        (Some procs, Some manually_chosen_port) \<Rightarrow>
          if Some manually_chosen_port \<in> set (map hp_port procs) then Inl () else Inr manually_chosen_port
      | (None, Some manually_chosen_port) \<Rightarrow> Inr manually_chosen_port
      | (_, None) \<Rightarrow> Inr (cfg_port_range_start c))"

text \<open>
  The search from \<open>port_range_start\<close>: \<open>inner_selected_port += 1\<close> panics past 65535 (\<open>None\<close>).
\<close>

function search_port :: "u16 list \<Rightarrow> (u16 \<Rightarrow> bool) \<Rightarrow> u16 \<Rightarrow> u16 run" where
  "search_port unavailable free port =
     (if port \<in> set unavailable \<or> \<not> free port then
        if unat port + 1 < 2 ^ 16 then search_port unavailable free (port + 1) else None
      else Some port)"
  by pat_completeness auto
termination
proof (relation "measure (\<lambda>(unavailable, free, port). 2 ^ 16 - unat port)", goal_cases)
  case (2 unavailable free port)
  then have "unat (port + 1) = unat port + 1"
    by (simp add: unat_word_ariths)
  with 2 show ?case by simp
qed simp

declare search_port.simps [simp del]

text \<open>The active port of the first hosted process with this identity.\<close>

fun set_first_active :: "ProcId \<Rightarrow> u16 \<Rightarrow> InProcessSiteConfig list \<Rightarrow> InProcessSiteConfig list" where
  "set_first_active i p [] = []"
| "set_first_active i p (x # xs) =
     (if hp_proc_id x = i then x\<lparr> hp_active_port := Some p \<rparr> # xs else x # set_first_active i p xs)"

text \<open>
  \<open>x.key.to_lowercase() == "port"\<close>: no character outside ASCII lower-cases to one of these four
  letters, so the ASCII fold decides the same.
\<close>

definition preferred_port ::
  "u16 option \<Rightarrow> (ProcId \<times> u16) list \<Rightarrow> FullyResolvedInProcessSiteConfig \<Rightarrow> u16 option \<Rightarrow> u16 option" where
  "preferred_port rnd unavailable proc selected =
     (case fr_port proc of
        Some prefered \<Rightarrow>
          if prefered = 0 then rnd
          else if list_ex (\<lambda>x. snd x = prefered) unavailable then selected
          else Some prefered
      | None \<Rightarrow>
          (case List.find (\<lambda>x. str_eq_ignore_case (ev_key x) ''port'') (unwrap_or (fr_env_vars proc) []) of
             Some ev \<Rightarrow>
               if list_ex (\<lambda>x. dec (unat (snd x)) = ev_value ev) unavailable then selected
               else (case parse_uint 16 (ev_value ev) of
                       Some spbev \<Rightarrow> Some (of_nat spbev)
                     | None \<Rightarrow> selected)
           | None \<Rightarrow> selected))"

definition set_active_port ::
  "(u16 \<Rightarrow> bool) \<Rightarrow> u16 option \<Rightarrow> FullyResolvedInProcessSiteConfig \<Rightarrow> ConfigWrapper \<Rightarrow>
     ((unit + u16) \<times> ConfigWrapper) run" where
  "set_active_port free rnd proc w =
     (let c = internal_configuration w;
          unavailable = filter (\<lambda>x. fst x \<noteq> fr_proc_id proc) (busy_ports c);
          taken = (\<lambda>p. list_ex (\<lambda>x. snd x = p) unavailable);
          current = fr_active_port proc in
      if (case current of Some p \<Rightarrow> \<not> taken p \<and> free p | None \<Rightarrow> False) then Some (Inr (the current), w)
      else
        (let selected = (case current of Some p \<Rightarrow> if taken p then Some p else None | None \<Rightarrow> None);
             selected = preferred_port rnd unavailable proc selected in
         do {
           port \<leftarrow> (case selected of
                      Some p \<Rightarrow> Some p
                    | None \<Rightarrow> search_port (map snd unavailable) free (cfg_port_range_start c));
           let c = c\<lparr> cfg_hosted_process :=
                       map_option (set_first_active (fr_proc_id proc) port) (cfg_hosted_process c) \<rparr>;
           Some (Inr port, w\<lparr> internal_configuration := c \<rparr>) }))"

section \<open>Variables\<close>

text \<open>\<open>str::replace\<close> of a non-empty pattern.\<close>

function replace_str :: "string \<Rightarrow> string \<Rightarrow> string \<Rightarrow> string" where
  "replace_str p r s =
     (case s of
        [] \<Rightarrow> []
      | c # cs \<Rightarrow>
          if p \<noteq> [] \<and> starts_with s p then r @ replace_str p r (drop (length p) s)
          else c # replace_str p r cs)"
  by pat_completeness auto
termination
  by (relation "measure (\<lambda>(p, r, s). length s)") auto

declare replace_str.simps [simp del]

text \<open>
  \<open>Path::parent\<close> on a \<open>/\<close>-separated path: trailing separators and \<open>.\<close> components are dropped, then
  the last component; the root and the empty path have no parent.
\<close>

function trim_path :: "string \<Rightarrow> string" where
  "trim_path p =
     (if ends_with p ''/'' \<and> p \<noteq> ''/'' then trim_path (butlast p)
      else if ends_with p ''/.'' then trim_path (butlast p)
      else p)"
  by pat_completeness auto
termination
  by (relation "measure length") (auto simp: ends_with_iff)

declare trim_path.simps [simp del]

definition path_parent :: "string \<Rightarrow> string option" where
  "path_parent p =
     (let q = trim_path p in
      if q = [] \<or> q = ''/'' then None
      else Some (trim_path (rev (dropWhile (\<lambda>c. c \<noteq> CHR ''/'') (rev q)))))"

datatype resolve_error = NoHomeDir | NoPath | NoCfgDir | RootDirInRootDir | RootDirUnresolved | NoCurrentDir

definition get_parent_path :: "OddBoxV3Config \<Rightarrow> resolve_error + string" where
  "get_parent_path c =
     (case cfg_path c of
        None \<Rightarrow> Inl NoPath
      | Some p \<Rightarrow>
          (case path_parent p of
             Some d \<Rightarrow> if d = [] then Inr ''.'' else Inr d
           | None \<Rightarrow> Inl NoCfgDir))"

record os =
  home_dir :: "string option"
  current_dir :: "string option"
  canonicalize :: "string \<Rightarrow> string option"

text \<open>The \<open>root_dir\<close> setting with its variables replaced and made canonical.\<close>

definition resolve_root_dir :: "os \<Rightarrow> string \<Rightarrow> string \<Rightarrow> string \<Rightarrow> resolve_error + string" where
  "resolve_root_dir sys home cfg_dir rd =
     (if contains_sub rd ''$root_dir'' then Inl RootDirInRootDir
      else
        (let replaced = replace_str ''~'' home (replace_str ''$cfg_dir'' cfg_dir rd) in
         case canonicalize sys replaced of
           Some p \<Rightarrow> Inr (replace_str [CHR 0x5C, CHR 0x5C, CHR ''?'', CHR 0x5C] [] p)
         | None \<Rightarrow> Inl RootDirUnresolved))"

definition with_vars :: "string \<Rightarrow> string \<Rightarrow> string \<Rightarrow> string \<Rightarrow> string" where
  "with_vars root_dir cfg_dir home x =
     replace_str ''~'' home (replace_str ''$cfg_dir'' cfg_dir (replace_str ''$root_dir'' root_dir x))"

definition resolve_dir_server_configuration ::
  "os \<Rightarrow> OddBoxV3Config \<Rightarrow> DirServer \<Rightarrow> resolve_error + DirServer" where
  "resolve_dir_server_configuration sys c item =
     (case home_dir sys of
        None \<Rightarrow> Inl NoHomeDir
      | Some home \<Rightarrow>
          (case get_parent_path c of
             Inl e \<Rightarrow> Inl e
           | Inr cfg_dir \<Rightarrow>
               (case (case cfg_root_dir c of
                        Some rd \<Rightarrow> resolve_root_dir sys home cfg_dir rd
                      | None \<Rightarrow> Inr ''$root_dir'') of
                  Inl e \<Rightarrow> Inl e
                | Inr root_dir \<Rightarrow> Inr (item\<lparr> ds_dir := with_vars root_dir cfg_dir home (ds_dir item) \<rparr>))))"

definition resolve_process_configuration ::
  "os \<Rightarrow> OddBoxV3Config \<Rightarrow> InProcessSiteConfig \<Rightarrow> resolve_error + FullyResolvedInProcessSiteConfig" where
  "resolve_process_configuration sys c proc =
     (case home_dir sys of
        None \<Rightarrow> Inl NoHomeDir
      | Some home \<Rightarrow>
          (case get_parent_path c of
             Inl e \<Rightarrow> Inl e
           | Inr cfg_dir \<Rightarrow>
               (case (case cfg_root_dir c of
                        Some rd \<Rightarrow> resolve_root_dir sys home cfg_dir rd
                      | None \<Rightarrow> (case current_dir sys of Some d \<Rightarrow> Inr d | None \<Rightarrow> Inl NoCurrentDir)) of
                  Inl e \<Rightarrow> Inl e
                | Inr root_dir \<Rightarrow>
                    (let v = with_vars root_dir cfg_dir home in
                     Inr \<lparr> fr_excluded_from_start_all = is_set (hp_exclude_from_start_all proc),
                           fr_proc_id = hp_proc_id proc,
                           fr_active_port = hp_active_port proc,
                           fr_terminate_tls = hp_terminate_tls proc,
                           fr_hints = hp_hints proc,
                           fr_host_name = hp_host_name proc,
                           fr_dir = map_option v (hp_dir proc),
                           fr_bin = v (hp_bin proc),
                           fr_args = map_option (map v) (hp_args proc),
                           fr_env_vars = hp_env_vars proc,
                           fr_log_format = hp_log_format proc,
                           fr_log_level = hp_log_level proc,
                           fr_auto_start = hp_auto_start proc,
                           fr_port = hp_port proc,
                           fr_https = hp_https proc,
                           fr_capture_subdomains = hp_capture_subdomains proc,
                           fr_forward_subdomains = hp_forward_subdomains proc \<rparr>))))"

section \<open>Validation, characterised\<close>

lemma check_each_None: "check_each chk xs = None \<longleftrightarrow> (\<forall>x \<in> set xs. chk x = None)"
  by (induction xs) (auto split: option.splits)

lemma duplicates_distinct: "duplicates xs = [] \<longleftrightarrow> distinct xs"
proof -
  have "distinct xs \<longleftrightarrow> (\<forall>x \<in> set xs. count_list xs x = 1)"
    by (induction xs) (auto simp: count_list_0_iff)
  moreover have "x \<in> set xs \<Longrightarrow> 0 < count_list xs x" for x
    using count_list_0_iff [of xs x] by auto
  ultimately show ?thesis
    by (force simp: duplicates_def filter_empty_conv)
qed

definition lets_encrypt_ok :: "bool option \<Rightarrow> bool option \<Rightarrow> bool option \<Rightarrow> bool" where
  "lets_encrypt_ok le tls sub \<longleftrightarrow> (is_set le \<longrightarrow> is_set tls \<and> \<not> is_set sub)"

definition port_variables_ok :: "InProcessSiteConfig \<Rightarrow> bool" where
  "port_variables_ok p \<longleftrightarrow>
     (\<forall>port. hp_port p = Some port \<longrightarrow>
        (\<forall>ev \<in> set (unwrap_or (hp_env_vars p) []). str_eq_ignore_case (ev_key ev) ''port'' \<longrightarrow>
           parse_uint 16 (ev_value ev) \<in> {None, Some (unat port)}))"

lemma check_remote_None:
  "check_remote r = None \<longleftrightarrow>
     lets_encrypt_ok (rs_enable_lets_encrypt r) (rs_terminate_tls r) (rs_capture_subdomains r)"
  by (auto simp: check_remote_def lets_encrypt_ok_def)

lemma check_process_None:
  "check_process p = None \<longleftrightarrow>
     lets_encrypt_ok (hp_enable_lets_encrypt p) (hp_terminate_tls p) (hp_capture_subdomains p) \<and> port_variables_ok p"
proof -
  have "check_port_variable port host ev = None \<longleftrightarrow>
      (str_eq_ignore_case (ev_key ev) ''port'' \<longrightarrow> parse_uint 16 (ev_value ev) \<in> {None, Some (unat port)})"
    for port host ev
    by (auto simp: check_port_variable_def split: option.splits)
  then show ?thesis
    by (auto simp: check_process_def lets_encrypt_ok_def port_variables_ok_def check_each_None split: option.splits)
qed

lemma valid_iff:
  "is_valid c = Inr () \<longleftrightarrow>
     (\<forall>ev \<in> set (cfg_env_vars c). \<not> str_eq_ignore_case (ev_key ev) ''port'') \<and>
     (\<forall>r \<in> set (unwrap_or (cfg_remote_target c) []).
        lets_encrypt_ok (rs_enable_lets_encrypt r) (rs_terminate_tls r) (rs_capture_subdomains r)) \<and>
     (\<forall>p \<in> set (unwrap_or (cfg_hosted_process c) []).
        lets_encrypt_ok (hp_enable_lets_encrypt p) (hp_terminate_tls p) (hp_capture_subdomains p) \<and> port_variables_ok p) \<and>
     distinct (all_host_names c) \<and>
     distinct (map fst (configured_ports (unwrap_or (cfg_hosted_process c) [])))"
proof -
  have e: "(check_each check_remote (unwrap_or (cfg_remote_target c) []) = None) \<longleftrightarrow>
      (\<forall>r \<in> set (unwrap_or (cfg_remote_target c) []).
        lets_encrypt_ok (rs_enable_lets_encrypt r) (rs_terminate_tls r) (rs_capture_subdomains r))"
    "(check_each check_process (unwrap_or (cfg_hosted_process c) []) = None) \<longleftrightarrow>
      (\<forall>p \<in> set (unwrap_or (cfg_hosted_process c) []).
        lets_encrypt_ok (hp_enable_lets_encrypt p) (hp_terminate_tls p) (hp_capture_subdomains p) \<and> port_variables_ok p)"
    by (simp_all add: check_each_None check_remote_None check_process_None)
  show ?thesis
    unfolding is_valid_def e [symmetric] duplicates_distinct [symmetric]
    by (simp add: Let_def list_ex_iff split: option.split)
qed


section \<open>Maps and lists\<close>

lemma foldl_keyed:
  "foldl (\<lambda>m x. m(key x \<mapsto> x)) m xs =
     (\<lambda>k. if filter (\<lambda>x. key x = k) xs = [] then m k else Some (last (filter (\<lambda>x. key x = k) xs)))"
proof (induction xs arbitrary: m)
  case (Cons x xs)
  then show ?case by (rule_tac ext) auto
qed simp

lemma keyed_map_lookup:
  "keyed_map key xs k =
     (let hits = filter (\<lambda>x. key x = k) (unwrap_or xs []) in if hits = [] then None else Some (last hits))"
  by (simp add: keyed_map_def foldl_keyed Let_def)

lemma single_hit:
  assumes "distinct (map key ys)" and "\<forall>x \<in> set ys. key x = k" and "v \<in> set ys"
  shows "ys = [v]"
proof (cases ys)
  case (Cons a zs)
  with assms have "zs = []" by (cases zs) auto
  with Cons assms(3) show ?thesis by simp
qed (use assms in simp)

lemma keyed_map_distinct:
  assumes "distinct (map key (unwrap_or xs []))"
  shows "keyed_map key xs k = Some v \<longleftrightarrow> v \<in> set (unwrap_or xs []) \<and> key v = k"
proof -
  let ?hits = "filter (\<lambda>x. key x = k) (unwrap_or xs [])"
  have one: "?hits = [v]" if "v \<in> set ?hits" for v
    using that by (intro single_hit [of key _ k]) (simp_all add: distinct_map_filter [OF assms])
  show ?thesis
  proof
    assume "keyed_map key xs k = Some v"
    then have "v = last ?hits" "?hits \<noteq> []"
      unfolding keyed_map_lookup Let_def by (simp_all split: if_splits)
    then have "v \<in> set ?hits" using last_in_set by blast
    then show "v \<in> set (unwrap_or xs []) \<and> key v = k" by simp
  next
    assume "v \<in> set (unwrap_or xs []) \<and> key v = k"
    then have "v \<in> set ?hits" by simp
    then have "?hits = [v]" by (rule one)
    then show "keyed_map key xs k = Some v" unfolding keyed_map_lookup Let_def by simp
  qed
qed

lemma same_hits: "(\<And>v. a = Some v \<longleftrightarrow> b = Some v) \<Longrightarrow> a = b"
  by (cases a; cases b) auto

lemma ran_keyed_map:
  assumes "distinct (map key (unwrap_or xs []))"
  shows "ran (keyed_map key xs) = set (unwrap_or xs [])"
  using keyed_map_distinct [OF assms] by (auto simp: ran_def)

text \<open>How \<open>DashMap::iter\<close> behaves: every value once.\<close>

definition lists_values :: "(('k \<rightharpoonup> 'a) \<Rightarrow> 'a list) \<Rightarrow> ('k \<rightharpoonup> 'a) \<Rightarrow> bool" where
  "lists_values it m \<longleftrightarrow> distinct (it m) \<and> set (it m) = ran m"

lemma relisted:
  assumes d: "distinct (map key (unwrap_or xs []))" and l: "lists_values it (keyed_map key xs)"
  shows "mset (it (keyed_map key xs)) = mset (unwrap_or xs [])"
    and "keyed_map key (if it (keyed_map key xs) = [] then None else Some (it (keyed_map key xs))) = keyed_map key xs"
proof -
  let ?ys = "it (keyed_map key xs)"
  have "distinct (unwrap_or xs [])" using d by (simp add: distinct_map)
  then show m: "mset ?ys = mset (unwrap_or xs [])"
    using l ran_keyed_map [OF d] by (intro iffD1 [OF set_eq_iff_mset_eq_distinct]) (simp_all add: lists_values_def)
  have "mset (map key ?ys) = mset (map key (unwrap_or xs []))" by (simp add: m)
  then have "distinct (map key ?ys)" using d by (metis mset_eq_imp_distinct_iff)
  then have dy: "distinct (map key (unwrap_or (if ?ys = [] then None else Some ?ys) []))" by auto
  have "set (unwrap_or (if ?ys = [] then None else Some ?ys) []) = set (unwrap_or xs [])"
    using m by (auto dest: mset_eq_setD)
  then show "keyed_map key (if ?ys = [] then None else Some ?ys) = keyed_map key xs"
    by (intro ext same_hits) (simp only: keyed_map_distinct [OF dy] keyed_map_distinct [OF d])
qed


section \<open>Replacing a site\<close>

lemma replace_keeps_distinct:
  assumes "distinct (map key xs)"
  shows "distinct (map key (filter (\<lambda>x. key x \<noteq> key item \<and> key x \<noteq> old) xs @ [item]))"
  using assms by (auto simp: distinct_map inj_on_def)

text \<open>Adding or replacing a remote site removes the entries with its old or new host name and
  appends it, and leaves every other site and setting alone.\<close>

theorem add_or_replace_remote:
  assumes "add_or_replace_remote_site write old item w = (r, w')"
  shows "(\<exists>others. cfg_remote_target (internal_configuration w') = Some (others @ [item]) \<and>
            others = filter (\<lambda>x. rs_host_name x \<noteq> rs_host_name item \<and> rs_host_name x \<noteq> old)
                       (unwrap_or (cfg_remote_target (internal_configuration w)) [])) \<and>
         (distinct (map rs_host_name (unwrap_or (cfg_remote_target (internal_configuration w)) [])) \<longrightarrow>
            distinct (map rs_host_name (unwrap_or (cfg_remote_target (internal_configuration w')) []))) \<and>
         remote_sites w' = remote_sites w \<and> (r = Inr () \<longleftrightarrow> write (internal_configuration w'))"
proof -
  let ?xs = "unwrap_or (cfg_remote_target (internal_configuration w)) []"
  have eq: "cfg_remote_target (internal_configuration w') =
      Some (filter (\<lambda>x. rs_host_name x \<noteq> rs_host_name item \<and> rs_host_name x \<noteq> old) ?xs @ [item])"
    using assms by (auto simp: add_or_replace_remote_site_def Let_def conj_commute split: option.splits)
  moreover have "remote_sites w' = remote_sites w" "r = Inr () \<longleftrightarrow> write (internal_configuration w')"
    using assms by (auto simp: add_or_replace_remote_site_def Let_def split: if_splits)
  ultimately show ?thesis
    using replace_keeps_distinct [of rs_host_name ?xs item old] by auto
qed

section \<open>Choosing a port\<close>

lemma search_port_result:
  "search_port unavailable free port = Some p \<Longrightarrow>
     port \<le> p \<and> p \<notin> set unavailable \<and> free p \<and> (\<forall>q. port \<le> q \<and> q < p \<longrightarrow> q \<in> set unavailable \<or> \<not> free q)"
proof (induction unavailable free port rule: search_port.induct)
  case (1 unavailable free port)
  show ?case
  proof (cases "port \<in> set unavailable \<or> \<not> free port")
    case False
    with 1 have "p = port" by (subst (asm) search_port.simps) simp
    with False show ?thesis by (auto dest: leD)
  next
    case True
    with 1(2) have lt: "unat port + 1 < 2 ^ 16" and rec: "search_port unavailable free (port + 1) = Some p"
      by (subst (asm) search_port.simps, simp split: if_splits)+
    have suc: "unat (port + 1) = unat port + 1" using lt by (simp add: unat_word_ariths)
    from 1(1) [OF True lt rec] have IH: "port + 1 \<le> p" "p \<notin> set unavailable" "free p"
      "\<forall>q. port + 1 \<le> q \<and> q < p \<longrightarrow> q \<in> set unavailable \<or> \<not> free q" by blast+
    have "port \<le> p" using IH(1) suc by (simp add: word_le_nat_alt)
    moreover have "q \<in> set unavailable \<or> \<not> free q" if "port \<le> q" "q < p" for q
    proof (cases "q = port")
      case False
      with that(1) have "unat port < unat q" by (metis le_neq_implies_less word_le_nat_alt word_unat_eq_iff)
      then have "port + 1 \<le> q" using suc by (simp add: word_le_nat_alt)
      with IH(4) that(2) show ?thesis by blast
    qed (use True in simp)
    ultimately show ?thesis using IH by blast
  qed
qed

lemma search_port_total:
  assumes "p \<notin> set unavailable" and "free p" and "port \<le> p"
  shows "search_port unavailable free port \<noteq> None"
  using assms
proof (induction unavailable free port rule: search_port.induct)
  case (1 unavailable free port)
  show ?case
  proof (cases "port \<in> set unavailable \<or> \<not> free port")
    case True
    with 1 have "port \<noteq> p" by auto
    with 1(4) have "unat port < unat p" by (metis le_neq_implies_less word_le_nat_alt word_unat_eq_iff)
    moreover have "unat p < 2 ^ 16" using unsigned_less [of p] by simp
    ultimately have lt: "unat port + 1 < 2 ^ 16" by linarith
    have "unat (port + 1) = unat port + 1" using lt by (simp add: unat_word_ariths)
    with \<open>unat port < unat p\<close> have "port + 1 \<le> p" by (simp add: word_le_nat_alt)
    with 1 True lt show ?thesis by (subst search_port.simps) auto
  qed (subst search_port.simps, simp)
qed

lemma search_port_exhausted:
  assumes "\<forall>p. port \<le> p \<longrightarrow> p \<in> set unavailable \<or> \<not> free p"
  shows "search_port unavailable free port = None"
  using search_port_result [of unavailable free port] assms by (metis not_None_eq)

definition taken_ports :: "ProcId \<Rightarrow> OddBoxV3Config \<Rightarrow> u16 list" where
  "taken_ports i c = map snd (filter (\<lambda>x. fst x \<noteq> i) (busy_ports c))"

lemma taken_list_ex: "list_ex (\<lambda>x. snd x = p) (filter (\<lambda>x. fst x \<noteq> i) (busy_ports c)) \<longleftrightarrow> p \<in> set (taken_ports i c)"
  by (force simp: taken_ports_def list_ex_iff)

lemma set_first_active_busy:
  assumes "i \<in> hp_proc_id ` set ps"
  shows "\<exists>x \<in> set (set_first_active i p ps). hp_proc_id x = i \<and> hp_active_port x = Some p"
  using assms by (induction ps) auto

lemma set_first_active_names: "map hp_host_name (set_first_active i p ps) = map hp_host_name ps"
  by (induction ps) auto


text \<open>A process whose active port is used by or configured for another process keeps that
  port.\<close>

theorem conflicting_active_port_kept:
  assumes "fr_active_port proc = Some p"
    and "p \<in> set (taken_ports (fr_proc_id proc) (internal_configuration w))"
    and "fr_port proc = None \<or> fr_port proc = Some p \<and> p \<noteq> 0"
    and "\<forall>ev \<in> set (unwrap_or (fr_env_vars proc) []). \<not> str_eq_ignore_case (ev_key ev) ''port''"
  shows "\<exists>w'. set_active_port free rnd proc w = Some (Inr p, w')"
proof -
  have none: "List.find (\<lambda>x. str_eq_ignore_case (ev_key x) ''port'') (unwrap_or (fr_env_vars proc) []) = None"
    using assms(4) by (simp add: find_None_iff)
  show ?thesis
    using assms(1,2,3) none
    by (auto simp: set_active_port_def preferred_port_def taken_list_ex Let_def)
qed

definition process_sample :: "string \<Rightarrow> u16 option \<Rightarrow> InProcessSiteConfig" where
  "process_sample host port =
     \<lparr> hp_proc_id = host, hp_active_port = None, hp_terminate_tls = None, hp_terminate_http = None, hp_hints = None,
       hp_host_name = host, hp_dir = None, hp_bin = ''run'', hp_args = None, hp_env_vars = None,
       hp_log_format = None, hp_auto_start = None, hp_port = port, hp_https = None,
       hp_capture_subdomains = None, hp_forward_subdomains = None, hp_exclude_from_start_all = None,
       hp_enable_lets_encrypt = None, hp_log_level = None, hp_redirect_to_https = None \<rparr>"

definition config_sample :: "RemoteSiteConfig list option \<Rightarrow> InProcessSiteConfig list option \<Rightarrow> OddBoxV3Config" where
  "config_sample rs ps =
     \<lparr> cfg_path = Some ''/etc/odd/odd-box.toml'', cfg_root_dir = None, cfg_log_level = None, cfg_alpn = None,
       cfg_port_range_start = 4200, cfg_default_log_format = standard, cfg_ip = None,
       cfg_http_port = None, cfg_tls_port = None, cfg_auto_start = None, cfg_env_vars = [],
       cfg_remote_target = rs, cfg_hosted_process = ps, cfg_dir_server = None,
       cfg_lets_encrypt_account_email = None, cfg_odd_box_url = None, cfg_odd_box_password = None,
       cfg_use_loopback_ip_for_procs = None \<rparr>"

definition resolved_sample :: "string \<Rightarrow> u16 option \<Rightarrow> FullyResolvedInProcessSiteConfig" where
  "resolved_sample host active =
     \<lparr> fr_excluded_from_start_all = False, fr_proc_id = host, fr_active_port = active, fr_terminate_tls = None,
       fr_hints = None, fr_host_name = host, fr_dir = None, fr_bin = ''run'', fr_args = None,
       fr_env_vars = None, fr_log_format = None, fr_log_level = None, fr_auto_start = None,
       fr_port = None, fr_https = None, fr_capture_subdomains = None, fr_forward_subdomains = None \<rparr>"

lemmas config_samples = process_sample_def config_sample_def resolved_sample_def


lemma conflicting_active_port_kept_witness:
  "\<exists>w'. set_active_port (\<lambda>_. True) None (resolved_sample ''a'' (Some 4200))
      (ConfigWrapper_new (config_sample None (Some [process_sample ''a'' None, process_sample ''b'' (Some 4200)])))
    = Some (Inr 4200, w')"
  by (rule conflicting_active_port_kept)
     (simp_all add: taken_ports_def busy_ports_def config_samples ConfigWrapper_new_def)

lemma valid_sample: "is_valid (config_sample (Some [remote_sample []]) (Some [process_sample ''b'' (Some 4200)])) = Inr ()"
  unfolding valid_iff
  by (simp add: config_samples remote_sample_def all_host_names_def configured_ports_def lets_encrypt_ok_def port_variables_ok_def)


lemma add_or_replace_remote_witness:
  "\<exists>w'. add_or_replace_remote_site (\<lambda>_. True) ''old'' (remote_sample [])
      (ConfigWrapper_new (config_sample (Some [remote_sample [backend_sample ''x'' None]]) None)) = (Inr (), w')
    \<and> cfg_remote_target (internal_configuration w') = Some [remote_sample []]"
proof -
  let ?w = "ConfigWrapper_new (config_sample (Some [remote_sample [backend_sample ''x'' None]]) None)"
  obtain r w' where a: "add_or_replace_remote_site (\<lambda>_. True) ''old'' (remote_sample []) ?w = (r, w')" by fastforce
  from add_or_replace_remote [OF a] have "r = Inr ()"
    "cfg_remote_target (internal_configuration w') = Some [remote_sample []]"
    by (auto simp: ConfigWrapper_new_def config_samples remote_sample_def)
  with a show ?thesis by blast
qed

section \<open>Resolving variables\<close>

lemma replace_str_absent: "\<not> contains_sub s p \<Longrightarrow> replace_str p r s = s"
proof (induction p r s rule: replace_str.induct)
  case (1 p r s)
  show ?case
  proof (cases s)
    case Nil
    then show ?thesis by (subst replace_str.simps) simp
  next
    case (Cons c cs)
    with 1(3) have "\<not> starts_with s p" "\<not> contains_sub cs p"
      by (auto simp: contains_sub_def split: if_splits)
    with 1(2) Cons show ?thesis by (subst replace_str.simps) simp
  qed
qed

text \<open>A resolved process keeps its identity and ports, and its directory, binary and arguments
  are the configured ones with the variables replaced.\<close>

theorem resolved_process:
  assumes "resolve_process_configuration sys c proc = Inr r"
  shows "fr_proc_id r = hp_proc_id proc \<and> fr_host_name r = hp_host_name proc \<and> fr_port r = hp_port proc \<and>
         fr_active_port r = hp_active_port proc \<and> fr_env_vars r = hp_env_vars proc \<and>
         (\<exists>root cfg home. home_dir sys = Some home \<and> get_parent_path c = Inr cfg \<and>
            (cfg_root_dir c = None \<longrightarrow> current_dir sys = Some root) \<and>
            (\<forall>rd. cfg_root_dir c = Some rd \<longrightarrow> \<not> contains_sub rd ''$root_dir'') \<and>
            fr_bin r = with_vars root cfg home (hp_bin proc) \<and>
            fr_dir r = map_option (with_vars root cfg home) (hp_dir proc) \<and>
            fr_args r = map_option (map (with_vars root cfg home)) (hp_args proc)) \<and>
         (\<not> contains_sub (hp_bin proc) ''$root_dir'' \<longrightarrow> \<not> contains_sub (hp_bin proc) ''$cfg_dir'' \<longrightarrow>
          \<not> contains_sub (hp_bin proc) ''~'' \<longrightarrow> fr_bin r = hp_bin proc)"
  using assms
  by (auto simp: resolve_process_configuration_def resolve_root_dir_def with_vars_def replace_str_absent Let_def
      split: option.splits sum.splits if_splits)

text \<open>When no root directory is configured, the $root_dir of a directory site is left as it
  is.\<close>

theorem dir_server_root_unresolved:
  assumes "cfg_root_dir c = None" and "home_dir sys = Some home" and "get_parent_path c = Inr cfg_dir"
    and "ds_dir item = ''$root_dir''"
  shows "resolve_dir_server_configuration sys c item = Inr item"
proof -
  have "replace_str ''$root_dir'' ''$root_dir'' ''$root_dir'' = ''$root_dir''" by code_simp
  moreover have "replace_str ''$cfg_dir'' cfg_dir ''$root_dir'' = ''$root_dir''"
    by (rule replace_str_absent) code_simp
  moreover have "replace_str ''~'' home ''$root_dir'' = ''$root_dir''"
    by (rule replace_str_absent) code_simp
  ultimately show ?thesis
    using assms by (simp add: resolve_dir_server_configuration_def with_vars_def)
qed

definition os_sample :: os where
  "os_sample = \<lparr> home_dir = Some ''/home/u'', current_dir = Some ''/srv'', canonicalize = Some \<rparr>"

lemma cfg_dir_sample: "get_parent_path (config_sample rs ps) = Inr ''/etc/odd''"
proof -
  have "path_parent ''/etc/odd/odd-box.toml'' = Some ''/etc/odd''" by code_simp
  then show ?thesis by (simp add: get_parent_path_def config_sample_def)
qed

lemma resolved_process_witness:
  "\<exists>r. resolve_process_configuration os_sample (config_sample None None) (process_sample ''a'' None) = Inr r \<and>
       fr_host_name r = ''a'' \<and> fr_bin r = ''run''"
proof -
  obtain r where r: "resolve_process_configuration os_sample (config_sample None None) (process_sample ''a'' None) = Inr r"
    by (simp add: resolve_process_configuration_def os_sample_def cfg_dir_sample) (simp add: config_sample_def Let_def)
  have "\<not> contains_sub ''run'' ''$root_dir''" "\<not> contains_sub ''run'' ''$cfg_dir''" "\<not> contains_sub ''run'' ''~''"
    by code_simp+
  with resolved_process [OF r] r show ?thesis by (simp add: process_sample_def)
qed

lemma dir_server_root_unresolved_witness:
  "\<exists>item. ds_dir item = ''$root_dir'' \<and>
     resolve_dir_server_configuration os_sample (config_sample None None) item = Inr item"
proof -
  let ?item = "\<lparr> ds_dir = ''$root_dir'', ds_host_name = ''a'', ds_capture_subdomains = None, ds_enable_lets_encrypt = None,
    ds_enable_directory_browsing = None, ds_redirect_to_https = None, ds_render_markdown = None,
    ds_cache_control_max_age_in_seconds = None \<rparr>"
  have "resolve_dir_server_configuration os_sample (config_sample None None) ?item = Inr ?item"
    by (rule dir_server_root_unresolved [OF _ _ cfg_dir_sample]) (simp_all add: config_sample_def os_sample_def)
  then show ?thesis by (intro exI [of _ ?item]) simp
qed


end
