(* ===== verification/Routing.thy ===== *)
theory Routing
  imports Config_V3
begin

text \<open>
  Finding the site a host name asks for: \<open>try_find_site\<close>, \<open>filter_fun\<close> and the target cache of
  \<open>GlobalState\<close> (\<open>src/main.rs\<close>), \<open>get_subdomain\<close> and the target record
  (\<open>src/tcp_proxy/tcp.rs\<close>), and the site generated for a docker container
  (\<open>src/docker.rs\<close>). \<open>str::to_uppercase\<close> is Unicode's and is the argument \<open>up\<close>; what is assumed
  of it is what it does to ASCII. The docker containers are given in the order the concurrent
  map iterates them.
\<close>

section \<open>Data\<close>

record ContainerProxyTarget =
  ct_container_name :: string
  ct_image_name :: string
  ct_host_name_label :: "string option"
  ct_running :: bool
  ct_target_addr :: string
  ct_tls :: bool
  ct_hints :: "Hint list"
  ct_port :: u16
  ct_capture_subdomains :: "bool option"
  ct_terminate_tls :: "bool option"
  ct_terminate_http :: "bool option"
  ct_forward_subdomains :: "bool option"
  ct_enable_lets_encrypt :: "bool option"
  ct_keep_original_host_header :: "bool option"
  ct_redirect_to_https :: "bool option"

definition generate_host_name :: "ContainerProxyTarget \<Rightarrow> string" where
  "generate_host_name c = unwrap_or (ct_host_name_label c) (ct_container_name c @ ''.odd-box.localhost'')"

definition generate_remote_config :: "ContainerProxyTarget \<Rightarrow> RemoteSiteConfig" where
  "generate_remote_config c =
     (let hints = (if ct_hints c = [] then None else Some (ct_hints c)) in
      \<lparr> rs_host_name = generate_host_name c,
        rs_backends = [\<lparr> bk_address = ct_target_addr c, bk_port = ct_port c, bk_https = Some (ct_tls c),
                         bk_hints = hints \<rparr>],
        rs_capture_subdomains = ct_capture_subdomains c,
        rs_terminate_tls = ct_terminate_tls c,
        rs_terminate_http = ct_terminate_http c,
        rs_forward_subdomains = ct_forward_subdomains c,
        rs_enable_lets_encrypt = ct_enable_lets_encrypt c,
        rs_keep_original_host_header = ct_keep_original_host_header c,
        rs_redirect_to_https = ct_redirect_to_https c \<rparr>)"

record ReverseTcpProxyTarget =
  tg_remote_target_config :: "RemoteSiteConfig option"
  tg_hosted_target_config :: "InProcessSiteConfig option"
  tg_backends :: "Backend list"
  tg_host_name :: string
  tg_is_hosted :: bool
  tg_capture_subdomains :: bool
  tg_forward_wildcard :: bool
  tg_sub_domain :: "string option"
  tg_terminate_tls :: bool
  tg_proc_id :: "ProcId option"

section \<open>Host names\<close>

text \<open>
  \<open>len() - part_to_remove_len\<close> panics when it underflows (a host name whose upper case is shorter).
  The slice ends at a character boundary: the byte before it is a full stop, or it is empty.
\<close>

definition get_subdomain :: "(string \<Rightarrow> string) \<Rightarrow> string \<Rightarrow> string \<Rightarrow> string option run" where
  "get_subdomain up requested backend =
     (if requested = backend then Some None
      else if ends_with (up requested) (up backend) then
        if length requested < length backend then None
        else
          (let start_index = length requested - length backend in
           if start_index = 0 \<or> requested ! (start_index - 1) = CHR ''.'' then
             Some (Some (rev (dropWhile (\<lambda>c. c = CHR ''.'') (rev (take start_index requested)))))
           else Some None)
      else Some None)"

definition filter_fun ::
  "(string \<Rightarrow> string) \<Rightarrow> string \<Rightarrow> string \<Rightarrow> bool \<Rightarrow> string option option run" where
  "filter_fun up req_host_name target_host_name allow_subdomains =
     (let parsed_name = takeWhile (\<lambda>c. c \<noteq> CHR '':'') req_host_name in
      if str_eq_ignore_case target_host_name parsed_name then Some (Some None)
      else if allow_subdomains then map_option (map_option Some) (get_subdomain up parsed_name target_host_name)
      else Some None)"

section \<open>Sites\<close>

record RoutingState =
  ro_docker :: "(string \<times> ContainerProxyTarget) list"
  ro_hosted :: "InProcessSiteConfig list option"
  ro_remote :: "RemoteSiteConfig list option"
  ro_use_loopback :: "bool option"
  ro_running :: "ProcId set"
  ro_cache :: "string \<rightharpoonup> ReverseTcpProxyTarget"

definition invalidate_cache :: "RoutingState \<Rightarrow> RoutingState" where
  "invalidate_cache s = s\<lparr> ro_cache := Map.empty \<rparr>"

definition invalidate_cache_for :: "string \<Rightarrow> RoutingState \<Rightarrow> RoutingState" where
  "invalidate_cache_for host s = s\<lparr> ro_cache := (ro_cache s)(host := None) \<rparr>"

definition docker_target :: "string \<Rightarrow> ContainerProxyTarget \<Rightarrow> string option \<Rightarrow> ReverseTcpProxyTarget" where
  "docker_target host_name x sub_domain =
     (let rsc = generate_remote_config x in
      \<lparr> tg_remote_target_config = Some rsc, tg_hosted_target_config = None, tg_backends = rs_backends rsc,
        tg_host_name = host_name, tg_is_hosted = False, tg_capture_subdomains = True,
        tg_forward_wildcard = True, tg_sub_domain = sub_domain, tg_terminate_tls = False, tg_proc_id = None \<rparr>)"

definition hosted_target :: "string \<Rightarrow> InProcessSiteConfig \<Rightarrow> string option \<Rightarrow> ReverseTcpProxyTarget" where
  "hosted_target local_addr y sub_domain =
     \<lparr> tg_remote_target_config = None, tg_hosted_target_config = Some y,
       tg_backends = [\<lparr> bk_address = local_addr, bk_port = unwrap_or (hp_active_port y) 0,
                        bk_https = hp_https y, bk_hints = hp_hints y \<rparr>],
       tg_host_name = hp_host_name y, tg_is_hosted = True,
       tg_capture_subdomains = is_set (hp_capture_subdomains y),
       tg_forward_wildcard = is_set (hp_forward_subdomains y), tg_sub_domain = sub_domain,
       tg_terminate_tls = is_set (hp_terminate_tls y), tg_proc_id = Some (hp_proc_id y) \<rparr>"

definition remote_target_of :: "RemoteSiteConfig \<Rightarrow> string option \<Rightarrow> ReverseTcpProxyTarget" where
  "remote_target_of y sub_domain =
     \<lparr> tg_remote_target_config = Some y, tg_hosted_target_config = None, tg_backends = rs_backends y,
       tg_host_name = rs_host_name y, tg_is_hosted = False,
       tg_capture_subdomains = is_set (rs_capture_subdomains y),
       tg_forward_wildcard = is_set (rs_forward_subdomains y), tg_sub_domain = sub_domain,
       tg_terminate_tls = is_set (rs_terminate_tls y), tg_proc_id = None \<rparr>"

text \<open>
  Each loop takes the first site of its list that matches: \<open>m\<close> is what the loop computes of a site,
  \<open>Some None\<close> for \<open>continue\<close>.
\<close>

fun first_match :: "('a \<Rightarrow> 't option run) \<Rightarrow> 'a list \<Rightarrow> 't option run" where
  "first_match m [] = Some None"
| "first_match m (x # xs) =
     (case m x of
        None \<Rightarrow> None
      | Some (Some t) \<Rightarrow> Some (Some t)
      | Some None \<Rightarrow> first_match m xs)"

definition match_docker ::
  "(string \<Rightarrow> string) \<Rightarrow> string \<Rightarrow> string \<times> ContainerProxyTarget \<Rightarrow> ReverseTcpProxyTarget option run" where
  "match_docker up name entry =
     (let (host_name, x) = entry in
      map_option (map_option (docker_target host_name x)) (filter_fun up name host_name True))"

definition match_hosted ::
  "(string \<Rightarrow> string) \<Rightarrow> string \<Rightarrow> string \<Rightarrow> InProcessSiteConfig \<Rightarrow> ReverseTcpProxyTarget option run" where
  "match_hosted up local_addr name y =
     (case filter_fun up name (hp_host_name y) (is_set (hp_capture_subdomains y)) of
        None \<Rightarrow> None
      | Some None \<Rightarrow> Some None
      | Some (Some sub_domain) \<Rightarrow>
          (let port = unwrap_or (hp_active_port y) 0 in
           if 0 < port then Some (Some (hosted_target local_addr y sub_domain)) else Some None))"

definition match_remote ::
  "(string \<Rightarrow> string) \<Rightarrow> string \<Rightarrow> RemoteSiteConfig \<Rightarrow> ReverseTcpProxyTarget option run" where
  "match_remote up name y =
     (if contains_sub (up name) (up (rs_host_name y)) then
        map_option (map_option (remote_target_of y)) (filter_fun up name (rs_host_name y) (is_set (rs_capture_subdomains y)))
      else Some None)"

definition remember :: "string \<Rightarrow> ReverseTcpProxyTarget option \<Rightarrow> RoutingState \<Rightarrow> RoutingState" where
  "remember name r s = (case r of Some t \<Rightarrow> s\<lparr> ro_cache := (ro_cache s)(name \<mapsto> t) \<rparr> | None \<Rightarrow> s)"

definition try_find_site ::
  "(string \<Rightarrow> string) \<Rightarrow> string \<Rightarrow> RoutingState \<Rightarrow> (ReverseTcpProxyTarget option \<times> RoutingState) run" where
  "try_find_site up name s =
     (let hit = (case ro_cache s name of
                   Some v \<Rightarrow>
                     (case tg_proc_id v of Some i \<Rightarrow> if i \<in> ro_running s then Some v else None | None \<Rightarrow> None)
                 | None \<Rightarrow> None) in
      case hit of
        Some v \<Rightarrow> Some (Some v, s)
      | None \<Rightarrow>
          (let local_addr = (if is_set (ro_use_loopback s) then ''127.0.0.1'' else ''localhost'') in
           do {
             d \<leftarrow> first_match (match_docker up name) (ro_docker s);
             let result = d; let s = remember name d s;
             h \<leftarrow> first_match (match_hosted up local_addr name) (unwrap_or (ro_hosted s) []);
             let result = (if h = None then result else h); let s = remember name h s;
             r \<leftarrow> first_match (match_remote up name) (unwrap_or (ro_remote s) []);
             let result = (if r = None then result else r); let s = remember name r s;
             Some (result, s) }))"

section \<open>Upper case and equality without case\<close>

text \<open>\<open>u8::to_ascii_uppercase\<close>, on a string.\<close>

definition ascii_upper :: "byte \<Rightarrow> byte" where
  "ascii_upper b = (if 97 \<le> b \<and> b \<le> 122 then b - 32 else b)"

definition ascii_host :: "string \<Rightarrow> bool" where
  "ascii_host s \<longleftrightarrow> (\<forall>b \<in> set (as_bytes s). b < 0x80)"

text \<open>What \<open>str::to_uppercase\<close> does to a string of ASCII characters.\<close>

definition to_ascii_uppercase :: "string \<Rightarrow> string" where
  "to_ascii_uppercase s = map (\<lambda>c. char_of_byte (ascii_upper (byte_of_char c))) s"

definition upper_law :: "(string \<Rightarrow> string) \<Rightarrow> bool" where
  "upper_law up \<longleftrightarrow> (\<forall>s. ascii_host s \<longrightarrow> up s = to_ascii_uppercase s)"

lemma upper_lower_iff: "ascii_upper a = ascii_upper b \<longleftrightarrow> ascii_lower a = ascii_lower b"
proof -
  have lo: "unat (ascii_lower x) = (if 65 \<le> unat x \<and> unat x \<le> 90 then unat x + 32 else unat x)" for x
    using byte_lt [of x] by (auto simp: ascii_lower_def word_le_nat_alt unat_word_ariths)
  have up: "unat (ascii_upper x) = (if 97 \<le> unat x \<and> unat x \<le> 122 then unat x - 32 else unat x)" for x
    by (auto simp: ascii_upper_def word_le_nat_alt unat_sub_if_size)
  show ?thesis
    unfolding word_unat_eq_iff lo up by (auto split: if_splits)
qed

lemma upper_eq_iff:
  assumes "upper_law up" and "ascii_host s" and "ascii_host t"
  shows "up s = up t \<longleftrightarrow> str_eq_ignore_case s t"
proof -
  have inj: "char_of_byte a = char_of_byte b \<longleftrightarrow> a = b" for a b
    by (metis char_byte_inverse(2))
  have "up s = map (\<lambda>c. char_of_byte (ascii_upper (byte_of_char c))) s"
    "up t = map (\<lambda>c. char_of_byte (ascii_upper (byte_of_char c))) t"
    using assms by (simp_all add: upper_law_def to_ascii_uppercase_def)
  then show ?thesis
    unfolding str_eq_ignore_case_def as_bytes_def list_eq_iff_nth_eq
    by (auto simp: inj upper_lower_iff)
qed

lemma upper_length: "upper_law up \<Longrightarrow> ascii_host s \<Longrightarrow> length (up s) = length s"
  by (simp add: upper_law_def to_ascii_uppercase_def)

lemma ascii_host_append [simp]: "ascii_host (s @ t) \<longleftrightarrow> ascii_host s \<and> ascii_host t"
  by (auto simp: ascii_host_def as_bytes_def)

lemma upper_append:
  assumes "upper_law up" and "ascii_host s" and "ascii_host t"
  shows "up (s @ t) = up s @ up t"
  using assms by (simp add: upper_law_def to_ascii_uppercase_def)

lemma upper_ends_with:
  assumes "upper_law up" and "ascii_host s" and "ascii_host t"
  shows "ends_with (up s) (up t) \<longleftrightarrow> (\<exists>pre suf. s = pre @ suf \<and> str_eq_ignore_case suf t)"
proof
  assume "ends_with (up s) (up t)"
  then obtain r where r: "up s = r @ up t" by (auto simp: ends_with_iff)
  then have len: "length s = length r + length t"
    using arg_cong [OF r, of length] upper_length [OF assms(1) assms(2)] upper_length [OF assms(1) assms(3)] by simp
  have s: "s = take (length r) s @ drop (length r) s" by simp
  have "ascii_host (take (length r) s @ drop (length r) s)" using assms(2) by simp
  then have a: "ascii_host (drop (length r) s)" "ascii_host (take (length r) s)"
    unfolding ascii_host_append by simp_all
  have "up s = up (take (length r) s) @ up (drop (length r) s)"
    using upper_append [OF assms(1) a(2) a(1)] by simp
  with r len have "up (drop (length r) s) = up t"
    using upper_length [OF assms(1) a(2)] by (simp add: append_eq_append_conv)
  then show "\<exists>pre suf. s = pre @ suf \<and> str_eq_ignore_case suf t"
    using upper_eq_iff [OF assms(1) a(1) assms(3)] s by blast
next
  assume "\<exists>pre suf. s = pre @ suf \<and> str_eq_ignore_case suf t"
  then obtain pre suf where s: "s = pre @ suf" and e: "str_eq_ignore_case suf t" by blast
  with assms have "ascii_host suf" by simp
  then have "up suf = up t" using upper_eq_iff [OF assms(1) _ assms(3)] e by simp
  moreover have "up s = up pre @ up suf" using assms(2) s upper_append [OF assms(1), of pre suf] by simp
  ultimately show "ends_with (up s) (up t)" by (auto simp: ends_with_iff)
qed

text \<open>A host name that ends in another one, at the start or after a full stop.\<close>

definition subdomain_of :: "string \<Rightarrow> string \<Rightarrow> string \<Rightarrow> bool" where
  "subdomain_of pre requested backend \<longleftrightarrow>
     (\<exists>suf. requested = pre @ suf \<and> str_eq_ignore_case suf backend \<and> (pre = [] \<or> last pre = CHR ''.''))"

lemma get_subdomain_ascii:
  assumes "upper_law up" and "ascii_host requested" and "ascii_host backend"
  shows "get_subdomain up requested backend \<noteq> None \<and>
    (get_subdomain up requested backend = Some (Some sub) \<longleftrightarrow>
       requested \<noteq> backend \<and>
       (\<exists>pre. subdomain_of pre requested backend \<and> sub = rev (dropWhile (\<lambda>c. c = CHR ''.'') (rev pre))))"
proof (cases "ends_with (up requested) (up backend)")
  case False
  then show ?thesis
    using upper_ends_with [OF assms] by (auto simp: get_subdomain_def subdomain_of_def)
next
  case True
  then obtain pre suf where r: "requested = pre @ suf" and e: "str_eq_ignore_case suf backend"
    using upper_ends_with [OF assms] by blast
  have len: "length suf = length backend" by (rule str_eq_ignore_case_length [OF e])
  have uniq: "subdomain_of pre' requested backend \<Longrightarrow> pre' = pre" for pre'
    unfolding subdomain_of_def using r len str_eq_ignore_case_length by (metis append_eq_append_conv)
  have "subdomain_of pre requested backend \<longleftrightarrow> pre = [] \<or> last pre = CHR ''.''"
    unfolding subdomain_of_def using r e by auto
  moreover have "length pre = 0 \<or> requested ! (length pre - 1) = CHR ''.'' \<longleftrightarrow> pre = [] \<or> last pre = CHR ''.''"
    using r by (cases "pre = []") (auto simp: last_conv_nth nth_append)
  moreover have "(\<exists>pre. subdomain_of pre requested backend \<and> sub = rev (dropWhile (\<lambda>c. c = CHR ''.'') (rev pre)))
      \<longleftrightarrow> subdomain_of pre requested backend \<and> sub = rev (dropWhile (\<lambda>c. c = CHR ''.'') (rev pre))"
    using uniq by blast
  ultimately show ?thesis
    using True r len by (auto simp: get_subdomain_def Let_def)
qed

text \<open>For ASCII names get_subdomain never panics, and returns the part before the host exactly
  when the requested name ends in it, without regard to case, at the start or after a full stop.\<close>

theorem subdomain_of_host:
  assumes "upper_law up" and "ascii_host requested" and "ascii_host backend"
  shows "get_subdomain up requested backend \<noteq> None \<and>
    (get_subdomain up requested backend = Some (Some sub) \<longleftrightarrow>
       requested \<noteq> backend \<and>
       (\<exists>pre. subdomain_of pre requested backend \<and> sub = rev (dropWhile (\<lambda>c. c = CHR ''.'') (rev pre))))"
  by (rule get_subdomain_ascii [OF assms])

definition routes_to :: "string \<Rightarrow> string \<Rightarrow> bool \<Rightarrow> string option \<Rightarrow> bool" where
  "routes_to name host captures sub \<longleftrightarrow>
     (let n = takeWhile (\<lambda>c. c \<noteq> CHR '':'') name in
      if str_eq_ignore_case host n then sub = None
      else captures \<and>
        (\<exists>pre. subdomain_of pre n host \<and> sub = Some (rev (dropWhile (\<lambda>c. c = CHR ''.'') (rev pre)))))"

lemma ascii_takeWhile: "ascii_host s \<Longrightarrow> ascii_host (takeWhile P s)"
  unfolding ascii_host_def as_bytes_def by (auto dest: set_takeWhileD)

lemma filter_fun_ascii:
  assumes "upper_law up" and "ascii_host name" and "ascii_host host"
  shows "filter_fun up name host captures \<noteq> None \<and>
    (filter_fun up name host captures = Some (Some sub) \<longleftrightarrow> routes_to name host captures sub)"
proof -
  let ?n = "takeWhile (\<lambda>c. c \<noteq> CHR '':'') name"
  have n: "ascii_host ?n" by (rule ascii_takeWhile [OF assms(2)])
  obtain d where d: "get_subdomain up ?n host = Some d"
    using get_subdomain_ascii [OF assms(1) n assms(3)] by auto
  have "d = Some x \<longleftrightarrow> ?n \<noteq> host \<and> (\<exists>pre. subdomain_of pre ?n host \<and>
      x = rev (dropWhile (\<lambda>c. c = CHR ''.'') (rev pre)))" for x
    using get_subdomain_ascii [OF assms(1) n assms(3), of x] d by simp
  then show ?thesis
    using d by (auto simp: filter_fun_def routes_to_def Let_def)
qed

text \<open>The containment test before a remote site is looked at never turns a match away.\<close>

lemma ascii_host_eq: "str_eq_ignore_case s t \<Longrightarrow> ascii_host s \<longleftrightarrow> ascii_host t"
proof -
  have b: "x < 0x80 \<longleftrightarrow> y < 0x80" if "ascii_lower x = ascii_lower y" for x y :: byte
    using that by (auto simp: ascii_lower_def word_less_nat_alt word_le_nat_alt unat_word_ariths word_unat_eq_iff
        split: if_splits)
  assume "str_eq_ignore_case s t"
  then have "map ascii_lower (as_bytes s) = map ascii_lower (as_bytes t)"
    by (simp add: str_eq_ignore_case_def)
  then show ?thesis
    unfolding ascii_host_def all_set_conv_all_nth using b
    by (metis length_map nth_map)
qed

lemma routes_to_contains:
  assumes "upper_law up" and "ascii_host name" and "routes_to name host captures sub"
  shows "contains_sub (up name) (up host)"
proof -
  let ?n = "takeWhile (\<lambda>c. c \<noteq> CHR '':'') name"
  obtain pre suf where n: "?n = pre @ suf" and e: "str_eq_ignore_case suf host"
  proof (cases "str_eq_ignore_case host ?n")
    case True
    then show ?thesis using that [of "[]" ?n] by (simp add: str_eq_ignore_case_sym)
  next
    case False
    then show ?thesis using assms(3) that by (auto simp: routes_to_def Let_def subdomain_of_def)
  qed
  define post where "post = dropWhile (\<lambda>c. c \<noteq> CHR '':'') name"
  have name: "name = pre @ suf @ post"
    using n takeWhile_dropWhile_id [of "\<lambda>c. c \<noteq> CHR '':''" name] by (simp add: post_def)
  have a: "ascii_host pre" "ascii_host suf" "ascii_host post"
    using assms(2) unfolding name by simp_all
  have "ascii_host host"
    using e a(2) by (simp add: ascii_host_eq [OF e])
  then have "up suf = up host" using upper_eq_iff [OF assms(1) a(2)] e by simp
  moreover have "up name = up pre @ up suf @ up post"
    using a assms(1) by (simp add: name upper_append)
  ultimately show ?thesis unfolding contains_sub_iff by metis
qed

lemma first_match_find:
  assumes "\<And>x. x \<in> set xs \<Longrightarrow> m x \<noteq> None \<and> (\<forall>t. m x = Some (Some t) \<longleftrightarrow> R x t)"
  shows "\<exists>r. first_match m xs = Some r \<and>
    (case find (\<lambda>x. \<exists>t. R x t) xs of None \<Rightarrow> r = None | Some x \<Rightarrow> \<exists>t. r = Some t \<and> R x t)"
  using assms
proof (induction xs)
  case Nil
  then show ?case by simp
next
  case (Cons x xs)
  have ih: "\<exists>r. first_match m xs = Some r \<and>
    (case find (\<lambda>x. \<exists>t. R x t) xs of None \<Rightarrow> r = None | Some x \<Rightarrow> \<exists>t. r = Some t \<and> R x t)"
    using Cons by simp
  have x: "m x \<noteq> None" "\<And>t. m x = Some (Some t) \<longleftrightarrow> R x t"
    using Cons.prems [of x] by simp_all
  show ?case
  proof (cases "m x")
    case None
    then show ?thesis using x by simp
  next
    case (Some y)
    then show ?thesis
    proof (cases y)
      case None
      then have "\<not> (\<exists>t. R x t)" using Some x(2) by simp
      then show ?thesis using ih Some None by simp
    next
      case (Some t)
      then have "R x t" using x(2) [of t] \<open>m x = Some y\<close> by blast
      then show ?thesis using Some \<open>m x = Some y\<close> by auto
    qed
  qed
qed

section \<open>Which site is found\<close>

definition ascii_sites :: "RoutingState \<Rightarrow> bool" where
  "ascii_sites s \<longleftrightarrow>
     (\<forall>e \<in> set (ro_docker s). ascii_host (fst e)) \<and>
     (\<forall>y \<in> set (unwrap_or (ro_hosted s) []). ascii_host (hp_host_name y)) \<and>
     (\<forall>y \<in> set (unwrap_or (ro_remote s) []). ascii_host (rs_host_name y))"

definition hosted_addr :: "RoutingState \<Rightarrow> string" where
  "hosted_addr s = (if is_set (ro_use_loopback s) then ''127.0.0.1'' else ''localhost'')"

text \<open>The answer when nothing is remembered: remote sites go before hosted ones, these before containers.\<close>

definition lookup_site :: "(string \<Rightarrow> string) \<Rightarrow> string \<Rightarrow> RoutingState \<Rightarrow> ReverseTcpProxyTarget option run" where
  "lookup_site up name s =
     do {
       d \<leftarrow> first_match (match_docker up name) (ro_docker s);
       h \<leftarrow> first_match (match_hosted up (hosted_addr s) name) (unwrap_or (ro_hosted s) []);
       r \<leftarrow> first_match (match_remote up name) (unwrap_or (ro_remote s) []);
       Some (if r \<noteq> None then r else if h \<noteq> None then h else d) }"

definition remembered :: "string \<Rightarrow> RoutingState \<Rightarrow> ReverseTcpProxyTarget option" where
  "remembered name s =
     (case ro_cache s name of
        Some v \<Rightarrow> (case tg_proc_id v of Some i \<Rightarrow> if i \<in> ro_running s then Some v else None | None \<Rightarrow> None)
      | None \<Rightarrow> None)"

lemma remember_fields [simp]:
  "ro_docker (remember n r s) = ro_docker s" "ro_hosted (remember n r s) = ro_hosted s"
  "ro_remote (remember n r s) = ro_remote s" "ro_use_loopback (remember n r s) = ro_use_loopback s"
  "ro_running (remember n r s) = ro_running s"
  by (simp_all add: remember_def split: option.splits)

lemma remember_remember:
  "remember n b (remember n a s) = remember n (if b = None then a else b) s"
  by (cases a; cases b; cases s) (simp_all add: remember_def)

lemma try_find_site_eq:
  "try_find_site up name s =
     (case remembered name s of
        Some v \<Rightarrow> Some (Some v, s)
      | None \<Rightarrow> map_option (\<lambda>r. (r, remember name r s)) (lookup_site up name s))"
proof -
  have "(if r = None then if h = None then d else h else r) = (if r \<noteq> None then r else if h \<noteq> None then h else d)"
    for r h d :: "ReverseTcpProxyTarget option" by simp
  then show ?thesis
    unfolding try_find_site_def lookup_site_def remembered_def hosted_addr_def Let_def
    by (cases "first_match (match_docker up name) (ro_docker s)";
        cases "first_match (match_hosted up (hosted_addr s) name) (unwrap_or (ro_hosted s) [])";
        cases "first_match (match_remote up name) (unwrap_or (ro_remote s) [])")
      (auto simp: remember_remember hosted_addr_def split: option.splits if_splits)
qed

definition remote_answer :: "string \<Rightarrow> RemoteSiteConfig \<Rightarrow> ReverseTcpProxyTarget \<Rightarrow> bool" where
  "remote_answer name y t \<longleftrightarrow>
     (\<exists>sub. routes_to name (rs_host_name y) (is_set (rs_capture_subdomains y)) sub \<and> t = remote_target_of y sub)"

definition hosted_answer :: "string \<Rightarrow> string \<Rightarrow> InProcessSiteConfig \<Rightarrow> ReverseTcpProxyTarget \<Rightarrow> bool" where
  "hosted_answer addr name y t \<longleftrightarrow>
     0 < unwrap_or (hp_active_port y) 0 \<and>
     (\<exists>sub. routes_to name (hp_host_name y) (is_set (hp_capture_subdomains y)) sub \<and> t = hosted_target addr y sub)"

definition docker_answer :: "string \<Rightarrow> string \<times> ContainerProxyTarget \<Rightarrow> ReverseTcpProxyTarget \<Rightarrow> bool" where
  "docker_answer name e t \<longleftrightarrow>
     (\<exists>sub. routes_to name (fst e) True sub \<and> t = docker_target (fst e) (snd e) sub)"

lemma match_remote_answer:
  assumes "upper_law up" and "ascii_host name" and "ascii_host (rs_host_name y)"
  shows "match_remote up name y \<noteq> None \<and> (\<forall>t. match_remote up name y = Some (Some t) \<longleftrightarrow> remote_answer name y t)"
proof -
  let ?c = "is_set (rs_capture_subdomains y)"
  obtain f where f: "filter_fun up name (rs_host_name y) ?c = Some f"
    using filter_fun_ascii [OF assms] by auto
  have r: "routes_to name (rs_host_name y) ?c sub \<longleftrightarrow> f = Some sub" for sub
    using filter_fun_ascii [OF assms, of ?c sub] f by simp
  show ?thesis
  proof (cases f)
    case None
    then show ?thesis using f r by (auto simp: match_remote_def remote_answer_def)
  next
    case (Some sub)
    then have "contains_sub (up name) (up (rs_host_name y))"
      using r routes_to_contains [OF assms(1,2)] by blast
    then show ?thesis using f Some r by (auto simp: match_remote_def remote_answer_def)
  qed
qed

lemma match_hosted_answer:
  assumes "upper_law up" and "ascii_host name" and "ascii_host (hp_host_name y)"
  shows "match_hosted up addr name y \<noteq> None \<and>
    (\<forall>t. match_hosted up addr name y = Some (Some t) \<longleftrightarrow> hosted_answer addr name y t)"
proof -
  let ?c = "is_set (hp_capture_subdomains y)"
  obtain f where f: "filter_fun up name (hp_host_name y) ?c = Some f"
    using filter_fun_ascii [OF assms] by auto
  have r: "routes_to name (hp_host_name y) ?c sub \<longleftrightarrow> f = Some sub" for sub
    using filter_fun_ascii [OF assms, of ?c sub] f by simp
  show ?thesis
    by (cases f) (auto simp: match_hosted_def hosted_answer_def f r Let_def)
qed

lemma match_docker_answer:
  assumes "upper_law up" and "ascii_host name" and "ascii_host (fst e)"
  shows "match_docker up name e \<noteq> None \<and> (\<forall>t. match_docker up name e = Some (Some t) \<longleftrightarrow> docker_answer name e t)"
proof -
  obtain f where f: "filter_fun up name (fst e) True = Some f"
    using filter_fun_ascii [OF assms] by auto
  have r: "routes_to name (fst e) True sub \<longleftrightarrow> f = Some sub" for sub
    using filter_fun_ascii [OF assms, of True sub] f by simp
  show ?thesis
    by (cases f; cases e) (use f r in \<open>auto simp: match_docker_def docker_answer_def\<close>)
qed

text \<open>C3: When nothing is remembered for a host name, try_find_site returns the first remote
  site that serves it, else the first running hosted process, else the first docker container, else
  nothing, and remembers the answer.\<close>

theorem site_found:
  assumes "upper_law up" and "ascii_host name" and "ascii_sites s" and "remembered name s = None"
  shows "\<exists>r. try_find_site up name s = Some (r, remember name r s) \<and>
    (case find (\<lambda>y. \<exists>t. remote_answer name y t) (unwrap_or (ro_remote s) []) of
       Some y \<Rightarrow> \<exists>t. r = Some t \<and> remote_answer name y t
     | None \<Rightarrow>
        (case find (\<lambda>y. \<exists>t. hosted_answer (hosted_addr s) name y t) (unwrap_or (ro_hosted s) []) of
           Some y \<Rightarrow> \<exists>t. r = Some t \<and> hosted_answer (hosted_addr s) name y t
         | None \<Rightarrow>
            (case find (\<lambda>e. \<exists>t. docker_answer name e t) (ro_docker s) of
               Some e \<Rightarrow> \<exists>t. r = Some t \<and> docker_answer name e t
             | None \<Rightarrow> r = None)))"
proof -
  note law = assms(1,2)
  obtain r where r: "first_match (match_remote up name) (unwrap_or (ro_remote s) []) = Some r"
      "case find (\<lambda>y. \<exists>t. remote_answer name y t) (unwrap_or (ro_remote s) []) of
         None \<Rightarrow> r = None | Some y \<Rightarrow> \<exists>t. r = Some t \<and> remote_answer name y t"
    using first_match_find [of "unwrap_or (ro_remote s) []" "match_remote up name" "remote_answer name"]
      match_remote_answer [OF law] assms(3) unfolding ascii_sites_def by blast
  obtain h where h: "first_match (match_hosted up (hosted_addr s) name) (unwrap_or (ro_hosted s) []) = Some h"
      "case find (\<lambda>y. \<exists>t. hosted_answer (hosted_addr s) name y t) (unwrap_or (ro_hosted s) []) of
         None \<Rightarrow> h = None | Some y \<Rightarrow> \<exists>t. h = Some t \<and> hosted_answer (hosted_addr s) name y t"
    using first_match_find [of "unwrap_or (ro_hosted s) []" "match_hosted up (hosted_addr s) name"
        "hosted_answer (hosted_addr s) name"]
      match_hosted_answer [OF law] assms(3) unfolding ascii_sites_def by blast
  obtain d where d: "first_match (match_docker up name) (ro_docker s) = Some d"
      "case find (\<lambda>e. \<exists>t. docker_answer name e t) (ro_docker s) of
         None \<Rightarrow> d = None | Some e \<Rightarrow> \<exists>t. d = Some t \<and> docker_answer name e t"
    using first_match_find [of "ro_docker s" "match_docker up name" "docker_answer name"]
      match_docker_answer [OF law] assms(3) unfolding ascii_sites_def by blast
  show ?thesis
    using r(2) h(2) d(2) by (auto simp: try_find_site_eq assms(4) lookup_site_def r(1) h(1) d(1) split: option.splits)
qed

text \<open>
  What is remembered is what would be found: the answer of the cache is the one of a search, as
  long as the sites are those the cache was filled from.
\<close>

definition cache_ok :: "(string \<Rightarrow> string) \<Rightarrow> RoutingState \<Rightarrow> bool" where
  "cache_ok up s \<longleftrightarrow> (\<forall>name t. ro_cache s name = Some t \<longrightarrow> lookup_site up name s = Some (Some t))"

lemma lookup_remember [simp]: "lookup_site up n (remember m r s) = lookup_site up n s"
  by (simp add: lookup_site_def hosted_addr_def)

lemma cache_ok_remembered: "cache_ok up s \<Longrightarrow> remembered name s = Some v \<Longrightarrow> lookup_site up name s = Some (Some v)"
  by (auto simp: cache_ok_def remembered_def split: option.splits if_splits)


text \<open>A docker container is routed without TLS termination and with subdomains captured,
  whatever its labels say.\<close>

theorem docker_labels_ignored:
  assumes "match_docker up name (host, c) = Some (Some t)"
  shows "\<not> tg_terminate_tls t \<and> tg_capture_subdomains t \<and> tg_forward_wildcard t \<and>
    map_option rs_terminate_tls (tg_remote_target_config t) = Some (ct_terminate_tls c)"
  using assms by (auto simp: match_docker_def docker_target_def generate_remote_config_def Let_def)

definition routing_sample :: RoutingState where
  "routing_sample =
     \<lparr> ro_docker = [], ro_hosted = None,
       ro_remote = Some [(remote_sample [backend_sample ''10.0.0.1'' None])\<lparr> rs_capture_subdomains := Some True \<rparr>],
       ro_use_loopback = None, ro_running = {}, ro_cache = Map.empty \<rparr>"

lemma upper_law_sample: "upper_law to_ascii_uppercase"
  by (simp add: upper_law_def)

lemma ascii_sample [simp]: "ascii_host ''api.A.dev:80''" "ascii_host ''api.A.dev''" "ascii_host ''a.dev''" "ascii_host ''A.dev''"
  by (simp_all add: ascii_host_def as_bytes_def byte_of_char_def)

lemma subdomain_sample: "subdomain_of ''api.'' ''api.A.dev'' ''a.dev''"
  unfolding subdomain_of_def
  by (rule exI [of _ "''A.dev''"]) (simp add: str_eq_ignore_case_def as_bytes_def byte_of_char_def ascii_lower_def)

lemma subdomain_of_host_witness:
  "get_subdomain to_ascii_uppercase ''api.A.dev'' ''a.dev'' = Some (Some ''api'')"
proof -
  have "\<exists>pre. subdomain_of pre ''api.A.dev'' ''a.dev'' \<and> ''api'' = rev (dropWhile (\<lambda>c. c = CHR ''.'') (rev pre))"
    by (rule exI [of _ "''api.''"]) (simp add: subdomain_sample)
  then show ?thesis
    using subdomain_of_host [OF upper_law_sample, of "''api.A.dev''" "''a.dev''" "''api''"] by simp
qed

lemma routes_to_sample: "routes_to ''api.A.dev:80'' ''a.dev'' True (Some ''api'')"
proof -
  have "\<exists>pre. subdomain_of pre ''api.A.dev'' ''a.dev'' \<and> ''api'' = rev (dropWhile (\<lambda>c. c = CHR ''.'') (rev pre))"
    by (rule exI [of _ "''api.''"]) (simp add: subdomain_sample)
  then show ?thesis
    by (simp add: routes_to_def) (simp add: str_eq_ignore_case_def as_bytes_def)
qed

lemma site_found_witness:
  "\<exists>t s'. try_find_site to_ascii_uppercase ''api.A.dev:80'' routing_sample = Some (Some t, s') \<and>
    tg_host_name t = ''a.dev'' \<and> ro_cache s' ''api.A.dev:80'' = Some t"
proof -
  let ?y = "(remote_sample [backend_sample ''10.0.0.1'' None])\<lparr> rs_capture_subdomains := Some True \<rparr>"
  have m: "\<exists>t. remote_answer ''api.A.dev:80'' ?y t"
    unfolding remote_answer_def using routes_to_sample by (auto simp: remote_sample_def)
  have "ascii_sites routing_sample" "remembered ''api.A.dev:80'' routing_sample = None"
    by (simp_all add: routing_sample_def ascii_sites_def remembered_def remote_sample_def)
  from site_found [OF upper_law_sample _ this]
  obtain t where "try_find_site to_ascii_uppercase ''api.A.dev:80'' routing_sample =
      Some (Some t, remember ''api.A.dev:80'' (Some t) routing_sample)" "remote_answer ''api.A.dev:80'' ?y t"
    using m by (auto simp: routing_sample_def split: if_splits)
  then show ?thesis
    by (auto simp: remember_def remote_answer_def remote_target_of_def remote_sample_def)
qed


definition container_sample :: ContainerProxyTarget where
  "container_sample =
     \<lparr> ct_container_name = ''web'', ct_image_name = ''i'', ct_host_name_label = None, ct_running = True,
       ct_target_addr = ''172.17.0.2'', ct_tls = False, ct_hints = [], ct_port = 80,
       ct_capture_subdomains = Some False, ct_terminate_tls = Some True, ct_terminate_http = None,
       ct_forward_subdomains = Some False, ct_enable_lets_encrypt = None, ct_keep_original_host_header = None,
       ct_redirect_to_https = None \<rparr>"

lemma docker_labels_ignored_witness:
  "\<exists>t. match_docker to_ascii_uppercase ''a.dev'' (''a.dev'', container_sample) = Some (Some t) \<and>
    \<not> tg_terminate_tls t \<and> ct_terminate_tls container_sample = Some True"
proof -
  have m: "match_docker to_ascii_uppercase ''a.dev'' (''a.dev'', container_sample) =
      Some (Some (docker_target ''a.dev'' container_sample None))"
    by (simp add: match_docker_def filter_fun_def)
  show ?thesis using docker_labels_ignored [OF m] m by (simp add: container_sample_def)
qed

end
