(* ===== verification/Connections.thy ===== *)
theory Connections
  imports Routing H1_Parser H2_Parser
begin

text \<open>
  The table of open TCP connections: \<open>ProxyActiveTCPConnection\<close> and its classification
  (\<open>src/types/proxy_state.rs\<close>, \<open>src/types/connection_type.rs\<close>), the functions that add, change and
  remove an entry (\<open>src/proxy.rs\<close>), the events these broadcast (\<open>src/types/odd_box_event.rs\<close>), and
  the data of the monitoring station they write to (\<open>src/observer.rs\<close>). The broadcast channel is
  the list of what was sent on it. A socket address is the text it prints as; the weak pointer to the
  connection key is given by what it upgrades to.
\<close>

section \<open>Data\<close>

type_synonym ConnectionKey = u64

datatype OutgoingTunnelType = TlsTunnel ReverseTcpProxyTarget Backend | RawTunnel ReverseTcpProxyTarget Backend

datatype ConnectionType =
    TlsTerminatedWithOutgoingClearText ReverseTcpProxyTarget Backend
  | TlsTerminatedWithOutgoingTLS ReverseTcpProxyTarget Backend
  | TlsTermination
  | TlsPassthru ReverseTcpProxyTarget Backend
  | HttpPassthru ReverseTcpProxyTarget Backend
  | HttpTermination
  | HttpWithOutgoingTLS ReverseTcpProxyTarget Backend
  | PendingInit
  | InvalidType bool bool bool "OutgoingTunnelType option"

text \<open>\<open>Invalid\<close> carries the text of the four values; here it carries the values.\<close>

record ProxyActiveTCPConnection =
  pc_incoming_sni :: "string option"
  pc_client_socket_address :: "string option"
  pc_odd_box_socket :: "string option"
  pc_connection_key :: ConnectionKey
  pc_client_addr_string :: string
  pc_incoming_connection_uses_tls :: bool
  pc_tls_terminated :: bool
  pc_http_terminated :: bool
  pc_version :: u64
  pc_resolved_connection_type :: "ConnectionType option"
  pc_resolved_connection_type_description :: "string option"
  pc_is_grpc :: "bool option"
  pc_http_version :: "bool option"
  pc_is_websocket :: "bool option"
  pc_outgoing_tunnel_type :: "OutgoingTunnelType option"

definition get_connection_type :: "ProxyActiveTCPConnection \<Rightarrow> ConnectionType" where
  "get_connection_type self =
     (if pc_version self = 1 then PendingInit
      else
        (case (pc_incoming_connection_uses_tls self, pc_tls_terminated self, pc_http_terminated self,
               pc_outgoing_tunnel_type self) of
           (False, _, _, Some (RawTunnel target backend)) \<Rightarrow> HttpPassthru target backend
         | (False, _, _, Some (TlsTunnel target backend)) \<Rightarrow> HttpWithOutgoingTLS target backend
         | (False, False, True, None) \<Rightarrow> HttpTermination
         | (True, True, False, Some (TlsTunnel target backend)) \<Rightarrow> TlsTerminatedWithOutgoingTLS target backend
         | (True, True, False, Some (RawTunnel target backend)) \<Rightarrow> TlsTerminatedWithOutgoingClearText target backend
         | (True, False, False, Some (RawTunnel target backend)) \<Rightarrow> TlsPassthru target backend
         | (True, True, True, None) \<Rightarrow> TlsTermination
         | (uses_tls, tls_terminated, http_terminated, tunnel) \<Rightarrow>
             InvalidType uses_tls tls_terminated http_terminated tunnel))"

text \<open>\<open>Display for ConnectionType\<close>; \<open>dbg\<close> prints the message of \<open>Invalid\<close> (derived \<open>Debug\<close>).\<close>

definition tunnel_text :: "string \<Rightarrow> ReverseTcpProxyTarget \<Rightarrow> Backend \<Rightarrow> string" where
  "tunnel_text label target backend =
     label @ bk_address backend @ '':'' @ dec (unat (bk_port backend)) @ '' ('' @ tg_host_name target @ '')''"

definition connection_type_to_string ::
  "(bool \<Rightarrow> bool \<Rightarrow> bool \<Rightarrow> OutgoingTunnelType option \<Rightarrow> string) \<Rightarrow> ConnectionType \<Rightarrow> string" where
  "connection_type_to_string dbg t =
     (case t of
        TlsTerminatedWithOutgoingClearText target backend \<Rightarrow> tunnel_text ''HTTPS to HTTP Tunnel -> '' target backend
      | TlsTerminatedWithOutgoingTLS target backend \<Rightarrow> tunnel_text ''HTTPS Tunnel to '' target backend
      | TlsTermination \<Rightarrow> ''HTTPS Terminated''
      | TlsPassthru target backend \<Rightarrow> tunnel_text ''TLS Passthru to '' target backend
      | HttpPassthru target backend \<Rightarrow> tunnel_text ''HTTP Passthru to '' target backend
      | HttpTermination \<Rightarrow> ''HTTP Terminated''
      | HttpWithOutgoingTLS target backend \<Rightarrow> tunnel_text ''HTTP to HTTPS Tunnel -> '' target backend
      | PendingInit \<Rightarrow> ''Initializing..''
      | InvalidType a b c d \<Rightarrow> ''Invalid: '' @ dbg a b c d)"

section \<open>Events\<close>

datatype TCPEvent =
    Opened ProxyActiveTCPConnection
  | Closed ConnectionKey
  | Updated ProxyActiveTCPConnection
  | RawBytesFromClientToOddBox ConnectionKey bool bytes
  | RawBytesFromOddBoxToClient ConnectionKey bool bytes

datatype GlobalEvent =
    TcpEvent TCPEvent
  | SentHttpRequestToBackend ConnectionKey string
  | GotResponseFromBackend ConnectionKey string

section \<open>The monitoring station's data\<close>

record DataTrans =
  dt_http2_stream_id :: "u64 option"
  dt_data :: string

datatype DecodedPacket =
    Http0or1 HttpData
  | Http2Packet H2Event
  | UnknownPacket string
  | BackendToOddBox ConnectionKey DataTrans
  | OddBoxToBackend ConnectionKey DataTrans
  | OddBoxToClient ConnectionKey DataTrans
  | ClientToOddBox ConnectionKey DataTrans

datatype TCPConnectionState = ConnectionOpen | ConnectionClosed

record TCPConnection =
  tc_id :: ConnectionKey
  tc_packets :: "DecodedPacket list"
  tc_state :: TCPConnectionState
  tc_connection :: ProxyActiveTCPConnection
  tc_extra_log :: "string list"
  tc_bytes_sent :: nat
  tc_bytes_rec :: nat
  tc_created_timestamp :: nat
  tc_local_process_name_and_pid :: "(string \<times> int) option"

definition TCPConnection_new :: "nat \<Rightarrow> ProxyActiveTCPConnection \<Rightarrow> TCPConnection" where
  "TCPConnection_new now connection =
     \<lparr> tc_id = pc_connection_key connection, tc_packets = [], tc_state = ConnectionOpen,
       tc_connection = connection, tc_extra_log = [], tc_bytes_sent = 0, tc_bytes_rec = 0,
       tc_created_timestamp = now, tc_local_process_name_and_pid = None \<rparr>"

section \<open>Tracked connections\<close>

record ConnectionTable =
  active_connections :: "ConnectionKey \<rightharpoonup> ProxyActiveTCPConnection"
  enable_global_traffic_inspection :: bool
  monitored_connections :: "ConnectionKey \<rightharpoonup> TCPConnection"
  global_broadcast :: "GlobalEvent list"

definition add_or_update_connection ::
  "(bool \<Rightarrow> bool \<Rightarrow> bool \<Rightarrow> OutgoingTunnelType option \<Rightarrow> string) \<Rightarrow> nat \<Rightarrow> ConnectionKey option \<Rightarrow>
   ProxyActiveTCPConnection \<Rightarrow> 'a ConnectionTable_scheme \<Rightarrow> 'a ConnectionTable_scheme" where
  "add_or_update_connection dbg now pointee connection s =
     (let connection =
            (if pc_resolved_connection_type connection = None then
               (let result = get_connection_type connection in
                connection\<lparr> pc_resolved_connection_type := Some result,
                            pc_resolved_connection_type_description := Some (connection_type_to_string dbg result) \<rparr>)
             else connection) in
      case pointee of
        Some key \<Rightarrow>
          (let s = s\<lparr> active_connections := (active_connections s)(key \<mapsto> connection) \<rparr>;
               s = (if enable_global_traffic_inspection s then
                      s\<lparr> monitored_connections :=
                           (monitored_connections s)(pc_connection_key connection \<mapsto> TCPConnection_new now connection) \<rparr>
                    else s)
           in s\<lparr> global_broadcast := global_broadcast s @ [TcpEvent (Opened connection)] \<rparr>)
      | None \<Rightarrow> s)"

definition mutate_tracked_connection ::
  "ConnectionKey \<Rightarrow> (ProxyActiveTCPConnection \<Rightarrow> ProxyActiveTCPConnection) \<Rightarrow> 'a ConnectionTable_scheme \<Rightarrow> 'a ConnectionTable_scheme" where
  "mutate_tracked_connection key mutator s =
     (case active_connections s key of
        Some conn \<Rightarrow>
          (let v = pc_version conn; conn = (mutator conn)\<lparr> pc_version := v + 1 \<rparr> in
           s\<lparr> active_connections := (active_connections s)(key \<mapsto> conn),
              global_broadcast := global_broadcast s @ [TcpEvent (Updated conn)] \<rparr>)
      | None \<Rightarrow> s)"

definition del_connection :: "ConnectionKey \<Rightarrow> 'a ConnectionTable_scheme \<Rightarrow> 'a ConnectionTable_scheme" where
  "del_connection key s =
     (if active_connections s key \<noteq> None then
        s\<lparr> active_connections := (active_connections s)(key := None),
           global_broadcast := global_broadcast s @ [TcpEvent (Closed key)] \<rparr>
      else s)"

section \<open>The table and its events\<close>

text \<open>
  What the rest of the program does to the table: \<open>track\<close> adds a fresh entry of version 1,
  \<open>update_tracked_info\<close> changes one through a closure, dropping the stream removes it, and the
  streams broadcast what they read and write. No closure of the program touches the key or the resolved
  type of a connection.
\<close>

definition keeps_identity :: "(ProxyActiveTCPConnection \<Rightarrow> ProxyActiveTCPConnection) \<Rightarrow> bool" where
  "keeps_identity f \<longleftrightarrow>
     (\<forall>c. pc_connection_key (f c) = pc_connection_key c \<and>
          pc_resolved_connection_type (f c) = pc_resolved_connection_type c)"

definition fresh_connection :: "ProxyActiveTCPConnection \<Rightarrow> bool" where
  "fresh_connection c \<longleftrightarrow> pc_version c = 1 \<and> pc_resolved_connection_type c = None"

definition raw_event :: "TCPEvent \<Rightarrow> bool" where
  "raw_event e \<longleftrightarrow>
     (case e of RawBytesFromClientToOddBox _ _ _ \<Rightarrow> True | RawBytesFromOddBoxToClient _ _ _ \<Rightarrow> True | _ \<Rightarrow> False)"

inductive table_step :: "'a ConnectionTable_scheme \<Rightarrow> 'a ConnectionTable_scheme \<Rightarrow> bool" where
  track: "fresh_connection c \<Longrightarrow> pointee = Some (pc_connection_key c) \<or> pointee = None \<Longrightarrow>
    table_step s (add_or_update_connection dbg now pointee c s)"
| update: "keeps_identity f \<Longrightarrow> table_step s (mutate_tracked_connection k f s)"
| drop: "table_step s (del_connection k s)"
| traffic: "raw_event e \<Longrightarrow> table_step s (s\<lparr> global_broadcast := global_broadcast s @ [TcpEvent e] \<rparr>)"

text \<open>What a listener of the channel makes of the events.\<close>

fun replay_event :: "(ConnectionKey \<rightharpoonup> ProxyActiveTCPConnection) \<Rightarrow> GlobalEvent \<Rightarrow> (ConnectionKey \<rightharpoonup> ProxyActiveTCPConnection)" where
  "replay_event m (TcpEvent (Opened c)) = m(pc_connection_key c \<mapsto> c)"
| "replay_event m (TcpEvent (Updated c)) = m(pc_connection_key c \<mapsto> c)"
| "replay_event m (TcpEvent (Closed k)) = m(k := None)"
| "replay_event m _ = m"

definition replay :: "GlobalEvent list \<Rightarrow> (ConnectionKey \<rightharpoonup> ProxyActiveTCPConnection)" where
  "replay es = foldl replay_event Map.empty es"

lemma replay_snoc [simp]: "replay (es @ [e]) = replay_event (replay es) e"
  by (simp add: replay_def)

definition table_ok :: "'a ConnectionTable_scheme \<Rightarrow> bool" where
  "table_ok s \<longleftrightarrow>
     replay (global_broadcast s) = active_connections s \<and>
     (\<forall>k c. active_connections s k = Some c \<longrightarrow>
        pc_connection_key c = k \<and> pc_resolved_connection_type c = Some PendingInit)"

lemma replay_raw: "raw_event e \<Longrightarrow> replay_event m (TcpEvent e) = m"
  by (cases e) (simp_all add: raw_event_def)

lemma table_ok_step: "table_step s s' \<Longrightarrow> table_ok s \<Longrightarrow> table_ok s'"
proof (induction rule: table_step.induct)
  case (track c pointee s dbg now)
  then show ?case
    by (auto simp: table_ok_def add_or_update_connection_def fresh_connection_def get_connection_type_def Let_def split: if_splits)
next
  case (update f s k)
  then show ?case
    by (auto simp: table_ok_def mutate_tracked_connection_def keeps_identity_def Let_def split: option.splits)
next
  case (drop s k)
  then show ?case by (auto simp: table_ok_def del_connection_def)
next
  case (traffic e s)
  then show ?case by (simp add: table_ok_def replay_raw)
qed

definition table_start :: "bool \<Rightarrow> ConnectionTable" where
  "table_start inspect =
     \<lparr> active_connections = Map.empty, enable_global_traffic_inspection = inspect,
       monitored_connections = Map.empty, global_broadcast = [] \<rparr>"

lemma table_ok_reachable: "table_step\<^sup>*\<^sup>* (table_start i) s \<Longrightarrow> table_ok s"
proof (induction rule: rtranclp_induct)
  case base
  show ?case by (simp add: table_ok_def table_start_def replay_def)
qed (rule table_ok_step)

text \<open>Replaying the broadcast TCP events from the start rebuilds the table of active
  connections after any sequence of additions, changes and deletions, and every entry is stored
  under its own key.\<close>

theorem broadcast_rebuilds_table:
  assumes "table_step\<^sup>*\<^sup>* (table_start i) s"
  shows "replay (global_broadcast s) = active_connections s \<and>
         (\<forall>k c. active_connections s k = Some c \<longrightarrow> pc_connection_key c = k)"
  using table_ok_reachable [OF assms] by (auto simp: table_ok_def)

text \<open>The resolved connection type that the table stores is PendingInit for every connection,
  whatever happens to it: it is computed once, at version 1, and never again.\<close>

theorem resolved_type_never_updated:
  assumes "table_step\<^sup>*\<^sup>* (table_start i) s" and "active_connections s k = Some c"
  shows "pc_resolved_connection_type c = Some PendingInit"
  using table_ok_reachable [OF assms(1)] assms(2) by (auto simp: table_ok_def)

definition connection_sample :: "ConnectionKey \<Rightarrow> ProxyActiveTCPConnection" where
  "connection_sample k =
     \<lparr> pc_incoming_sni = None, pc_client_socket_address = None, pc_odd_box_socket = None, pc_connection_key = k,
       pc_client_addr_string = ''?'', pc_incoming_connection_uses_tls = False, pc_tls_terminated = False,
       pc_http_terminated = False, pc_version = 1, pc_resolved_connection_type = None,
       pc_resolved_connection_type_description = None, pc_is_grpc = None, pc_http_version = None,
       pc_is_websocket = None, pc_outgoing_tunnel_type = None \<rparr>"

definition terminate_http_mark :: "ProxyActiveTCPConnection \<Rightarrow> ProxyActiveTCPConnection" where
  "terminate_http_mark c = c\<lparr> pc_http_terminated := True \<rparr>"

definition table_sample :: ConnectionTable where
  "table_sample =
     mutate_tracked_connection 7 terminate_http_mark
       (add_or_update_connection (\<lambda>_ _ _ _. []) 0 (Some 7) (connection_sample 7) (table_start True))"

lemma table_sample_reachable: "table_step\<^sup>*\<^sup>* (table_start True) table_sample"
proof -
  have "table_step (table_start True) (add_or_update_connection (\<lambda>_ _ _ _. []) 0 (Some 7) (connection_sample 7) (table_start True))"
    by (rule track) (simp_all add: connection_sample_def fresh_connection_def)
  moreover have "table_step (add_or_update_connection (\<lambda>_ _ _ _. []) 0 (Some 7) (connection_sample 7) (table_start True)) table_sample"
    unfolding table_sample_def by (rule update) (simp add: keeps_identity_def terminate_http_mark_def)
  ultimately show ?thesis by simp
qed

lemma table_sample_active:
  "\<exists>c. active_connections table_sample 7 = Some c \<and> get_connection_type c = HttpTermination"
  by (simp add: table_sample_def add_or_update_connection_def mutate_tracked_connection_def table_start_def
      connection_sample_def terminate_http_mark_def get_connection_type_def Let_def)

lemma broadcast_rebuilds_table_witness:
  "\<exists>c. replay (global_broadcast table_sample) 7 = Some c \<and> pc_connection_key c = 7"
  using broadcast_rebuilds_table [OF table_sample_reachable] table_sample_active by auto

lemma resolved_type_never_updated_witness:
  "\<exists>c. active_connections table_sample 7 = Some c \<and> get_connection_type c = HttpTermination \<and>
     pc_resolved_connection_type c = Some PendingInit"
  using resolved_type_never_updated [OF table_sample_reachable] table_sample_active by blast

end
