(* ===== verification/Monitoring.thy ===== *)
theory Monitoring
  imports Connections
begin

text \<open>
  The traffic observer, \<open>src/observer.rs\<close>: the monitoring station keeps, for each connection, an
  HTTP/1 or an HTTP/2 parser of its bytes and the decoded packets, and forwards every packet to the
  websocket clients (the list \<open>wsb\<close>). It shares its table of connections with
  \<open>add_or_update_connection\<close>, so its state extends \<open>ConnectionTable\<close>. The HPACK decoder, the
  parsers of \<open>httparse\<close>, the clock and the lookup of a local process are arguments; \<open>None\<close> is a
  panic of the HTTP/1 parser.
\<close>

section \<open>The station\<close>

datatype EventForWebsocketClients =
    Http1Event ConnectionKey DecodedPacket
  | Http2Event ConnectionKey "u32 option" DecodedPacket
  | SentReqToBackend ConnectionKey string
  | ReceivedResFromBackend ConnectionKey string
  | UnknownEvent ConnectionKey string

record 'd MonitoringStation = ConnectionTable +
  h2_observers :: "ConnectionKey \<rightharpoonup> 'd H2Observer"
  h1_observers :: "ConnectionKey \<rightharpoonup> H1Observer"
  wsb :: "EventForWebsocketClients list"

record 'd observer_env =
  env_hpack :: "'d hpack"
  env_decoder :: 'd
  env_requests :: httparse
  env_responses :: httparse
  env_process :: "string \<Rightarrow> string \<Rightarrow> (string \<times> int) option"
  env_debug :: "DecodedPacket \<Rightarrow> string"

definition reset :: "'d MonitoringStation \<Rightarrow> 'd MonitoringStation" where
  "reset s = s\<lparr> h1_observers := Map.empty, h2_observers := Map.empty, monitored_connections := Map.empty \<rparr>"

definition update_connection ::
  "ConnectionKey \<Rightarrow> (TCPConnection \<Rightarrow> TCPConnection) \<Rightarrow> 'd MonitoringStation \<Rightarrow> 'd MonitoringStation" where
  "update_connection k f s =
     (case monitored_connections s k of
        Some c \<Rightarrow> s\<lparr> monitored_connections := (monitored_connections s)(k \<mapsto> f c) \<rparr>
      | None \<Rightarrow> s)"

definition push_extra :: "ConnectionKey \<Rightarrow> string \<Rightarrow> bool \<Rightarrow> 'd MonitoringStation \<Rightarrow> 'd MonitoringStation" where
  "push_extra k data outgoing_request s =
     (let s = update_connection k (\<lambda>c. c\<lparr> tc_extra_log := tc_extra_log c @ [data] \<rparr>) s in
      s\<lparr> wsb := wsb s @ [if outgoing_request then SentReqToBackend k data else ReceivedResFromBackend k data] \<rparr>)"

text \<open>The message \<open>handle_packet\<close> sends for a packet.\<close>

definition packet_event :: "'d observer_env \<Rightarrow> ConnectionKey \<Rightarrow> DecodedPacket \<Rightarrow> EventForWebsocketClients" where
  "packet_event env k packet =
     (case packet of
        Http2Packet e \<Rightarrow> Http2Event k (stream_id e) packet
      | Http0or1 e \<Rightarrow> Http1Event k packet
      | x \<Rightarrow> UnknownEvent k (env_debug env x))"

text \<open>A closure of \<open>update_connection\<close> that stores packets and hands each of them on.\<close>

definition store_packets ::
  "'d observer_env \<Rightarrow> ConnectionKey \<Rightarrow> (TCPConnection \<Rightarrow> TCPConnection) \<Rightarrow> DecodedPacket list \<Rightarrow>
   'd MonitoringStation \<Rightarrow> 'd MonitoringStation" where
  "store_packets env k f ps s =
     (case monitored_connections s k of
        Some c \<Rightarrow>
          (let c = f c; c = c\<lparr> tc_packets := tc_packets c @ ps \<rparr> in
           s\<lparr> monitored_connections := (monitored_connections s)(k \<mapsto> c),
              wsb := wsb s @ map (packet_event env k) ps \<rparr>)
      | None \<Rightarrow> s)"

section \<open>gRPC\<close>

definition grpc_headers :: "header_map \<Rightarrow> bool" where
  "grpc_headers hs =
     (case hs ''content-type'' of Some t \<Rightarrow> starts_with t ''application/grpc'' | None \<Rightarrow> False)"

definition check_if_grpc :: "H2Event \<Rightarrow> bool \<Rightarrow> bool" where
  "check_if_grpc event decode_as_grpc =
     (case event of
        IncomingHeaders _ hs \<Rightarrow> if \<not> decode_as_grpc \<and> grpc_headers hs then True else decode_as_grpc
      | IncomingRequest rq \<Rightarrow> if \<not> decode_as_grpc \<and> grpc_headers (rq_headers rq) then True else decode_as_grpc
      | _ \<Rightarrow> decode_as_grpc)"

definition any_grpc :: "H2Event list \<Rightarrow> bool" where
  "any_grpc es = foldl (\<lambda>is_grpc e. is_grpc \<or> check_if_grpc e is_grpc) False es"

section \<open>Reading the HTTP/2 events that are there\<close>

lemma dir_buffer_advance_other: "d \<noteq> dir \<Longrightarrow> dir_buffer d (advance dir n ob) = dir_buffer d ob"
  by (cases d; cases dir) (simp_all add: dir_buffer_def advance_def)

lemma next_frame_other: "next_frame dir ob = Some (f, ob') \<Longrightarrow> d \<noteq> dir \<Longrightarrow> dir_buffer d ob' = dir_buffer d ob"
  by (auto simp: next_frame_def dir_buffer_advance_other split: option.splits sum.splits)

lemma poll_other:
  assumes "poll_one_frame hpack dir ob = (e, ob')" and "d \<noteq> dir"
  shows "dir_buffer d ob' = dir_buffer d ob"
proof -
  note keeps = dir_buffer_regular_frame [of d hpack dir] dir_buffer_complete_headers [of d hpack dir]
  show ?thesis
    using assms next_frame_other [OF _ assms(2), of ob]
    apply (auto simp: poll_one_frame_def Let_def split: option.splits prod.splits bool.splits if_splits)
    apply (metis keeps dir_buffer_update snd_conv)+
    done
qed

lemma poll_length: "poll_one_frame hpack dir ob = (e, ob') \<Longrightarrow> length (dir_buffer dir ob') \<le> length (dir_buffer dir ob)"
  apply (auto simp: poll_one_frame_def Let_def split: option.splits prod.splits bool.splits if_splits dest!: next_frame_shrinks)
  apply (metis dir_buffer_regular_frame dir_buffer_complete_headers dir_buffer_update snd_conv less_imp_le)+
  done

definition unread :: "'d H2Observer \<Rightarrow> nat" where
  "unread ob = length (dir_buffer Incoming ob) + length (dir_buffer Outgoing ob)"

lemma poll_next_shrinks:
  assumes "poll_next hpack ob = (Some e, ob')"
  shows "unread ob' < unread ob"
proof -
  obtain r ob1 where p: "poll_one_frame hpack Incoming ob = (r, ob1)" by fastforce
  have le: "length (dir_buffer Incoming ob1) \<le> length (dir_buffer Incoming ob)"
    "dir_buffer Outgoing ob1 = dir_buffer Outgoing ob"
    using poll_length [OF p] poll_other [OF p] by simp_all
  show ?thesis
  proof (cases r)
    case None
    with assms p have q: "poll_one_frame hpack Outgoing ob1 = (Some e, ob')" by (simp add: poll_next_def)
    then show ?thesis
      using poll_shrinks [OF q] poll_other [OF q, of Incoming] le by (simp add: unread_def)
  next
    case (Some a)
    with assms p have "ob' = ob1" "r = Some e" by (auto simp: poll_next_def)
    then show ?thesis
      using poll_shrinks [OF p [unfolded \<open>r = Some e\<close>]] le by (simp add: unread_def)
  qed
qed

text \<open>\<open>while let Some(Some(event)) = b.next().now_or_never()\<close>: the observer never ends, \<open>Pending\<close> stops.\<close>

function drain_events :: "'d hpack \<Rightarrow> 'd H2Observer \<Rightarrow> H2Event list \<times> 'd H2Observer" where
  "drain_events hpack ob =
     (case poll_next hpack ob of
        (Some e, ob') \<Rightarrow> (let (es, ob'') = drain_events hpack ob' in (e # es, ob''))
      | (None, ob') \<Rightarrow> ([], ob'))"
  by pat_completeness auto
termination
  by (relation "measure (\<lambda>(hpack, ob). unread ob)") (auto dest: poll_next_shrinks [OF sym])

declare drain_events.simps [simp del]

section \<open>Events\<close>

text \<open>
  Raw bytes go to the connection's parser; what it decodes is stored and handed on when the connection
  is known. The HTTP/1 bytes of the server are only parsed when it is.
\<close>

definition push_h2_outgoing :: "'d observer_env \<Rightarrow> ConnectionKey \<Rightarrow> bytes \<Rightarrow> 'd MonitoringStation \<Rightarrow> 'd MonitoringStation" where
  "push_h2_outgoing env k data s =
     (let ob = write_outgoing (unwrap_or (h2_observers s k) (H2Observer_new (env_decoder env))) data;
          (es, ob) = drain_events (env_hpack env) ob;
          is_grpc = any_grpc es;
          s = s\<lparr> h2_observers := (h2_observers s)(k \<mapsto> ob) \<rparr>
      in store_packets env k
           (\<lambda>c. let c = c\<lparr> tc_bytes_sent := tc_bytes_sent c + length data \<rparr> in
                if is_grpc \<and> pc_is_grpc (tc_connection c) = None then
                  c\<lparr> tc_connection := (tc_connection c)\<lparr> pc_is_grpc := Some True \<rparr> \<rparr>
                else c)
           (map Http2Packet es) s)"

definition push_h2_incoming :: "'d observer_env \<Rightarrow> ConnectionKey \<Rightarrow> bytes \<Rightarrow> 'd MonitoringStation \<Rightarrow> 'd MonitoringStation" where
  "push_h2_incoming env k data s =
     (let ob = write_incoming (unwrap_or (h2_observers s k) (H2Observer_new (env_decoder env))) data;
          (es, ob) = drain_events (env_hpack env) ob;
          is_grpc = any_grpc es;
          s = s\<lparr> h2_observers := (h2_observers s)(k \<mapsto> ob) \<rparr>
      in store_packets env k
           (\<lambda>c. let c = c\<lparr> tc_bytes_rec := tc_bytes_rec c + length data \<rparr> in
                if is_grpc then c\<lparr> tc_connection := (tc_connection c)\<lparr> pc_is_grpc := Some True \<rparr> \<rparr> else c)
           (map Http2Packet es) s)"

definition push_h1_outgoing :: "'d observer_env \<Rightarrow> ConnectionKey \<Rightarrow> bytes \<Rightarrow> 'd MonitoringStation \<Rightarrow> 'd MonitoringStation run" where
  "push_h1_outgoing env k data s =
     (let ob = push ServerToClient data (unwrap_or (h1_observers s k) H1Observer_default);
          s = s\<lparr> h1_observers := (h1_observers s)(k \<mapsto> ob) \<rparr> in
      if monitored_connections s k = None then Some s
      else do {
        (es, ob) \<leftarrow> parse (env_requests env) (env_responses env) ob;
        Some (store_packets env k (\<lambda>c. c\<lparr> tc_bytes_sent := tc_bytes_sent c + length data \<rparr>) (map Http0or1 es)
                (s\<lparr> h1_observers := (h1_observers s)(k \<mapsto> ob) \<rparr>)) })"

text \<open>
  The loop over the events of a client stops at \<open>ProtocolSwitchedToWebSocket\<close>: that event and those
  behind it are not stored.
\<close>

definition push_h1_incoming :: "'d observer_env \<Rightarrow> ConnectionKey \<Rightarrow> bytes \<Rightarrow> 'd MonitoringStation \<Rightarrow> 'd MonitoringStation run" where
  "push_h1_incoming env k data s =
     (let ob = push ClientToServer data (unwrap_or (h1_observers s k) H1Observer_default) in do {
        (es, ob) \<leftarrow> parse (env_requests env) (env_responses env) ob;
        let s = s\<lparr> h1_observers := (h1_observers s)(k \<mapsto> ob) \<rparr>;
        let kept = takeWhile (\<lambda>e. e \<noteq> ProtocolSwitchedToWebSocket) es;
        let is_ws = (ProtocolSwitchedToWebSocket \<in> set es);
        Some (store_packets env k
                (\<lambda>c. let c = c\<lparr> tc_bytes_rec := tc_bytes_rec c + length data \<rparr> in
                     if is_ws then c\<lparr> tc_connection := (tc_connection c)\<lparr> pc_is_websocket := Some True \<rparr> \<rparr> else c)
                (map Http0or1 kept) s) })"

definition push_event :: "'d observer_env \<Rightarrow> nat \<Rightarrow> TCPEvent \<Rightarrow> 'd MonitoringStation \<Rightarrow> 'd MonitoringStation run" where
  "push_event env now event s =
     (case event of
        Opened c \<Rightarrow>
          (case (pc_client_socket_address c, pc_odd_box_socket c) of
             (Some ls, Some own) \<Rightarrow>
               (case env_process env ls own of
                  Some p \<Rightarrow> Some (update_connection (pc_connection_key c)
                                   (\<lambda>t. t\<lparr> tc_local_process_name_and_pid := Some p \<rparr>) s)
                | None \<Rightarrow> Some s)
           | _ \<Rightarrow> Some s)
      | Closed k \<Rightarrow> Some (update_connection k (\<lambda>t. t\<lparr> tc_state := ConnectionClosed \<rparr>) s)
      | Updated c \<Rightarrow>
          (case monitored_connections s (pc_connection_key c) of
             Some t \<Rightarrow> Some (update_connection (pc_connection_key c) (\<lambda>t. t\<lparr> tc_connection := c \<rparr>) s)
           | None \<Rightarrow>
               Some (s\<lparr> monitored_connections :=
                          (monitored_connections s)(pc_connection_key c \<mapsto> TCPConnection_new now c) \<rparr>))
      | RawBytesFromOddBoxToClient k is_http2 data \<Rightarrow>
          if is_http2 then Some (push_h2_outgoing env k data s) else push_h1_outgoing env k data s
      | RawBytesFromClientToOddBox k is_http2 data \<Rightarrow>
          if is_http2 then Some (push_h2_incoming env k data s) else push_h1_incoming env k data s)"

text \<open>One message in the loop of \<open>run\<close>.\<close>

definition observe :: "'d observer_env \<Rightarrow> nat \<Rightarrow> GlobalEvent \<Rightarrow> 'd MonitoringStation \<Rightarrow> 'd MonitoringStation run" where
  "observe env now msg s =
     (if \<not> enable_global_traffic_inspection s then Some (reset s)
      else
        (case msg of
           GotResponseFromBackend k data \<Rightarrow>
             Some (push_extra k (''Odd-Box got a response from backend service: '' @ data) False s)
         | SentHttpRequestToBackend k data \<Rightarrow>
             Some (push_extra k (''Odd-Box sent a request to the backend service - '' @ data) True s)
         | TcpEvent (Closed k) \<Rightarrow> Some (s\<lparr> monitored_connections := (monitored_connections s)(k := None) \<rparr>)
         | TcpEvent e \<Rightarrow> push_event env now e s))"

section \<open>What a message changes\<close>

lemma station_updates [simp]:
  "active_connections (update_connection k f s) = active_connections s"
  "global_broadcast (update_connection k f s) = global_broadcast s"
  "enable_global_traffic_inspection (update_connection k f s) = enable_global_traffic_inspection s"
  "h1_observers (update_connection k f s) = h1_observers s"
  "h2_observers (update_connection k f s) = h2_observers s"
  "wsb (update_connection k f s) = wsb s"
  "active_connections (store_packets env k g ps s) = active_connections s"
  "global_broadcast (store_packets env k g ps s) = global_broadcast s"
  "enable_global_traffic_inspection (store_packets env k g ps s) = enable_global_traffic_inspection s"
  "h1_observers (store_packets env k g ps s) = h1_observers s"
  "h2_observers (store_packets env k g ps s) = h2_observers s"
  by (simp_all add: update_connection_def store_packets_def Let_def split: option.splits)

lemma monitored_update_connection:
  "monitored_connections (update_connection k f s) i =
     (if i = k then map_option f (monitored_connections s k) else monitored_connections s i)"
  by (simp add: update_connection_def split: option.splits)

lemma monitored_store_packets:
  "monitored_connections (store_packets env k f ps s) i =
     (if i = k then map_option (\<lambda>c. (f c)\<lparr> tc_packets := tc_packets (f c) @ ps \<rparr>) (monitored_connections s k)
      else monitored_connections s i)"
  by (simp add: store_packets_def Let_def split: option.splits)

lemmas observe_cases = push_event_def push_h2_incoming_def push_h2_outgoing_def push_h1_incoming_def push_h1_outgoing_def

lemma observe_keeps:
  assumes "observe env now msg s = Some s'"
  shows "active_connections s' = active_connections s \<and> global_broadcast s' = global_broadcast s \<and>
         enable_global_traffic_inspection s' = enable_global_traffic_inspection s"
  using assms
  by (auto simp: observe_def observe_cases reset_def push_extra_def Let_def bind_eq_Some_conv
      split: if_splits GlobalEvent.splits TCPEvent.splits option.splits prod.splits)

text \<open>Two records of a connection that differ at most in what the observer marks.\<close>

definition same_connection :: "ProxyActiveTCPConnection \<Rightarrow> ProxyActiveTCPConnection \<Rightarrow> bool" where
  "same_connection a b \<longleftrightarrow>
     a\<lparr> pc_is_grpc := None, pc_is_websocket := None \<rparr> = b\<lparr> pc_is_grpc := None, pc_is_websocket := None \<rparr>"

lemma same_connection_refl [simp]: "same_connection c c"
  by (simp add: same_connection_def)

lemma same_connection_marks [simp]:
  "same_connection (c\<lparr> pc_is_grpc := g \<rparr>) d \<longleftrightarrow> same_connection c d"
  "same_connection (c\<lparr> pc_is_websocket := w \<rparr>) d \<longleftrightarrow> same_connection c d"
  by (cases c; cases d; simp add: same_connection_def)+

definition keeps_record :: "'d MonitoringStation \<Rightarrow> 'd MonitoringStation \<Rightarrow> bool" where
  "keeps_record s s' \<longleftrightarrow>
     (\<forall>k. (monitored_connections s' k = None \<longleftrightarrow> monitored_connections s k = None) \<and>
        (\<forall>t t' c. monitored_connections s k = Some t \<longrightarrow> monitored_connections s' k = Some t' \<longrightarrow>
           same_connection (tc_connection t) c \<longrightarrow> same_connection (tc_connection t') c))"

lemma keeps_record_refl [simp]: "keeps_record s s"
  by (simp add: keeps_record_def)

lemma keeps_record_update_connection [simp]:
  assumes "\<And>t. tc_connection (f t) = tc_connection t"
  shows "keeps_record s (update_connection k f s)"
  using assms by (auto simp: keeps_record_def monitored_update_connection)

lemma keeps_record_store_packets:
  assumes "\<And>t c. same_connection (tc_connection t) c \<Longrightarrow> same_connection (tc_connection (f t)) c"
    and "monitored_connections s0 = monitored_connections s"
  shows "keeps_record s0 (store_packets env k f ps s)"
  using assms by (auto simp: keeps_record_def monitored_store_packets)

text \<open>Every message but the opening, changing and closing of a connection keeps the records.\<close>

lemma observe_keeps_record:
  assumes "observe env now msg s = Some s'" and "enable_global_traffic_inspection s"
    and "\<forall>k. msg \<noteq> TcpEvent (Closed k)" and "\<forall>c. msg \<noteq> TcpEvent (Updated c)"
  shows "keeps_record s s'"
proof -
  have st: "keeps_record s (store_packets env k f ps s1)"
    if "monitored_connections s1 = monitored_connections s"
      and "\<And>t c. same_connection (tc_connection t) c \<Longrightarrow> same_connection (tc_connection (f t)) c"
    for k f ps s1
    by (rule keeps_record_store_packets) (simp_all add: that)
  have h2: "keeps_record s (push_h2_incoming env k data s)" "keeps_record s (push_h2_outgoing env k data s)" for k data
    unfolding push_h2_incoming_def push_h2_outgoing_def Let_def
    by (simp_all split: prod.splits) (intro allI impI st, simp_all)+
  have h1: "push_h1_incoming env k data s = Some s' \<Longrightarrow> keeps_record s s'"
    "push_h1_outgoing env k data s = Some s' \<Longrightarrow> keeps_record s s'" for k data
    unfolding push_h1_incoming_def push_h1_outgoing_def Let_def
    by (auto simp: bind_eq_Some_conv keeps_record_def [of s "s\<lparr> h1_observers := x \<rparr>" for x] intro!: st split: if_splits)
  show ?thesis
    using assms
    by (auto simp: observe_def push_extra_def push_event_def Let_def keeps_record_def [of s "x\<lparr> wsb := y \<rparr>" for x y]
        monitored_update_connection h2 dest: h1 split: GlobalEvent.splits TCPEvent.splits option.splits if_splits)
qed

section \<open>The program and the observer\<close>

text \<open>
  The connections and the observer run side by side: a state is the shared data and the number of
  messages the observer has taken off the channel, in order (a receiver that lags so far behind that the
  channel drops messages is not modelled). Keys are not reused (\<open>generate_unique_id\<close> counts).
\<close>

fun opened_keys :: "GlobalEvent list \<Rightarrow> ConnectionKey list" where
  "opened_keys [] = []"
| "opened_keys (TcpEvent (Opened c) # es) = pc_connection_key c # opened_keys es"
| "opened_keys (_ # es) = opened_keys es"

lemma opened_keys_append [simp]: "opened_keys (xs @ ys) = opened_keys xs @ opened_keys ys"
  by (induction xs rule: opened_keys.induct) simp_all

inductive station_step ::
  "'d observer_env \<Rightarrow> 'd MonitoringStation \<times> nat \<Rightarrow> 'd MonitoringStation \<times> nat \<Rightarrow> bool" for env where
  program: "table_step s s' \<Longrightarrow> distinct (opened_keys (global_broadcast s')) \<Longrightarrow> station_step env (s, n) (s', n)"
| backend: "station_step env (s, n) (s\<lparr> global_broadcast := global_broadcast s @ [SentHttpRequestToBackend k d] \<rparr>, n)"
| backend_answer: "station_step env (s, n) (s\<lparr> global_broadcast := global_broadcast s @ [GotResponseFromBackend k d] \<rparr>, n)"
| receive: "n < length (global_broadcast s) \<Longrightarrow> observe env now (global_broadcast s ! n) s = Some s' \<Longrightarrow>
    station_step env (s, n) (s', Suc n)"

text \<open>A key is changed or closed only while it is open.\<close>

fun event_allowed :: "GlobalEvent list \<Rightarrow> GlobalEvent \<Rightarrow> bool" where
  "event_allowed es (TcpEvent (Opened c)) = (pc_connection_key c \<notin> set (opened_keys es))"
| "event_allowed es (TcpEvent (Updated c)) = (replay es (pc_connection_key c) \<noteq> None)"
| "event_allowed es (TcpEvent (Closed k)) = (replay es k \<noteq> None)"
| "event_allowed es _ = True"

definition events_ok :: "GlobalEvent list \<Rightarrow> bool" where
  "events_ok es \<longleftrightarrow> (\<forall>i < length es. event_allowed (take i es) (es ! i))"

lemma events_ok_snoc: "events_ok (es @ [e]) \<longleftrightarrow> events_ok es \<and> event_allowed es e"
  by (auto simp: events_ok_def nth_append less_Suc_eq)

lemma replay_opened: "replay es k \<noteq> None \<Longrightarrow> k \<in> set (opened_keys es) \<or> \<not> events_ok es"
proof (induction es rule: rev_induct)
  case Nil
  then show ?case by (simp add: replay_def)
next
  case (snoc e es)
  then show ?case
    by (cases "(es, e)" rule: event_allowed.cases) (auto simp: events_ok_snoc split: if_splits)
qed

lemma replay_keys:
  assumes "\<And>c. e = TcpEvent (Updated c) \<or> e = TcpEvent (Opened c) \<Longrightarrow> pc_connection_key c \<noteq> k"
    and "e \<noteq> TcpEvent (Closed k)"
  shows "replay_event m e k = m k"
  using assms by (cases "(m, e)" rule: replay_event.cases) auto

text \<open>
  The invariant: what the observer has processed is in the station as the events say, and a connection
  whose opening it has not seen yet was put there when it was opened.
\<close>

definition mirrors :: "(ConnectionKey \<rightharpoonup> TCPConnection) \<Rightarrow> GlobalEvent list \<Rightarrow> GlobalEvent list \<Rightarrow> bool" where
  "mirrors m seen ahead \<longleftrightarrow>
     (\<forall>k c. replay seen k = Some c \<or> TcpEvent (Opened c) \<in> set ahead \<and> pc_connection_key c = k \<longrightarrow>
        (\<exists>t. m k = Some t \<and> same_connection (tc_connection t) c)) \<and>
     (\<forall>k. m k \<noteq> None \<longrightarrow> replay seen k \<noteq> None \<or> k \<in> set (opened_keys ahead))"

definition station_ok :: "'d MonitoringStation \<times> nat \<Rightarrow> bool" where
  "station_ok x \<longleftrightarrow>
     (let (s, n) = x; es = global_broadcast s in
      n \<le> length es \<and> enable_global_traffic_inspection s \<and> table_ok s \<and> events_ok es \<and>
      mirrors (monitored_connections s) (take n es) (drop n es))"

lemma opened_keys_iff: "k \<in> set (opened_keys es) \<longleftrightarrow> (\<exists>c. TcpEvent (Opened c) \<in> set es \<and> pc_connection_key c = k)"
  by (induction es rule: opened_keys.induct) auto

lemma table_step_shape:
  assumes "table_step s s'" and "table_ok s" and "distinct (opened_keys (global_broadcast s'))" and "events_ok (global_broadcast s)"
    and "enable_global_traffic_inspection s"
  shows "s' = s \<or>
    (\<exists>e. global_broadcast s' = global_broadcast s @ [e] \<and> event_allowed (global_broadcast s) e \<and>
       enable_global_traffic_inspection s' \<and>
       (case e of
          TcpEvent (Opened c) \<Rightarrow>
            (\<exists>now. monitored_connections s' = (monitored_connections s)(pc_connection_key c \<mapsto> TCPConnection_new now c))
        | _ \<Rightarrow> monitored_connections s' = monitored_connections s))"
  using assms
proof (induction rule: table_step.induct)
  case (track c pointee s dbg now)
  then show ?case
    by (auto simp: add_or_update_connection_def fresh_connection_def Let_def)
next
  case (update f s k)
  then show ?case
    by (auto simp: mutate_tracked_connection_def keeps_identity_def table_ok_def Let_def split: option.splits)
next
  case (drop s k)
  then show ?case by (auto simp: del_connection_def table_ok_def)
next
  case (traffic e s)
  then show ?case by (cases e) (auto simp: raw_event_def)
qed

lemma opened_later:
  assumes "events_ok es" and "n < length es" and "TcpEvent (Opened c) \<in> set (drop (Suc n) es)"
  shows "pc_connection_key c \<notin> set (opened_keys (take (Suc n) es))"
proof -
  from assms(3) obtain j where "j < length es - Suc n" "es ! (Suc n + j) = TcpEvent (Opened c)"
    by (auto simp: in_set_conv_nth)
  then have i: "Suc n + j < length es" "es ! (Suc n + j) = TcpEvent (Opened c)" by simp_all
  then have "pc_connection_key c \<notin> set (opened_keys (take (Suc n + j) es))"
    using assms(1) unfolding events_ok_def by (metis event_allowed.simps(1))
  then show ?thesis by (simp only: take_add opened_keys_append) simp
qed

lemma not_opened_not_replayed:
  "events_ok seen \<Longrightarrow> k \<notin> set (opened_keys seen) \<Longrightarrow> replay seen k = None"
  using replay_opened by blast

lemma mirrors_append_other:
  "mirrors m seen ahead \<Longrightarrow> \<forall>c. e \<noteq> TcpEvent (Opened c) \<Longrightarrow> mirrors m seen (ahead @ [e])"
  unfolding mirrors_def by auto

lemma mirrors_append_opened:
  assumes "mirrors m seen ahead" and "events_ok seen"
    and "pc_connection_key c \<notin> set (opened_keys seen)" and "pc_connection_key c \<notin> set (opened_keys ahead)"
    and "tc_connection t = c"
  shows "mirrors (m(pc_connection_key c \<mapsto> t)) seen (ahead @ [TcpEvent (Opened c)])"
proof -
  have "replay seen (pc_connection_key c) = None" by (rule not_opened_not_replayed [OF assms(2,3)])
  moreover have "TcpEvent (Opened d) \<in> set ahead \<Longrightarrow> pc_connection_key d \<noteq> pc_connection_key c" for d
    using assms(4) unfolding opened_keys_iff by metis
  ultimately show ?thesis
    using assms(1,5) unfolding mirrors_def by auto
qed

lemma mirrors_seen_kept:
  assumes "mirrors m seen (e # ahead)" and "\<forall>k. e \<noteq> TcpEvent (Closed k)" and "\<forall>c. e \<noteq> TcpEvent (Updated c)"
    and "\<forall>k. (m' k = None \<longleftrightarrow> m k = None) \<and>
        (\<forall>t t' c. m k = Some t \<longrightarrow> m' k = Some t' \<longrightarrow>
           same_connection (tc_connection t) c \<longrightarrow> same_connection (tc_connection t') c)"
  shows "mirrors m' (seen @ [e]) ahead"
proof -
  have "mirrors m (seen @ [e]) ahead"
  proof (cases "\<exists>c. e = TcpEvent (Opened c)")
    case True
    then show ?thesis using assms(1) unfolding mirrors_def by (auto split: if_splits)
  next
    case False
    then have "replay_event (replay seen) e = replay seen"
      using assms(2,3) by (cases "(replay seen, e)" rule: replay_event.cases) auto
    moreover have "opened_keys (e # ahead) = opened_keys ahead"
      using False by (cases "e # ahead" rule: opened_keys.cases) auto
    ultimately show ?thesis using assms(1) unfolding mirrors_def by (auto simp del: opened_keys.simps)
  qed
  then show ?thesis
    using assms(4) unfolding mirrors_def by (metis option.exhaust)
qed

lemma mirrors_seen_updated:
  assumes "mirrors m seen (TcpEvent (Updated c) # ahead)"
    and "\<forall>d. TcpEvent (Opened d) \<in> set ahead \<longrightarrow> pc_connection_key d \<noteq> pc_connection_key c"
    and "tc_connection t = c"
  shows "mirrors (m(pc_connection_key c \<mapsto> t)) (seen @ [TcpEvent (Updated c)]) ahead"
  using assms unfolding mirrors_def by auto

lemma mirrors_seen_closed:
  assumes "mirrors m seen (TcpEvent (Closed k) # ahead)"
    and "\<forall>d. TcpEvent (Opened d) \<in> set ahead \<longrightarrow> pc_connection_key d \<noteq> k"
  shows "mirrors (m(k := None)) (seen @ [TcpEvent (Closed k)]) ahead"
  using assms unfolding mirrors_def by auto

lemma station_ok_append:
  assumes "station_ok (s, n)" and "table_ok s'" and "event_allowed (global_broadcast s) e"
    and "global_broadcast s' = global_broadcast s @ [e]" and "enable_global_traffic_inspection s'"
    and "case e of
           TcpEvent (Opened c) \<Rightarrow>
             (\<exists>now. monitored_connections s' = (monitored_connections s)(pc_connection_key c \<mapsto> TCPConnection_new now c))
         | _ \<Rightarrow> monitored_connections s' = monitored_connections s"
  shows "station_ok (s', n)"
proof -
  let ?es = "global_broadcast s"
  have ok: "n \<le> length ?es" "events_ok ?es" "mirrors (monitored_connections s) (take n ?es) (drop n ?es)"
    using assms(1) by (simp_all add: station_ok_def Let_def)
  then have lists: "take n (?es @ [e]) = take n ?es" "drop n (?es @ [e]) = drop n ?es @ [e]" by simp_all
  have seen: "events_ok (take n ?es)" using ok by (auto simp: events_ok_def min_def)
  have "mirrors (monitored_connections s') (take n ?es) (drop n ?es @ [e])"
  proof (cases "\<exists>c. e = TcpEvent (Opened c)")
    case False
    then have "monitored_connections s' = monitored_connections s"
      using assms(6) by (auto split: GlobalEvent.splits TCPEvent.splits)
    then show ?thesis using mirrors_append_other [OF ok(3)] False by simp
  next
    case True
    then obtain c now where e: "e = TcpEvent (Opened c)"
      and m: "monitored_connections s' = (monitored_connections s)(pc_connection_key c \<mapsto> TCPConnection_new now c)"
      using assms(6) by auto
    have "pc_connection_key c \<notin> set (opened_keys (take n ?es @ drop n ?es))" using assms(3) e by simp
    then have "pc_connection_key c \<notin> set (opened_keys (take n ?es))" "pc_connection_key c \<notin> set (opened_keys (drop n ?es))"
      unfolding opened_keys_append by simp_all
    then show ?thesis
      unfolding e m by (rule mirrors_append_opened [OF ok(3) seen]) (simp add: TCPConnection_new_def)
  qed
  then show ?thesis
    using ok assms(2,3,5) lists by (simp add: station_ok_def assms(4) events_ok_snoc)
qed

lemma station_ok_receive:
  assumes "station_ok (s, n)" and "n < length (global_broadcast s)" and "observe env now (global_broadcast s ! n) s = Some s'"
  shows "station_ok (s', Suc n)"
proof -
  let ?es = "global_broadcast s"
  let ?e = "?es ! n"
  have old: "enable_global_traffic_inspection s" "table_ok s" "events_ok ?es"
    "mirrors (monitored_connections s) (take n ?es) (drop n ?es)"
    using assms(1) by (simp_all add: station_ok_def Let_def)
  note keep = observe_keeps [OF assms(3)]
  have lists: "take (Suc n) ?es = take n ?es @ [?e]" "drop n ?es = ?e # drop (Suc n) ?es"
    using assms(2) by (simp_all add: take_Suc_conv_app_nth Cons_nth_drop_Suc)
  have allowed: "event_allowed (take n ?es) ?e" using old(3) assms(2) by (simp add: events_ok_def)
  have seen: "events_ok (take n ?es)" using old(3) by (auto simp: events_ok_def)
  have later: "\<forall>d. TcpEvent (Opened d) \<in> set (drop (Suc n) ?es) \<longrightarrow> pc_connection_key d \<noteq> k"
    if "replay (take n ?es) k \<noteq> None" for k
  proof (intro allI impI notI)
    fix d
    assume "TcpEvent (Opened d) \<in> set (drop (Suc n) ?es)" "pc_connection_key d = k"
    then have "k \<notin> set (opened_keys (take (Suc n) ?es))"
      using opened_later [OF old(3) assms(2)] by blast
    then have "k \<notin> set (opened_keys (take n ?es))"
      unfolding lists(1) opened_keys_append set_append by blast
    then have "replay (take n ?es) k = None" by (rule not_opened_not_replayed [OF seen])
    with that show False by (rule notE)
  qed
  have "mirrors (monitored_connections s') (take n ?es @ [?e]) (drop (Suc n) ?es)"
  proof (cases "(\<exists>c. ?e = TcpEvent (Updated c)) \<or> (\<exists>k. ?e = TcpEvent (Closed k))")
    case False
    then have "keeps_record s s'"
      using observe_keeps_record [OF assms(3) old(1)] by blast
    then show ?thesis
      using mirrors_seen_kept [OF old(4) [unfolded lists(2)]] False unfolding keeps_record_def by blast
  next
    case True
    then show ?thesis
    proof (elim disjE exE)
      fix k
      assume e: "?e = TcpEvent (Closed k)"
      then have "monitored_connections s' = (monitored_connections s)(k := None)"
        using assms(3) old(1) by (auto simp: observe_def)
      then show ?thesis
        using mirrors_seen_closed [OF old(4) [unfolded lists(2) e]] later [of k] allowed e by simp
    next
      fix c
      assume e: "?e = TcpEvent (Updated c)"
      let ?k = "pc_connection_key c"
      obtain t where t: "monitored_connections s' = (monitored_connections s)(?k \<mapsto> t)" "tc_connection t = c"
        using assms(3) old(1)
        by (cases "monitored_connections s ?k")
          (auto simp: e observe_def push_event_def update_connection_def TCPConnection_new_def)
      then show ?thesis
        using mirrors_seen_updated [OF old(4) [unfolded lists(2) e] _ t(2)] later [of ?k] allowed e by simp
    qed
  qed
  then show ?thesis
    using old keep assms(2) lists by (simp add: station_ok_def table_ok_def)
qed

lemma station_ok_step: "station_step env x y \<Longrightarrow> station_ok x \<Longrightarrow> station_ok y"
proof (induction rule: station_step.induct)
  case (program s s' n)
  have old: "table_ok s" "events_ok (global_broadcast s)" "enable_global_traffic_inspection s"
    using program.prems by (simp_all add: station_ok_def Let_def)
  consider "s' = s" | e where "global_broadcast s' = global_broadcast s @ [e]" "event_allowed (global_broadcast s) e"
      "enable_global_traffic_inspection s'"
      "case e of TcpEvent (Opened c) \<Rightarrow>
          (\<exists>now. monitored_connections s' = (monitored_connections s)(pc_connection_key c \<mapsto> TCPConnection_new now c))
        | _ \<Rightarrow> monitored_connections s' = monitored_connections s"
    using table_step_shape [OF program.hyps(1) old(1) program.hyps(2) old(2,3)] by blast
  then show ?case
  proof cases
    case 1
    then show ?thesis using program.prems by simp
  next
    case 2
    show ?thesis
      by (rule station_ok_append [OF program.prems table_ok_step [OF program.hyps(1) old(1)] 2(2) 2(1) 2(3) 2(4)])
  qed
next
  case (backend s n k d)
  then show ?case
    by (intro station_ok_append [OF backend.prems, where e = "SentHttpRequestToBackend k d"])
      (simp_all add: station_ok_def table_ok_def Let_def)
next
  case (backend_answer s n k d)
  then show ?case
    by (intro station_ok_append [OF backend_answer.prems, where e = "GotResponseFromBackend k d"])
      (simp_all add: station_ok_def table_ok_def Let_def)
next
  case (receive n s now s')
  show ?case by (rule station_ok_receive [OF receive.prems receive.hyps])
qed

definition station_start :: "'d MonitoringStation" where
  "station_start =
     \<lparr> active_connections = Map.empty, enable_global_traffic_inspection = True, monitored_connections = Map.empty,
       global_broadcast = [], h2_observers = Map.empty, h1_observers = Map.empty, wsb = [] \<rparr>"

lemma station_ok_reachable: "(station_step env)\<^sup>*\<^sup>* (station_start, 0) x \<Longrightarrow> station_ok x"
proof (induction rule: rtranclp_induct)
  case base
  show ?case
    by (simp add: station_ok_def station_start_def table_ok_def events_ok_def mirrors_def replay_def)
qed (rule station_ok_step)


section \<open>Traffic of one connection\<close>

definition traffic_of :: "TCPEvent \<Rightarrow> (ConnectionKey \<times> bytes) option" where
  "traffic_of e =
     (case e of
        RawBytesFromClientToOddBox k _ d \<Rightarrow> Some (k, d)
      | RawBytesFromOddBoxToClient k _ d \<Rightarrow> Some (k, d)
      | _ \<Rightarrow> None)"

definition adds_traffic ::
  "'d observer_env \<Rightarrow> ConnectionKey \<Rightarrow> bytes \<Rightarrow> TCPConnection \<Rightarrow> 'd MonitoringStation \<Rightarrow> 'd MonitoringStation \<Rightarrow> bool" where
  "adds_traffic env k data t s s' \<longleftrightarrow>
     (\<exists>ps t'. monitored_connections s' = (monitored_connections s)(k \<mapsto> t') \<and>
        tc_packets t' = tc_packets t @ ps \<and> wsb s' = wsb s @ map (packet_event env k) ps \<and>
        tc_bytes_rec t' + tc_bytes_sent t' = tc_bytes_rec t + tc_bytes_sent t + length data \<and>
        active_connections s' = active_connections s)"

lemma store_packets_adds:
  assumes "monitored_connections s k = Some t"
    and "monitored_connections s0 = monitored_connections s" and "wsb s0 = wsb s"
    and "active_connections s0 = active_connections s"
    and "tc_packets (f t) = tc_packets t"
    and "tc_bytes_rec (f t) + tc_bytes_sent (f t) = tc_bytes_rec t + tc_bytes_sent t + length data"
  shows "adds_traffic env k data t s (store_packets env k f ps s0)"
  unfolding adds_traffic_def
  by (rule exI [of _ ps], rule exI [of _ "(f t)\<lparr> tc_packets := tc_packets t @ ps \<rparr>"])
    (simp add: assms store_packets_def Let_def)

lemma push_h2_adds:
  assumes "monitored_connections s k = Some t"
  shows "adds_traffic env k data t s (push_h2_incoming env k data s)"
    "adds_traffic env k data t s (push_h2_outgoing env k data s)"
  unfolding push_h2_incoming_def push_h2_outgoing_def Let_def
  by (simp_all split: prod.split add: store_packets_adds [OF assms])

lemma push_h1_adds:
  assumes "monitored_connections s k = Some t"
  shows "push_h1_incoming env k data s = Some s' \<Longrightarrow> adds_traffic env k data t s s'"
    "push_h1_outgoing env k data s = Some s' \<Longrightarrow> adds_traffic env k data t s s'"
  unfolding push_h1_incoming_def push_h1_outgoing_def Let_def
  by (auto simp: bind_eq_Some_conv assms intro!: store_packets_adds [OF assms] split: if_splits)

text \<open>Bytes of a monitored connection, in either direction and of either protocol, append the
  decoded packets to its record and send the WebSocket clients exactly these packets, in order, and
  are counted once.\<close>

theorem packets_mirrored:
  assumes "observe env now (TcpEvent e) s = Some s'" and "enable_global_traffic_inspection s"
    and "traffic_of e = Some (k, data)" and "monitored_connections s k = Some t"
  shows "\<exists>ps t'. monitored_connections s' = (monitored_connections s)(k \<mapsto> t') \<and>
    tc_packets t' = tc_packets t @ ps \<and> wsb s' = wsb s @ map (packet_event env k) ps \<and>
    tc_bytes_rec t' + tc_bytes_sent t' = tc_bytes_rec t + tc_bytes_sent t + length data \<and>
    active_connections s' = active_connections s"
proof -
  have "adds_traffic env k data t s s'"
    using assms push_h2_adds [OF assms(4), of env data] push_h1_adds [OF assms(4), of env data s']
    by (auto simp: observe_def traffic_of_def push_event_def split: TCPEvent.splits if_splits)
  then show ?thesis unfolding adds_traffic_def .
qed

text \<open>No event removes an HTTP observer while inspection is on: the observers of closed
  connections stay in memory.\<close>

theorem parsers_outlive_connections:
  assumes "observe env now msg s = Some s'" and "enable_global_traffic_inspection s"
  shows "dom (h1_observers s) \<subseteq> dom (h1_observers s') \<and> dom (h2_observers s) \<subseteq> dom (h2_observers s')"
  using assms
  by (auto simp: observe_def observe_cases push_extra_def Let_def bind_eq_Some_conv
      split: if_splits GlobalEvent.splits TCPEvent.splits option.splits prod.splits)

text \<open>An update of a connection overwrites the gRPC and WebSocket marks that the observer has
  set, with what the proxy knows, which never sets them.\<close>

theorem protocol_marks_lost:
  assumes "observe env now (TcpEvent (Updated c)) s = Some s'" and "enable_global_traffic_inspection s"
  shows "active_connections s' = active_connections s \<and>
    (\<exists>t. monitored_connections s' (pc_connection_key c) = Some t \<and> pc_is_grpc (tc_connection t) = pc_is_grpc c \<and>
         pc_is_websocket (tc_connection t) = pc_is_websocket c)"
  using assms observe_keeps [OF assms(1)]
  by (auto simp: observe_def push_event_def update_connection_def TCPConnection_new_def split: option.splits)

definition env_sample :: "unit observer_env" where
  "env_sample =
     \<lparr> env_hpack = status_hpack, env_decoder = (), env_requests = (\<lambda>_. Partial), env_responses = (\<lambda>_. Partial),
       env_process = (\<lambda>_ _. None), env_debug = (\<lambda>_. []) \<rparr>"

definition station_sample :: "unit MonitoringStation" where
  "station_sample = add_or_update_connection (\<lambda>_ _ _ _. []) 0 (Some 7) (connection_sample 7) station_start"

lemma station_sample_fields [simp]:
  "enable_global_traffic_inspection station_sample"
  "\<exists>c. global_broadcast station_sample = [TcpEvent (Opened c)] \<and> pc_client_socket_address c = None"
  "\<exists>t. monitored_connections station_sample 7 = Some t"
  "\<exists>c. active_connections station_sample 7 = Some c"
  by (simp_all add: station_sample_def add_or_update_connection_def station_start_def connection_sample_def
      get_connection_type_def Let_def)

lemma station_sample_reachable: "(station_step env_sample)\<^sup>*\<^sup>* (station_start, 0) (station_sample, 1)"
proof -
  obtain c where c: "global_broadcast station_sample = [TcpEvent (Opened c)]" "pc_client_socket_address c = None"
    using station_sample_fields(2) by blast
  have "table_step station_start station_sample"
    unfolding station_sample_def by (rule track) (simp_all add: connection_sample_def fresh_connection_def)
  then have "station_step env_sample (station_start, 0) (station_sample, 0)"
    by (rule program) (simp add: c)
  moreover have "observe env_sample 0 (TcpEvent (Opened c)) station_sample = Some station_sample"
    using c by (simp add: observe_def push_event_def)
  then have "station_step env_sample (station_sample, 0) (station_sample, Suc 0)"
    by (intro receive [where now = 0]) (simp_all add: c)
  ultimately show ?thesis by simp
qed


lemma packets_mirrored_witness:
  "\<exists>s' t t'. observe env_sample 0 (TcpEvent (RawBytesFromClientToOddBox 7 False [71, 69])) station_sample = Some s' \<and>
     monitored_connections station_sample 7 = Some t \<and> monitored_connections s' 7 = Some t' \<and>
     tc_bytes_rec t' + tc_bytes_sent t' = tc_bytes_rec t + tc_bytes_sent t + 2"
proof -
  let ?e = "RawBytesFromClientToOddBox 7 False [71, 69]"
  obtain t where t: "monitored_connections station_sample 7 = Some t" using station_sample_fields(3) by blast
  have "\<exists>es ob. parse (env_requests env_sample) (env_responses env_sample) (push ClientToServer [71, 69] H1Observer_default) = Some (es, ob)"
    by (simp add: parse_def push_def H1Observer_default_def env_sample_def
        drain_with_stop [where e = IncompleteMessage] parse_http_request_def parse_http_response_def)
  moreover have "h1_observers station_sample 7 = None"
    by (simp add: station_sample_def add_or_update_connection_def station_start_def Let_def)
  ultimately obtain s' where s': "observe env_sample 0 (TcpEvent ?e) station_sample = Some s'"
    by (auto simp: observe_def push_event_def push_h1_incoming_def Let_def)
  have "traffic_of ?e = Some (7, [71, 69])" by (simp add: traffic_of_def)
  from packets_mirrored [OF s' _ this t] s' t show ?thesis by auto
qed

lemma parsers_outlive_connections_witness:
  "\<exists>s'. observe env_sample 0 (TcpEvent (Closed 7)) (station_sample\<lparr> h1_observers := [7 \<mapsto> H1Observer_default] \<rparr>) = Some s' \<and>
     monitored_connections s' 7 = None \<and> (7::u64) \<in> dom (h1_observers s')"
proof -
  let ?s = "station_sample\<lparr> h1_observers := [7 \<mapsto> H1Observer_default] \<rparr>"
  obtain s' where s': "observe env_sample 0 (TcpEvent (Closed 7)) ?s = Some s'" "monitored_connections s' 7 = None"
    by (simp add: observe_def)
  from parsers_outlive_connections [OF s'(1)] s' show ?thesis by auto
qed

lemma protocol_marks_lost_witness:
  "\<exists>s' t. observe env_sample 0 (TcpEvent (Updated (connection_sample 7))) station_sample = Some s' \<and>
     monitored_connections s' 7 = Some t \<and> pc_is_grpc (tc_connection t) = None"
proof -
  obtain s' where s': "observe env_sample 0 (TcpEvent (Updated (connection_sample 7))) station_sample = Some s'"
    by (cases "monitored_connections station_sample (pc_connection_key (connection_sample 7))")
      (auto simp: observe_def push_event_def)
  have k: "pc_connection_key (connection_sample 7) = 7" "pc_is_grpc (connection_sample 7) = None"
    by (simp_all add: connection_sample_def)
  from protocol_marks_lost [OF s'] s' show ?thesis unfolding k by auto
qed

end
