(* ===== verification/Managed_Stream.thy ===== *)
theory Managed_Stream
  imports Http1_Initial Client_Hello Connections
begin

text \<open>
  The wrapped TCP stream of a client, \<open>src/tcp_proxy/managed_stream.rs\<close>, with the result of a peek
  (\<open>src/tcp_proxy/tcp.rs\<close>): peeking into what the client sends without consuming it, sealing, and
  the reads and writes that follow. The TCP stream and the TLS session under it belong to tokio and
  rustls: their state is a type parameter and their calls are the fields of \<open>transport\<close>. Sleeping
  changes nothing here. The strings pushed to \<open>events\<close> are not modelled, nor are the fields the code
  never reads (\<open>h1_in\<close>, \<open>h1_out\<close>, \<open>is_websocket\<close>).
\<close>

section \<open>Data\<close>

datatype DataType = TLS | ClearText

record PeekResult =
  pk_typ :: DataType
  pk_http_version :: "http_version option"
  pk_target_host :: "string option"
  pk_is_h2c_upgrade :: bool
  pk_sni :: "string option"
  pk_host_header :: "string option"

text \<open>The messages of \<open>PeekError::Unknown\<close>.\<close>

datatype peek_failure = PeekIoError | InvalidClientHello | NothingUseful

datatype PeekError = StreamIsClosed | UnknownPeek peek_failure | H2PriorKnowledgeNeedsToBeTerminated

record ('s, 'd) ManagedStream =
  ms_enable_inspection :: bool
  ms_stream :: 's
  ms_buffer :: bytes
  ms_sealed :: bool
  ms_h2_observer :: "'d H2Observer"
  ms_tcp_connection_id :: ConnectionKey
  ms_is_tls :: bool
  ms_is_http2 :: bool
  ms_is_tls_terminated :: bool
  ms_is_http_terminated :: bool
  ms_is_wrapped :: bool
  ms_http_version :: "http_version option"
  ms_contains_h2c_upgrade_header :: bool
  ms_peek_result :: "PeekResult option"

text \<open>A TLS stream owns the stream it was accepted from: its state is a session and that stream.\<close>

datatype ('s, 't, 'd) GenericManagedStream =
    TCP "('s, 'd) ManagedStream"
  | TerminatedTLS "('t \<times> ('s, 'd) ManagedStream, 'd) ManagedStream"

section \<open>The calls of the transport\<close>

datatype poll = Ready | Pending | Failed

datatype try_read = ReadSome bytes | WouldBlock | ReadFailed

record ('s, 't, 'd) transport =
  tp_take_error :: "'s \<Rightarrow> bool \<times> 's"
  tp_try_read :: "'s \<Rightarrow> try_read \<times> 's"
  tp_tls_read :: "nat \<Rightarrow> 't \<times> ('s, 'd) ManagedStream \<Rightarrow> poll \<times> bytes \<times> ('t \<times> ('s, 'd) ManagedStream)"
  tp_server_name :: "'t \<Rightarrow> string option"
  tp_hpack :: "'d hpack"

section \<open>Making a stream\<close>

definition from_tcp_stream :: "ConnectionKey \<Rightarrow> 'd \<Rightarrow> 's \<Rightarrow> ('s, 'd) ManagedStream" where
  "from_tcp_stream connection_id decoder stream =
     \<lparr> ms_enable_inspection = False, ms_stream = stream, ms_buffer = [], ms_sealed = False,
       ms_h2_observer = H2Observer_new decoder, ms_tcp_connection_id = connection_id, ms_is_tls = False,
       ms_is_http2 = False, ms_is_tls_terminated = False, ms_is_http_terminated = False,
       ms_is_wrapped = False, ms_http_version = None, ms_contains_h2c_upgrade_header = False,
       ms_peek_result = None \<rparr>"

definition from_tls_stream ::
  "'d \<Rightarrow> 't \<times> ('s, 'd) ManagedStream \<Rightarrow> ('t \<times> ('s, 'd) ManagedStream, 'd) ManagedStream" where
  "from_tls_stream decoder stream =
     (let (session, inner) = stream; inner = inner\<lparr> ms_is_wrapped := True, ms_is_tls := True \<rparr> in
      \<lparr> ms_enable_inspection = False, ms_stream = (session, inner), ms_buffer = [],
        ms_sealed = ms_sealed inner, ms_h2_observer = H2Observer_new decoder,
        ms_tcp_connection_id = ms_tcp_connection_id inner, ms_is_tls = True, ms_is_http2 = False,
        ms_is_tls_terminated = True, ms_is_http_terminated = False, ms_is_wrapped = False,
        ms_http_version = None, ms_contains_h2c_upgrade_header = False, ms_peek_result = None \<rparr>)"

definition from_terminated_tls_stream ::
  "('t \<times> ('s, 'd) ManagedStream, 'd) ManagedStream \<Rightarrow> ('s, 't, 'd) GenericManagedStream" where
  "from_terminated_tls_stream st =
     (let (session, inner) = ms_stream st in
      TerminatedTLS (st\<lparr> ms_sealed := False, ms_is_tls_terminated := True, ms_is_tls := True,
                         ms_stream := (session, inner\<lparr> ms_is_wrapped := True, ms_is_tls := True \<rparr>) \<rparr>))"

section \<open>Marks\<close>

definition on_stream ::
  "(('s, 'd) ManagedStream \<Rightarrow> 'r) \<Rightarrow> (('t \<times> ('s, 'd) ManagedStream, 'd) ManagedStream \<Rightarrow> 'r) \<Rightarrow>
   ('s, 't, 'd) GenericManagedStream \<Rightarrow> 'r" where
  "on_stream f h g = (case g of TCP st \<Rightarrow> f st | TerminatedTLS st \<Rightarrow> h st)"

definition get_id :: "('s, 't, 'd) GenericManagedStream \<Rightarrow> ConnectionKey" where
  "get_id g = on_stream ms_tcp_connection_id ms_tcp_connection_id g"

definition peek_stored_result :: "('s, 't, 'd) GenericManagedStream \<Rightarrow> PeekResult option" where
  "peek_stored_result g = on_stream ms_peek_result ms_peek_result g"

definition save_peek_result :: "PeekResult \<Rightarrow> ('s, 't, 'd) GenericManagedStream \<Rightarrow> ('s, 't, 'd) GenericManagedStream" where
  "save_peek_result r g =
     on_stream
       (\<lambda>st. TCP (st\<lparr> ms_is_http2 := ms_is_http2 st \<or> pk_http_version r = Some HTTP_2, ms_peek_result := Some r \<rparr>))
       (\<lambda>st. TerminatedTLS (st\<lparr> ms_is_http2 := ms_is_http2 st \<or> pk_http_version r = Some HTTP_2,
                                ms_peek_result := Some r \<rparr>)) g"

definition mark_as_http2 :: "('s, 't, 'd) GenericManagedStream \<Rightarrow> ('s, 't, 'd) GenericManagedStream" where
  "mark_as_http2 g =
     on_stream (\<lambda>st. TCP (st\<lparr> ms_is_http2 := True \<rparr>)) (\<lambda>st. TerminatedTLS (st\<lparr> ms_is_http2 := True \<rparr>)) g"

definition mark_as_tls :: "('s, 't, 'd) GenericManagedStream \<Rightarrow> ('s, 't, 'd) GenericManagedStream" where
  "mark_as_tls g =
     on_stream (\<lambda>st. TCP (st\<lparr> ms_is_tls := True \<rparr>)) (\<lambda>st. TerminatedTLS (st\<lparr> ms_is_tls := True \<rparr>)) g"

text \<open>\<open>seal\<close> also seals the stream inside.\<close>

definition seal :: "('s, 't, 'd) GenericManagedStream \<Rightarrow> ('s, 't, 'd) GenericManagedStream" where
  "seal g =
     on_stream
       (\<lambda>st. TCP (st\<lparr> ms_sealed := True \<rparr>))
       (\<lambda>st. let (session, inner) = ms_stream st in
             TerminatedTLS (st\<lparr> ms_sealed := True, ms_stream := (session, inner\<lparr> ms_sealed := True \<rparr>) \<rparr>)) g"

definition enable_observe :: "('s, 't, 'd) GenericManagedStream \<Rightarrow> ('s, 't, 'd) GenericManagedStream" where
  "enable_observe g =
     on_stream
       (\<lambda>st. if ms_is_wrapped st then TCP st else TCP (st\<lparr> ms_enable_inspection := True \<rparr>))
       (\<lambda>st. if ms_is_tls_terminated st then
               (let (session, inner) = ms_stream st in
                TerminatedTLS (st\<lparr> ms_enable_inspection := True,
                                   ms_stream := (session, inner\<lparr> ms_enable_inspection := False \<rparr>) \<rparr>))
             else TerminatedTLS st) g"

text \<open>\<open>update_tracked_info\<close> copies the marks of the stream before the closure runs.\<close>

definition update_tracked_info ::
  "('s, 't, 'd) GenericManagedStream \<Rightarrow> (ProxyActiveTCPConnection \<Rightarrow> ProxyActiveTCPConnection) \<Rightarrow>
   'a ConnectionTable_scheme \<Rightarrow> 'a ConnectionTable_scheme" where
  "update_tracked_info g f table =
     mutate_tracked_connection (get_id g)
       (\<lambda>x. f (on_stream
                 (\<lambda>st. x\<lparr> pc_incoming_connection_uses_tls := ms_is_tls st,
                           pc_tls_terminated := ms_is_tls_terminated st,
                           pc_http_terminated := ms_is_http_terminated st \<rparr>)
                 (\<lambda>st. x\<lparr> pc_incoming_connection_uses_tls := ms_is_tls st,
                           pc_tls_terminated := ms_is_tls_terminated st,
                           pc_http_terminated := ms_is_http_terminated st \<rparr>) g)) table"

text \<open>
  \<open>track\<close>, with the addresses the socket reports (\<open>None\<close> when the call fails). Only a plain stream
  carries the server name of its peek along.
\<close>

definition track ::
  "(bool \<Rightarrow> bool \<Rightarrow> bool \<Rightarrow> OutgoingTunnelType option \<Rightarrow> string) \<Rightarrow> nat \<Rightarrow> string option \<Rightarrow> string option \<Rightarrow>
   ('s, 't, 'd) GenericManagedStream \<Rightarrow> 'a ConnectionTable_scheme \<Rightarrow> 'a ConnectionTable_scheme" where
  "track dbg now peer_addr local_addr g table =
     (let sni = on_stream (\<lambda>st. case peek_stored_result g of Some v \<Rightarrow> pk_sni v | None \<Rightarrow> None) (\<lambda>st. None) g in
      add_or_update_connection dbg now (Some (get_id g))
        \<lparr> pc_incoming_sni = sni, pc_client_socket_address = peer_addr, pc_odd_box_socket = local_addr,
          pc_connection_key = get_id g, pc_client_addr_string = unwrap_or peer_addr ''???'',
          pc_incoming_connection_uses_tls = on_stream ms_is_tls (\<lambda>_. True) g,
          pc_tls_terminated = on_stream ms_is_tls_terminated (\<lambda>_. True) g,
          pc_http_terminated = on_stream ms_is_http_terminated ms_is_http_terminated g,
          pc_version = 1, pc_resolved_connection_type = None, pc_resolved_connection_type_description = None,
          pc_is_grpc = None, pc_http_version = None, pc_is_websocket = None, pc_outgoing_tunnel_type = None \<rparr> table)"

section \<open>Peeking\<close>

text \<open>\<open>peek_async\<close>: \<open>None\<close> is its error, otherwise whether the stream is closed, and all that was buffered.\<close>

definition peek_tcp ::
  "('s, 't, 'd) transport \<Rightarrow> ('s, 'd) ManagedStream \<Rightarrow> (bool \<times> bytes) option \<times> ('s, 'd) ManagedStream" where
  "peek_tcp tp st =
     (if ms_sealed st then (None, st)
      else
        (let (err, s) = tp_take_error tp (ms_stream st); st = st\<lparr> ms_stream := s \<rparr> in
         if err then (None, st)
         else
           (let (r, s) = tp_try_read tp (ms_stream st); st = st\<lparr> ms_stream := s \<rparr> in
            case r of
              ReadSome bs \<Rightarrow>
                if bs = [] then (Some (True, ms_buffer st), st)
                else
                  (let st = st\<lparr> ms_buffer := ms_buffer st @ bs \<rparr> in (Some (False, ms_buffer st), st))
            | WouldBlock \<Rightarrow> (Some (False, ms_buffer st), st)
            | ReadFailed \<Rightarrow> (None, st))))"

definition peek_tls ::
  "('s, 't, 'd) transport \<Rightarrow> ('t \<times> ('s, 'd) ManagedStream, 'd) ManagedStream \<Rightarrow>
   (bool \<times> bytes) option \<times> ('t \<times> ('s, 'd) ManagedStream, 'd) ManagedStream" where
  "peek_tls tp st =
     (if ms_sealed st then (None, st)
      else
        (let (session, inner) = ms_stream st;
             (err, s) = tp_take_error tp (ms_stream inner);
             st = st\<lparr> ms_stream := (session, inner\<lparr> ms_stream := s \<rparr>) \<rparr> in
         if err then (None, st)
         else
           (let (r, bs, s) = tp_tls_read tp 1024 (ms_stream st); st = st\<lparr> ms_stream := s \<rparr> in
            case r of
              Pending \<Rightarrow> (Some (False, ms_buffer st), st)
            | Failed \<Rightarrow> (None, st)
            | Ready \<Rightarrow>
                if bs = [] then (Some (True, ms_buffer st), st)
                else
                  (let st = st\<lparr> ms_buffer := ms_buffer st @ bs \<rparr> in (Some (False, ms_buffer st), st)))))"

definition peek_async ::
  "('s, 't, 'd) transport \<Rightarrow> ('s, 't, 'd) GenericManagedStream \<Rightarrow>
   (bool \<times> bytes) option \<times> ('s, 't, 'd) GenericManagedStream" where
  "peek_async tp g =
     on_stream (\<lambda>st. let (r, st) = peek_tcp tp st in (r, TCP st))
               (\<lambda>st. let (r, st) = peek_tls tp st in (r, TerminatedTLS st)) g"

text \<open>One turn of the loop of \<open>peek_managed_stream\<close>: the answer, or by how much \<open>attempts\<close> grows.\<close>

datatype peek_turn = Answer "PeekError + PeekResult" | Again nat

definition sni_seen ::
  "('s, 't, 'd) GenericManagedStream \<Rightarrow> string \<Rightarrow> 'a ConnectionTable_scheme \<Rightarrow> 'a ConnectionTable_scheme" where
  "sni_seen g host table = update_tracked_info g (\<lambda>x. x\<lparr> pc_incoming_sni := Some host \<rparr>) table"

definition peek_hello ::
  "bytes \<Rightarrow> ('s, 't, 'd) GenericManagedStream \<Rightarrow> 'a ConnectionTable_scheme \<Rightarrow>
   (peek_turn \<times> ('s, 't, 'd) GenericManagedStream \<times> 'a ConnectionTable_scheme) run" where
  "peek_hello buf g table =
     (let g = mark_as_tls g in
      case try_from buf of
        None \<Rightarrow> None
      | Some (Inr hello) \<Rightarrow>
          (case read_sni_hostname hello of
             None \<Rightarrow> None
           | Some (Inr v) \<Rightarrow>
               Some (Answer (Inr \<lparr> pk_typ = TLS, pk_http_version = None, pk_target_host = Some v,
                                   pk_is_h2c_upgrade = False, pk_sni = Some v, pk_host_header = None \<rparr>),
                     g, sni_seen g v table)
           | Some (Inl _) \<Rightarrow> Some (Again 1, g, table))
      | Some (Inl (MessageIncomplete _)) \<Rightarrow> Some (Again 0, g, table)
      | Some (Inl _) \<Rightarrow> Some (Answer (Inl (UnknownPeek InvalidClientHello)), g, table))"

definition set_http_version ::
  "http_version \<Rightarrow> ('s, 't, 'd) GenericManagedStream \<Rightarrow> ('s, 't, 'd) GenericManagedStream" where
  "set_http_version v g =
     on_stream (\<lambda>st. TCP (st\<lparr> ms_http_version := Some v \<rparr>)) (\<lambda>st. TerminatedTLS (st\<lparr> ms_http_version := Some v \<rparr>)) g"

definition set_h2c_header :: "bool \<Rightarrow> ('s, 't, 'd) GenericManagedStream \<Rightarrow> ('s, 't, 'd) GenericManagedStream" where
  "set_h2c_header b g =
     on_stream (\<lambda>st. TCP (st\<lparr> ms_contains_h2c_upgrade_header := b \<rparr>))
               (\<lambda>st. TerminatedTLS (st\<lparr> ms_contains_h2c_upgrade_header := b \<rparr>)) g"

definition h2_observer_of :: "('s, 't, 'd) GenericManagedStream \<Rightarrow> 'd H2Observer" where
  "h2_observer_of g = on_stream ms_h2_observer ms_h2_observer g"

definition set_h2_observer :: "'d H2Observer \<Rightarrow> ('s, 't, 'd) GenericManagedStream \<Rightarrow> ('s, 't, 'd) GenericManagedStream" where
  "set_h2_observer ob g =
     on_stream (\<lambda>st. TCP (st\<lparr> ms_h2_observer := ob \<rparr>)) (\<lambda>st. TerminatedTLS (st\<lparr> ms_h2_observer := ob \<rparr>)) g"

definition request_host :: "H2Event \<Rightarrow> string option" where
  "request_host frame =
     (case frame of
        IncomingRequest rq \<Rightarrow>
          (case rq_headers rq '':authority'' of Some host \<Rightarrow> Some host | None \<Rightarrow> rq_headers rq ''Host'')
      | _ \<Rightarrow> None)"

fun first_host :: "H2Event list \<Rightarrow> string option" where
  "first_host [] = None"
| "first_host (frame # frames) = (case request_host frame of Some host \<Rightarrow> Some host | None \<Rightarrow> first_host frames)"

text \<open>The HTTP/2 branch writes all that was buffered into the observer, on every turn.\<close>

definition peek_http2 ::
  "('s, 't, 'd) transport \<Rightarrow> bytes \<Rightarrow> ('s, 't, 'd) GenericManagedStream \<Rightarrow> 'a ConnectionTable_scheme \<Rightarrow>
   peek_turn \<times> ('s, 't, 'd) GenericManagedStream \<times> 'a ConnectionTable_scheme" where
  "peek_http2 tp buf g table =
     (let g = set_http_version HTTP_2 (mark_as_http2 g);
          (frames, ob) = get_all_events (tp_hpack tp) (write_incoming (h2_observer_of g) buf);
          g = set_h2_observer ob g in
      if length frames < 2 then (Again 1, g, table)
      else
        (case first_host frames of
           Some host \<Rightarrow>
             (Answer (Inr \<lparr> pk_typ = ClearText, pk_http_version = Some HTTP_2, pk_target_host = Some host,
                            pk_is_h2c_upgrade = False, pk_sni = None, pk_host_header = Some host \<rparr>),
              g, sni_seen g host table)
         | None \<Rightarrow>
             (case g of
                TerminatedTLS st \<Rightarrow>
                  (let sni = tp_server_name tp (fst (ms_stream st)) in
                   (Answer (Inr \<lparr> pk_typ = ClearText, pk_http_version = Some HTTP_2, pk_target_host = sni,
                                  pk_is_h2c_upgrade = False, pk_sni = sni, pk_host_header = None \<rparr>), g, table))
              | TCP _ \<Rightarrow> (Answer (Inl H2PriorKnowledgeNeedsToBeTerminated), g, table))))"

definition peek_cleartext ::
  "('s, 't, 'd) transport \<Rightarrow> bytes \<Rightarrow> ('s, 't, 'd) GenericManagedStream \<Rightarrow> 'a ConnectionTable_scheme \<Rightarrow>
   peek_turn \<times> ('s, 't, 'd) GenericManagedStream \<times> 'a ConnectionTable_scheme" where
  "peek_cleartext tp buf g table =
     (let g = enable_observe g in
      case is_valid_http_request buf of
        Inr version \<Rightarrow>
          (case try_decode_http_host_and_h2c buf of
             Inr r \<Rightarrow>
               (Answer (Inr \<lparr> pk_typ = ClearText, pk_http_version = Some version, pk_target_host = Some (hr_host r),
                              pk_is_h2c_upgrade = is_h2c_upgrade r, pk_sni = None,
                              pk_host_header = Some (hr_host r) \<rparr>),
                set_h2c_header (is_h2c_upgrade r) (set_http_version version g), table)
           | Inl _ \<Rightarrow> (Again 1, g, table))
      | Inl _ \<Rightarrow> if is_valid_http2_request buf then peek_http2 tp buf g table else (Again 1, g, table))"

definition peek_turn_of ::
  "('s, 't, 'd) transport \<Rightarrow> ('s, 't, 'd) GenericManagedStream \<Rightarrow> 'a ConnectionTable_scheme \<Rightarrow>
   (peek_turn \<times> ('s, 't, 'd) GenericManagedStream \<times> 'a ConnectionTable_scheme) run" where
  "peek_turn_of tp g table =
     (let (r, g) = peek_async tp g in
      case r of
        None \<Rightarrow> Some (Answer (Inl (UnknownPeek PeekIoError)), g, table)
      | Some (tcp_stream_closed, buf) \<Rightarrow>
          if tcp_stream_closed then Some (Answer (Inl StreamIsClosed), g, table)
          else
            (case buf of
               [] \<Rightarrow> Some (Again 1, g, table)
             | b # _ \<Rightarrow>
                 if b = 0x16 then peek_hello buf g table else Some (peek_cleartext tp buf g table)))"

text \<open>\<open>None\<close>: the loop never ends.\<close>

partial_function (option) peek_loop ::
  "('s, 't, 'd) transport \<Rightarrow> nat \<Rightarrow> ('s, 't, 'd) GenericManagedStream \<Rightarrow> 'a ConnectionTable_scheme \<Rightarrow>
   ((PeekError + PeekResult) \<times> ('s, 't, 'd) GenericManagedStream \<times> 'a ConnectionTable_scheme) option" where
  "peek_loop tp attempts g table =
     (if 4 < attempts then Some (Inl (UnknownPeek NothingUseful), g, table)
      else
        (case peek_turn_of tp g table of
           None \<Rightarrow> None
         | Some (Answer r, g, table) \<Rightarrow> Some (r, g, table)
         | Some (Again n, g, table) \<Rightarrow> peek_loop tp (attempts + n) g table))"

definition peek_managed_stream ::
  "('s, 't, 'd) transport \<Rightarrow> ('s, 't, 'd) GenericManagedStream \<Rightarrow> 'a ConnectionTable_scheme \<Rightarrow>
   ((PeekError + PeekResult) \<times> ('s, 't, 'd) GenericManagedStream \<times> 'a ConnectionTable_scheme) option" where
  "peek_managed_stream tp g table = peek_loop tp 0 g table"

section \<open>Reading and writing\<close>

record ReadBuf =
  rb_filled :: bytes
  rb_capacity :: nat

definition remaining :: "ReadBuf \<Rightarrow> nat" where
  "remaining b = rb_capacity b - length (rb_filled b)"

definition put_slice :: "bytes \<Rightarrow> ReadBuf \<Rightarrow> ReadBuf" where
  "put_slice bs b = b\<lparr> rb_filled := rb_filled b @ bs \<rparr>"

datatype read_outcome = ReadReady | ReadPending | ReadNotSealed | ReadError

definition outcome_of :: "poll \<Rightarrow> read_outcome" where
  "outcome_of r = (case r of Ready \<Rightarrow> ReadReady | Pending \<Rightarrow> ReadPending | Failed \<Rightarrow> ReadError)"

text \<open>What is sent to the global channel about the bytes handed to the reader.\<close>

definition read_event :: "('s, 'd) ManagedStream \<Rightarrow> ReadBuf \<Rightarrow> TCPEvent list" where
  "read_event st b =
     (if ms_enable_inspection st \<and> \<not> ms_is_wrapped st \<and> rb_filled b \<noteq> [] then
        [RawBytesFromClientToOddBox (ms_tcp_connection_id st) (ms_is_http2 st) (rb_filled b)]
      else [])"

definition poll_read ::
  "(nat \<Rightarrow> 's \<Rightarrow> poll \<times> bytes \<times> 's) \<Rightarrow> ReadBuf \<Rightarrow> ('s, 'd) ManagedStream \<Rightarrow>
   read_outcome \<times> ReadBuf \<times> ('s, 'd) ManagedStream \<times> TCPEvent list" where
  "poll_read io buf st =
     (if \<not> ms_sealed st then (ReadNotSealed, buf, st, [])
      else if ms_buffer st = [] then
        (let (r, bs, s) = io (remaining buf) (ms_stream st);
             buf = put_slice bs buf; st = st\<lparr> ms_stream := s \<rparr>
         in (outcome_of r, buf, st, if r = Ready then read_event st buf else []))
      else
        (let to_read = min (remaining buf) (length (ms_buffer st));
             buf = put_slice (take to_read (ms_buffer st)) buf;
             st = st\<lparr> ms_buffer := drop to_read (ms_buffer st) \<rparr> in
         if remaining buf = 0 then (ReadReady, buf, st, read_event st buf)
         else
           (let (r, bs, s) = io (remaining buf) (ms_stream st);
                buf = put_slice bs buf; st = st\<lparr> ms_stream := s \<rparr> in
            case r of
              Ready \<Rightarrow> (ReadReady, buf, st, read_event st buf)
            | _ \<Rightarrow> if rb_filled buf = [] then (outcome_of r, buf, st, []) else (ReadReady, buf, st, read_event st buf))))"

datatype write_outcome = Wrote nat | WritePending | WriteError

text \<open>\<open>poll_write\<close> reports the whole of \<open>buf\<close>, however much of it the stream took.\<close>

definition poll_write ::
  "(bytes \<Rightarrow> 's \<Rightarrow> write_outcome \<times> 's) \<Rightarrow> bytes \<Rightarrow> ('s, 'd) ManagedStream \<Rightarrow>
   write_outcome \<times> ('s, 'd) ManagedStream \<times> TCPEvent list" where
  "poll_write io buf st =
     (let (r, s) = io buf (ms_stream st); st = st\<lparr> ms_stream := s \<rparr> in
      case r of
        Wrote n \<Rightarrow>
          (r, st,
           if ms_enable_inspection st \<and> \<not> ms_is_wrapped st \<and> buf \<noteq> [] then
             [RawBytesFromOddBoxToClient (ms_tcp_connection_id st) (ms_is_http2 st) buf]
           else [])
      | _ \<Rightarrow> (r, st, []))"

section \<open>No byte is lost\<close>

text \<open>
  The transport as a source of bytes: \<open>log\<close> is what it has delivered so far. \<open>try_read\<close> and
  \<open>poll_read\<close> deliver what they return, in order, never more than there is room for, and nothing when
  they answer that there is nothing or that the read failed; asking for an error delivers nothing.
\<close>

definition source_law :: "('s, 't, 'd) transport \<Rightarrow> (nat \<Rightarrow> 's \<Rightarrow> poll \<times> bytes \<times> 's) \<Rightarrow> ('s \<Rightarrow> bytes) \<Rightarrow> bool" where
  "source_law tp io log \<longleftrightarrow>
     (\<forall>s e s'. tp_take_error tp s = (e, s') \<longrightarrow> log s' = log s) \<and>
     (\<forall>s bs s'. tp_try_read tp s = (ReadSome bs, s') \<longrightarrow> log s' = log s @ bs) \<and>
     (\<forall>s r s'. tp_try_read tp s = (r, s') \<longrightarrow> r = WouldBlock \<or> r = ReadFailed \<longrightarrow> log s' = log s) \<and>
     (\<forall>n s r bs s'. io n s = (r, bs, s') \<longrightarrow> log s' = log s @ bs \<and> length bs \<le> n \<and> (r \<noteq> Ready \<longrightarrow> bs = []))"

text \<open>A plain stream from which nothing has been read: all that came in is in the buffer.\<close>

definition unread_tcp :: "('s \<Rightarrow> bytes) \<Rightarrow> ('s, 't, 'd) GenericManagedStream \<Rightarrow> bool" where
  "unread_tcp log g \<longleftrightarrow> (\<exists>st. g = TCP st \<and> log (ms_stream st) = ms_buffer st)"

lemma unread_marks [simp]:
  "unread_tcp log (mark_as_tls g) \<longleftrightarrow> unread_tcp log g"
  "unread_tcp log (mark_as_http2 g) \<longleftrightarrow> unread_tcp log g"
  "unread_tcp log (set_http_version v g) \<longleftrightarrow> unread_tcp log g"
  "unread_tcp log (set_h2c_header b g) \<longleftrightarrow> unread_tcp log g"
  "unread_tcp log (set_h2_observer ob g) \<longleftrightarrow> unread_tcp log g"
  "unread_tcp log (enable_observe g) \<longleftrightarrow> unread_tcp log g"
  "unread_tcp log (seal g) \<longleftrightarrow> unread_tcp log g"
  "unread_tcp log (save_peek_result r g) \<longleftrightarrow> unread_tcp log g"
  by (cases g; auto simp: unread_tcp_def mark_as_tls_def mark_as_http2_def set_http_version_def set_h2c_header_def
      set_h2_observer_def enable_observe_def seal_def save_peek_result_def on_stream_def split: prod.splits)+

lemma peek_async_unread:
  assumes "source_law tp io log" and "unread_tcp log g" and "peek_async tp g = (r, g')"
  shows "unread_tcp log g' \<and> (\<forall>closed buf. r = Some (closed, buf) \<longrightarrow> (\<exists>st. g' = TCP st \<and> buf = ms_buffer st))"
proof -
  obtain st where g: "g = TCP st" "log (ms_stream st) = ms_buffer st"
    using assms(2) by (auto simp: unread_tcp_def)
  show ?thesis
    using assms(1,3) g
    by (auto simp: peek_async_def on_stream_def peek_tcp_def unread_tcp_def source_law_def Let_def
        split: prod.splits if_splits try_read.splits)
qed

lemma peek_turn_unread:
  assumes "source_law tp io log" and "unread_tcp log g" and "peek_turn_of tp g table = Some (r, g', table')"
  shows "unread_tcp log g'"
proof -
  obtain a g1 where a: "peek_async tp g = (a, g1)" by fastforce
  note u = peek_async_unread [OF assms(1,2) a]
  show ?thesis
    using assms(3) u
    by (auto simp: peek_turn_of_def a peek_hello_def peek_cleartext_def peek_http2_def Let_def
        split: option.splits if_splits list.splits sum.splits prod.splits TlsClientHelloError.splits
          GenericManagedStream.splits)
qed

lemma peek_loop_induct:
  assumes "peek_loop tp a g table = Some (r, g', table')"
    and "\<And>a g table. 4 < a \<Longrightarrow> P a g table (Inl (UnknownPeek NothingUseful), g, table)"
    and "\<And>a g table r g' table'. a \<le> 4 \<Longrightarrow> peek_turn_of tp g table = Some (Answer r, g', table') \<Longrightarrow> P a g table (r, g', table')"
    and "\<And>a g table n g' table' x. a \<le> 4 \<Longrightarrow> peek_turn_of tp g table = Some (Again n, g', table') \<Longrightarrow>
           P (a + n) g' table' x \<Longrightarrow> P a g table x"
  shows "P a g table (r, g', table')"
proof -
  have "tp = tp \<longrightarrow> P a g table (r, g', table')"
  proof (rule peek_loop.raw_induct [where P = "\<lambda>tp' a g table x. tp' = tp \<longrightarrow> P a g table x", OF _ assms(1)], intro impI)
    fix loop tp' a g table x
    assume IH: "\<And>tp' a g table x. loop tp' a g table = Some x \<Longrightarrow> tp' = tp \<longrightarrow> P a g table x"
      and eq: "(if 4 < a then Some (Inl (UnknownPeek NothingUseful), g, table)
        else case peek_turn_of tp' g table of
           None \<Rightarrow> None
         | Some (Answer r, g, table) \<Rightarrow> Some (r, g, table)
         | Some (Again n, g, table) \<Rightarrow> loop tp' (a + n) g table) = Some x"
      and tp: "tp' = tp"
    show "P a g table x"
    proof (cases "4 < a")
      case True
      with eq assms(2) show ?thesis by auto
    next
      case False
      with eq tp obtain t g1 table1 where t: "peek_turn_of tp g table = Some (t, g1, table1)"
        by (auto split: option.splits)
      show ?thesis
        using assms(3,4) IH [of tp] eq tp t False by (cases t) auto
    qed
  qed
  then show ?thesis by simp
qed

lemma peek_loop_unread:
  assumes "source_law tp io log" and "peek_loop tp a g table = Some (r, g', table')" and "unread_tcp log g"
  shows "unread_tcp log g'"
proof -
  have "unread_tcp log g \<longrightarrow> unread_tcp log (fst (snd (r, g', table')))"
    by (rule peek_loop_induct [OF assms(2)]) (auto dest: peek_turn_unread [OF assms(1)])
  with assms(3) show ?thesis by simp
qed

text \<open>Reads one after the other, each into an empty buffer of the given size.\<close>

fun reads ::
  "(nat \<Rightarrow> 's \<Rightarrow> poll \<times> bytes \<times> 's) \<Rightarrow> nat list \<Rightarrow> ('s, 'd) ManagedStream \<Rightarrow>
   bytes \<times> ('s, 'd) ManagedStream \<times> TCPEvent list" where
  "reads io [] st = ([], st, [])"
| "reads io (n # ns) st =
     (let (_, buf, st, es) = poll_read io \<lparr> rb_filled = [], rb_capacity = n \<rparr> st;
          (bs, st, es') = reads io ns st
      in (rb_filled buf @ bs, st, es @ es'))"

lemma poll_read_step:
  assumes "source_law tp io log" and "poll_read io \<lparr> rb_filled = [], rb_capacity = n \<rparr> st = (r, buf, st', es)"
    and "log (ms_stream st) = done @ ms_buffer st"
  shows "log (ms_stream st') = (done @ rb_filled buf) @ ms_buffer st' \<and> length (rb_filled buf) \<le> n \<and>
    (r \<noteq> ReadReady \<longrightarrow> rb_filled buf = [])"
proof -
  have io: "io k s = (q, bs, s') \<Longrightarrow> log s' = log s @ bs \<and> length bs \<le> k \<and> (q \<noteq> Ready \<longrightarrow> bs = [])" for k s q bs s'
    using assms(1) by (simp add: source_law_def)
  obtain q1 bs1 s1 where io1: "io n (ms_stream st) = (q1, bs1, s1)" by (metis prod.exhaust)
  define k where "k = length (ms_buffer st)"
  obtain q2 bs2 s2 where io2: "io (n - k) (ms_stream st) = (q2, bs2, s2)" by (metis prod.exhaust)
  show ?thesis
    using assms(2,3) io [OF io1] io [OF io2] io1 io2
    by (auto simp: poll_read_def remaining_def put_slice_def outcome_of_def Let_def k_def min_def
        split: if_splits poll.splits)
qed

lemma reads_log:
  assumes "source_law tp io log"
  shows "log (ms_stream st) = done @ ms_buffer st \<Longrightarrow> reads io ns st = (bs, st', es) \<Longrightarrow>
    log (ms_stream st') = (done @ bs) @ ms_buffer st'"
proof (induction ns arbitrary: st "done" bs st' es)
  case Nil
  then show ?case by simp
next
  case (Cons n ns)
  obtain r buf st1 es1 where p: "poll_read io \<lparr> rb_filled = [], rb_capacity = n \<rparr> st = (r, buf, st1, es1)"
    by (metis prod.exhaust)
  obtain bs2 st2 es2 where q: "reads io ns st1 = (bs2, st2, es2)" by (metis prod.exhaust)
  show ?case
    using Cons.IH [OF conjunct1 [OF poll_read_step [OF assms p Cons.prems(1)]] q] Cons.prems(2) p q by simp
qed

text \<open>C5: After a new connection has been peeked and sealed, reading from it yields every byte
  the socket delivered, from the first peeked one on, in order and once, the rest being in the
  buffer.\<close>

theorem no_byte_lost:
  assumes "source_law tp io log" and "log s = []"
    and "peek_managed_stream tp (TCP (from_tcp_stream i decoder s)) table = Some (r, g, table')"
    and "seal g = TCP st" and "reads io ns st = (bs, st', es)"
  shows "log (ms_stream st') = bs @ ms_buffer st'"
proof -
  have "unread_tcp log (TCP (from_tcp_stream i decoder s))"
    using assms(2) by (simp add: unread_tcp_def from_tcp_stream_def)
  then have "unread_tcp log (seal g)"
    using peek_loop_unread [OF assms(1) assms(3) [unfolded peek_managed_stream_def]] by simp
  then have "log (ms_stream st) = [] @ ms_buffer st"
    by (simp add: assms(4) unread_tcp_def)
  from reads_log [OF assms(1) this assms(5)] show ?thesis by simp
qed

section \<open>What the observer is told\<close>

fun event_bytes :: "TCPEvent \<Rightarrow> bytes" where
  "event_bytes (RawBytesFromClientToOddBox _ _ d) = d"
| "event_bytes (RawBytesFromOddBoxToClient _ _ d) = d"
| "event_bytes _ = []"

lemma poll_read_events:
  assumes "source_law tp io log" and "poll_read io \<lparr> rb_filled = [], rb_capacity = n \<rparr> st = (r, buf, st', es)"
    and "ms_enable_inspection st" and "\<not> ms_is_wrapped st"
  shows "concat (map event_bytes es) = rb_filled buf \<and> ms_enable_inspection st' \<and> \<not> ms_is_wrapped st'"
proof -
  have io: "io k s = (q, bs, s') \<Longrightarrow> q \<noteq> Ready \<Longrightarrow> bs = []" for k s q bs s'
    using assms(1) by (simp add: source_law_def)
  define k where "k = length (ms_buffer st)"
  obtain q1 bs1 s1 where io1: "io n (ms_stream st) = (q1, bs1, s1)" by (metis prod.exhaust)
  obtain q2 bs2 s2 where io2: "io (n - k) (ms_stream st) = (q2, bs2, s2)" by (metis prod.exhaust)
  show ?thesis
    using assms(2-) io [OF io1] io [OF io2] io1 io2
    by (auto simp: poll_read_def remaining_def put_slice_def outcome_of_def read_event_def Let_def k_def min_def
        split: if_splits poll.splits)
qed

lemma reads_events:
  assumes "source_law tp io log"
  shows "ms_enable_inspection st \<Longrightarrow> \<not> ms_is_wrapped st \<Longrightarrow> reads io ns st = (bs, st', es) \<Longrightarrow>
    concat (map event_bytes es) = bs"
proof (induction ns arbitrary: st bs st' es)
  case Nil
  then show ?case by simp
next
  case (Cons n ns)
  obtain r buf st1 es1 where p: "poll_read io \<lparr> rb_filled = [], rb_capacity = n \<rparr> st = (r, buf, st1, es1)"
    by (metis prod.exhaust)
  obtain bs2 st2 es2 where q: "reads io ns st1 = (bs2, st2, es2)" by (metis prod.exhaust)
  note e = poll_read_events [OF assms p Cons.prems(1,2)]
  have "concat (map event_bytes es2) = bs2" using Cons.IH [OF _ _ q] e by simp
  then show ?case using Cons.prems(3) e p q by auto
qed

text \<open>While inspection is on, the raw byte events that reads of a stream send are exactly the
  bytes they return.\<close>

theorem observer_sees_what_is_read:
  assumes "source_law tp io log" and "ms_enable_inspection st" and "\<not> ms_is_wrapped st"
    and "reads io ns st = (bs, st', es)"
  shows "concat (map event_bytes es) = bs"
  by (rule reads_events [OF assms])

text \<open>When the socket takes only a part of a write, the observer is told the whole buffer, and
  again the rest when the caller writes it.\<close>

theorem short_write_reported_twice:
  assumes "ms_enable_inspection st" and "\<not> ms_is_wrapped st"
    and "io buf (ms_stream st) = (Wrote n, s1)" and "n < length buf"
    and "io (drop n buf) s1 = (Wrote (length buf - n), s2)"
    and "poll_write io buf st = (r1, st1, es1)" and "poll_write io (drop n buf) st1 = (r2, st2, es2)"
  shows "ms_stream st2 = s2 \<and> concat (map event_bytes (es1 @ es2)) = buf @ drop n buf"
  using assms by (auto simp: poll_write_def Let_def)

section \<open>How the peek ends\<close>

lemma get_id_marks [simp]:
  "get_id (mark_as_tls g) = get_id g" "get_id (mark_as_http2 g) = get_id g"
  "get_id (set_http_version v g) = get_id g" "get_id (set_h2c_header b g) = get_id g"
  "get_id (set_h2_observer ob g) = get_id g" "get_id (enable_observe g) = get_id g"
  "get_id (seal g) = get_id g" "get_id (save_peek_result r g) = get_id g"
  by (cases g; auto simp: get_id_def mark_as_tls_def mark_as_http2_def set_http_version_def set_h2c_header_def
      set_h2_observer_def enable_observe_def seal_def save_peek_result_def on_stream_def split: prod.splits)+

lemma get_id_peek [simp]: "peek_async tp g = (r, g') \<Longrightarrow> get_id g' = get_id g"
  by (cases g) (auto simp: peek_async_def on_stream_def peek_tcp_def peek_tls_def get_id_def Let_def
      split: prod.splits if_splits try_read.splits poll.splits)

lemma sni_seen_untracked: "active_connections table (get_id g) = None \<Longrightarrow> sni_seen g host table = table"
  by (simp add: sni_seen_def update_tracked_info_def mutate_tracked_connection_def)

lemma peek_turn_table:
  fixes g :: "('s, 't, 'd) GenericManagedStream"
  assumes "peek_turn_of tp g table = Some (t, g', table')" and "active_connections table (get_id g) = None"
  shows "get_id g' = get_id g \<and> table' = table"
proof -
  obtain a g1 where a: "peek_async tp g = (a, g1)" by fastforce
  then have id: "get_id g1 = get_id g" by simp
  have id2: "get_id (TerminatedTLS x) = get_id g" if "set_h2_observer ob g2 = TerminatedTLS x" "get_id g2 = get_id g" for x ob g2
    using that get_id_marks(5) [of ob g2] by simp
  have id3: "get_id (TCP x :: ('s, 't, 'd) GenericManagedStream) = get_id g" if "set_h2_observer ob g2 = TCP x" "get_id g2 = get_id g" for x ob and g2 :: "('s, 't, 'd) GenericManagedStream"
    using that get_id_marks(5) [of ob g2] by simp
  show ?thesis
    using assms a id
    by (auto simp: peek_turn_of_def peek_hello_def peek_cleartext_def peek_http2_def Let_def sni_seen_untracked
        split: option.splits if_splits list.splits sum.splits prod.splits TlsClientHelloError.splits
          GenericManagedStream.splits dest!: id2 id3)
qed

text \<open>What peeking learns of a connection (TLS, SNI) is written to an entry that does not
  exist yet, and lost: the table is unchanged.\<close>

theorem peek_before_tracking_records_nothing:
  assumes "peek_managed_stream tp g table = Some (r, g', table')" and "active_connections table (get_id g) = None"
  shows "table' = table"
proof -
  have "active_connections table (get_id g) = None \<longrightarrow>
      snd (snd (r, g', table')) = table \<and> get_id (fst (snd (r, g', table'))) = get_id g"
    by (rule peek_loop_induct [OF assms(1) [unfolded peek_managed_stream_def]]) (auto dest: peek_turn_table)
  with assms(2) show ?thesis by simp
qed


text \<open>A ClientHello that is not complete, on a stream that has nothing more to give for now.\<close>

definition stuck_hello :: "('s, 't, 'd) transport \<Rightarrow> ('s, 't, 'd) GenericManagedStream \<Rightarrow> bool" where
  "stuck_hello tp g \<longleftrightarrow>
     (\<exists>st n. g = TCP st \<and> \<not> ms_sealed st \<and> tp_take_error tp (ms_stream st) = (False, ms_stream st) \<and>
        tp_try_read tp (ms_stream st) = (WouldBlock, ms_stream st) \<and>
        take 1 (ms_buffer st) = [0x16] \<and> try_from (ms_buffer st) = Some (Inl (MessageIncomplete n)))"

lemma stuck_hello_turn:
  assumes "stuck_hello tp g" and "peek_turn_of tp g table = Some (t, g', table')"
  shows "t = Again 0 \<and> stuck_hello tp g'"
proof -
  obtain st n where g: "g = TCP st" "\<not> ms_sealed st" "tp_take_error tp (ms_stream st) = (False, ms_stream st)"
      "tp_try_read tp (ms_stream st) = (WouldBlock, ms_stream st)" "try_from (ms_buffer st) = Some (Inl (MessageIncomplete n))"
    and b: "take 1 (ms_buffer st) = [0x16]"
    using assms(1) unfolding stuck_hello_def by blast
  from b obtain bs where "ms_buffer st = 0x16 # bs" by (cases "ms_buffer st") auto
  then show ?thesis
    using assms(2) g by (auto simp: stuck_hello_def peek_turn_of_def peek_async_def on_stream_def peek_tcp_def peek_hello_def mark_as_tls_def)
qed


text \<open>A TLS client whose first segment has fewer than six bytes is rejected as invalid instead
  of being waited for.\<close>

theorem short_hello_rejected:
  assumes "\<not> ms_sealed st" and "tp_take_error tp (ms_stream st) = (False, s1)" and "tp_try_read tp s1 = (ReadSome bs, s2)"
    and "ms_buffer st = []" and "bs = 0x16 # more'" and "length bs < 6"
  shows "\<exists>g'. peek_managed_stream tp (TCP st) table = Some (Inl (UnknownPeek InvalidClientHello), g', table)"
  using assms
  by (simp add: peek_managed_stream_def peek_loop.simps [of _ 0] peek_turn_of_def peek_async_def on_stream_def peek_tcp_def
      peek_hello_def try_from_def)

text \<open>A plain stream whose client does not start with the first byte of a TLS handshake.\<close>

definition cleartext_client :: "('s, 't, 'd) transport \<Rightarrow> ('s, 't, 'd) GenericManagedStream \<Rightarrow> bool" where
  "cleartext_client tp g \<longleftrightarrow>
     (\<exists>st. g = TCP st \<and> take 1 (ms_buffer st) \<noteq> [0x16]) \<and>
     (\<forall>s bs s'. tp_try_read tp s = (ReadSome bs, s') \<longrightarrow> take 1 bs \<noteq> [0x16])"

lemma cleartext_marks [simp]:
  "cleartext_client tp (mark_as_http2 g) \<longleftrightarrow> cleartext_client tp g"
  "cleartext_client tp (set_http_version v g) \<longleftrightarrow> cleartext_client tp g"
  "cleartext_client tp (set_h2c_header b g) \<longleftrightarrow> cleartext_client tp g"
  "cleartext_client tp (set_h2_observer ob g) \<longleftrightarrow> cleartext_client tp g"
  "cleartext_client tp (enable_observe g) \<longleftrightarrow> cleartext_client tp g"
  by (cases g; auto simp: cleartext_client_def mark_as_http2_def set_http_version_def set_h2c_header_def
      set_h2_observer_def enable_observe_def on_stream_def split: prod.splits)+

lemma take_one: "take (Suc 0) (xs @ ys) = (if xs = [] then take (Suc 0) ys else take (Suc 0) xs)"
  by (cases xs) simp_all

lemma peek_async_cleartext:
  assumes "cleartext_client tp g" and "peek_async tp g = (r, g')"
  shows "cleartext_client tp g' \<and> (\<forall>closed buf. r = Some (closed, buf) \<longrightarrow> take 1 buf \<noteq> [0x16])"
proof -
  obtain st where g: "g = TCP st" "take 1 (ms_buffer st) \<noteq> [0x16]"
    and read: "\<And>s bs s'. tp_try_read tp s = (ReadSome bs, s') \<Longrightarrow> take 1 bs \<noteq> [0x16]"
    using assms(1) unfolding cleartext_client_def by blast
  show ?thesis
    using assms(2) g read
    by (auto simp: peek_async_def on_stream_def peek_tcp_def cleartext_client_def Let_def take_one
        simp del: take_append split: prod.splits if_splits try_read.splits)
qed

lemma peek_http2_turn:
  assumes "cleartext_client tp g" and "peek_http2 tp buf g table = (t, g', table')"
  shows "cleartext_client tp g' \<and> (\<forall>n. t = Again n \<longrightarrow> 0 < n)"
proof -
  obtain frames ob where e: "get_all_events (tp_hpack tp)
      (write_incoming (h2_observer_of (set_http_version HTTP_2 (mark_as_http2 g))) buf) = (frames, ob)" by fastforce
  have "g' = set_h2_observer ob (set_http_version HTTP_2 (mark_as_http2 g)) \<and> (\<forall>n. t = Again n \<longrightarrow> 0 < n)"
    using assms(2)
    by (auto simp: peek_http2_def e Let_def split: if_splits option.splits GenericManagedStream.splits)
  with assms(1) show ?thesis by simp
qed

lemma peek_cleartext_turn:
  assumes "cleartext_client tp g" and "peek_cleartext tp buf g table = (t, g', table')"
  shows "cleartext_client tp g' \<and> (\<forall>n. t = Again n \<longrightarrow> 0 < n)"
proof -
  have "cleartext_client tp (enable_observe g)" using assms(1) by simp
  note h2 = peek_http2_turn [OF this, of buf table t g' table']
  show ?thesis
    using assms h2 by (auto simp: peek_cleartext_def Let_def split: sum.splits if_splits)
qed

lemma peek_turn_cleartext:
  assumes "cleartext_client tp g"
  obtains t g' table' where "peek_turn_of tp g table = Some (t, g', table')" "cleartext_client tp g'"
    "\<And>n. t = Again n \<Longrightarrow> 0 < n"
proof -
  obtain a g1 where a: "peek_async tp g = (a, g1)" by fastforce
  note c = peek_async_cleartext [OF assms a]
  have "\<exists>t g' table'. peek_turn_of tp g table = Some (t, g', table') \<and> cleartext_client tp g' \<and> (\<forall>n. t = Again n \<longrightarrow> 0 < n)"
  proof (cases a)
    case None
    with c show ?thesis by (simp add: peek_turn_of_def a)
  next
    case (Some x)
    then obtain closed buf where x: "a = Some (closed, buf)" by (cases x) auto
    obtain t g' table' where p: "peek_cleartext tp buf g1 table = (t, g', table')" by (metis prod.exhaust)
    from c have g1: "cleartext_client tp g1" by simp
    have "peek_turn_of tp g table = Some (Answer (Inl StreamIsClosed), g1, table) \<or>
        peek_turn_of tp g table = Some (Again 1, g1, table) \<or> peek_turn_of tp g table = Some (t, g', table')"
      using c x p by (cases buf) (auto simp: peek_turn_of_def a)
    with g1 peek_cleartext_turn [OF g1 p] show ?thesis by auto
  qed
  with that show ?thesis by blast
qed



text \<open>
  An observer that has seen the preface and after it nothing, or the preface again: what is in its
  buffer would be a frame of 0x505249 bytes.
\<close>

definition waits_for_frame :: "'d H2Observer \<Rightarrow> bool" where
  "waits_for_frame ob \<longleftrightarrow>
     hb_preface_consumed (incoming ob) \<and> partial_headers ob = None \<and> hb_buffer (outgoing ob) = [] \<and>
     (hb_buffer (incoming ob) = [] \<or> starts_with (hb_buffer (incoming ob)) PREFACE)"

lemma big_frame_incomplete:
  assumes "starts_with bs PREFACE" and "length bs < 5263952"
  shows "parse_next_frame bs = Some (Inl ())"
proof -
  from assms(1) obtain r where "bs = PREFACE @ r" by (auto simp: starts_with_iff)
  then show ?thesis
    using assms(2) by (simp add: PREFACE_def as_bytes_def byte_of_char_def parse_next_frame_header be_nat_def)
qed

lemma poll_without_frame:
  assumes "partial_headers ob = None" and "parse_next_frame (dir_buffer dir ob) = Some (Inl ())"
  shows "poll_all hpack dir ob = ([], ob)"
  using assms by (intro poll_all_None) (simp add: poll_one_frame_def next_frame_def)

lemma repeated_preface_no_events:
  assumes "waits_for_frame ob" and "starts_with data PREFACE"
    and "length (hb_buffer (incoming ob)) + length data < 5263952"
  shows "get_all_events hpack (write_incoming ob data) = ([], write_incoming ob data)"
    and "waits_for_frame (write_incoming ob data)"
proof -
  define ob' where "ob' = write_incoming ob data"
  have inc: "hb_buffer (incoming ob') = hb_buffer (incoming ob) @ data"
    using assms(1) by (simp add: ob'_def write_incoming_def buffer_write_def waits_for_frame_def)
  have pre: "starts_with (hb_buffer (incoming ob')) PREFACE"
    using assms(1,2) by (auto simp: inc waits_for_frame_def starts_with_iff)
  have w: "waits_for_frame ob'"
    using assms(1) pre by (simp add: ob'_def write_incoming_def buffer_write_def waits_for_frame_def)
  have "parse_next_frame (dir_buffer Incoming ob') = Some (Inl ())"
    using big_frame_incomplete [OF pre] assms(3) by (simp add: dir_buffer_def inc)
  moreover have "parse_next_frame (dir_buffer Outgoing ob') = Some (Inl ())"
    using w by (simp add: dir_buffer_def waits_for_frame_def parse_next_frame_short)
  ultimately show "get_all_events hpack (write_incoming ob data) = ([], write_incoming ob data)"
    using w by (simp add: get_all_events_def poll_without_frame waits_for_frame_def flip: ob'_def)
  show "waits_for_frame (write_incoming ob data)" using w by (simp add: ob'_def)
qed

lemma preface_alone:
  "get_all_events hpack (write_incoming (H2Observer_new d) PREFACE) = ([], write_incoming (H2Observer_new d) PREFACE)"
  "waits_for_frame (write_incoming (H2Observer_new d) PREFACE)"
proof -
  have w: "write_incoming (H2Observer_new d) PREFACE =
      (H2Observer_new d)\<lparr> incoming := \<lparr> hb_buffer = [], hb_needs_preface = True, hb_preface_consumed = True \<rparr> \<rparr>"
    by (simp add: write_incoming_def buffer_write_def consume_preface_def H2Observer_new_def H2Buffer_new_def)
  show "waits_for_frame (write_incoming (H2Observer_new d) PREFACE)"
    by (simp add: w waits_for_frame_def) (simp add: H2Observer_new_def H2Buffer_new_def)
  show "get_all_events hpack (write_incoming (H2Observer_new d) PREFACE) = ([], write_incoming (H2Observer_new d) PREFACE)"
    unfolding w by (simp add: get_all_events_def poll_without_frame dir_buffer_def parse_next_frame_short H2Observer_new_def H2Buffer_new_def)
qed

text \<open>When the HTTP/2 preface and the first frames come in different reads, the frames are not
  seen: the whole buffer is fed to the frame parser again, which takes the second preface for a huge
  frame.\<close>

theorem frames_after_preface_unseen:
  fixes st :: "('s, 'd) ManagedStream" and tp :: "('s, 't, 'd) transport"
  assumes "ms_h2_observer st = H2Observer_new d"
    and "peek_http2 tp PREFACE (TCP st) table = (t1, g1, table1)"
    and "peek_http2 tp (PREFACE @ frames) g1 table1 = (t2, g2, table2)" and "length frames < 5000000"
  shows "t1 = Again 1 \<and> t2 = Again 1"
proof -
  have 1: "t1 = Again 1 \<and> h2_observer_of g1 = write_incoming (H2Observer_new d) PREFACE"
    using assms(1,2)
    by (auto simp: peek_http2_def h2_observer_of_def set_http_version_def mark_as_http2_def on_stream_def
        set_h2_observer_def preface_alone)
  have "h2_observer_of (set_http_version HTTP_2 (mark_as_http2 g1)) = h2_observer_of g1"
    by (cases g1) (simp_all add: h2_observer_of_def set_http_version_def mark_as_http2_def on_stream_def)
  moreover have "starts_with (PREFACE @ frames) PREFACE" by (auto simp: starts_with_iff)
  moreover have "length (hb_buffer (incoming (write_incoming (H2Observer_new d) PREFACE))) + length (PREFACE @ frames) < 5263952"
    using assms(4)
    by (simp add: write_incoming_def buffer_write_def consume_preface_def H2Observer_new_def H2Buffer_new_def length_PREFACE)
  ultimately have "t2 = Again 1"
    using assms(3) 1 by (auto simp: peek_http2_def repeated_preface_no_events [OF preface_alone(2)])
  with 1 show ?thesis by simp
qed

section \<open>Witnesses\<close>

text \<open>A transport that delivers the chunks of a script, and the bytes it has delivered.\<close>

type_synonym script = "bytes list \<times> bytes"

definition script_transport :: "(script, unit, unit) transport" where
  "script_transport =
     \<lparr> tp_take_error = (\<lambda>s. (False, s)),
       tp_try_read = (\<lambda>(cs, l). case cs of [] \<Rightarrow> (WouldBlock, cs, l) | c # cs \<Rightarrow> (ReadSome c, cs, l @ c)),
       tp_tls_read = (\<lambda>n s. (Pending, [], s)), tp_server_name = (\<lambda>_. None), tp_hpack = (\<lambda>d block. (None, d)) \<rparr>"

definition script_read :: "nat \<Rightarrow> script \<Rightarrow> poll \<times> bytes \<times> script" where
  "script_read n s =
     (case s of
        ([], l) \<Rightarrow> (Pending, [], [], l)
      | (c # cs, l) \<Rightarrow> if length c \<le> n then (Ready, c, cs, l @ c) else (Ready, take n c, drop n c # cs, l @ take n c))"

lemma script_law: "source_law script_transport script_read snd"
  by (auto simp: source_law_def script_transport_def script_read_def split: list.splits if_splits prod.splits)

definition no_connections :: ConnectionTable where
  "no_connections = \<lparr> active_connections = Map.empty, enable_global_traffic_inspection = True,
                      monitored_connections = Map.empty, global_broadcast = [] \<rparr>"

definition script_stream :: "bytes list \<Rightarrow> (script, unit) ManagedStream" where
  "script_stream cs = from_tcp_stream 7 () (cs, [])"

lemmas script_defs = script_stream_def script_transport_def script_read_def from_tcp_stream_def

lemma short_hello_rejected_witness:
  "\<exists>g'. peek_managed_stream script_transport (TCP (script_stream [[0x16, 3], [1, 2]])) no_connections
     = Some (Inl (UnknownPeek InvalidClientHello), g', no_connections)"
  by (rule short_hello_rejected [of _ _ "([[0x16, 3], [1, 2]], [])" "[0x16, 3]" "([[1, 2]], [0x16, 3])" "[3]"])
     (simp_all add: script_defs)

definition peeked_sample :: "(script, unit) ManagedStream" where
  "peeked_sample = (script_stream [])\<lparr> ms_stream := ([[1, 2]], [0x16, 3]), ms_buffer := [0x16, 3], ms_is_tls := True \<rparr>"

lemma peeked_sample:
  "peek_managed_stream script_transport (TCP (script_stream [[0x16, 3], [1, 2]]) :: (script, unit, unit) GenericManagedStream) no_connections
     = Some (Inl (UnknownPeek InvalidClientHello), TCP peeked_sample, no_connections)"
  by (simp add: peek_managed_stream_def peek_loop.simps [of _ 0] peek_turn_of_def peek_async_def on_stream_def peek_tcp_def
      peek_hello_def try_from_def script_defs peeked_sample_def mark_as_tls_def)

lemma reads_sample:
  "reads script_read [1, 5, 5] (peeked_sample\<lparr> ms_sealed := True \<rparr>) =
     ([0x16, 3, 1, 2], peeked_sample\<lparr> ms_sealed := True, ms_stream := ([], [0x16, 3, 1, 2]), ms_buffer := [] \<rparr>, [])"
  by (simp add: poll_read_def peeked_sample_def script_defs remaining_def put_slice_def outcome_of_def read_event_def)

lemma no_byte_lost_witness:
  "\<exists>bs st'. reads script_read [1, 5, 5] (peeked_sample\<lparr> ms_sealed := True \<rparr>) = (bs, st', []) \<and>
     length bs = 4 \<and> snd (ms_stream st') = bs @ ms_buffer st'"
proof -
  have g: "seal (TCP peeked_sample :: (script, unit, unit) GenericManagedStream) = TCP (peeked_sample\<lparr> ms_sealed := True \<rparr>)"
    by (simp add: seal_def on_stream_def)
  note kept = no_byte_lost [OF script_law, of "([[0x16, 3], [1, 2]], [])" 7 "()" no_connections, OF _ peeked_sample [unfolded script_stream_def] g reads_sample]
  show ?thesis unfolding reads_sample using kept by simp
qed

definition observed_sample :: "(script, unit) ManagedStream" where
  "observed_sample = (script_stream [[3, 4]])\<lparr> ms_buffer := [1, 2], ms_sealed := True, ms_enable_inspection := True \<rparr>"

lemma observer_sees_what_is_read_witness:
  "concat (map event_bytes (snd (snd (reads script_read [1, 5] observed_sample)))) = [1, 2, 3, 4]"
proof -
  have r: "\<exists>st es. reads script_read [1, 5] observed_sample = ([1, 2, 3, 4], st, es)"
    by (simp add: poll_read_def observed_sample_def script_defs remaining_def put_slice_def outcome_of_def read_event_def)
  then obtain st es where e: "reads script_read [1, 5] observed_sample = ([1, 2, 3, 4], st, es)" by blast
  have "concat (map event_bytes es) = [1, 2, 3, 4]"
    by (rule observer_sees_what_is_read [OF script_law _ _ e]) (simp_all add: observed_sample_def script_defs)
  then show ?thesis by (simp only: e snd_conv)
qed

definition halves :: "bytes \<Rightarrow> nat \<Rightarrow> write_outcome \<times> nat" where
  "halves buf n = (Wrote (min 2 (length buf)), n + min 2 (length buf))"

lemma short_write_reported_twice_witness:
  "let st = (from_tcp_stream 7 () 0)\<lparr> ms_enable_inspection := True \<rparr>;
       (_, st1, es1) = poll_write halves [1, 2, 3] st; (_, st2, es2) = poll_write halves [3] st1
   in ms_stream st2 = 3 \<and> concat (map event_bytes (es1 @ es2)) = [1, 2, 3, 3]"
proof -
  define st where "st = (from_tcp_stream 7 () (0 :: nat))\<lparr> ms_enable_inspection := True \<rparr>"
  obtain r1 st1 es1 where p: "poll_write halves [1, 2, 3] st = (r1, st1, es1)" by (metis prod.exhaust)
  obtain r2 st2 es2 where q: "poll_write halves [3] st1 = (r2, st2, es2)" by (metis prod.exhaust)
  have "ms_stream st2 = 3 \<and> concat (map event_bytes (es1 @ es2)) = [1, 2, 3] @ drop 2 [1, 2, 3]"
    by (rule short_write_reported_twice [of st halves _ 2 2])
       (use p q in \<open>simp_all add: st_def halves_def from_tcp_stream_def\<close>)
  then show ?thesis by (simp add: p q flip: st_def)
qed

lemma peek_before_tracking_records_nothing_witness:
  "\<exists>r g'. peek_managed_stream script_transport (TCP (script_stream [[0x16, 3], [1, 2]]) :: (script, unit, unit) GenericManagedStream)
     no_connections = Some (r, g', no_connections)"
  using peek_before_tracking_records_nothing [OF peeked_sample] peeked_sample by (auto simp: no_connections_def)

definition stuck_sample :: "(script, unit) ManagedStream" where
  "stuck_sample = (script_stream [])\<lparr> ms_buffer := [0x16, 3, 1, 0, 99, 1] \<rparr>"



lemma frames_after_preface_unseen_witness:
  "let (t1, g1, tb) = peek_http2 script_transport PREFACE (TCP (script_stream []) :: (script, unit, unit) GenericManagedStream) no_connections;
       (t2, _) = peek_http2 script_transport (PREFACE @ [0, 0, 0, 4, 0, 0, 0, 0, 0]) g1 tb
   in t1 = Again 1 \<and> t2 = Again 1"
proof -
  obtain t1 g1 tb where p: "peek_http2 script_transport PREFACE (TCP (script_stream []) :: (script, unit, unit) GenericManagedStream)
      no_connections = (t1, g1, tb)" by (metis prod.exhaust)
  obtain t2 g2 tb2 where q: "peek_http2 script_transport (PREFACE @ [0, 0, 0, 4, 0, 0, 0, 0, 0]) g1 tb = (t2, g2, tb2)"
    by (metis prod.exhaust)
  have "t1 = Again 1 \<and> t2 = Again 1"
    by (rule frames_after_preface_unseen [OF _ p q]) (simp_all add: script_defs)
  then show ?thesis by (simp add: p q)
qed

end
