(* ===== verification/Tunnel.thy ===== *)
theory Tunnel
  imports Managed_Stream
begin

text \<open>
  The TCP tunnel, \<open>src/tcp_proxy/tcp.rs\<close>: whether the client's TLS is terminated here, which kind of
  backend can take the client's bytes as they are, the choice of the backend, whether the bytes go to
  it in a TLS session of our own, and what is counted and tracked on the way. Accepting and opening TLS
  sessions and connecting sockets are calls of tokio and rustls: they are the fields of \<open>endpoint\<close>.
  The copying itself (\<open>copy_bidirectional\<close>) is tokio's, over \<open>poll_read\<close> and \<open>poll_write\<close> of
  \<open>Managed_Stream\<close>; a tunnel returns when it has ended, and its result says what was connected to what.
\<close>

section \<open>The calls of the outside\<close>

text \<open>
  \<open>ep_accept\<close> is the TLS handshake with the client (\<open>None\<close>: it failed), \<open>ep_connect\<close> opens a socket
  to an address (\<open>None\<close>: it failed; otherwise whether \<open>peer_addr\<close> is known), \<open>ep_valid_name\<close> and
  \<open>ep_tls_connect\<close> are \<open>ServerName::try_from\<close> and the TLS handshake with the backend.
\<close>

record ('s, 't, 'd) endpoint =
  ep_transport :: "('s, 't, 'd) transport"
  ep_decoder :: 'd
  ep_accept :: "('s, 'd) ManagedStream \<Rightarrow> ('t \<times> ('s, 'd) ManagedStream) option"
  ep_connect :: "string \<Rightarrow> bool option"
  ep_valid_name :: "string \<Rightarrow> bool"
  ep_tls_connect :: "string \<Rightarrow> bool"

record TunnelState = ConnectionTable +
  tn_balancer :: BalancerState

text \<open>Dropping a stream drops the stream inside it as well.\<close>

definition drop_stream ::
  "('s, 't, 'd) GenericManagedStream \<Rightarrow> 'a ConnectionTable_scheme \<Rightarrow> 'a ConnectionTable_scheme" where
  "drop_stream g table =
     on_stream (\<lambda>st. del_connection (ms_tcp_connection_id st) table)
       (\<lambda>st. del_connection (ms_tcp_connection_id (snd (ms_stream st)))
               (del_connection (ms_tcp_connection_id st) table)) g"

section \<open>What the bytes need\<close>

definition peekresult_to_backend_filter :: "PeekResult \<Rightarrow> bool \<Rightarrow> bool \<Rightarrow> BackendFilter option" where
  "peekresult_to_backend_filter info incoming_is_tls_terminated is_h2c_upgrade_request =
     (case (pk_http_version info, pk_typ info, incoming_is_tls_terminated, is_h2c_upgrade_request) of
        (Some HTTP_2, ClearText, False, False) \<Rightarrow> Some H2CPriorKnowledge
      | (Some HTTP_11, ClearText, False, True) \<Rightarrow> Some H2Cleartext
      | (Some HTTP_2, TLS, False, False) \<Rightarrow> Some Http2
      | (Some HTTP_10, _, _, False) \<Rightarrow> Some Http1
      | (Some HTTP_11, _, _, False) \<Rightarrow> Some Http1
      | (None, scheme, terminated, _) \<Rightarrow> if scheme = TLS \<and> \<not> terminated then Some AnyTLS else None
      | (Some HTTP_2, ClearText, True, False) \<Rightarrow> Some H2OrH2cpk
      | _ \<Rightarrow> None)"

definition terminate_incoming :: "ReverseTcpProxyTarget \<Rightarrow> bool \<Rightarrow> bool" where
  "terminate_incoming target incoming_traffic_is_tls =
     (if tg_terminate_tls target then incoming_traffic_is_tls
      else if incoming_traffic_is_tls then \<not> list_ex (\<lambda>x. is_set (bk_https x)) (tg_backends target)
      else False)"

definition choose_backend :: "BalancerState \<Rightarrow> ReverseTcpProxyTarget \<Rightarrow> BackendFilter \<Rightarrow> Backend option" where
  "choose_backend st target flt =
     (case (tg_remote_target_config target, tg_hosted_target_config target) of
        (Some rem_conf, None) \<Rightarrow> remote_next_backend st flt rem_conf
      | (None, Some proc_conf) \<Rightarrow> process_next_backend st flt proc_conf
      | _ \<Rightarrow> None)"

definition erect_tls_tunnel :: "bool \<Rightarrow> bool \<Rightarrow> bool \<Rightarrow> bool" where
  "erect_tls_tunnel incoming_traffic_is_tls backend_is_tls client_tls_is_terminated =
     (case (incoming_traffic_is_tls, backend_is_tls, client_tls_is_terminated) of
        (_, False, _) \<Rightarrow> False
      | (True, True, True) \<Rightarrow> True
      | (True, True, False) \<Rightarrow> False
      | (False, True, _) \<Rightarrow> True)"

definition count_access :: "string \<Rightarrow> BalancerState \<Rightarrow> BalancerState" where
  "count_access host b =
     b\<lparr> lb_access_count_per_hostname := (lb_access_count_per_hostname b)
          (host \<mapsto> (case lb_access_count_per_hostname b host of Some v \<Rightarrow> (v + 1) mod 2 ^ 64 | None \<Rightarrow> 1)) \<rparr>"

section \<open>The tunnel\<close>

text \<open>The far side of the copy: the socket as it is, or a TLS session over it.\<close>

datatype backend_side = PlainBackend | TlsBackend string

datatype relay_error = NoServerName | BadServerName string | TlsConnectFailed

definition run_managed_bidirectional_tunnel ::
  "('s, 't, 'd) endpoint \<Rightarrow> bool \<Rightarrow> string option \<Rightarrow> bool \<Rightarrow> relay_error + backend_side" where
  "run_managed_bidirectional_tunnel ep backend_is_tls server_name erect =
     (if backend_is_tls \<and> erect then
        (case server_name of
           None \<Rightarrow> Inl NoServerName
         | Some n \<Rightarrow>
             if \<not> ep_valid_name ep n then Inl (BadServerName n)
             else if ep_tls_connect ep n then Inr (TlsBackend n) else Inl TlsConnectFailed)
      else Inr PlainBackend)"

datatype tunnel_failure = TlsConfigMissing | TunnelPeekFailed PeekError

text \<open>
  \<open>Tunnelled\<close> is \<open>Ok(())\<close>: with what was copied between, or without a copy (a failed handshake or
  connection, which the code only logs).
\<close>

datatype ('s, 't, 'd) tunnel_result =
    Tunnelled "(('s, 't, 'd) GenericManagedStream \<times> Backend \<times> (relay_error + backend_side)) option"
  | NoUsableBackendFound "('s, 't, 'd) GenericManagedStream"
  | TunnelUnknown tunnel_failure

text \<open>The first part: the stream to copy from, whether it was terminated here, and the filter.\<close>

definition prepare_tunnel ::
  "('s, 't, 'd) endpoint \<Rightarrow> ReverseTcpProxyTarget \<Rightarrow> bool \<Rightarrow> bool \<Rightarrow> string \<Rightarrow> http_version option \<Rightarrow> bool \<Rightarrow>
   ('s, 't, 'd) GenericManagedStream \<Rightarrow> 'a ConnectionTable_scheme \<Rightarrow>
   ((('s, 't, 'd) tunnel_result + bool \<times> ('s, 't, 'd) GenericManagedStream \<times> BackendFilter option) \<times>
    'a ConnectionTable_scheme) run" where
  "prepare_tunnel ep target incoming_traffic_is_tls have_config host version is_h2c client s =
     (if terminate_incoming target incoming_traffic_is_tls then
        if \<not> have_config then Some (Inl (TunnelUnknown TlsConfigMissing), drop_stream client s)
        else
          (case client of
             TCP st \<Rightarrow>
               (case ep_accept ep st of
                  Some (session, inner) \<Rightarrow>
                    (let inner = inner\<lparr> ms_is_tls_terminated := True \<rparr>;
                         gen = from_terminated_tls_stream (from_tls_stream (ep_decoder ep) (session, inner)) in
                     case peek_managed_stream (ep_transport ep) gen s of
                       None \<Rightarrow> None
                     | Some (r, gen, s) \<Rightarrow>
                         (let gen = seal gen in
                          case r of
                            Inr r \<Rightarrow> Some (Inr (True, gen, peekresult_to_backend_filter r True is_h2c), s)
                          | Inl e \<Rightarrow> Some (Inl (TunnelUnknown (TunnelPeekFailed e)), drop_stream gen s)))
                | None \<Rightarrow> Some (Inl (Tunnelled None), drop_stream client s))
           | TerminatedTLS _ \<Rightarrow> Some (Inl (Tunnelled None), drop_stream client s))
      else
        Some (Inr (False, client,
                   peekresult_to_backend_filter
                     \<lparr> pk_typ = (if incoming_traffic_is_tls then TLS else ClearText), pk_http_version = version,
                       pk_target_host = Some host, pk_is_h2c_upgrade = is_h2c, pk_sni = None, pk_host_header = None \<rparr>
                     False is_h2c), s))"

text \<open>The second part: connecting to the chosen backend, counting, tracking and copying.\<close>

definition connect_tunnel ::
  "('s, 't, 'd) endpoint \<Rightarrow> ReverseTcpProxyTarget \<Rightarrow> bool \<Rightarrow> bool \<Rightarrow> Backend \<Rightarrow>
   ('s, 't, 'd) GenericManagedStream \<Rightarrow> 'a TunnelState_scheme \<Rightarrow>
   ('s, 't, 'd) tunnel_result \<times> 'a TunnelState_scheme" where
  "connect_tunnel ep target incoming_traffic_is_tls client_tls_is_terminated backend stream s =
     (let backend_is_tls = is_set (bk_https backend);
          erect = erect_tls_tunnel incoming_traffic_is_tls backend_is_tls client_tls_is_terminated in
      case ep_connect ep (bk_address backend @ '':'' @ dec (unat (bk_port backend))) of
        None \<Rightarrow> (Tunnelled None, drop_stream stream s)
      | Some known_peer \<Rightarrow>
          (let s = s\<lparr> tn_balancer := count_access (tg_host_name target) (tn_balancer s) \<rparr> in
           if \<not> known_peer then (Tunnelled None, drop_stream stream s)
           else
             (let s = update_tracked_info stream
                        (\<lambda>x. x\<lparr> pc_incoming_connection_uses_tls := incoming_traffic_is_tls,
                                 pc_outgoing_tunnel_type :=
                                   Some (if backend_is_tls then TlsTunnel target backend else RawTunnel target backend) \<rparr>) s;
                  r = run_managed_bidirectional_tunnel ep backend_is_tls (Some (bk_address backend)) erect
              in (Tunnelled (Some (stream, backend, r)), drop_stream stream s))))"

definition tunnel ::
  "('s, 't, 'd) endpoint \<Rightarrow> ReverseTcpProxyTarget \<Rightarrow> bool \<Rightarrow> bool \<Rightarrow> string \<Rightarrow> http_version option \<Rightarrow> bool \<Rightarrow>
   ('s, 't, 'd) GenericManagedStream \<Rightarrow> 'a TunnelState_scheme \<Rightarrow>
   (('s, 't, 'd) tunnel_result \<times> 'a TunnelState_scheme) run" where
  "tunnel ep target incoming_traffic_is_tls have_config host version is_h2c client s =
     (case prepare_tunnel ep target incoming_traffic_is_tls have_config host version is_h2c client s of
        None \<Rightarrow> None
      | Some (Inl r, s) \<Rightarrow> Some (r, s)
      | Some (Inr (client_tls_is_terminated, stream, backend_filter), s) \<Rightarrow>
          (case backend_filter of
             None \<Rightarrow> Some (NoUsableBackendFound stream, s)
           | Some flt \<Rightarrow>
               (case choose_backend (tn_balancer s) target flt of
                  None \<Rightarrow> Some (NoUsableBackendFound stream, s)
                | Some backend \<Rightarrow>
                    Some (connect_tunnel ep target incoming_traffic_is_tls client_tls_is_terminated backend stream s))))"

section \<open>What peeking leaves alone\<close>

definition is_terminated :: "('s, 't, 'd) GenericManagedStream \<Rightarrow> bool" where
  "is_terminated g = on_stream (\<lambda>_. False) (\<lambda>_. True) g"

lemma is_terminated_simps [simp]: "\<not> is_terminated (TCP st)" "is_terminated (TerminatedTLS tst)"
  by (simp_all add: is_terminated_def on_stream_def)

lemma is_terminated_marks [simp]:
  "is_terminated (mark_as_tls g) = is_terminated g" "is_terminated (mark_as_http2 g) = is_terminated g"
  "is_terminated (set_http_version v g) = is_terminated g" "is_terminated (set_h2c_header b g) = is_terminated g"
  "is_terminated (set_h2_observer ob g) = is_terminated g" "is_terminated (enable_observe g) = is_terminated g"
  "is_terminated (seal g) = is_terminated g" "is_terminated (save_peek_result r g) = is_terminated g"
  by (cases g; auto simp: mark_as_tls_def mark_as_http2_def set_http_version_def set_h2c_header_def
      set_h2_observer_def enable_observe_def seal_def save_peek_result_def on_stream_def split: prod.splits)+

lemma is_terminated_peek [simp]: "peek_async tp g = (r, g') \<Longrightarrow> is_terminated g' = is_terminated g"
  by (cases g) (auto simp: peek_async_def on_stream_def split: prod.splits)

lemma from_terminated [simp]: "is_terminated (from_terminated_tls_stream st)"
  by (simp add: from_terminated_tls_stream_def split: prod.splits)

text \<open>The rest of the program's state is in the part of the table that peeking and tracking do not touch.\<close>

lemma more_update [simp]:
  "ConnectionTable.more (mutate_tracked_connection k f s) = ConnectionTable.more s"
  "ConnectionTable.more (update_tracked_info g f s) = ConnectionTable.more s"
  "ConnectionTable.more (sni_seen g h s) = ConnectionTable.more s"
  "ConnectionTable.more (del_connection k s) = ConnectionTable.more s"
  "ConnectionTable.more (drop_stream g s) = ConnectionTable.more s"
  "ConnectionTable.more (add_or_update_connection dbg now pk c s) = ConnectionTable.more s"
  by (simp_all add: sni_seen_def update_tracked_info_def mutate_tracked_connection_def drop_stream_def on_stream_def
      del_connection_def add_or_update_connection_def Let_def split: option.splits GenericManagedStream.splits)

lemma tn_balancer_more: "tn_balancer s = tn_balancer (ConnectionTable.extend undefined (ConnectionTable.more s))"
  by (cases s) (simp add: ConnectionTable.defs)

lemma tn_balancer_cong: "ConnectionTable.more s' = ConnectionTable.more s \<Longrightarrow> tn_balancer s' = tn_balancer s"
  by (subst (1 2) tn_balancer_more) simp

lemma peek_turn_kept:
  assumes "peek_turn_of tp g table = Some (t, g', table')"
  shows "ConnectionTable.more table' = ConnectionTable.more table \<and> is_terminated g' = is_terminated g"
proof -
  obtain a g1 where a: "peek_async tp g = (a, g1)" by fastforce
  show ?thesis
    using assms a
    by (auto simp: peek_turn_of_def peek_hello_def peek_cleartext_def peek_http2_def Let_def
        split: option.splits if_splits list.splits sum.splits prod.splits TlsClientHelloError.splits
          GenericManagedStream.splits dest!: arg_cong [where f = is_terminated])
qed

lemma peek_kept:
  assumes "peek_managed_stream tp g table = Some (r, g', table')"
  shows "ConnectionTable.more table' = ConnectionTable.more table" "is_terminated g' = is_terminated g"
proof -
  have "ConnectionTable.more (snd (snd (r, g', table'))) = ConnectionTable.more table \<and>
      is_terminated (fst (snd (r, g', table'))) = is_terminated g"
    by (rule peek_loop_induct [OF assms(1) [unfolded peek_managed_stream_def]]) (auto dest: peek_turn_kept)
  then show "ConnectionTable.more table' = ConnectionTable.more table" "is_terminated g' = is_terminated g"
    by simp_all
qed


section \<open>The backend and its bytes\<close>

lemma choose_backend_passes: "choose_backend st target flt = Some b \<Longrightarrow> filter_backend b flt"
  by (auto simp: choose_backend_def split: option.splits
      dest: remote_selector.select_sound process_selector.select_sound)

lemma prepared_stream:
  assumes "prepare_tunnel ep target tls cfg host version h2c (TCP st) s = Some (Inr (term, stream, flt), s')"
  shows "term = terminate_incoming target tls \<and> is_terminated stream = term \<and>
    (\<not> term \<longrightarrow> stream = TCP st \<and> s' = s \<and> flt = peekresult_to_backend_filter
       \<lparr> pk_typ = (if tls then TLS else ClearText), pk_http_version = version, pk_target_host = Some host,
         pk_is_h2c_upgrade = h2c, pk_sni = None, pk_host_header = None \<rparr> False h2c)"
  using assms
  by (auto simp: prepare_tunnel_def Let_def peek_kept split: if_splits option.splits prod.splits sum.splits)

lemma tunnel_relays:
  assumes "tunnel ep target tls cfg host version h2c client s = Some (Tunnelled (Some (stream, b, r)), s')"
  obtains trm flt s1 where
    "prepare_tunnel ep target tls cfg host version h2c client s = Some (Inr (trm, stream, Some flt), s1)"
    "choose_backend (tn_balancer s1) target flt = Some b"
    "connect_tunnel ep target tls trm b stream s1 = (Tunnelled (Some (stream, b, r)), s')"
    "r = run_managed_bidirectional_tunnel ep (is_set (bk_https b)) (Some (bk_address b))
           (erect_tls_tunnel tls (is_set (bk_https b)) trm)"
proof -
  obtain res s1 where p: "prepare_tunnel ep target tls cfg host version h2c client s = Some (res, s1)"
    using assms by (auto simp: tunnel_def split: option.splits)
  show ?thesis
  proof (cases res)
    case (Inl q)
    with assms p have "q = Tunnelled (Some (stream, b, r))" by (simp add: tunnel_def)
    with p Inl show ?thesis
      by (auto simp: prepare_tunnel_def Let_def split: if_splits option.splits prod.splits sum.splits GenericManagedStream.splits)
  next
    case (Inr q)
    obtain trm g flt' where q: "q = (trm, g, flt')" by (cases q)
    from assms p Inr q obtain flt b' where f: "flt' = Some flt" "choose_backend (tn_balancer s1) target flt = Some b'"
      "connect_tunnel ep target tls trm b' g s1 = (Tunnelled (Some (stream, b, r)), s')"
      by (auto simp: tunnel_def split: option.splits)
    then have "g = stream" "b' = b" and r: "r = run_managed_bidirectional_tunnel ep (is_set (bk_https b)) (Some (bk_address b))
           (erect_tls_tunnel tls (is_set (bk_https b)) trm)"
      by (auto simp: connect_tunnel_def Let_def split: option.splits if_splits)
    with that [OF _ _ _ r] f p Inr q show ?thesis by simp
  qed
qed

text \<open>C29: What a tunnel copies to a backend is what the backend speaks: plain bytes to a
  plain backend, or the client's own TLS, unterminated, to a TLS backend, and in all other cases of
  a TLS backend a TLS session for its address, made after terminating the client's.\<close>

theorem tunnel_speaks_the_backends_protocol:
  assumes "tunnel ep target tls cfg host version h2c (TCP st) s = Some (Tunnelled (Some (stream, b, Inr side)), s')"
    and "tls \<Longrightarrow> version = None"
  shows "side = PlainBackend \<and> (is_set (bk_https b) \<longleftrightarrow> tls \<and> stream = TCP st) \<or>
         side = TlsBackend (bk_address b) \<and> is_set (bk_https b) \<and> (tls \<longrightarrow> is_terminated stream)"
proof -
  obtain trm flt s1 where p: "prepare_tunnel ep target tls cfg host version h2c (TCP st) s = Some (Inr (trm, stream, Some flt), s1)"
    and c: "choose_backend (tn_balancer s1) target flt = Some b"
    and r: "Inr side = run_managed_bidirectional_tunnel ep (is_set (bk_https b)) (Some (bk_address b))
           (erect_tls_tunnel tls (is_set (bk_https b)) trm)"
    using assms(1) by (rule tunnel_relays)
  note st = prepared_stream [OF p]
  show ?thesis
  proof (cases "tls \<and> \<not> trm")
    case True
    with st assms(2) have "flt = AnyTLS" "stream = TCP st" by (simp_all add: peekresult_to_backend_filter_def)
    with choose_backend_passes [OF c] have "is_set (bk_https b)" by (simp add: filter_backend_def)
    with True r \<open>stream = TCP st\<close> show ?thesis
      by (simp add: run_managed_bidirectional_tunnel_def erect_tls_tunnel_def)
  next
    case False
    then show ?thesis
      using st r by (auto simp: run_managed_bidirectional_tunnel_def erect_tls_tunnel_def terminate_incoming_def
          split: bool.splits if_splits)
  qed
qed

section \<open>What is counted and tracked\<close>

lemma tn_balancer_update [simp]:
  "tn_balancer (mutate_tracked_connection k f s) = tn_balancer s"
  "tn_balancer (update_tracked_info g f s) = tn_balancer s"
  "tn_balancer (drop_stream g s) = tn_balancer s"
  by (rule tn_balancer_cong, simp)+

lemma connect_tunnel_counts:
  assumes "connect_tunnel ep target tls trm b stream s = (r, s')"
  shows "tn_balancer s' =
    (if ep_connect ep (bk_address b @ '':'' @ dec (unat (bk_port b))) = None then tn_balancer s
     else count_access (tg_host_name target) (tn_balancer s))"
  using assms by (auto simp: connect_tunnel_def Let_def split: option.splits if_splits)

lemma prepared_balancer:
  assumes "prepare_tunnel ep target tls cfg host version h2c client s = Some (res, s')"
  shows "tn_balancer s' = tn_balancer s"
  using assms
  by (auto simp: prepare_tunnel_def Let_def tn_balancer_cong [OF peek_kept(1)]
      split: if_splits option.splits prod.splits sum.splits GenericManagedStream.splits)

text \<open>A tunnel of a remote site goes to the backend whose turn it is among those that pass the
  filter, and the next one to the backend after it.\<close>

theorem tunnels_take_turns:
  assumes "tg_remote_target_config target = Some site" and "tg_hosted_target_config target = None"
    and "tg_host_name target = rs_host_name site"
    and "peekresult_to_backend_filter \<lparr> pk_typ = ClearText, pk_http_version = version, pk_target_host = Some host,
         pk_is_h2c_upgrade = h2c, pk_sni = None, pk_host_header = None \<rparr> False h2c = Some flt"
    and "eligible = filter (\<lambda>b. filter_backend b flt) (rs_backends site)"
    and "lb_access_count_per_hostname (tn_balancer s) (rs_host_name site) = Some n" and "n < 2 ^ 64 - 1"
    and "tunnel ep target False cfg host version h2c (TCP st) s = Some (Tunnelled (Some (stream, b, r)), s')"
  shows "b = eligible ! (n mod length eligible) \<and>
         choose_backend (tn_balancer s') target flt = Some (eligible ! (Suc n mod length eligible))"
proof -
  obtain trm flt' s1 where p: "prepare_tunnel ep target False cfg host version h2c (TCP st) s = Some (Inr (trm, stream, Some flt'), s1)"
    and c: "choose_backend (tn_balancer s1) target flt' = Some b"
    and t: "connect_tunnel ep target False trm b stream s1 = (Tunnelled (Some (stream, b, r)), s')"
    using assms(8) by (rule tunnel_relays)
  have [simp]: "flt' = flt" "s1 = s"
    using prepared_stream [OF p] assms(4) by (simp_all add: terminate_incoming_def)
  have pick: "choose_backend bs target flt = pick_backend bs (rs_host_name site) eligible" for bs
    using assms(1,2,5) by (simp add: choose_backend_def remote_next_backend_def)
  have ne: "eligible \<noteq> []" using c by (auto simp: pick pick_backend_def)
  have b: "b = eligible ! (n mod length eligible)"
    using c assms(6) ne by (cases "length eligible = 1") (auto simp: pick pick_backend_def)
  have "ep_connect ep (bk_address b @ '':'' @ dec (unat (bk_port b))) \<noteq> None"
    using t by (auto simp: connect_tunnel_def Let_def split: option.splits)
  then have "lb_access_count_per_hostname (tn_balancer s') (rs_host_name site) = Some (Suc n)"
    using connect_tunnel_counts [OF t] assms(3,6,7) by (simp add: count_access_def)
  with ne show ?thesis
    using b by (cases "length eligible = 1") (auto simp: pick pick_backend_def)
qed

text \<open>The entry of a connection whose tunnel is about to open.\<close>

definition tracked_as :: "('s, 't, 'd) GenericManagedStream \<Rightarrow> bool \<Rightarrow> 'a ConnectionTable_scheme \<Rightarrow> bool" where
  "tracked_as g term s \<longleftrightarrow>
     (\<exists>c. active_connections s (get_id g) = Some c \<and> pc_version c \<noteq> 0) \<and>
     on_stream ms_is_tls_terminated ms_is_tls_terminated g = term \<and>
     \<not> on_stream ms_is_http_terminated ms_is_http_terminated g \<and>
     on_stream (\<lambda>_. True) (\<lambda>st. ms_tcp_connection_id (snd (ms_stream st)) = ms_tcp_connection_id st) g"

lemma connect_tunnel_events:
  assumes "connect_tunnel ep target tls trm b stream s = (Tunnelled (Some (stream, b, r)), s')"
    and "tracked_as stream term s"
  obtains c where "global_broadcast s' = global_broadcast s @ [TcpEvent (Updated c), TcpEvent (Closed (get_id stream))]"
    "pc_version c \<noteq> 1" "pc_incoming_connection_uses_tls c = tls" "pc_tls_terminated c = term" "\<not> pc_http_terminated c"
    "pc_outgoing_tunnel_type c = Some (if is_set (bk_https b) then TlsTunnel target b else RawTunnel target b)"
proof -
  obtain c0 where c0: "active_connections s (get_id stream) = Some c0" "pc_version c0 \<noteq> 0"
    using assms(2) by (auto simp: tracked_as_def)
  then have "pc_version c0 + 1 \<noteq> 1" by simp
  with c0 assms that show ?thesis
    by (cases stream)
       (auto simp: connect_tunnel_def Let_def tracked_as_def update_tracked_info_def mutate_tracked_connection_def
        drop_stream_def del_connection_def get_id_def on_stream_def split: option.splits if_splits)
qed

text \<open>Establishing a tunnel updates the tracked connection so that its type names what the
  tunnel does, with its target and backend, and closing removes it, for all but TLS passed through
  to a TLS backend.\<close>

theorem tunnel_classified:
  assumes "connect_tunnel ep target tls trm b stream s = (Tunnelled (Some (stream, b, r)), s')"
    and "tracked_as stream trm s" and "trm \<Longrightarrow> tls" and "\<not> (tls \<and> \<not> trm \<and> is_set (bk_https b))"
  shows "\<exists>c. global_broadcast s' = global_broadcast s @ [TcpEvent (Updated c), TcpEvent (Closed (get_id stream))] \<and>
    get_connection_type c =
      (if \<not> tls then (if is_set (bk_https b) then HttpWithOutgoingTLS target b else HttpPassthru target b)
       else if trm then (if is_set (bk_https b) then TlsTerminatedWithOutgoingTLS target b
                         else TlsTerminatedWithOutgoingClearText target b)
       else TlsPassthru target b)"
proof -
  obtain c where "global_broadcast s' = global_broadcast s @ [TcpEvent (Updated c), TcpEvent (Closed (get_id stream))]"
    and "pc_version c \<noteq> 1" "pc_incoming_connection_uses_tls c = tls" "pc_tls_terminated c = trm" "\<not> pc_http_terminated c"
    "pc_outgoing_tunnel_type c = Some (if is_set (bk_https b) then TlsTunnel target b else RawTunnel target b)"
    using assms(1,2) by (rule connect_tunnel_events)
  with assms(3,4) show ?thesis
    by (intro exI [of _ c]) (auto simp: get_connection_type_def split: bool.splits)
qed

text \<open>TLS passed through to a TLS backend works, and is reported as an invalid connection
  type.\<close>

theorem passthru_reported_invalid:
  fixes ep :: "('s, 't, 'd) endpoint"
  assumes "connect_tunnel ep target True False b (TCP st) s = (Tunnelled (Some (TCP st, b, r)), s')"
    and "tracked_as (TCP st :: ('s, 't, 'd) GenericManagedStream) False s" and "is_set (bk_https b)"
  shows "r = Inr PlainBackend \<and>
    (\<exists>c. TcpEvent (Updated c) \<in> set (global_broadcast s') \<and>
         get_connection_type c = InvalidType True False False (Some (TlsTunnel target b)))"
proof -
  obtain c where "global_broadcast s' = global_broadcast s @ [TcpEvent (Updated c), TcpEvent (Closed (get_id (TCP st :: ('s, 't, 'd) GenericManagedStream)))]"
    and "pc_version c \<noteq> 1" "pc_incoming_connection_uses_tls c = True" "pc_tls_terminated c = False" "\<not> pc_http_terminated c"
    "pc_outgoing_tunnel_type c = Some (if is_set (bk_https b) then TlsTunnel target b else RawTunnel target b)"
    using assms(1,2) by (rule connect_tunnel_events)
  moreover have "r = Inr PlainBackend"
    using assms(1,3) by (auto simp: connect_tunnel_def Let_def run_managed_bidirectional_tunnel_def erect_tls_tunnel_def
        split: option.splits if_splits)
  ultimately show ?thesis
    using assms(3) by (intro conjI exI [of _ c]) (simp_all add: get_connection_type_def)
qed


section \<open>Witnesses\<close>

definition script_endpoint :: "(script, unit, unit) endpoint" where
  "script_endpoint =
     \<lparr> ep_transport = script_transport, ep_decoder = (), ep_accept = (\<lambda>st. Some ((), st)),
       ep_connect = (\<lambda>_. Some True), ep_valid_name = (\<lambda>_. True), ep_tls_connect = (\<lambda>_. True) \<rparr>"

definition tls_backend_sample :: Backend where
  "tls_backend_sample = \<lparr> bk_address = ''z'', bk_port = 443, bk_https = Some True, bk_hints = None \<rparr>"

definition site_sample :: RemoteSiteConfig where
  "site_sample = remote_sample [backend_sample ''x'' None, backend_sample ''y'' None, tls_backend_sample]"

definition target_sample :: ReverseTcpProxyTarget where
  "target_sample = remote_target_of site_sample None"

definition tunnel_state_sample :: TunnelState where
  "tunnel_state_sample =
     \<lparr> active_connections = [7 \<mapsto> connection_sample 7], enable_global_traffic_inspection = False,
       monitored_connections = Map.empty, global_broadcast = [],
       tn_balancer = \<lparr> lb_access_count_per_hostname = [''a.dev'' \<mapsto> 4], bs_use_loopback = None \<rparr> \<rparr>"

lemmas tunnel_sample_defs = script_endpoint_def tls_backend_sample_def site_sample_def target_sample_def
  tunnel_state_sample_def remote_sample_def backend_sample_def remote_target_of_def connection_sample_def

definition hello_stream :: "(script, unit) ManagedStream" where
  "hello_stream = (script_stream [])\<lparr> ms_sealed := True, ms_is_tls := True \<rparr>"

lemma tls_tunnel_sample:
  "\<exists>s'. tunnel script_endpoint target_sample True True ''a.dev'' None False (TCP hello_stream) tunnel_state_sample =
     Some (Tunnelled (Some (TCP hello_stream, tls_backend_sample, Inr PlainBackend)), s')"
  by (simp add: tunnel_def prepare_tunnel_def terminate_incoming_def tunnel_sample_defs choose_backend_def
      peekresult_to_backend_filter_def remote_next_backend_def filter_backend_def pick_backend_def connect_tunnel_def
      run_managed_bidirectional_tunnel_def erect_tls_tunnel_def)

lemma tunnel_speaks_the_backends_protocol_witness:
  "is_set (bk_https tls_backend_sample) \<and> \<not> is_terminated (TCP hello_stream :: (script, unit, unit) GenericManagedStream)"
proof -
  obtain s' where "tunnel script_endpoint target_sample True True ''a.dev'' None False (TCP hello_stream) tunnel_state_sample =
     Some (Tunnelled (Some (TCP hello_stream, tls_backend_sample, Inr PlainBackend)), s')"
    using tls_tunnel_sample by blast
  from tunnel_speaks_the_backends_protocol [OF this] show ?thesis by simp
qed

lemma clear_tunnel_sample:
  "\<exists>s'. tunnel script_endpoint target_sample False False ''a.dev'' (Some HTTP_11) False (TCP (script_stream [])) tunnel_state_sample =
     Some (Tunnelled (Some (TCP (script_stream []), backend_sample ''y'' None, Inr PlainBackend)), s')"
  by (simp add: tunnel_def prepare_tunnel_def terminate_incoming_def tunnel_sample_defs choose_backend_def
      peekresult_to_backend_filter_def remote_next_backend_def filter_backend_def pick_backend_def connect_tunnel_def
      run_managed_bidirectional_tunnel_def erect_tls_tunnel_def)

lemma tunnels_take_turns_witness:
  "\<exists>s' r. tunnel script_endpoint target_sample False False ''a.dev'' (Some HTTP_11) False (TCP (script_stream [])) tunnel_state_sample
       = Some (r, s') \<and> choose_backend (tn_balancer s') target_sample Http1 = Some tls_backend_sample"
proof -
  obtain s' where t: "tunnel script_endpoint target_sample False False ''a.dev'' (Some HTTP_11) False (TCP (script_stream [])) tunnel_state_sample =
     Some (Tunnelled (Some (TCP (script_stream []), backend_sample ''y'' None, Inr PlainBackend)), s')"
    using clear_tunnel_sample by blast
  let ?e = "[backend_sample ''x'' None, backend_sample ''y'' None, tls_backend_sample]"
  have "choose_backend (tn_balancer s') target_sample Http1 = Some (?e ! (Suc 4 mod length ?e))"
    by (rule conjunct2 [OF tunnels_take_turns [where site = site_sample, OF _ _ _ _ _ _ _ t]])
       (simp_all add: tunnel_sample_defs peekresult_to_backend_filter_def filter_backend_def)
  with t show ?thesis by simp
qed

lemma tunnel_classified_witness:
  "\<exists>r s' c. connect_tunnel script_endpoint target_sample False False (backend_sample ''y'' None) (TCP (script_stream [])) tunnel_state_sample
       = (r, s') \<and> TcpEvent (Updated c) \<in> set (global_broadcast s') \<and>
     get_connection_type c = HttpPassthru target_sample (backend_sample ''y'' None)"
proof -
  obtain r s' where t: "connect_tunnel script_endpoint target_sample False False (backend_sample ''y'' None) (TCP (script_stream []))
      tunnel_state_sample = (Tunnelled (Some (TCP (script_stream []), backend_sample ''y'' None, r)), s')"
    by (simp add: connect_tunnel_def script_endpoint_def Let_def)
  have "tracked_as (TCP (script_stream []) :: (script, unit, unit) GenericManagedStream) False tunnel_state_sample"
    by (simp add: tracked_as_def on_stream_def get_id_def script_stream_def from_tcp_stream_def tunnel_state_sample_def connection_sample_def)
  from tunnel_classified [OF t this] show ?thesis
    using t by (auto simp: backend_sample_def)
qed

lemma passthru_reported_invalid_witness:
  "\<exists>r s' c. connect_tunnel script_endpoint target_sample True False tls_backend_sample (TCP hello_stream) tunnel_state_sample = (r, s') \<and>
     TcpEvent (Updated c) \<in> set (global_broadcast s') \<and>
     get_connection_type c = InvalidType True False False (Some (TlsTunnel target_sample tls_backend_sample))"
proof -
  obtain r s' where t: "connect_tunnel script_endpoint target_sample True False tls_backend_sample (TCP hello_stream)
      tunnel_state_sample = (Tunnelled (Some (TCP hello_stream, tls_backend_sample, r)), s')"
    by (simp add: connect_tunnel_def script_endpoint_def Let_def)
  have "tracked_as (TCP hello_stream :: (script, unit, unit) GenericManagedStream) False tunnel_state_sample"
    by (simp add: tracked_as_def on_stream_def get_id_def hello_stream_def script_stream_def from_tcp_stream_def tunnel_state_sample_def connection_sample_def)
  from passthru_reported_invalid [OF t this] show ?thesis
    using t by (auto simp: tls_backend_sample_def)
qed

end
