(* ===== verification/Proxy.thy ===== *)
theory Proxy
  imports Tunnel
begin

text \<open>
  What becomes of an accepted connection, \<open>handle_new_tcp_stream\<close> and \<open>use_fallback_mode\<close> of
  \<open>src/proxy.rs\<close>: peek, seal, track, then the admin service, a tunnel, or the service that terminates
  HTTP. \<open>handle_stream\<close> of \<open>src/api/mod.rs\<close> is the way into the admin service. Serving HTTP is
  hyper's: an outcome names what is handed over to it, with the state at that moment. A socket address is
  the text it prints as; the strings of \<open>add_event\<close> and log output are not modelled.
\<close>

section \<open>State\<close>

datatype ProcState = Faulty | Stopped | Starting | Stopping | Running | Remote | DirServerState | DockerState

datatype ProcMessage = StartAll | StopAll | Start string | Stop string | Delete string

record ProxyState = TunnelState +
  px_routing :: RoutingState
  px_site_status :: "string \<rightharpoonup> ProcState"
  px_sent :: "ProcMessage list"
  px_total_accepted :: nat
  px_odd_box_url :: "string option"

text \<open>The fields of the service template that differ between connections.\<close>

record ReverseProxyService =
  sv_source_addr :: "string option"
  sv_remote_addr :: "string option"
  sv_is_https :: bool
  sv_resolved_target :: "ReverseTcpProxyTarget option"
  sv_connection_key :: ConnectionKey
  sv_sni :: "string option"
  sv_host_header :: "string option"

text \<open>The texts of the forced termination.\<close>

datatype enforcement = RedirectToHttps | TerminateHttp | LetsEncrypt | RewriteHostHeader

datatype FallbackReason =
    HttpTerminationEnforced enforcement
  | IncomingHttp2ButTargetDoesNotSupportIt
  | FallbackH2CPriorKnowledge
  | UnknownReason PeekError
  | NoBackendFound
  | NoTargetFound

datatype ('s, 't, 'd) conn_outcome =
    HttpServed ReverseProxyService "('s, 't, 'd) GenericManagedStream"
  | ApiServed "('s, 't, 'd) GenericManagedStream"
  | ApiRefused
  | TunnelEnded "('s, 't, 'd) tunnel_result"
  | ConnectionIgnored

section \<open>The admin service\<close>

text \<open>\<open>handle_stream\<close>, with whether the socket still knows its peer.\<close>

definition terminated_marks :: "ProxyActiveTCPConnection \<Rightarrow> ProxyActiveTCPConnection" where
  "terminated_marks c = c\<lparr> pc_tls_terminated := True, pc_http_terminated := True \<rparr>"

text \<open>\<open>seal\<close> of the outer stream only.\<close>

definition seal_outer :: "('s, 't, 'd) GenericManagedStream \<Rightarrow> ('s, 't, 'd) GenericManagedStream" where
  "seal_outer g = on_stream (\<lambda>st. TCP (st\<lparr> ms_sealed := True \<rparr>)) (\<lambda>st. TerminatedTLS (st\<lparr> ms_sealed := True \<rparr>)) g"

definition handle_stream ::
  "('s, 't, 'd) endpoint \<Rightarrow> bool \<Rightarrow> bool \<Rightarrow> ('s, 't, 'd) GenericManagedStream \<Rightarrow> 'a ConnectionTable_scheme \<Rightarrow>
   ('s, 't, 'd) conn_outcome \<times> 'a ConnectionTable_scheme" where
  "handle_stream ep have_config peer_known stream s =
     (if \<not> have_config then (ApiRefused, drop_stream stream s)
      else
        (case stream of
           TCP st \<Rightarrow>
             (let st = st\<lparr> ms_sealed := True \<rparr> in
              if \<not> peer_known then (ApiRefused, drop_stream (seal_outer stream) s)
              else
                (case ep_accept ep st of
                   Some tls \<Rightarrow>
                     (let st = from_tls_stream (ep_decoder ep) tls;
                          s = mutate_tracked_connection (ms_tcp_connection_id st) terminated_marks s
                      in (ApiServed (seal_outer (from_terminated_tls_stream (st\<lparr> ms_sealed := True \<rparr>))), s))
                 | None \<Rightarrow> (ApiRefused, drop_stream (seal_outer stream) s)))
         | TerminatedTLS st \<Rightarrow>
             if \<not> peer_known then (ApiRefused, drop_stream stream s)
             else
               (let s = mutate_tracked_connection (ms_tcp_connection_id st) terminated_marks s
                in (ApiServed (seal_outer (from_terminated_tls_stream st)), s))))"

section \<open>Falling back to HTTP termination\<close>

definition use_fallback_mode ::
  "('s, 't, 'd) endpoint \<Rightarrow> bool \<Rightarrow> ('s, 't, 'd) GenericManagedStream \<Rightarrow> ReverseProxyService \<Rightarrow> FallbackReason \<Rightarrow>
   'a ConnectionTable_scheme \<Rightarrow> (('s, 't, 'd) conn_outcome \<times> 'a ConnectionTable_scheme) run" where
  "use_fallback_mode ep have_config stream service reason s =
     (case reason of
        UnknownReason _ \<Rightarrow> Some (ConnectionIgnored, drop_stream stream s)
      | _ \<Rightarrow>
          if have_config then
            (case stream of
               TCP st \<Rightarrow>
                 (case ep_accept ep st of
                    Some tls \<Rightarrow>
                      (let sni = tp_server_name (ep_transport ep) (fst tls);
                           service = service\<lparr> sv_is_https := True, sv_sni := sni \<rparr>;
                           new_peekable = from_terminated_tls_stream (from_tls_stream (ep_decoder ep) tls);
                           peeked = (if sv_remote_addr service \<noteq> None then
                                       map_option snd (peek_managed_stream (ep_transport ep) new_peekable s)
                                     else Some (new_peekable, s)) in
                       case peeked of
                         None \<Rightarrow> None
                       | Some (new_peekable, s) \<Rightarrow>
                           (let new_peekable = enable_observe (seal new_peekable);
                                s = update_tracked_info new_peekable
                                      (\<lambda>x. x\<lparr> pc_http_terminated := True, pc_tls_terminated := True,
                                               pc_incoming_connection_uses_tls := True, pc_incoming_sni := sni \<rparr>) s
                            in Some (HttpServed service new_peekable, s)))
                  | None \<Rightarrow> Some (ConnectionIgnored, drop_stream stream s))
             | TerminatedTLS _ \<Rightarrow>
                 Some (HttpServed (service\<lparr> sv_is_https := True \<rparr>) stream, update_tracked_info stream terminated_marks s))
          else
            (let stream = enable_observe stream
             in Some (HttpServed service stream,
                      update_tracked_info stream (\<lambda>x. x\<lparr> pc_http_terminated := True \<rparr>) s)))"

section \<open>Which connections must be terminated\<close>

text \<open>
  The checks before a tunnel, in the order of the code: for a hosted process, then for a remote site.
  \<open>None\<close>: go on to the tunnel.
\<close>

definition http2_hint :: "bool \<Rightarrow> bool \<Rightarrow> Hint \<Rightarrow> bool" where
  "http2_hint is_tls is_h2c h \<longleftrightarrow> h = H2 \<or> \<not> is_tls \<and> \<not> is_h2c \<and> h = H2CPK"

definition hosted_guard :: "InProcessSiteConfig \<Rightarrow> bool \<Rightarrow> http_version option \<Rightarrow> bool \<Rightarrow> FallbackReason option" where
  "hosted_guard cfg is_tls version is_h2c =
     (if \<not> is_tls \<and> is_set (hp_redirect_to_https cfg) then Some (HttpTerminationEnforced RedirectToHttps)
      else
        (let hints = unwrap_or (hp_hints cfg) [] in
         if is_set (hp_terminate_http cfg) then Some (HttpTerminationEnforced TerminateHttp)
         else if is_set (hp_enable_lets_encrypt cfg) then Some (HttpTerminationEnforced LetsEncrypt)
         else if version = Some HTTP_2 then
           (if list_ex (http2_hint is_tls is_h2c) hints then None
            else Some IncomingHttp2ButTargetDoesNotSupportIt)
         else if is_h2c then (if list_ex (\<lambda>h. h = H2C) hints then None else Some NoBackendFound)
         else None))"

definition remote_guard :: "RemoteSiteConfig \<Rightarrow> bool \<Rightarrow> http_version option \<Rightarrow> bool \<Rightarrow> FallbackReason option" where
  "remote_guard cfg is_tls version is_h2c =
     (if \<not> is_tls \<and> is_set (rs_redirect_to_https cfg) then Some (HttpTerminationEnforced RedirectToHttps)
      else
        (let hints = concat (map (\<lambda>b. unwrap_or (bk_hints b) []) (rs_backends cfg)) in
         if is_set (rs_terminate_http cfg) then Some (HttpTerminationEnforced TerminateHttp)
         else if is_set (rs_enable_lets_encrypt cfg) then Some (HttpTerminationEnforced LetsEncrypt)
         else if \<not> is_set (rs_keep_original_host_header cfg) \<and>
                 \<not> list_all (\<lambda>x. bk_address x = ''127.0.0.1'' \<or> bk_address x = ''localhost'') (rs_backends cfg) then
           Some (HttpTerminationEnforced RewriteHostHeader)
         else if version = Some HTTP_2 then
           (if list_ex (http2_hint is_tls is_h2c) hints then None else Some NoBackendFound)
         else if is_h2c then (if list_ex (\<lambda>h. h = H2C) hints then None else Some NoBackendFound)
         else None))"

definition tunnel_guard :: "ReverseTcpProxyTarget \<Rightarrow> bool \<Rightarrow> http_version option \<Rightarrow> bool \<Rightarrow> FallbackReason option" where
  "tunnel_guard target is_tls version is_h2c =
     (if tg_is_hosted target then
        (case tg_hosted_target_config target of Some cfg \<Rightarrow> hosted_guard cfg is_tls version is_h2c | None \<Rightarrow> None)
      else
        (case tg_remote_target_config target of Some cfg \<Rightarrow> remote_guard cfg is_tls version is_h2c | None \<Rightarrow> None))"

text \<open>A stopped hosted process is told to start before the tunnel is tried.\<close>

definition wake_process :: "ReverseTcpProxyTarget \<Rightarrow> 'a ProxyState_scheme \<Rightarrow> 'a ProxyState_scheme" where
  "wake_process target s =
     (if tg_is_hosted target \<and> px_site_status s (tg_host_name target) = Some Stopped then
        s\<lparr> px_sent := px_sent s @ [Start (tg_host_name target)] \<rparr>
      else s)"

section \<open>A new connection\<close>

text \<open>\<open>api\<close> tells whether the listener has an admin service: only the TLS listener does.\<close>

definition for_api :: "bool \<Rightarrow> string option \<Rightarrow> string option \<Rightarrow> bool" where
  "for_api api odd_box_url host =
     (api \<and>
      (case host of
         Some x \<Rightarrow> x = ''oddbox.localhost'' \<or> x = ''odd-box.localhost'' \<or> x = ''localhost'' \<or> x = unwrap_or odd_box_url ''!''
       | None \<Rightarrow> False))"

definition serve_target ::
  "('s, 't, 'd) endpoint \<Rightarrow> bool \<Rightarrow> ReverseTcpProxyTarget \<Rightarrow> string \<Rightarrow> PeekResult \<Rightarrow> ReverseProxyService \<Rightarrow>
   ('s, 't, 'd) GenericManagedStream \<Rightarrow> 'a ProxyState_scheme \<Rightarrow> (('s, 't, 'd) conn_outcome \<times> 'a ProxyState_scheme) run" where
  "serve_target ep have_config target host peeked service stream s =
     (let is_tls = (pk_typ peeked = TLS); service = service\<lparr> sv_resolved_target := Some target \<rparr> in
      case tunnel_guard target is_tls (pk_http_version peeked) (pk_is_h2c_upgrade peeked) of
        Some reason \<Rightarrow> use_fallback_mode ep have_config stream service reason s
      | None \<Rightarrow>
          (case tunnel ep target is_tls have_config host (pk_http_version peeked) (pk_is_h2c_upgrade peeked) stream
                  (wake_process target s) of
             None \<Rightarrow> None
           | Some (NoUsableBackendFound stream, s) \<Rightarrow> use_fallback_mode ep have_config stream service NoBackendFound s
           | Some (r, s) \<Rightarrow> Some (TunnelEnded r, s)))"

definition handle_peeked ::
  "(string \<Rightarrow> string) \<Rightarrow> ('s, 't, 'd) endpoint \<Rightarrow> bool \<Rightarrow> bool \<Rightarrow> bool \<Rightarrow> PeekResult \<Rightarrow> ReverseProxyService \<Rightarrow>
   ('s, 't, 'd) GenericManagedStream \<Rightarrow> 'a ProxyState_scheme \<Rightarrow> (('s, 't, 'd) conn_outcome \<times> 'a ProxyState_scheme) run" where
  "handle_peeked up ep have_config api peer_known peeked service stream s =
     (let service = service\<lparr> sv_host_header := pk_host_header peeked, sv_sni := pk_sni peeked \<rparr>;
          stream = save_peek_result peeked stream in
      if for_api api (px_odd_box_url s) (pk_target_host peeked) then
        (let s = update_tracked_info stream (\<lambda>x. x\<lparr> pc_http_terminated := True \<rparr>) s
         in Some (handle_stream ep have_config peer_known stream s))
      else
        (case (case pk_target_host peeked of Some n \<Rightarrow> Some n | None \<Rightarrow> pk_sni peeked) of
           None \<Rightarrow> Some (HttpServed service stream, s)
         | Some host \<Rightarrow>
             (case try_find_site up host (px_routing s) of
                None \<Rightarrow> None
              | Some (found, routing) \<Rightarrow>
                  (let s = s\<lparr> px_routing := routing \<rparr> in
                   case found of
                     Some target \<Rightarrow> serve_target ep have_config target host peeked service stream s
                   | None \<Rightarrow> use_fallback_mode ep have_config stream service NoTargetFound s))))"

definition handle_new_tcp_stream ::
  "(string \<Rightarrow> string) \<Rightarrow> (bool \<Rightarrow> bool \<Rightarrow> bool \<Rightarrow> OutgoingTunnelType option \<Rightarrow> string) \<Rightarrow> nat \<Rightarrow> ('s, 't, 'd) endpoint \<Rightarrow>
   bool \<Rightarrow> bool \<Rightarrow> string option \<Rightarrow> string option \<Rightarrow> string \<Rightarrow> ConnectionKey \<Rightarrow> 's \<Rightarrow> ReverseProxyService \<Rightarrow>
   'a ProxyState_scheme \<Rightarrow> (('s, 't, 'd) conn_outcome \<times> 'a ProxyState_scheme) run" where
  "handle_new_tcp_stream up dbg now ep have_config api peer_addr local_addr source_addr key tcp_stream service s =
     (case peek_managed_stream (ep_transport ep) (TCP (from_tcp_stream key (ep_decoder ep) tcp_stream)) s of
        None \<Rightarrow> None
      | Some (peek_result, stream, s) \<Rightarrow>
          (let stream = seal stream;
               s = track dbg now peer_addr local_addr stream s;
               service = service\<lparr> sv_connection_key := get_id stream, sv_source_addr := Some source_addr \<rparr>;
               s = s\<lparr> px_total_accepted := (px_total_accepted s + 1) mod 2 ^ 64 \<rparr> in
           case peek_result of
             Inr peeked \<Rightarrow> handle_peeked up ep have_config api (peer_addr \<noteq> None) peeked service stream s
           | Inl H2PriorKnowledgeNeedsToBeTerminated \<Rightarrow>
               use_fallback_mode ep have_config stream service FallbackH2CPriorKnowledge s
           | Inl StreamIsClosed \<Rightarrow> Some (ConnectionIgnored, drop_stream stream s)
           | Inl e \<Rightarrow> use_fallback_mode ep have_config stream service (UnknownReason e) s))"

section \<open>Which connections are tunnelled\<close>

text \<open>C1: A connection is tunnelled only if the settings of its site leave room for it: never
  when it terminates HTTP, uses Let's Encrypt, redirects a plain connection to HTTPS, or, for a
  remote site, must have its host header rewritten.\<close>

theorem tunnelled_only_if_allowed:
  assumes "serve_target ep have_config target host peeked service stream s = Some (TunnelEnded r, s')"
  shows "(\<forall>cfg. tg_is_hosted target \<and> tg_hosted_target_config target = Some cfg \<longrightarrow>
            \<not> is_set (hp_terminate_http cfg) \<and> \<not> is_set (hp_enable_lets_encrypt cfg) \<and>
            (pk_typ peeked \<noteq> TLS \<longrightarrow> \<not> is_set (hp_redirect_to_https cfg))) \<and>
         (\<forall>cfg. \<not> tg_is_hosted target \<and> tg_remote_target_config target = Some cfg \<longrightarrow>
            \<not> is_set (rs_terminate_http cfg) \<and> \<not> is_set (rs_enable_lets_encrypt cfg) \<and>
            (pk_typ peeked \<noteq> TLS \<longrightarrow> \<not> is_set (rs_redirect_to_https cfg)) \<and>
            (is_set (rs_keep_original_host_header cfg) \<or>
             list_all (\<lambda>x. bk_address x \<in> {''127.0.0.1'', ''localhost''}) (rs_backends cfg)))"
proof -
  have fb: "use_fallback_mode ep have_config g sv reason t \<noteq> Some (TunnelEnded r, s')" for g sv reason t
    by (auto simp: use_fallback_mode_def Let_def split: FallbackReason.splits option.splits GenericManagedStream.splits if_splits)
  with assms have "tunnel_guard target (pk_typ peeked = TLS) (pk_http_version peeked) (pk_is_h2c_upgrade peeked) = None"
    by (auto simp: serve_target_def Let_def split: option.splits)
  then show ?thesis
    by (auto simp: tunnel_guard_def hosted_guard_def remote_guard_def Let_def list_all_iff split: if_splits)
qed

section \<open>What is served over TLS\<close>

lemma fallback_served:
  assumes "use_fallback_mode ep have_config g service reason s = Some (HttpServed sv g', s')"
    and "is_terminated g \<longrightarrow> have_config" and "\<not> sv_is_https service"
  shows "is_terminated g' = have_config \<and> sv_is_https sv = have_config"
proof -
  show ?thesis
    using assms
    by (auto simp: use_fallback_mode_def Let_def peek_kept split: FallbackReason.splits option.splits GenericManagedStream.splits if_splits prod.splits)
qed


lemma fallback_plain:
  assumes "use_fallback_mode ep have_config (TCP st) service reason s = Some (HttpServed sv g', s')"
  shows "sv_is_https service \<or> is_terminated g' = have_config \<and> sv_is_https sv = have_config"
  using fallback_served [OF assms] by auto

lemma tunnel_unusable:
  fixes ep :: "('s, 't, 'd) endpoint"
  assumes "tunnel ep target tls have_config host version h2c (TCP st) s = Some (NoUsableBackendFound g, s')"
  shows "is_terminated g \<longrightarrow> have_config"
proof -
  obtain res s1 where p: "prepare_tunnel ep target tls have_config host version h2c (TCP st) s = Some (res, s1)"
    using assms by (auto simp: tunnel_def split: option.splits)
  have "prepare_tunnel ep target tls False host version h2c (TCP st) s = Some (Inr (trm, g, flt), s2) \<Longrightarrow> \<not> is_terminated g"
    for trm flt s2 by (auto simp: prepare_tunnel_def split: if_splits)
  moreover have "connect_tunnel ep target tls trm b gs s1 \<noteq> (NoUsableBackendFound g, s')" for trm b and gs :: "('s, 't, 'd) GenericManagedStream"
    by (auto simp: connect_tunnel_def Let_def split: option.splits)
  moreover have "res \<noteq> Inl (NoUsableBackendFound g)"
    using p by (auto simp: prepare_tunnel_def Let_def split: if_splits option.splits prod.splits sum.splits)
  ultimately show ?thesis
    using assms p by (cases have_config) (auto simp: tunnel_def split: sum.splits option.splits prod.splits)
qed

lemma serve_target_served:
  assumes "serve_target ep have_config target host peeked service (TCP st) s = Some (HttpServed sv g, s')"
  shows "sv_is_https service \<or> is_terminated g = have_config \<and> sv_is_https sv = have_config"
proof (cases "sv_is_https service")
  case False
  then have h: "\<not> sv_is_https (service\<lparr> sv_resolved_target := Some target \<rparr>)" by simp
  show ?thesis
  proof (cases "tunnel_guard target (pk_typ peeked = TLS) (pk_http_version peeked) (pk_is_h2c_upgrade peeked)")
    case (Some reason)
    with assms(1) show ?thesis by (auto simp: serve_target_def dest!: fallback_plain)
  next
    case None
    with assms(1) obtain g1 s1 where "tunnel ep target (pk_typ peeked = TLS) have_config host (pk_http_version peeked)
        (pk_is_h2c_upgrade peeked) (TCP st) (wake_process target s) = Some (NoUsableBackendFound g1, s1)"
      and f: "use_fallback_mode ep have_config g1 (service\<lparr> sv_resolved_target := Some target \<rparr>) NoBackendFound s1 = Some (HttpServed sv g, s')"
      by (auto simp: serve_target_def split: option.splits tunnel_result.splits)
    then have "is_terminated g1 \<longrightarrow> have_config" by (blast dest: tunnel_unusable)
    from fallback_served [OF f this h] show ?thesis by simp
  qed
qed simp

lemma plain_peek_turn:
  assumes "peek_turn_of tp g table = Some (Answer (Inr r), g', table')" and "\<not> is_terminated g"
  shows "pk_target_host r \<noteq> None"
proof -
  obtain a g1 where a: "peek_async tp g = (a, g1)" by fastforce
  have nt: "\<not> is_terminated g1" using a assms(2) by simp
  have h2: "set_h2_observer ob (set_http_version v (mark_as_http2 (enable_observe g1))) \<noteq> TerminatedTLS x" for ob v x
    using nt by (auto dest: arg_cong [where f = is_terminated])
  show ?thesis
    using assms(1) a h2
    by (auto simp: peek_turn_of_def peek_hello_def peek_cleartext_def peek_http2_def Let_def
        split: option.splits if_splits list.splits sum.splits prod.splits TlsClientHelloError.splits
          GenericManagedStream.splits)
qed

lemma plain_peek_host:
  fixes tp :: "('s, 't, 'd) transport"
  assumes "peek_managed_stream tp (TCP st) table = Some (Inr r, g', table')"
  shows "pk_target_host r \<noteq> None"
proof -
  have "\<not> is_terminated (TCP st :: ('s, 't, 'd) GenericManagedStream) \<longrightarrow> (\<forall>q. fst (Inr r :: PeekError + PeekResult, g', table') = Inr q \<longrightarrow> pk_target_host q \<noteq> None)"
    by (rule peek_loop_induct [OF assms [unfolded peek_managed_stream_def], of "\<lambda>a g tb x. \<not> is_terminated g \<longrightarrow> (\<forall>q. fst x = Inr q \<longrightarrow> pk_target_host q \<noteq> None)"])
       (auto dest: peek_turn_kept plain_peek_turn)
  then show ?thesis by simp
qed

lemma handle_peeked_served:
  fixes ep :: "('s, 't, 'd) endpoint"
  assumes "handle_peeked up ep have_config api known peeked service (TCP st) s = Some (HttpServed sv g, s')"
    and "pk_target_host peeked \<noteq> None"
  shows "sv_is_https service \<or> is_terminated g = have_config \<and> sv_is_https sv = have_config"
proof -
  obtain st' where st': "save_peek_result peeked (TCP st) = (TCP st' :: ('s, 't, 'd) GenericManagedStream)"
    by (simp add: save_peek_result_def on_stream_def)
  show ?thesis
    using assms(1,2)
    by (auto simp: handle_peeked_def st' Let_def handle_stream_def
        split: option.splits if_splits prod.splits
        dest!: serve_target_served fallback_plain)
qed

text \<open>C6: A connection that is handed to the HTTP service is marked HTTPS exactly when its TLS
  has been terminated, which is exactly when it came over the TLS listener.\<close>

theorem https_exactly_when_terminated:
  fixes ep :: "('s, 't, 'd) endpoint"
  assumes "handle_new_tcp_stream up dbg now ep have_config api peer_addr local_addr source_addr key tcp service s =
      Some (HttpServed sv g, s')" and "\<not> sv_is_https service"
  shows "is_terminated g = have_config \<and> sv_is_https sv = have_config"
proof -
  obtain r g1 s1 where p: "peek_managed_stream (ep_transport ep) (TCP (from_tcp_stream key (ep_decoder ep) tcp)) s = Some (r, g1, s1)"
    using assms(1) by (auto simp: handle_new_tcp_stream_def split: option.splits)
  have "\<not> is_terminated (seal g1)" using peek_kept(2) [OF p] by simp
  then obtain st where st: "seal g1 = TCP st" by (cases "seal g1") auto
  show ?thesis
  proof (cases r)
    case (Inl e)
    then show ?thesis
      using assms p by (auto simp: handle_new_tcp_stream_def Let_def st split: PeekError.splits dest!: fallback_plain)
  next
    case (Inr peeked)
    then have "pk_target_host peeked \<noteq> None" using plain_peek_host p by blast
    with Inr show ?thesis
      using assms p by (auto simp: handle_new_tcp_stream_def Let_def st dest!: handle_peeked_served)
  qed
qed


section \<open>Nothing is lost on the way into a tunnel\<close>

lemma tunnelled_stream:
  fixes ep :: "('s, 't, 'd) endpoint"
  assumes "tunnel ep target tls have_config host version h2c (TCP c) s = Some (Tunnelled (Some (TCP st, b, r)), s')"
  shows "st = c"
proof -
  obtain trm flt s1 where p: "prepare_tunnel ep target tls have_config host version h2c (TCP c) s = Some (Inr (trm, TCP st, Some flt), s1)"
    using assms by (rule tunnel_relays)
  from prepared_stream [OF p] show ?thesis by auto
qed

lemma fallback_not_tunnelled [simp]: "use_fallback_mode ep have_config g sv reason t \<noteq> Some (TunnelEnded r, s')"
  by (auto simp: use_fallback_mode_def Let_def split: FallbackReason.splits option.splits GenericManagedStream.splits if_splits)

lemma serve_target_tunnelled:
  assumes "serve_target ep have_config target host peeked service (TCP c) s = Some (TunnelEnded (Tunnelled (Some (TCP st, b, r))), s')"
  shows "st = c"
  using assms
  by (auto simp: serve_target_def Let_def dest!: tunnelled_stream split: option.splits tunnel_result.splits)


section \<open>How a served connection is classified\<close>

definition accept_law :: "('s, 't, 'd) endpoint \<Rightarrow> bool" where
  "accept_law ep \<longleftrightarrow>
     (\<forall>st session inner. ep_accept ep st = Some (session, inner) \<longrightarrow> ms_tcp_connection_id inner = ms_tcp_connection_id st)"

definition flags_ok :: "('s, 't, 'd) GenericManagedStream \<Rightarrow> bool" where
  "flags_ok g \<longleftrightarrow>
     on_stream (\<lambda>st. \<not> ms_is_tls_terminated st \<and> \<not> ms_is_http_terminated st)
               (\<lambda>st. ms_is_tls st \<and> ms_is_tls_terminated st \<and> \<not> ms_is_http_terminated st) g"

lemma flags_ok_marks [simp]:
  "flags_ok g \<Longrightarrow> flags_ok (mark_as_tls g)" "flags_ok (mark_as_http2 g) = flags_ok g"
  "flags_ok (set_http_version v g) = flags_ok g" "flags_ok (set_h2c_header b g) = flags_ok g"
  "flags_ok (set_h2_observer ob g) = flags_ok g" "flags_ok (enable_observe g) = flags_ok g"
  "flags_ok (seal g) = flags_ok g" "flags_ok (save_peek_result r g) = flags_ok g"
  by (cases g; auto simp: flags_ok_def mark_as_tls_def mark_as_http2_def set_http_version_def set_h2c_header_def
      set_h2_observer_def enable_observe_def seal_def save_peek_result_def on_stream_def split: prod.splits)+

lemma flags_ok_peek [simp]: "peek_async tp g = (r, g') \<Longrightarrow> flags_ok g' = flags_ok g"
  by (cases g) (auto simp: peek_async_def on_stream_def peek_tcp_def peek_tls_def flags_ok_def Let_def
      split: prod.splits if_splits try_read.splits poll.splits)

lemma new_streams [simp]:
  "flags_ok (TCP (from_tcp_stream key d s))" "get_id (TCP (from_tcp_stream key d s)) = key"
  "flags_ok (from_terminated_tls_stream (from_tls_stream d tls))"
  "get_id (from_terminated_tls_stream (from_tls_stream d tls)) = ms_tcp_connection_id (snd tls)"
  by (auto simp: flags_ok_def from_tcp_stream_def on_stream_def get_id_def from_terminated_tls_stream_def
      from_tls_stream_def split: prod.splits)

text \<open>An entry that no tunnel has been set on, changed fewer than \<open>n\<close> times.\<close>

definition entry_ok :: "nat \<Rightarrow> ConnectionKey \<Rightarrow> 'a ConnectionTable_scheme \<Rightarrow> bool" where
  "entry_ok n key s \<longleftrightarrow>
     (\<exists>c. active_connections s key = Some c \<and> 1 \<le> unat (pc_version c) \<and> unat (pc_version c) \<le> n \<and>
          pc_outgoing_tunnel_type c = None)"

lemma unat_plus_one: "unat v \<le> n \<Longrightarrow> n < 100 \<Longrightarrow> unat (v + 1 :: u64) = unat v + 1"
  by (subst unat_word_ariths) simp

lemma entry_ok_mono: "entry_ok n key s \<Longrightarrow> n \<le> m \<Longrightarrow> entry_ok m key s"
  by (auto simp: entry_ok_def)

lemma entry_ok_mutate:
  assumes "entry_ok n key s" and "n < 100" and "\<And>c. pc_outgoing_tunnel_type (f c) = pc_outgoing_tunnel_type c"
  shows "entry_ok (Suc n) key (mutate_tracked_connection k f s)"
  using assms by (auto simp: entry_ok_def mutate_tracked_connection_def Let_def unat_plus_one split: option.splits)

lemma entry_ok_update:
  assumes "entry_ok n key s" and "n < 100" and "\<And>c. pc_outgoing_tunnel_type (f c) = pc_outgoing_tunnel_type c"
  shows "entry_ok (Suc n) key (update_tracked_info g f s)"
  unfolding update_tracked_info_def by (rule entry_ok_mutate) (use assms in \<open>auto simp: on_stream_def split: GenericManagedStream.splits\<close>)

lemma entry_ok_track [simp]: "entry_ok 1 (get_id g) (track dbg now p l g s)"
  by (simp add: entry_ok_def track_def add_or_update_connection_def Let_def)


lemma peek_turn_id:
  fixes g :: "('s, 't, 'd) GenericManagedStream"
  assumes "peek_turn_of tp g table = Some (t, g', table')"
  shows "get_id g' = get_id g"
proof -
  obtain a g1 where a: "peek_async tp g = (a, g1)" by fastforce
  show ?thesis
    using assms a
    by (auto simp: peek_turn_of_def peek_hello_def peek_cleartext_def peek_http2_def Let_def
        split: option.splits if_splits list.splits sum.splits prod.splits TlsClientHelloError.splits
          GenericManagedStream.splits dest!: arg_cong [where f = "get_id :: ('s, 't, 'd) GenericManagedStream \<Rightarrow> _"])
qed

lemma peek_turn_flags:
  fixes g :: "('s, 't, 'd) GenericManagedStream"
  assumes "peek_turn_of tp g table = Some (t, g', table')" and "flags_ok g"
  shows "flags_ok g'"
proof -
  obtain a g1 where a: "peek_async tp g = (a, g1)" by fastforce
  show ?thesis
    using assms a
    by (auto simp: peek_turn_of_def peek_hello_def peek_cleartext_def peek_http2_def Let_def
        split: option.splits if_splits list.splits sum.splits prod.splits TlsClientHelloError.splits
          GenericManagedStream.splits dest!: arg_cong [where f = "flags_ok :: ('s, 't, 'd) GenericManagedStream \<Rightarrow> _"])
qed

lemma peek_turn_entry:
  assumes "peek_turn_of tp g table = Some (t, g', table')" and "entry_ok n key table" and "n < 99"
  shows "entry_ok (case t of Again _ \<Rightarrow> n | Answer _ \<Rightarrow> Suc n) key table'"
proof -
  obtain a g1 where a: "peek_async tp g = (a, g1)" by fastforce
  have up: "entry_ok (Suc n) key (sni_seen g2 h table)" for g2 :: "('a, 'b, 'c) GenericManagedStream" and h
    unfolding sni_seen_def by (rule entry_ok_update) (use assms in simp_all)
  have same: "entry_ok (Suc n) key table" by (rule entry_ok_mono [OF assms(2)]) simp
  show ?thesis
    using assms a up same
    by (auto simp: peek_turn_of_def peek_hello_def peek_cleartext_def peek_http2_def Let_def
        split: option.splits if_splits list.splits sum.splits prod.splits TlsClientHelloError.splits
          GenericManagedStream.splits)
qed

lemma peek_entry:
  fixes g :: "('s, 't, 'd) GenericManagedStream"
  assumes "peek_managed_stream tp g table = Some (r, g', table')"
  shows "get_id g' = get_id g" and "flags_ok g \<Longrightarrow> flags_ok g'"
    and "entry_ok n key table \<Longrightarrow> n < 99 \<Longrightarrow> entry_ok (Suc n) key table'"
proof -
  have "get_id (fst (snd (r, g', table'))) = get_id g \<and> (flags_ok g \<longrightarrow> flags_ok (fst (snd (r, g', table')))) \<and>
      (entry_ok n key table \<and> n < 99 \<longrightarrow> entry_ok (Suc n) key (snd (snd (r, g', table'))))"
    by (rule peek_loop_induct [OF assms [unfolded peek_managed_stream_def]])
       (auto dest: peek_turn_id peek_turn_flags peek_turn_entry elim: entry_ok_mono)
  then show "get_id g' = get_id g" and "flags_ok g \<Longrightarrow> flags_ok g'"
    and "entry_ok n key table \<Longrightarrow> n < 99 \<Longrightarrow> entry_ok (Suc n) key table'" by auto
qed

lemma prepared_entry:
  fixes ep :: "('s, 't, 'd) endpoint"
  assumes "prepare_tunnel ep target tls have_config host version h2c (TCP st) s = Some (Inr (trm, g, flt), s')"
    and "accept_law ep" and "flags_ok (TCP st :: ('s, 't, 'd) GenericManagedStream)" and "entry_ok n key s" and "n < 99"
  shows "get_id g = ms_tcp_connection_id st \<and> flags_ok g \<and> entry_ok (Suc n) key s'"
proof (cases "terminate_incoming target tls")
  case False
  with assms show ?thesis
    by (auto simp: prepare_tunnel_def get_id_def on_stream_def elim: entry_ok_mono)
next
  case True
  with assms(1) obtain session inner where a: "ep_accept ep st = Some (session, inner)"
    by (auto simp: prepare_tunnel_def split: if_splits option.splits)
  define gen :: "('s, 't, 'd) GenericManagedStream" where
    "gen = from_terminated_tls_stream (from_tls_stream (ep_decoder ep) (session, inner\<lparr> ms_is_tls_terminated := True \<rparr>))"
  from assms(1) True a obtain r g1 where p: "peek_managed_stream (ep_transport ep) gen s = Some (Inr r, g1, s')" and g: "g = seal g1"
    by (auto simp: prepare_tunnel_def gen_def Let_def split: if_splits option.splits sum.splits)
  have "get_id gen = ms_tcp_connection_id st" "flags_ok gen"
    using a assms(2) by (simp_all add: gen_def accept_law_def)
  with peek_entry(1,2) [OF p] peek_entry(3) [OF p assms(4,5)] show ?thesis by (simp add: g)
qed

lemma unusable_entry:
  fixes ep :: "('s, 't, 'd) endpoint"
  assumes "tunnel ep target tls have_config host version h2c (TCP st) s = Some (NoUsableBackendFound g, s')"
    and "accept_law ep" and "flags_ok (TCP st :: ('s, 't, 'd) GenericManagedStream)" and "entry_ok n key s" and "n < 99"
  shows "get_id g = ms_tcp_connection_id st \<and> flags_ok g \<and> entry_ok (Suc n) key s'"
proof -
  obtain res s1 where p: "prepare_tunnel ep target tls have_config host version h2c (TCP st) s = Some (res, s1)"
    using assms(1) by (auto simp: tunnel_def split: option.splits)
  have 1: "connect_tunnel ep target tls trm b gs s1 \<noteq> (NoUsableBackendFound g, s')" for trm b and gs :: "('s, 't, 'd) GenericManagedStream"
    by (auto simp: connect_tunnel_def Let_def split: option.splits)
  have 2: "res \<noteq> Inl (NoUsableBackendFound g)"
    using p by (auto simp: prepare_tunnel_def Let_def split: if_splits option.splits prod.splits sum.splits)
  from assms(1) p 1 2 obtain trm flt where "res = Inr (trm, g, flt)" "s1 = s'"
    by (auto simp: tunnel_def split: sum.splits option.splits prod.splits)
  with prepared_entry [OF _ assms(2-5)] p show ?thesis by blast
qed

text \<open>The type of a connection served here: by its listener, and by whether its client spoke TLS.\<close>

definition served_type :: "bool \<Rightarrow> bool \<Rightarrow> ConnectionType" where
  "served_type on_tls_listener uses_tls =
     (if on_tls_listener then TlsTermination else if uses_tls then InvalidType True False True None else HttpTermination)"

definition served_as :: "ConnectionKey \<Rightarrow> bool \<Rightarrow> 'a ConnectionTable_scheme \<Rightarrow> bool" where
  "served_as key on_tls_listener s \<longleftrightarrow>
     (\<exists>c. active_connections s key = Some c \<and>
          get_connection_type c = served_type on_tls_listener (pc_incoming_connection_uses_tls c))"

lemma served_as_entry:
  "active_connections s key = Some c \<Longrightarrow>
     served_as key b s \<longleftrightarrow> get_connection_type c = served_type b (pc_incoming_connection_uses_tls c)"
  by (simp add: served_as_def)

lemma mutated_entry:
  "active_connections s key = Some c \<Longrightarrow>
     active_connections (mutate_tracked_connection key f s) key = Some ((f c)\<lparr> pc_version := pc_version c + 1 \<rparr>)"
  by (simp add: mutate_tracked_connection_def Let_def)

lemma update_classified:
  assumes "entry_ok n (get_id g) s" and "n < 99" and "flags_ok g"
    and "\<And>c. pc_outgoing_tunnel_type (f c) = pc_outgoing_tunnel_type c" and "\<And>c. pc_http_terminated (f c)"
    and "\<And>c. pc_tls_terminated c \<Longrightarrow> pc_tls_terminated (f c)"
    and "\<And>c. pc_incoming_connection_uses_tls c \<Longrightarrow> pc_incoming_connection_uses_tls (f c)"
    and "\<not> is_terminated g \<Longrightarrow> f = (\<lambda>c. c\<lparr> pc_http_terminated := True \<rparr>)"
  shows "served_as (get_id g) (is_terminated g) (update_tracked_info g f s)"
proof -
  obtain c where c: "active_connections s (get_id g) = Some c" "1 \<le> unat (pc_version c)" "unat (pc_version c) \<le> n"
      "pc_outgoing_tunnel_type c = None"
    using assms(1) by (auto simp: entry_ok_def)
  have v: "pc_version c + 1 \<noteq> 1" using c(2) by auto
  show ?thesis
  proof (cases g)
    case (TCP st)
    then have f: "f = (\<lambda>c. c\<lparr> pc_http_terminated := True \<rparr>)" using assms(8) by simp
    show ?thesis
      unfolding update_tracked_info_def served_as_entry [OF mutated_entry [OF c(1)]]
      using TCP v c(4) assms(3)
      by (simp add: f served_type_def on_stream_def flags_ok_def get_connection_type_def split: bool.splits)
  next
    case (TerminatedTLS st)
    define c2 where "c2 = c\<lparr> pc_incoming_connection_uses_tls := ms_is_tls st,
        pc_tls_terminated := ms_is_tls_terminated st, pc_http_terminated := ms_is_http_terminated st \<rparr>"
    have "pc_incoming_connection_uses_tls (f c2)" "pc_tls_terminated (f c2)" "pc_http_terminated (f c2)"
      "pc_outgoing_tunnel_type (f c2) = None"
      using TerminatedTLS assms(3-7) c(4) by (auto simp: c2_def flags_ok_def on_stream_def)
    then show ?thesis
      unfolding update_tracked_info_def served_as_entry [OF mutated_entry [OF c(1)]]
      using TerminatedTLS v
      by (simp add: served_type_def on_stream_def get_connection_type_def flip: c2_def)
  qed
qed

lemma fallback_classified:
  fixes g :: "('s, 't, 'd) GenericManagedStream"
  assumes "use_fallback_mode ep have_config g service reason s = Some (HttpServed sv g', s')"
    and "accept_law ep" and "flags_ok g" and "entry_ok n (get_id g) s" and "n < 98" and "is_terminated g \<longrightarrow> have_config"
  shows "served_as (get_id g) have_config s'"
proof (cases "have_config \<and> \<not> is_terminated g")
  case False
  with assms show ?thesis
    using update_classified [of n g s terminated_marks]
      update_classified [of n "enable_observe g" s "\<lambda>x. x\<lparr> pc_http_terminated := True \<rparr>"]
    by (auto simp: use_fallback_mode_def Let_def terminated_marks_def
        split: FallbackReason.splits GenericManagedStream.splits if_splits option.splits)
next
  case True
  then obtain st where st: "g = TCP st" and hc: have_config by (cases g) auto
  with assms(1) obtain tls where a: "ep_accept ep st = Some tls"
    by (auto simp: use_fallback_mode_def split: FallbackReason.splits option.splits)
  define gen where "gen = from_terminated_tls_stream (from_tls_stream (ep_decoder ep) tls)"
  have gen: "flags_ok gen" "is_terminated gen" "get_id gen = ms_tcp_connection_id st"
    using a assms(2) by (cases tls; simp add: gen_def accept_law_def)+
  obtain g1 s1 sni where g1: "g1 = gen \<and> s1 = s \<or> (\<exists>r. peek_managed_stream (ep_transport ep) gen s = Some (r, g1, s1))"
    and s': "s' = update_tracked_info (enable_observe (seal g1)) (\<lambda>x. x\<lparr> pc_http_terminated := True, pc_tls_terminated := True,
           pc_incoming_connection_uses_tls := True, pc_incoming_sni := sni \<rparr>) s1"
    using assms(1) hc
    by (auto simp: use_fallback_mode_def st a Let_def gen_def split: FallbackReason.splits option.splits if_splits)
  have "get_id g = ms_tcp_connection_id st" by (simp add: st get_id_def on_stream_def)
  then have key: "get_id gen = get_id g" using gen(3) by simp
  have "entry_ok n (get_id gen) s" using assms(4) by (simp add: key)
  then have "flags_ok g1 \<and> is_terminated g1 \<and> get_id g1 = get_id gen \<and> entry_ok (Suc n) (get_id gen) s1"
    using g1 gen assms(5) by (auto simp: peek_kept elim: entry_ok_mono dest: peek_entry)
  then have "served_as (get_id (enable_observe (seal g1))) (is_terminated (enable_observe (seal g1))) s'"
    unfolding s' using assms(5) by (intro update_classified [of "Suc n"]) simp_all
  with hc key \<open>flags_ok g1 \<and> _\<close> show ?thesis by simp
qed


lemma entry_ok_fields [simp]:
  "entry_ok n key (s\<lparr> px_routing := r \<rparr>) = entry_ok n key s"
  "entry_ok n key (s\<lparr> px_total_accepted := t \<rparr>) = entry_ok n key s"
  "entry_ok n key (wake_process target s) = entry_ok n key s"
  by (simp_all add: entry_ok_def wake_process_def)

lemma serve_target_classified:
  fixes ep :: "('s, 't, 'd) endpoint"
  assumes "serve_target ep have_config target host peeked service (TCP st) s = Some (HttpServed sv g, s')"
    and "accept_law ep" and "flags_ok (TCP st :: ('s, 't, 'd) GenericManagedStream)"
    and "entry_ok n (ms_tcp_connection_id st) s" and "n < 97"
  shows "served_as (ms_tcp_connection_id st) have_config s'"
proof (cases "tunnel_guard target (pk_typ peeked = TLS) (pk_http_version peeked) (pk_is_h2c_upgrade peeked)")
  case (Some reason)
  have id: "get_id (TCP st :: ('s, 't, 'd) GenericManagedStream) = ms_tcp_connection_id st"
    by (simp add: get_id_def on_stream_def)
  from assms(1) Some have f: "use_fallback_mode ep have_config (TCP st) (service\<lparr> sv_resolved_target := Some target \<rparr>) reason s =
      Some (HttpServed sv g, s')"
    by (simp add: serve_target_def)
  from fallback_classified [OF f assms(2,3), of n] assms(4,5) show ?thesis by (simp add: id)
next
  case None
  with assms(1) obtain g1 s1 where t: "tunnel ep target (pk_typ peeked = TLS) have_config host (pk_http_version peeked)
      (pk_is_h2c_upgrade peeked) (TCP st) (wake_process target s) = Some (NoUsableBackendFound g1, s1)"
    and f: "use_fallback_mode ep have_config g1 (service\<lparr> sv_resolved_target := Some target \<rparr>) NoBackendFound s1 = Some (HttpServed sv g, s')"
    by (auto simp: serve_target_def split: option.splits tunnel_result.splits)
  have e: "get_id g1 = ms_tcp_connection_id st \<and> flags_ok g1 \<and> entry_ok (Suc n) (ms_tcp_connection_id st) s1"
    by (rule unusable_entry [OF t assms(2,3)]) (use assms(4,5) in simp_all)
  with fallback_classified [OF f assms(2), of "Suc n"] tunnel_unusable [OF t] assms(5) show ?thesis by simp
qed

lemma handle_peeked_classified:
  fixes ep :: "('s, 't, 'd) endpoint"
  assumes "handle_peeked up ep have_config api known peeked service (TCP st) s = Some (HttpServed sv g, s')"
    and "pk_target_host peeked \<noteq> None" and "accept_law ep" and "flags_ok (TCP st :: ('s, 't, 'd) GenericManagedStream)"
    and "entry_ok n (ms_tcp_connection_id st) s" and "n < 97"
  shows "served_as (ms_tcp_connection_id st) have_config s'"
proof -
  obtain st' where st': "save_peek_result peeked (TCP st) = (TCP st' :: ('s, 't, 'd) GenericManagedStream)"
    by (simp add: save_peek_result_def on_stream_def)
  have id: "ms_tcp_connection_id st' = ms_tcp_connection_id st"
    using st' by (auto simp: save_peek_result_def on_stream_def)
  have fl: "flags_ok (TCP st' :: ('s, 't, 'd) GenericManagedStream)"
    using flags_ok_marks(8) [of peeked "TCP st :: ('s, 't, 'd) GenericManagedStream"] assms(4) st' by simp
  have gid: "get_id (TCP st' :: ('s, 't, 'd) GenericManagedStream) = ms_tcp_connection_id st"
    by (simp add: get_id_def on_stream_def id)
  from assms(2) obtain host where host: "pk_target_host peeked = Some host" by blast
  define sv1 where "sv1 = service\<lparr> sv_host_header := pk_host_header peeked, sv_sni := pk_sni peeked \<rparr>"
  have "\<not> for_api api (px_odd_box_url s) (pk_target_host peeked)"
    using assms(1) by (auto simp: handle_peeked_def Let_def handle_stream_def st' split: if_splits option.splits)
  with assms(1) have "(\<exists>r. use_fallback_mode ep have_config (TCP st') sv1 NoTargetFound (s\<lparr> px_routing := r \<rparr>) = Some (HttpServed sv g, s')) \<or>
     (\<exists>r target. serve_target ep have_config target host peeked sv1 (TCP st') (s\<lparr> px_routing := r \<rparr>) = Some (HttpServed sv g, s'))"
    by (auto simp: handle_peeked_def Let_def st' host sv1_def split: if_splits option.splits)
  then show ?thesis
  proof (elim disjE exE)
    fix r
    assume "use_fallback_mode ep have_config (TCP st') sv1 NoTargetFound (s\<lparr> px_routing := r \<rparr>) = Some (HttpServed sv g, s')"
    from fallback_classified [OF this assms(3) fl, of n] assms(5,6) show ?thesis by (simp add: gid)
  next
    fix r target
    assume "serve_target ep have_config target host peeked sv1 (TCP st') (s\<lparr> px_routing := r \<rparr>) = Some (HttpServed sv g, s')"
    from serve_target_classified [OF this assms(3) fl, of n] assms(5,6) show ?thesis by (simp add: id)
  qed
qed

text \<open>A connection handed to the HTTP service is classified as terminated TLS or terminated
  HTTP, except that a TLS client on the plain listener is served with an invalid type.\<close>

theorem served_connection_classified:
  fixes ep :: "('s, 't, 'd) endpoint"
  assumes "handle_new_tcp_stream up dbg now ep have_config api peer_addr local_addr source_addr key tcp service s =
      Some (HttpServed sv g, s')" and "accept_law ep"
  shows "\<exists>c. active_connections s' key = Some c \<and>
    get_connection_type c =
      (if have_config then TlsTermination
       else if pc_incoming_connection_uses_tls c then InvalidType True False True None else HttpTermination)"
proof -
  obtain r g1 s1 where p: "peek_managed_stream (ep_transport ep) (TCP (from_tcp_stream key (ep_decoder ep) tcp)) s = Some (r, g1, s1)"
    using assms(1) by (auto simp: handle_new_tcp_stream_def split: option.splits)
  have "\<not> is_terminated (seal g1)" using peek_kept(2) [OF p] by simp
  then obtain st where st: "seal g1 = TCP st" by (cases "seal g1") auto
  have gid: "get_id (TCP st :: ('s, 't, 'd) GenericManagedStream) = ms_tcp_connection_id st" for st
    by (simp add: get_id_def on_stream_def)
  have "get_id (seal g1) = key" using peek_entry(1) [OF p] by simp
  then have id: "ms_tcp_connection_id st = key" by (simp add: st gid)
  have "flags_ok (seal g1)" using peek_entry(2) [OF p] by simp
  then have fl: "flags_ok (TCP st :: ('s, 't, 'd) GenericManagedStream)" by (simp add: st)
  define s2 where "s2 = (track dbg now peer_addr local_addr (seal g1) s1)
      \<lparr> px_total_accepted := (px_total_accepted (track dbg now peer_addr local_addr (seal g1) s1) + 1) mod 2 ^ 64 \<rparr>"
  have e: "entry_ok 1 key s2" using entry_ok_track [of "seal g1"] \<open>get_id (seal g1) = key\<close> by (simp add: s2_def)
  define sv1 where "sv1 = service\<lparr> sv_connection_key := get_id (seal g1), sv_source_addr := Some source_addr \<rparr>"
  have "served_as key have_config s'"
  proof (cases r)
    case (Inl er)
    then obtain reason where "use_fallback_mode ep have_config (TCP st) sv1 reason s2 = Some (HttpServed sv g, s')"
      using assms(1) p by (auto simp: handle_new_tcp_stream_def Let_def s2_def sv1_def st simp del: get_id_marks split: PeekError.splits)
    from fallback_classified [OF this assms(2) fl, of 1] e show ?thesis by (simp add: gid id)
  next
    case (Inr peeked)
    then have "pk_target_host peeked \<noteq> None" using plain_peek_host p by blast
    moreover have "handle_peeked up ep have_config api (peer_addr \<noteq> None) peeked sv1 (TCP st) s2 = Some (HttpServed sv g, s')"
      using assms(1) p Inr by (auto simp: handle_new_tcp_stream_def Let_def s2_def sv1_def st simp del: get_id_marks)
    ultimately show ?thesis
      using handle_peeked_classified [OF _ _ assms(2) fl, of up have_config api _ peeked sv1 s2 sv g s' 1] e by (simp add: id)
  qed
  then show ?thesis by (simp add: served_as_def served_type_def)
qed


section \<open>Witnesses\<close>

definition get_request :: bytes where
  "get_request = as_bytes ''GET / HTTP/1.1'' @ [13, 10] @ as_bytes ''Host: a.dev'' @ [13, 10, 13, 10]"

lemma get_request_reads:
  "is_valid_http_request get_request = Inr HTTP_11"
  "try_decode_http_host_and_h2c get_request = Inr \<lparr> hr_host = ''a.dev'', is_h2c_upgrade = False \<rparr>"
  "get_request = 71 # tl get_request"
  by code_simp+

definition local_site :: RemoteSiteConfig where
  "local_site = remote_sample [backend_sample ''127.0.0.1'' None]"

definition proxy_sample :: "RemoteSiteConfig list \<Rightarrow> ProxyState" where
  "proxy_sample sites =
     \<lparr> active_connections = Map.empty, enable_global_traffic_inspection = False, monitored_connections = Map.empty,
       global_broadcast = [], tn_balancer = \<lparr> lb_access_count_per_hostname = Map.empty, bs_use_loopback = None \<rparr>,
       px_routing = \<lparr> ro_docker = [], ro_hosted = None, ro_remote = Some sites, ro_use_loopback = None, ro_running = {},
                      ro_cache = Map.empty \<rparr>,
       px_site_status = Map.empty, px_sent = [], px_total_accepted = 0, px_odd_box_url = None \<rparr>"

definition service_sample :: ReverseProxyService where
  "service_sample = \<lparr> sv_source_addr = None, sv_remote_addr = Some ''c'', sv_is_https = False, sv_resolved_target = None,
     sv_connection_key = 0, sv_sni = None, sv_host_header = None \<rparr>"

definition peeked_get :: PeekResult where
  "peeked_get = \<lparr> pk_typ = ClearText, pk_http_version = Some HTTP_11, pk_target_host = Some ''a.dev'',
     pk_is_h2c_upgrade = False, pk_sni = None, pk_host_header = Some ''a.dev'' \<rparr>"

definition get_stream :: "(script, unit) ManagedStream" where
  "get_stream = (script_stream [])\<lparr> ms_stream := ([], get_request), ms_buffer := get_request, ms_enable_inspection := True,
     ms_http_version := Some HTTP_11, ms_sealed := True \<rparr>"

lemma peek_get:
  "\<exists>g. peek_managed_stream (ep_transport script_endpoint) (TCP (from_tcp_stream 7 (ep_decoder script_endpoint) ([get_request], []))) s =
     Some (Inr peeked_get, g, s) \<and> seal g = TCP get_stream"
proof -
  obtain bs where g: "get_request = 71 # bs" using get_request_reads(3) by metis
  show ?thesis
    using get_request_reads(1,2)
    by (simp add: g peek_managed_stream_def peek_loop.simps [of _ 0] peek_turn_of_def peek_async_def on_stream_def peek_tcp_def
        peek_cleartext_def script_endpoint_def script_defs peeked_get_def get_stream_def set_http_version_def set_h2c_header_def
        enable_observe_def seal_def)
qed

definition accepted_sample :: "RemoteSiteConfig list \<Rightarrow> ProxyState" where
  "accepted_sample sites =
     (track (\<lambda>_ _ _ _. []) 0 (Some ''c'') None (TCP get_stream :: (script, unit, unit) GenericManagedStream) (proxy_sample sites))
       \<lparr> px_total_accepted := 1 \<rparr>"

definition handle_sample :: "RemoteSiteConfig list \<Rightarrow> ((script, unit, unit) conn_outcome \<times> ProxyState) run" where
  "handle_sample sites =
     handle_new_tcp_stream (\<lambda>x. x) (\<lambda>_ _ _ _. []) 0 script_endpoint False False (Some ''c'') None ''c'' 7
       ([get_request], []) service_sample (proxy_sample sites)"

lemma handle_sample:
  "handle_sample sites =
     handle_peeked (\<lambda>x. x) script_endpoint False False True peeked_get
       (service_sample\<lparr> sv_connection_key := 7, sv_source_addr := Some ''c'' \<rparr>) (TCP get_stream) (accepted_sample sites)"
proof -
  obtain g where p: "peek_managed_stream (ep_transport script_endpoint) (TCP (from_tcp_stream 7 (ep_decoder script_endpoint)
      ([get_request], []))) (proxy_sample sites) = Some (Inr peeked_get, g, proxy_sample sites)" "seal g = TCP get_stream"
    using peek_get by blast
  have id: "get_id (TCP get_stream :: (script, unit, unit) GenericManagedStream) = 7"
    by (simp add: get_id_def on_stream_def get_stream_def script_defs)
  have t: "px_total_accepted (track (\<lambda>_ _ _ _. []) 0 (Some ''c'') None (TCP get_stream :: (script, unit, unit) GenericManagedStream)
      (proxy_sample sites)) = 0"
    by (simp add: track_def add_or_update_connection_def proxy_sample_def Let_def)
  show ?thesis
    unfolding handle_sample_def handle_new_tcp_stream_def p
    by (simp add: p Let_def id t accepted_sample_def del: get_id_marks)
qed

lemma accepted_sample [simp]:
  "px_routing (accepted_sample sites) = px_routing (proxy_sample sites)"
  "px_odd_box_url (accepted_sample sites) = None"
  "px_site_status (accepted_sample sites) = Map.empty"
  "tn_balancer (accepted_sample sites) = tn_balancer (proxy_sample sites)"
  by (simp_all add: accepted_sample_def track_def add_or_update_connection_def proxy_sample_def Let_def)

lemma served_sample: "\<exists>sv g s'. handle_sample [] = Some (HttpServed sv g, s')"
  by (simp add: handle_sample handle_peeked_def for_api_def peeked_get_def Let_def try_find_site_def remember_def
      use_fallback_mode_def proxy_sample_def)

lemma https_exactly_when_terminated_witness:
  "\<exists>sv g s'. handle_sample [] = Some (HttpServed sv g, s') \<and> \<not> is_terminated g \<and> \<not> sv_is_https sv"
proof -
  obtain sv g s' where h: "handle_sample [] = Some (HttpServed sv g, s')" using served_sample by blast
  with https_exactly_when_terminated [OF h [unfolded handle_sample_def]] show ?thesis by (simp add: service_sample_def)
qed

lemma served_connection_classified_witness:
  "\<exists>sv g s' c. handle_sample [] = Some (HttpServed sv g, s') \<and> active_connections s' 7 = Some c \<and>
     get_connection_type c \<noteq> TlsTermination"
proof -
  obtain sv g s' where h: "handle_sample [] = Some (HttpServed sv g, s')" using served_sample by blast
  have "accept_law script_endpoint" by (simp add: accept_law_def script_endpoint_def)
  from served_connection_classified [OF h [unfolded handle_sample_def] this]
  show ?thesis using h by (auto split: if_splits)
qed

lemma found_local_site:
  "try_find_site (\<lambda>x. x) ''a.dev'' (px_routing (proxy_sample [local_site])) =
     Some (Some (remote_target_of local_site None),
           remember ''a.dev'' (Some (remote_target_of local_site None)) (px_routing (proxy_sample [local_site])))"
proof -
  have "contains_sub ''a.dev'' ''a.dev''" "str_eq_ignore_case ''a.dev'' ''a.dev''" by code_simp+
  then show ?thesis
    by (simp add: try_find_site_def proxy_sample_def local_site_def remote_sample_def match_remote_def filter_fun_def remember_def)
qed

lemma serve_sample:
  "\<exists>b r s'. serve_target script_endpoint False (remote_target_of local_site None) ''a.dev'' peeked_get service
     (TCP st) (s :: ProxyState) = Some (TunnelEnded (Tunnelled (Some (TCP st, b, r))), s')"
proof -
  have g: "tunnel_guard (remote_target_of local_site None) False (Some HTTP_11) False = None"
    by (simp add: tunnel_guard_def remote_target_of_def remote_guard_def local_site_def remote_sample_def backend_sample_def)
  have w: "wake_process (remote_target_of local_site None) s = s"
    by (simp add: wake_process_def remote_target_of_def)
  have c: "choose_backend b (remote_target_of local_site None) Http1 = Some (backend_sample ''127.0.0.1'' None)" for b
    by (simp add: choose_backend_def remote_target_of_def local_site_def remote_sample_def backend_sample_def
        remote_next_backend_def filter_backend_def pick_backend_def)
  show ?thesis
    by (simp add: peeked_get_def serve_target_def Let_def g w tunnel_def prepare_tunnel_def terminate_incoming_def
        peekresult_to_backend_filter_def c connect_tunnel_def script_endpoint_def)
qed

lemma tunnelled_sample:
  "\<exists>b r s'. handle_sample [local_site] =
     Some (TunnelEnded (Tunnelled (Some (TCP (get_stream\<lparr> ms_peek_result := Some peeked_get \<rparr>), b, r))), s')"
proof -
  have sv: "save_peek_result peeked_get (TCP get_stream) = (TCP (get_stream\<lparr> ms_peek_result := Some peeked_get \<rparr>)
      :: (script, unit, unit) GenericManagedStream)"
    by (simp add: save_peek_result_def on_stream_def peeked_get_def get_stream_def script_defs)
  have p: "pk_target_host peeked_get = Some ''a.dev''" by (simp add: peeked_get_def)
  show ?thesis
    by (simp add: handle_sample handle_peeked_def for_api_def Let_def sv p found_local_site serve_sample)
qed


lemma tunnelled_only_if_allowed_witness:
  "is_set (rs_keep_original_host_header local_site) \<or>
     list_all (\<lambda>x. bk_address x \<in> {''127.0.0.1'', ''localhost''}) (rs_backends local_site)"
proof -
  obtain b r s' where "serve_target script_endpoint False (remote_target_of local_site None) ''a.dev'' peeked_get service_sample
     (TCP get_stream) (proxy_sample []) = Some (TunnelEnded (Tunnelled (Some (TCP get_stream, b, r))), s')"
    using serve_sample by blast
  from tunnelled_only_if_allowed [OF this] show ?thesis by (simp add: remote_target_of_def)
qed

end
