(* ===== verification/Listener.thy ===== *)
theory Listener
  imports Prelude
begin

text \<open>
  The listeners of \<open>src/proxy.rs\<close>: \<open>listen\<close>, which restarts both when the configured addresses
  change, and the loops of \<open>listen_http\<close> and \<open>listen_https\<close>, which take a permit of
  \<open>ACTIVE_TCP_CONNECTIONS_SEMAPHORE\<close> before they accept a connection. The semaphore, the sockets and
  the cancellation tokens are tokio's: a permit is a count, and what the sockets answer is the choice of
  the step. A task is only stopped at an \<open>await\<close>.
\<close>

section \<open>The addresses to listen on\<close>

record BindAddrs =
  ba_ip :: string
  ba_http_port :: u16
  ba_tls_port :: u16

record ListenConfig =
  lc_ip :: "string option"
  lc_http_port :: "u16 option"
  lc_tls_port :: "u16 option"

text \<open>What \<open>listen\<close> keeps between its turns; \<open>None\<close> in the tasks: not started yet.\<close>

record ListenState =
  ls_initial_ip :: string
  ls_previous :: BindAddrs
  ls_http_task :: "BindAddrs option"
  ls_https_task :: "BindAddrs option"

definition current_addrs :: "ListenConfig \<Rightarrow> ListenState \<Rightarrow> BindAddrs" where
  "current_addrs cfg s =
     \<lparr> ba_ip = unwrap_or (lc_ip cfg) (ls_initial_ip s),
       ba_http_port = unwrap_or (lc_http_port cfg) (ba_http_port (ls_previous s)),
       ba_tls_port = unwrap_or (lc_tls_port cfg) (ba_tls_port (ls_previous s)) \<rparr>"

definition listen_turn :: "ListenConfig \<Rightarrow> ListenState \<Rightarrow> bool \<times> ListenState" where
  "listen_turn cfg s =
     (let cur = current_addrs cfg s in
      if ls_http_task s = None \<or> ls_https_task s = None \<or>
         (ba_ip (ls_previous s), ba_http_port (ls_previous s)) \<noteq> (ba_ip cur, ba_http_port cur) \<or>
         (ba_ip (ls_previous s), ba_tls_port (ls_previous s)) \<noteq> (ba_ip cur, ba_tls_port cur)
      then (True, s\<lparr> ls_http_task := Some cur, ls_https_task := Some cur, ls_previous := cur \<rparr>)
      else (False, s))"

section \<open>The loops and their permits\<close>

datatype listener = HttpListener | HttpsListener

text \<open>
  Where a loop is: before its checks, waiting for a permit, waiting for a connection with the permit
  taken and forgotten, or over.
\<close>

datatype loop_phase = Checking | Acquiring | Accepting | Ended

record Pool =
  po_permits :: nat
  po_open :: nat
  po_phase :: "listener \<Rightarrow> loop_phase"
  po_cancelled :: "listener \<Rightarrow> bool"
  po_exit :: bool

definition pool_start :: Pool where
  "pool_start = \<lparr> po_permits = 200, po_open = 0, po_phase = (\<lambda>_. Checking), po_cancelled = (\<lambda>_. False), po_exit = False \<rparr>"

definition goto :: "listener \<Rightarrow> loop_phase \<Rightarrow> Pool \<Rightarrow> Pool" where
  "goto l p s = s\<lparr> po_phase := (po_phase s)(l := p) \<rparr>"

text \<open>
  The checks at the head of a loop; taking a permit (\<open>acquire\<close>, then \<open>forget\<close>); a connection that is
  accepted and served in a task of its own; an error of \<open>accept\<close>, which gives the permit back; the end
  of a connection, which gives its permit back. Then what \<open>listen\<close> does: it cancels the first listener
  and waits for it, then the second, and starts both again. A cancelled loop ends where it waits, in
  its own \<open>select!\<close> or in the one around its task.
\<close>

inductive pool_step :: "Pool \<Rightarrow> Pool \<Rightarrow> bool" where
  check: "po_phase s l = Checking \<Longrightarrow> pool_step s (goto l (if po_cancelled s l \<or> po_exit s then Ended else Acquiring) s)"
| take_permit: "po_phase s l = Acquiring \<Longrightarrow> 0 < po_permits s \<Longrightarrow>
    pool_step s (goto l Accepting (s\<lparr> po_permits := po_permits s - 1 \<rparr>))"
| accept: "po_phase s l = Accepting \<Longrightarrow> pool_step s (goto l Checking (s\<lparr> po_open := po_open s + 1 \<rparr>))"
| accept_failed: "po_phase s l = Accepting \<Longrightarrow> pool_step s (goto l Checking (s\<lparr> po_permits := po_permits s + 1 \<rparr>))"
| connection_over: "0 < po_open s \<Longrightarrow> pool_step s (s\<lparr> po_open := po_open s - 1, po_permits := po_permits s + 1 \<rparr>)"
| cancel_http: "pool_step s (s\<lparr> po_cancelled := (po_cancelled s)(HttpListener := True) \<rparr>)"
| cancel_https: "po_cancelled s HttpListener \<Longrightarrow> po_phase s HttpListener = Ended \<Longrightarrow>
    pool_step s (s\<lparr> po_cancelled := (po_cancelled s)(HttpsListener := True) \<rparr>)"
| cancelled: "po_cancelled s l \<Longrightarrow> po_phase s l = Acquiring \<or> po_phase s l = Accepting \<Longrightarrow> pool_step s (goto l Ended s)"
| restart: "po_cancelled s HttpListener \<Longrightarrow> po_cancelled s HttpsListener \<Longrightarrow> po_phase s HttpListener = Ended \<Longrightarrow>
    po_phase s HttpsListener = Ended \<Longrightarrow>
    pool_step s (s\<lparr> po_phase := (\<lambda>_. Checking), po_cancelled := (\<lambda>_. False) \<rparr>)"
| exit_requested: "pool_step s (s\<lparr> po_exit := True \<rparr>)"

section \<open>The permits that are accounted for\<close>

definition holding :: "loop_phase \<Rightarrow> nat" where
  "holding p = (if p = Accepting then 1 else 0)"

text \<open>Free, with a connection, or with a listener that waits for one.\<close>

definition accounted :: "Pool \<Rightarrow> nat" where
  "accounted s = po_permits s + po_open s + holding (po_phase s HttpListener) + holding (po_phase s HttpsListener)"

lemma accounted_goto:
  "accounted (goto l p s) + holding (po_phase s l) = accounted s + holding p"
  by (cases l) (simp_all add: accounted_def goto_def)

lemma accounted_step: "pool_step s s' \<Longrightarrow> accounted s' \<le> accounted s"
proof (induction rule: pool_step.induct)
  case (check s l)
  then show ?case using accounted_goto [of l "if po_cancelled s l \<or> po_exit s then Ended else Acquiring" s]
    by (auto simp: holding_def)
next
  case (take_permit s l)
  then show ?case using accounted_goto [of l Accepting "s\<lparr> po_permits := po_permits s - 1 \<rparr>"]
    by (auto simp: holding_def accounted_def)
next
  case (accept s l)
  then show ?case using accounted_goto [of l Checking "s\<lparr> po_open := po_open s + 1 \<rparr>"]
    by (auto simp: holding_def accounted_def)
next
  case (accept_failed s l)
  then show ?case using accounted_goto [of l Checking "s\<lparr> po_permits := po_permits s + 1 \<rparr>"]
    by (auto simp: holding_def accounted_def)
next
  case (cancelled s l)
  then show ?case using accounted_goto [of l Ended s] by (auto simp: holding_def)
qed (auto simp: accounted_def holding_def)

lemma accounted_steps: "pool_step\<^sup>*\<^sup>* s s' \<Longrightarrow> accounted s' \<le> accounted s"
  by (induction rule: rtranclp_induct) (auto dest: accounted_step)


section \<open>Restarts use permits up\<close>

definition idle_pool :: "nat \<Rightarrow> Pool" where
  "idle_pool n = pool_start\<lparr> po_permits := n \<rparr>"

text \<open>Both listeners wait for a connection when the addresses change.\<close>

lemma restart_takes_two: "pool_step\<^sup>*\<^sup>* (idle_pool (n + 2)) (idle_pool n)"
proof -
  define s0 where "s0 = idle_pool (n + 2)"
  define s1 where "s1 = goto HttpListener Acquiring s0"
  define s2 where "s2 = goto HttpListener Accepting (s1\<lparr> po_permits := po_permits s1 - 1 \<rparr>)"
  define s3 where "s3 = goto HttpsListener Acquiring s2"
  define s4 where "s4 = goto HttpsListener Accepting (s3\<lparr> po_permits := po_permits s3 - 1 \<rparr>)"
  define s5 where "s5 = s4\<lparr> po_cancelled := (po_cancelled s4)(HttpListener := True) \<rparr>"
  define s6 where "s6 = goto HttpListener Ended s5"
  define s7 where "s7 = s6\<lparr> po_cancelled := (po_cancelled s6)(HttpsListener := True) \<rparr>"
  define s8 where "s8 = goto HttpsListener Ended s7"
  define s9 where "s9 = s8\<lparr> po_phase := (\<lambda>_. Checking), po_cancelled := (\<lambda>_. False) \<rparr>"
  note steps = s0_def s1_def s2_def s3_def s4_def s5_def s6_def s7_def s8_def s9_def idle_pool_def pool_start_def goto_def
  have "pool_step s0 s1" using check [of s0 HttpListener] by (simp add: steps)
  moreover have "pool_step s1 s2" unfolding s2_def by (rule take_permit) (simp_all add: steps)
  moreover have "pool_step s2 s3" using check [of s2 HttpsListener] by (simp add: steps)
  moreover have "pool_step s3 s4" unfolding s4_def by (rule take_permit) (simp_all add: steps)
  moreover have "pool_step s4 s5" unfolding s5_def by (rule cancel_http)
  moreover have "pool_step s5 s6" unfolding s6_def by (rule cancelled) (simp_all add: steps)
  moreover have "pool_step s6 s7" unfolding s7_def by (rule cancel_https) (simp_all add: steps)
  moreover have "pool_step s7 s8" unfolding s8_def by (rule cancelled) (simp_all add: steps)
  moreover have "pool_step s8 s9" unfolding s9_def by (rule restart) (simp_all add: steps)
  ultimately have "pool_step\<^sup>*\<^sup>* s0 s9" by (meson converse_rtranclp_into_rtranclp rtranclp.rtrancl_refl)
  moreover have "s9 = idle_pool n" by (simp add: steps)
  ultimately show ?thesis by (simp add: s0_def)
qed

lemma restarts_use_all: "pool_step\<^sup>*\<^sup>* (idle_pool (2 * n)) (idle_pool 0)"
proof (induction n)
  case (Suc n)
  have "pool_step\<^sup>*\<^sup>* (idle_pool (2 * n + 2)) (idle_pool (2 * n))" by (rule restart_takes_two)
  with Suc.IH show ?case by simp
qed simp

text \<open>A listener cancelled while it waits for a connection does not give its permit back:
  after enough changes of the addresses no connection is accepted any more, with none open.\<close>

theorem restarts_exhaust_permits:
  "\<exists>s. pool_step\<^sup>*\<^sup>* pool_start s \<and> \<not> po_exit s \<and> po_open s = 0 \<and> po_phase s = (\<lambda>_. Checking) \<and>
     (\<forall>s'. pool_step\<^sup>*\<^sup>* s s' \<longrightarrow> po_open s' = 0)"
proof (intro exI conjI allI impI)
  show "pool_step\<^sup>*\<^sup>* pool_start (idle_pool 0)"
    using restarts_use_all [of 100] by (simp add: idle_pool_def pool_start_def)
  fix s'
  assume "pool_step\<^sup>*\<^sup>* (idle_pool 0) s'"
  from accounted_steps [OF this] show "po_open s' = 0"
    by (simp add: accounted_def idle_pool_def pool_start_def holding_def)
qed (simp_all add: idle_pool_def pool_start_def)

text \<open>After a turn of listen both listeners are bound to the configured addresses, and they
  are restarted exactly when these have changed.\<close>

theorem listeners_follow_configuration:
  assumes "listen_turn cfg s = (restarted, s')" and "ls_http_task s = Some (ls_previous s)" and "ls_https_task s = Some (ls_previous s)"
  shows "ls_http_task s' = Some (current_addrs cfg s) \<and> ls_https_task s' = Some (current_addrs cfg s) \<and>
    restarted = (current_addrs cfg s \<noteq> ls_previous s)"
  using assms by (cases "ls_previous s") (auto simp: listen_turn_def current_addrs_def Let_def split: if_splits)


lemma restarts_exhaust_permits_witness:
  "\<exists>s. pool_step\<^sup>*\<^sup>* pool_start s \<and> po_open s = 0"
  using restarts_exhaust_permits by blast

lemma listeners_follow_configuration_witness:
  "fst (listen_turn \<lparr> lc_ip = None, lc_http_port = Some 81, lc_tls_port = None \<rparr>
     \<lparr> ls_initial_ip = ''i'', ls_previous = \<lparr> ba_ip = ''i'', ba_http_port = 80, ba_tls_port = 443 \<rparr>,
       ls_http_task = Some \<lparr> ba_ip = ''i'', ba_http_port = 80, ba_tls_port = 443 \<rparr>,
       ls_https_task = Some \<lparr> ba_ip = ''i'', ba_http_port = 80, ba_tls_port = 443 \<rparr> \<rparr>)"
proof -
  let ?cfg = "\<lparr> lc_ip = None, lc_http_port = Some 81, lc_tls_port = None \<rparr>"
  let ?a = "\<lparr> ba_ip = ''i'', ba_http_port = 80, ba_tls_port = 443 \<rparr>"
  let ?s = "\<lparr> ls_initial_ip = ''i'', ls_previous = ?a, ls_http_task = Some ?a, ls_https_task = Some ?a \<rparr>"
  obtain r s' where t: "listen_turn ?cfg ?s = (r, s')" by fastforce
  from listeners_follow_configuration [OF t] show ?thesis by (simp add: t current_addrs_def)
qed

end
