(* ===== verification/Config_Upgrade.thy ===== *)
theory Config_Upgrade
  imports Config_V3
begin

text \<open>
  The older configuration schemas, \<open>src/configuration/legacy.rs\<close>, \<open>v1.rs\<close> and \<open>v2.rs\<close>, the
  conversions from each to the next (\<open>TryFrom\<close>, which never fail), and the choice of the schema of a
  file (\<open>src/configuration/mod.rs\<close>). Reading TOML is third-party code: a reader for each schema is an
  argument. \<open>ProcId::new\<close> is the argument \<open>fresh\<close>, the identity given to the process at a position.
  The schema version a record carries is not read by the conversions and is left out.
\<close>

section \<open>The schema before versions\<close>

datatype H2Hint = V1_H2 | V1_H2C

record V1_RemoteSiteConfig =
  r1_h2_hint :: "H2Hint option"
  r1_host_name :: string
  r1_target_hostname :: string
  r1_port :: "u16 option"
  r1_https :: "bool option"
  r1_capture_subdomains :: "bool option"
  r1_disable_tcp_tunnel_mode :: "bool option"
  r1_forward_subdomains :: "bool option"

record Legacy_SiteConfig =
  l_host_name :: string
  l_path :: string
  l_bin :: string
  l_args :: "string list"
  l_env_vars :: "EnvVar list"
  l_log_format :: "LogFormat option"
  l_auto_start :: "bool option"
  l_https :: "bool option"
  l_capture_subdomains :: "bool option"
  l_port :: u16
  l_h2_hint :: "H2Hint option"
  l_disable_tcp_tunnel_mode :: "bool option"

record OddBoxLegacyConfig =
  lc_processes :: "Legacy_SiteConfig list"
  lc_env_vars :: "EnvVar list"
  lc_root_dir :: "string option"
  lc_log_level :: "LogLevel option"
  lc_port_range_start :: u16
  lc_default_log_format :: "LogFormat option"
  lc_port :: "u16 option"
  lc_tls_port :: "u16 option"
  lc_auto_start :: "bool option"
  lc_ip :: "string option"
  lc_remote_sites :: "V1_RemoteSiteConfig list option"

section \<open>Version 1\<close>

record V1_InProcessSiteConfig =
  p1_disable_tcp_tunnel_mode :: "bool option"
  p1_h2_hint :: "H2Hint option"
  p1_host_name :: string
  p1_dir :: string
  p1_bin :: string
  p1_args :: "string list"
  p1_env_vars :: "EnvVar list"
  p1_log_format :: "LogFormat option"
  p1_auto_start :: "bool option"
  p1_port :: "u16 option"
  p1_https :: "bool option"
  p1_capture_subdomains :: "bool option"
  p1_forward_subdomains :: "bool option"
  p1_disabled :: "bool option"

record OddBoxV1Config =
  c1_root_dir :: "string option"
  c1_log_level :: "LogLevel option"
  c1_alpn :: "bool option"
  c1_port_range_start :: u16
  c1_default_log_format :: LogFormat
  c1_ip :: "string option"
  c1_http_port :: "u16 option"
  c1_tls_port :: "u16 option"
  c1_auto_start :: "bool option"
  c1_env_vars :: "EnvVar list"
  c1_remote_target :: "V1_RemoteSiteConfig list option"
  c1_hosted_process :: "V1_InProcessSiteConfig list option"
  c1_admin_api_port :: "u16 option"
  c1_path :: "string option"

definition legacy_process_to_v1 :: "Legacy_SiteConfig \<Rightarrow> V1_InProcessSiteConfig" where
  "legacy_process_to_v1 x =
     \<lparr> p1_disable_tcp_tunnel_mode = l_disable_tcp_tunnel_mode x, p1_h2_hint = l_h2_hint x,
       p1_host_name = l_host_name x, p1_dir = l_path x, p1_bin = l_bin x, p1_args = l_args x,
       p1_env_vars = l_env_vars x, p1_log_format = l_log_format x, p1_auto_start = l_auto_start x,
       p1_port = (if is_set (l_https x) then Some (l_port x) else None), p1_https = l_https x,
       p1_capture_subdomains = None, p1_forward_subdomains = None, p1_disabled = None \<rparr>"

definition legacy_to_v1 :: "OddBoxLegacyConfig \<Rightarrow> OddBoxV1Config" where
  "legacy_to_v1 old =
     \<lparr> c1_root_dir = lc_root_dir old, c1_log_level = lc_log_level old, c1_alpn = Some False,
       c1_port_range_start = lc_port_range_start old,
       c1_default_log_format = unwrap_or (lc_default_log_format old) standard, c1_ip = lc_ip old,
       c1_http_port = lc_port old, c1_tls_port = lc_tls_port old, c1_auto_start = lc_auto_start old,
       c1_env_vars = lc_env_vars old, c1_remote_target = lc_remote_sites old,
       c1_hosted_process = Some (map legacy_process_to_v1 (lc_processes old)), c1_admin_api_port = None, c1_path = None \<rparr>"

section \<open>Version 2\<close>

datatype V2_Hint = V2_H2 | V2_H2C | V2_H2CPK | NOH2

record V2_DirServer =
  d2_dir :: string
  d2_host_name :: string
  d2_capture_subdomains :: "bool option"
  d2_enable_lets_encrypt :: "bool option"
  d2_enable_directory_browsing :: "bool option"
  d2_redirect_to_https :: "bool option"
  d2_render_markdown :: "bool option"

record V2_InProcessSiteConfig =
  p2_proc_id :: ProcId
  p2_active_port :: "u16 option"
  p2_disable_tcp_tunnel_mode :: "bool option"
  p2_hints :: "V2_Hint list option"
  p2_host_name :: string
  p2_dir :: "string option"
  p2_bin :: string
  p2_args :: "string list option"
  p2_env_vars :: "EnvVar list option"
  p2_log_format :: "LogFormat option"
  p2_auto_start :: "bool option"
  p2_port :: "u16 option"
  p2_https :: "bool option"
  p2_capture_subdomains :: "bool option"
  p2_forward_subdomains :: "bool option"
  p2_exclude_from_start_all :: "bool option"
  p2_enable_lets_encrypt :: "bool option"
  p2_log_level :: "LogLevel option"

record V2_Backend =
  b2_address :: string
  b2_port :: u16
  b2_https :: "bool option"
  b2_hints :: "V2_Hint list option"

record V2_RemoteSiteConfig =
  r2_host_name :: string
  r2_backends :: "V2_Backend list"
  r2_capture_subdomains :: "bool option"
  r2_disable_tcp_tunnel_mode :: "bool option"
  r2_forward_subdomains :: "bool option"
  r2_enable_lets_encrypt :: "bool option"
  r2_keep_original_host_header :: "bool option"

record OddBoxV2Config =
  c2_path :: "string option"
  c2_root_dir :: "string option"
  c2_log_level :: "LogLevel option"
  c2_alpn :: "bool option"
  c2_port_range_start :: u16
  c2_default_log_format :: LogFormat
  c2_ip :: "string option"
  c2_http_port :: "u16 option"
  c2_tls_port :: "u16 option"
  c2_auto_start :: "bool option"
  c2_env_vars :: "EnvVar list"
  c2_remote_target :: "V2_RemoteSiteConfig list option"
  c2_hosted_process :: "V2_InProcessSiteConfig list option"
  c2_dir_server :: "V2_DirServer list option"
  c2_admin_api_port :: "u16 option"
  c2_lets_encrypt_account_email :: "string option"
  c2_odd_box_url :: "string option"
  c2_odd_box_password :: "string option"

definition v1_hints :: "H2Hint option \<Rightarrow> V2_Hint list option" where
  "v1_hints h = (case h of Some V1_H2 \<Rightarrow> Some [V2_H2] | Some V1_H2C \<Rightarrow> Some [V2_H2C] | None \<Rightarrow> None)"

definition v1_process_to_v2 :: "ProcId \<Rightarrow> V1_InProcessSiteConfig \<Rightarrow> V2_InProcessSiteConfig" where
  "v1_process_to_v2 new_id x =
     \<lparr> p2_proc_id = new_id, p2_active_port = None, p2_disable_tcp_tunnel_mode = p1_disable_tcp_tunnel_mode x,
       p2_hints = v1_hints (p1_h2_hint x), p2_host_name = p1_host_name x,
       p2_dir = (if p1_dir x = [] then None else Some (p1_dir x)), p2_bin = p1_bin x,
       p2_args = (if 0 < length (p1_args x) then Some (p1_args x) else None),
       p2_env_vars = (if 0 < length (p1_env_vars x) then Some (p1_env_vars x) else None),
       p2_log_format = p1_log_format x, p2_auto_start = p1_auto_start x, p2_port = p1_port x, p2_https = p1_https x,
       p2_capture_subdomains = p1_capture_subdomains x, p2_forward_subdomains = p1_forward_subdomains x,
       p2_exclude_from_start_all = p1_disabled x, p2_enable_lets_encrypt = Some False, p2_log_level = None \<rparr>"

definition v1_remote_to_v2 :: "V1_RemoteSiteConfig \<Rightarrow> V2_RemoteSiteConfig" where
  "v1_remote_to_v2 x =
     \<lparr> r2_host_name = r1_host_name x,
       r2_backends =
         [\<lparr> b2_address = r1_target_hostname x,
            b2_port = (case r1_port x of Some p \<Rightarrow> p | None \<Rightarrow> if is_set (r1_https x) then 443 else 80),
            b2_https = r1_https x, b2_hints = v1_hints (r1_h2_hint x) \<rparr>],
       r2_capture_subdomains = r1_capture_subdomains x, r2_disable_tcp_tunnel_mode = r1_disable_tcp_tunnel_mode x,
       r2_forward_subdomains = r1_forward_subdomains x, r2_enable_lets_encrypt = Some False,
       r2_keep_original_host_header = None \<rparr>"

text \<open>The conversion of a list of processes gives each of them a new identity.\<close>

fun with_new_ids :: "(ProcId \<Rightarrow> 'a \<Rightarrow> 'b) \<Rightarrow> (nat \<Rightarrow> ProcId) \<Rightarrow> 'a list \<Rightarrow> 'b list" where
  "with_new_ids f fresh [] = []"
| "with_new_ids f fresh (x # xs) = f (fresh 0) x # with_new_ids f (\<lambda>i. fresh (Suc i)) xs"

definition v1_to_v2 :: "(nat \<Rightarrow> ProcId) \<Rightarrow> OddBoxV1Config \<Rightarrow> OddBoxV2Config" where
  "v1_to_v2 fresh old =
     \<lparr> c2_path = None, c2_root_dir = c1_root_dir old, c2_log_level = c1_log_level old, c2_alpn = Some False,
       c2_port_range_start = c1_port_range_start old, c2_default_log_format = c1_default_log_format old,
       c2_ip = c1_ip old, c2_http_port = c1_http_port old, c2_tls_port = c1_tls_port old,
       c2_auto_start = c1_auto_start old, c2_env_vars = c1_env_vars old,
       c2_remote_target = Some (map v1_remote_to_v2 (unwrap_or (c1_remote_target old) [])),
       c2_hosted_process = Some (with_new_ids v1_process_to_v2 fresh (unwrap_or (c1_hosted_process old) [])),
       c2_dir_server = None, c2_admin_api_port = None, c2_lets_encrypt_account_email = None,
       c2_odd_box_url = None, c2_odd_box_password = None \<rparr>"

section \<open>Version 3\<close>

fun v2_hint :: "V2_Hint \<Rightarrow> Hint option" where
  "v2_hint V2_H2 = Some H2"
| "v2_hint V2_H2C = Some H2C"
| "v2_hint V2_H2CPK = Some H2CPK"
| "v2_hint NOH2 = None"

definition v2_hints :: "V2_Hint list option \<Rightarrow> Hint list option" where
  "v2_hints hints =
     (let new_hints = List.map_filter v2_hint (unwrap_or hints []);
          new_hints = (if 0 < length new_hints then new_hints @ [H1] else new_hints)
      in if length new_hints = 0 then None else Some new_hints)"

definition v2_process_to_v3 :: "ProcId \<Rightarrow> V2_InProcessSiteConfig \<Rightarrow> InProcessSiteConfig" where
  "v2_process_to_v3 new_id x =
     \<lparr> hp_proc_id = new_id, hp_active_port = None, hp_terminate_tls = p2_disable_tcp_tunnel_mode x,
       hp_terminate_http = None, hp_hints = v2_hints (p2_hints x), hp_host_name = p2_host_name x,
       hp_dir = p2_dir x, hp_bin = p2_bin x, hp_args = p2_args x, hp_env_vars = p2_env_vars x,
       hp_log_format = p2_log_format x, hp_auto_start = p2_auto_start x, hp_port = p2_port x, hp_https = p2_https x,
       hp_capture_subdomains = p2_capture_subdomains x, hp_forward_subdomains = p2_forward_subdomains x,
       hp_exclude_from_start_all = p2_exclude_from_start_all x, hp_enable_lets_encrypt = Some False,
       hp_log_level = None, hp_redirect_to_https = None \<rparr>"

definition v2_backend_to_v3 :: "V2_Backend \<Rightarrow> Backend" where
  "v2_backend_to_v3 b =
     \<lparr> bk_address = b2_address b, bk_port = b2_port b, bk_https = b2_https b, bk_hints = v2_hints (b2_hints b) \<rparr>"

definition v2_remote_to_v3 :: "V2_RemoteSiteConfig \<Rightarrow> RemoteSiteConfig" where
  "v2_remote_to_v3 x =
     \<lparr> rs_host_name = r2_host_name x, rs_backends = map v2_backend_to_v3 (r2_backends x),
       rs_capture_subdomains = r2_capture_subdomains x, rs_terminate_tls = r2_disable_tcp_tunnel_mode x,
       rs_terminate_http = r2_disable_tcp_tunnel_mode x, rs_forward_subdomains = r2_forward_subdomains x,
       rs_enable_lets_encrypt = Some False, rs_keep_original_host_header = None, rs_redirect_to_https = None \<rparr>"

definition v2_to_v3 :: "(nat \<Rightarrow> ProcId) \<Rightarrow> OddBoxV2Config \<Rightarrow> OddBoxV3Config" where
  "v2_to_v3 fresh old =
     \<lparr> cfg_path = None, cfg_root_dir = c2_root_dir old, cfg_log_level = c2_log_level old, cfg_alpn = Some False,
       cfg_port_range_start = c2_port_range_start old, cfg_default_log_format = c2_default_log_format old,
       cfg_ip = c2_ip old, cfg_http_port = c2_http_port old, cfg_tls_port = c2_tls_port old,
       cfg_auto_start = c2_auto_start old, cfg_env_vars = c2_env_vars old,
       cfg_remote_target = Some (map v2_remote_to_v3 (unwrap_or (c2_remote_target old) [])),
       cfg_hosted_process = Some (with_new_ids v2_process_to_v3 fresh (unwrap_or (c2_hosted_process old) [])),
       cfg_dir_server = None, cfg_lets_encrypt_account_email = None, cfg_odd_box_url = None,
       cfg_odd_box_password = None, cfg_use_loopback_ip_for_procs = None \<rparr>"

section \<open>Any version\<close>

datatype AnyOddBoxConfig =
  LegacyConfig OddBoxLegacyConfig | V1Config OddBoxV1Config | V2Config OddBoxV2Config | V3Config OddBoxV3Config

datatype OddBoxConfigVersion = Unmarked | V1 | V2 | V3

text \<open>\<open>AnyOddBoxConfig::parse\<close>, with the reader of each schema: \<open>Inl\<close> the message of its error.\<close>

record toml_readers =
  read_v3 :: "string \<Rightarrow> string + OddBoxV3Config"
  read_v2 :: "string \<Rightarrow> string + OddBoxV2Config"
  read_v1 :: "string \<Rightarrow> string + OddBoxV1Config"
  read_legacy :: "string \<Rightarrow> string + OddBoxLegacyConfig"

definition version_mark :: "string \<Rightarrow> string" where
  "version_mark v = ''version = '' @ [CHR 0x22] @ v @ [CHR 0x22]"

definition parse_config :: "toml_readers \<Rightarrow> string \<Rightarrow> string + AnyOddBoxConfig" where
  "parse_config rd content =
     (case read_v3 rd content of
        Inr c \<Rightarrow> Inr (V3Config c)
      | Inl e3 \<Rightarrow>
     (case read_v2 rd content of
        Inr c \<Rightarrow> Inr (V2Config c)
      | Inl e2 \<Rightarrow>
     (case read_v1 rd content of
        Inr c \<Rightarrow> Inr (V1Config c)
      | Inl e1 \<Rightarrow>
     (case read_legacy rd content of
        Inr c \<Rightarrow> Inr (LegacyConfig c)
      | Inl e0 \<Rightarrow>
          Inl (if contains_sub content (version_mark ''V3'') then ''invalid v3 configuration file.'' @ [CHR 0x0A] @ e3
               else if contains_sub content (version_mark ''V2'') then ''invalid v2 configuration file.'' @ [CHR 0x0A] @ e2
               else if contains_sub content (version_mark ''V1'') then ''invalid v1 configuration file.'' @ [CHR 0x0A] @ e1
               else ''invalid (legacy) configuration file.'' @ [CHR 0x0A] @ e0)))))"

text \<open>
  \<open>try_upgrade_to_latest_version\<close>: the current schema, the schema it came from, and whether it was
  upgraded. \<open>fresh n\<close> are the identities given by the conversion into version \<open>n\<close>.
\<close>

definition try_upgrade_to_latest_version ::
  "(nat \<Rightarrow> nat \<Rightarrow> ProcId) \<Rightarrow> AnyOddBoxConfig \<Rightarrow> string + OddBoxV3Config \<times> OddBoxConfigVersion \<times> bool" where
  "try_upgrade_to_latest_version fresh config =
     (case config of
        LegacyConfig c \<Rightarrow> Inr (v2_to_v3 (fresh 3) (v1_to_v2 (fresh 2) (legacy_to_v1 c)), Unmarked, True)
      | V1Config c \<Rightarrow> Inr (v2_to_v3 (fresh 3) (v1_to_v2 (fresh 2) c), V1, True)
      | V2Config c \<Rightarrow> Inr (v2_to_v3 (fresh 3) c, V2, True)
      | V3Config c \<Rightarrow> Inr (c, V3, False))"

section \<open>What an upgrade keeps\<close>

lemma with_new_ids_map: "(\<And>i x. g (f i x) = h x) \<Longrightarrow> map g (with_new_ids f fresh xs) = map h xs"
  by (induction xs arbitrary: fresh) simp_all

lemma length_with_new_ids [simp]: "length (with_new_ids f fresh xs) = length xs"
  by (induction xs arbitrary: fresh) simp_all

lemma map_filter_hints: "h \<in> set (List.map_filter v2_hint hs) \<longleftrightarrow> (\<exists>x \<in> set hs. v2_hint x = Some h)"
  by (force simp: List.map_filter_def)

lemma v2_hints_set: "h \<noteq> H1 \<Longrightarrow> h \<in> set (unwrap_or (v2_hints hs) []) \<longleftrightarrow> (\<exists>x \<in> set (unwrap_or hs []). v2_hint x = Some h)"
  by (auto simp: v2_hints_def Let_def map_filter_hints) (metis empty_iff empty_set map_filter_hints)+

lemma v2_hint_iff:
  "v2_hint x = Some H2 \<longleftrightarrow> x = V2_H2" "v2_hint x = Some H2C \<longleftrightarrow> x = V2_H2C" "v2_hint x = Some H2CPK \<longleftrightarrow> x = V2_H2CPK"
  by (cases x; simp)+

text \<open>After an upgrade from version 2 a backend accepts HTTP/1 and exactly the HTTP/2 forms it
  was configured for.\<close>

theorem upgraded_backend_hints:
  "filter_backend (v2_backend_to_v3 b) Http1 \<and>
   (filter_backend (v2_backend_to_v3 b) Http2 \<longleftrightarrow> V2_H2 \<in> set (unwrap_or (b2_hints b) [])) \<and>
   (filter_backend (v2_backend_to_v3 b) H2Cleartext \<longleftrightarrow> V2_H2C \<in> set (unwrap_or (b2_hints b) [])) \<and>
   (filter_backend (v2_backend_to_v3 b) H2CPriorKnowledge \<longleftrightarrow> V2_H2CPK \<in> set (unwrap_or (b2_hints b) [])) \<and>
   (filter_backend (v2_backend_to_v3 b) AnyTLS \<longleftrightarrow> is_set (b2_https b))"
proof (intro conjI)
  show "filter_backend (v2_backend_to_v3 b) Http1"
    by (auto simp: filter_backend_def v2_backend_to_v3_def v2_hints_def Let_def)
  have hint: "list_ex (\<lambda>x. x = h) (unwrap_or (v2_hints hs) []) \<longleftrightarrow> (\<exists>x \<in> set (unwrap_or hs []). v2_hint x = Some h)"
    if "h \<noteq> H1" for h hs using v2_hints_set [OF that] by (auto simp: list_ex_iff)
  show "filter_backend (v2_backend_to_v3 b) Http2 \<longleftrightarrow> V2_H2 \<in> set (unwrap_or (b2_hints b) [])"
    "filter_backend (v2_backend_to_v3 b) H2Cleartext \<longleftrightarrow> V2_H2C \<in> set (unwrap_or (b2_hints b) [])"
    "filter_backend (v2_backend_to_v3 b) H2CPriorKnowledge \<longleftrightarrow> V2_H2CPK \<in> set (unwrap_or (b2_hints b) [])"
    by (simp_all add: filter_backend_def v2_backend_to_v3_def hint v2_hint_iff Let_def)
  show "filter_backend (v2_backend_to_v3 b) AnyTLS \<longleftrightarrow> is_set (b2_https b)"
    by (simp add: filter_backend_def v2_backend_to_v3_def Let_def)
qed

text \<open>An upgrade from version 1 keeps the sites, in order: names, backends with the default
  ports, subdomain settings and tunnel mode of remote sites, and names, commands, arguments,
  environment, ports and start settings of hosted processes.\<close>

theorem upgrade_keeps_sites:
  assumes "try_upgrade_to_latest_version fresh (V1Config c) = Inr (c', v, upgraded)"
  shows "upgraded \<and> v = V1 \<and>
    map (\<lambda>r. (rs_host_name r, map (\<lambda>b. (bk_address b, bk_port b, bk_https b)) (rs_backends r),
              rs_capture_subdomains r, rs_forward_subdomains r, rs_terminate_tls r, rs_terminate_http r))
        (unwrap_or (cfg_remote_target c') []) =
    map (\<lambda>x. (r1_host_name x, [(r1_target_hostname x, unwrap_or (r1_port x) (if is_set (r1_https x) then 443 else 80), r1_https x)],
              r1_capture_subdomains x, r1_forward_subdomains x, r1_disable_tcp_tunnel_mode x, r1_disable_tcp_tunnel_mode x))
        (unwrap_or (c1_remote_target c) []) \<and>
    map (\<lambda>p. (hp_host_name p, hp_bin p, unwrap_or (hp_args p) [], unwrap_or (hp_env_vars p) [], hp_port p, hp_https p,
              hp_auto_start p, hp_exclude_from_start_all p, hp_terminate_tls p))
        (unwrap_or (cfg_hosted_process c') []) =
    map (\<lambda>x. (p1_host_name x, p1_bin x, p1_args x, p1_env_vars x, p1_port x, p1_https x,
              p1_auto_start x, p1_disabled x, p1_disable_tcp_tunnel_mode x))
        (unwrap_or (c1_hosted_process c) [])"
proof -
  have c': "c' = v2_to_v3 (fresh 3) (v1_to_v2 (fresh 2) c)" "upgraded" "v = V1"
    using assms by (auto simp: try_upgrade_to_latest_version_def)
  have p3: "map (\<lambda>p. (hp_host_name p, hp_bin p, unwrap_or (hp_args p) [], unwrap_or (hp_env_vars p) [], hp_port p, hp_https p,
              hp_auto_start p, hp_exclude_from_start_all p, hp_terminate_tls p)) (with_new_ids v2_process_to_v3 f ps) =
      map (\<lambda>p. (p2_host_name p, p2_bin p, unwrap_or (p2_args p) [], unwrap_or (p2_env_vars p) [], p2_port p, p2_https p,
              p2_auto_start p, p2_exclude_from_start_all p, p2_disable_tcp_tunnel_mode p)) ps" for f ps
    by (rule with_new_ids_map) (simp add: v2_process_to_v3_def)
  have p2: "map (\<lambda>p. (p2_host_name p, p2_bin p, unwrap_or (p2_args p) [], unwrap_or (p2_env_vars p) [], p2_port p, p2_https p,
              p2_auto_start p, p2_exclude_from_start_all p, p2_disable_tcp_tunnel_mode p)) (with_new_ids v1_process_to_v2 f ps) =
      map (\<lambda>x. (p1_host_name x, p1_bin x, p1_args x, p1_env_vars x, p1_port x, p1_https x,
              p1_auto_start x, p1_disabled x, p1_disable_tcp_tunnel_mode x)) ps" for f ps
    by (rule with_new_ids_map) (simp add: v1_process_to_v2_def)
  show ?thesis
    by (simp add: c' v2_to_v3_def v1_to_v2_def p3 p2 v2_remote_to_v3_def v1_remote_to_v2_def v2_backend_to_v3_def comp_def)
       (simp add: unwrap_or_def split: option.splits)
qed

text \<open>The settings of version 2 that its conversion does not read.\<close>

definition v2_forgotten :: "OddBoxV2Config \<Rightarrow> OddBoxV2Config" where
  "v2_forgotten c = c\<lparr> c2_alpn := None, c2_dir_server := None, c2_lets_encrypt_account_email := None,
     c2_odd_box_url := None, c2_odd_box_password := None,
     c2_remote_target := map_option (map (\<lambda>r. r\<lparr> r2_enable_lets_encrypt := None, r2_keep_original_host_header := None \<rparr>))
       (c2_remote_target c),
     c2_hosted_process := map_option (map (\<lambda>p. p\<lparr> p2_enable_lets_encrypt := None, p2_log_level := None \<rparr>)) (c2_hosted_process c) \<rparr>"

lemma with_new_ids_comp: "(\<And>i x. f i (g x) = f i x) \<Longrightarrow> with_new_ids f fresh (map g xs) = with_new_ids f fresh xs"
  by (induction xs arbitrary: fresh) simp_all

text \<open>An upgrade from version 2 ignores its directory servers, Let's Encrypt settings, admin
  url and password, ALPN, original host headers and process log levels.\<close>

theorem upgrade_forgets_settings:
  "try_upgrade_to_latest_version fresh (V2Config c) = try_upgrade_to_latest_version fresh (V2Config (v2_forgotten c))"
proof -
  have r: "v2_remote_to_v3 (r\<lparr> r2_enable_lets_encrypt := a, r2_keep_original_host_header := b \<rparr>) = v2_remote_to_v3 r" for r a b
    by (simp add: v2_remote_to_v3_def)
  have p: "with_new_ids v2_process_to_v3 f (map (\<lambda>p. p\<lparr> p2_enable_lets_encrypt := a, p2_log_level := b \<rparr>) ps) =
      with_new_ids v2_process_to_v3 f ps" for f ps a b
    by (rule with_new_ids_comp) (simp add: v2_process_to_v3_def)
  show ?thesis
    by (cases "c2_remote_target c"; cases "c2_hosted_process c")
       (simp_all add: try_upgrade_to_latest_version_def v2_to_v3_def v2_forgotten_def r p comp_def)
qed

text \<open>A legacy process that uses HTTPS is upgraded to port 0, as its port is never read from
  the file.\<close>

theorem legacy_https_port_zero:
  assumes "try_upgrade_to_latest_version fresh (LegacyConfig c) = Inr (c', v, upgraded)"
    and "x \<in> set (lc_processes c)" and "l_https x = Some True" and "l_port x = 0"
  shows "\<exists>p \<in> set (unwrap_or (cfg_hosted_process c') []). hp_host_name p = l_host_name x \<and> hp_port p = Some 0 \<and>
    bk_port (process_backend st p) = 0"
proof -
  have c': "c' = v2_to_v3 (fresh 3) (v1_to_v2 (fresh 2) (legacy_to_v1 c))"
    using assms(1) by (auto simp: try_upgrade_to_latest_version_def)
  define key where "key = (\<lambda>p :: InProcessSiteConfig. (hp_host_name p, hp_port p, hp_active_port p))"
  have k3: "map key (with_new_ids v2_process_to_v3 f ps) = map (\<lambda>p :: V2_InProcessSiteConfig. (p2_host_name p, p2_port p, None)) ps" for f ps
    by (rule with_new_ids_map) (simp add: v2_process_to_v3_def key_def)
  have k2: "map (\<lambda>p. (p2_host_name p, p2_port p, None :: u16 option)) (with_new_ids v1_process_to_v2 f ps) =
      map (\<lambda>p. (p1_host_name p, p1_port p, None)) ps" for f ps
    by (rule with_new_ids_map) (simp add: v1_process_to_v2_def)
  have "key ` set (unwrap_or (cfg_hosted_process c') []) = set (map key (unwrap_or (cfg_hosted_process c') []))" by simp
  also have "\<dots> = set (map (\<lambda>x. (l_host_name x, if is_set (l_https x) then Some (l_port x) else None, None)) (lc_processes c))"
    by (simp add: c' v2_to_v3_def v1_to_v2_def legacy_to_v1_def k3 k2 legacy_process_to_v1_def comp_def del: set_map)
  finally have "(l_host_name x, Some 0, None) \<in> key ` set (unwrap_or (cfg_hosted_process c') [])"
    using assms(2-4) by force
  then obtain p where "p \<in> set (unwrap_or (cfg_hosted_process c') [])" "key p = (l_host_name x, Some 0, None)" by auto
  then show ?thesis by (intro bexI [of _ p]) (simp_all add: key_def process_backend_def Let_def)
qed

section \<open>Which schema a file has\<close>

text \<open>A text that the version 3 reader accepts is taken for version 3, and not upgraded.\<close>

theorem newest_schema_wins:
  assumes "read_v3 rd content = Inr c"
  shows "parse_config rd content = Inr (V3Config c) \<and>
    try_upgrade_to_latest_version fresh (V3Config c) = Inr (c, V3, False)"
  using assms by (simp add: parse_config_def try_upgrade_to_latest_version_def)

section \<open>Witnesses\<close>

definition v1_sample :: OddBoxV1Config where
  "v1_sample =
     \<lparr> c1_root_dir = None, c1_log_level = None, c1_alpn = None, c1_port_range_start = 4200, c1_default_log_format = standard,
       c1_ip = None, c1_http_port = Some 80, c1_tls_port = None, c1_auto_start = None, c1_env_vars = [],
       c1_remote_target = Some
         [\<lparr> r1_h2_hint = Some V1_H2, r1_host_name = ''a.dev'', r1_target_hostname = ''b.dev'', r1_port = None,
            r1_https = Some True, r1_capture_subdomains = None, r1_disable_tcp_tunnel_mode = Some True,
            r1_forward_subdomains = None \<rparr>],
       c1_hosted_process = None, c1_admin_api_port = None, c1_path = None \<rparr>"

lemma upgrade_keeps_sites_witness:
  "\<exists>c' v u. try_upgrade_to_latest_version (\<lambda>_ _. ''i'') (V1Config v1_sample) = Inr (c', v, u) \<and>
     map (\<lambda>r. (rs_host_name r, map bk_port (rs_backends r))) (unwrap_or (cfg_remote_target c') []) = [(''a.dev'', [443])]"
proof -
  obtain c' v u where t: "try_upgrade_to_latest_version (\<lambda>_ _. ''i'') (V1Config v1_sample) = Inr (c', v, u)"
    by (simp add: try_upgrade_to_latest_version_def)
  from upgrade_keeps_sites [OF t]
  have "map (\<lambda>r. (rs_host_name r, map (\<lambda>b. (bk_address b, bk_port b, bk_https b)) (rs_backends r),
              rs_capture_subdomains r, rs_forward_subdomains r, rs_terminate_tls r, rs_terminate_http r))
        (unwrap_or (cfg_remote_target c') []) = [(''a.dev'', [(''b.dev'', 443, Some True)], None, None, Some True, Some True)]"
    by (simp add: v1_sample_def)
  then show ?thesis using t by auto
qed

definition legacy_sample :: OddBoxLegacyConfig where
  "legacy_sample =
     \<lparr> lc_processes = [\<lparr> l_host_name = ''a.dev'', l_path = ''/'', l_bin = ''b'', l_args = [], l_env_vars = [],
         l_log_format = None, l_auto_start = None, l_https = Some True, l_capture_subdomains = None, l_port = 0,
         l_h2_hint = None, l_disable_tcp_tunnel_mode = None \<rparr>],
       lc_env_vars = [], lc_root_dir = None, lc_log_level = None, lc_port_range_start = 4200, lc_default_log_format = None,
       lc_port = None, lc_tls_port = None, lc_auto_start = None, lc_ip = None, lc_remote_sites = None \<rparr>"

lemma legacy_https_port_zero_witness:
  "\<exists>c' v u p. try_upgrade_to_latest_version (\<lambda>_ _. ''i'') (LegacyConfig legacy_sample) = Inr (c', v, u) \<and>
     p \<in> set (unwrap_or (cfg_hosted_process c') []) \<and> hp_port p = Some 0"
proof -
  obtain c' v u where t: "try_upgrade_to_latest_version (\<lambda>_ _. ''i'') (LegacyConfig legacy_sample) = Inr (c', v, u)"
    by (simp add: try_upgrade_to_latest_version_def)
  from legacy_https_port_zero [OF t, of "hd (lc_processes legacy_sample)"]
  show ?thesis using t by (auto simp: legacy_sample_def)
qed

lemma newest_schema_wins_witness:
  "parse_config \<lparr> read_v3 = (\<lambda>_. Inr (v2_to_v3 (\<lambda>_. []) (v1_to_v2 (\<lambda>_. []) v1_sample))), read_v2 = (\<lambda>_. Inl []),
     read_v1 = (\<lambda>_. Inl []), read_legacy = (\<lambda>_. Inl []) \<rparr> [] \<noteq> Inl []"
  by (subst conjunct1 [OF newest_schema_wins]) simp_all

end
