(* ===== verification/Config_Text.thy ===== *)
theory Config_Text
  imports Config_V3
begin

text \<open>
  Writing the configuration, \<open>to_string\<close> and \<open>write_to_disk\<close> of \<open>src/configuration/v3.rs\<close>: the text
  of the TOML file, line by line. The file system is what it is asked to write. Numbers are printed by
  \<open>dec\<close>; \<open>{:?}\<close> of a string is \<open>debug_str\<close>, where characters outside ASCII are taken as printable.
\<close>

section \<open>Printing\<close>

definition quote :: string where "quote = [CHR 0x22]"

definition newline :: string where "newline = [CHR 0x0A]"

definition hex_digit :: "nat \<Rightarrow> char" where
  "hex_digit n = ''0123456789abcdef'' ! (n mod 16)"

text \<open>\<open>char::escape_debug\<close> as \<open>{:?}\<close> of a string uses it: a single quote is not escaped.\<close>

definition escape_debug :: "char \<Rightarrow> string" where
  "escape_debug c =
     (let n = of_char c :: nat in
      if n = 0 then [CHR 0x5C, CHR ''0'']
      else if n = 9 then [CHR 0x5C, CHR ''t'']
      else if n = 10 then [CHR 0x5C, CHR ''n'']
      else if n = 13 then [CHR 0x5C, CHR ''r'']
      else if n = 0x22 then [CHR 0x5C, CHR 0x22]
      else if n = 0x5C then [CHR 0x5C, CHR 0x5C]
      else if n < 16 then [CHR 0x5C, CHR ''u'', CHR 0x7B, hex_digit n, CHR 0x7D]
      else if n < 32 \<or> n = 127 then [CHR 0x5C, CHR ''u'', CHR 0x7B, hex_digit (n div 16), hex_digit n, CHR 0x7D]
      else [c])"

definition debug_str :: "string \<Rightarrow> string" where
  "debug_str s = quote @ concat (map escape_debug s) @ quote"

definition bool_text :: "bool \<Rightarrow> string" where
  "bool_text b = (if b then ''true'' else ''false'')"

definition log_level_text :: "LogLevel \<Rightarrow> string" where
  "log_level_text l =
     (case l of Trace \<Rightarrow> ''Trace'' | Debug \<Rightarrow> ''Debug'' | Info \<Rightarrow> ''Info'' | Warn \<Rightarrow> ''Warn'' | Error \<Rightarrow> ''Error'')"

definition log_format_text :: "LogFormat \<Rightarrow> string" where
  "log_format_text f = (case f of standard \<Rightarrow> ''standard'' | dotnet \<Rightarrow> ''dotnet'')"

definition hint_text :: "Hint \<Rightarrow> string" where
  "hint_text h = (case h of H2 \<Rightarrow> ''H2'' | H2C \<Rightarrow> ''H2C'' | H2CPK \<Rightarrow> ''H2CPK'' | H1 \<Rightarrow> ''H1'' | H3 \<Rightarrow> ''H3'')"

fun join :: "string \<Rightarrow> string list \<Rightarrow> string" where
  "join sep [] = []"
| "join sep [x] = x"
| "join sep (x # y # ys) = x @ sep @ join sep (y # ys)"

definition setting :: "string \<Rightarrow> string \<Rightarrow> string" where
  "setting key val = key @ '' = '' @ val"

definition opt_line :: "('a \<Rightarrow> string) \<Rightarrow> 'a option \<Rightarrow> string list" where
  "opt_line f v = (case v of Some x \<Rightarrow> [f x] | None \<Rightarrow> [])"

text \<open>\<open>if let Some(true) = v\<close>.\<close>

definition flag_line :: "string \<Rightarrow> bool option \<Rightarrow> string list" where
  "flag_line key v = (if v = Some True then [setting key ''true''] else [])"

section \<open>The sections of the file\<close>

definition env_var_lines :: "EnvVar list \<Rightarrow> string list" where
  "env_var_lines vs =
     [''env_vars = [''] @
     map (\<lambda>v. [CHR 0x09] @ ''{ key = '' @ debug_str (ev_key v) @ '', value = '' @ debug_str (ev_value v) @ '' },'') vs @
     ['']'']"

definition global_lines :: "OddBoxV3Config \<Rightarrow> string list" where
  "global_lines cfg =
     [''#:schema https://raw.githubusercontent.com/OlofBlomqvist/odd-box/main/odd-box-schema-v3.1.json'',
      setting ''version'' (quote @ ''V3'' @ quote)] @
     [setting ''alpn'' (case cfg_alpn cfg of Some a \<Rightarrow> bool_text a | None \<Rightarrow> ''false'')] @
     opt_line (\<lambda>p. setting ''http_port'' (dec (unat p))) (cfg_http_port cfg) @
     opt_line (\<lambda>p. setting ''tls_port'' (dec (unat p))) (cfg_tls_port cfg) @
     [setting ''ip'' (case cfg_ip cfg of Some ip \<Rightarrow> quote @ ip @ quote | None \<Rightarrow> quote @ ''127.0.0.1'' @ quote)] @
     [setting ''auto_start'' (case cfg_auto_start cfg of Some a \<Rightarrow> bool_text a | None \<Rightarrow> ''false'')] @
     [setting ''root_dir'' (case cfg_root_dir cfg of Some d \<Rightarrow> debug_str d | None \<Rightarrow> quote @ ''~'' @ quote)] @
     opt_line (\<lambda>l. setting ''log_level'' (quote @ log_level_text l @ quote)) (cfg_log_level cfg) @
     opt_line (\<lambda>u. setting ''odd_box_url'' (debug_str u)) (cfg_odd_box_url cfg) @
     opt_line (\<lambda>p. setting ''odd_box_password'' (debug_str p)) (cfg_odd_box_password cfg) @
     [setting ''port_range_start'' (dec (unat (cfg_port_range_start cfg))),
      setting ''default_log_format'' (quote @ log_format_text (cfg_default_log_format cfg) @ quote)] @
     opt_line (\<lambda>e. setting ''lets_encrypt_account_email'' (quote @ e @ quote)) (cfg_lets_encrypt_account_email cfg) @
     (if 0 < length (cfg_env_vars cfg) then env_var_lines (cfg_env_vars cfg) else [''env_vars = []''])"

definition dir_server_lines :: "DirServer \<Rightarrow> string list" where
  "dir_server_lines s =
     [newline @ ''[[dir_server]]'', setting ''host_name'' (debug_str (ds_host_name s)),
      setting ''dir'' (debug_str (ds_dir s))] @
     flag_line ''capture_subdomains'' (ds_capture_subdomains s) @
     flag_line ''enable_directory_browsing'' (ds_enable_directory_browsing s) @
     flag_line ''enable_lets_encrypt'' (ds_enable_lets_encrypt s) @
     flag_line ''render_markdown'' (ds_render_markdown s) @
     flag_line ''redirect_to_https'' (ds_redirect_to_https s) @
     opt_line (\<lambda>v. setting ''cache_control_max_age_in_seconds'' (dec (unat v))) (ds_cache_control_max_age_in_seconds s)"

definition hint_list_text :: "Hint list \<Rightarrow> string" where
  "hint_list_text hints = join '', '' (map (\<lambda>h. [CHR 0x27] @ hint_text h @ [CHR 0x27]) hints)"

definition backend_text :: "Backend \<Rightarrow> string" where
  "backend_text b =
     [CHR 0x09] @ ''{ '' @ (if bk_https b = Some True then ''https = true, '' else []) @
     ''address='' @ quote @ bk_address b @ quote @ '', port='' @ dec (unat (bk_port b)) @
     (case bk_hints b of Some hints \<Rightarrow> '', hints = ['' @ hint_list_text hints @ '']'' | None \<Rightarrow> []) @ ''}''"

definition remote_lines :: "RemoteSiteConfig \<Rightarrow> string list" where
  "remote_lines site =
     [newline @ ''[[remote_target]]'', setting ''host_name'' (debug_str (rs_host_name site))] @
     flag_line ''forward_subdomains'' (rs_forward_subdomains site) @
     flag_line ''redirect_to_https'' (rs_redirect_to_https site) @
     flag_line ''capture_subdomains'' (rs_capture_subdomains site) @
     flag_line ''terminate_tls'' (rs_terminate_tls site) @
     flag_line ''enable_lets_encrypt'' (rs_enable_lets_encrypt site) @
     [''backends = ['', join ('','' @ newline) (map backend_text (rs_backends site)), '']'']"

definition process_lines :: "InProcessSiteConfig \<Rightarrow> string list" where
  "process_lines p =
     [newline @ ''[[hosted_process]]'', setting ''host_name'' (debug_str (hp_host_name p))] @
     opt_line (\<lambda>d. setting ''dir'' (debug_str d)) (hp_dir p) @
     [setting ''bin'' (debug_str (hp_bin p))] @
     (case hp_hints p of Some hints \<Rightarrow> [''hints = ['', hint_list_text hints, '']''] | None \<Rightarrow> []) @
     [''args = ['' @ join '', '' (map (\<lambda>a. newline @ ''  '' @ debug_str a) (unwrap_or (hp_args p) [])) @ '']''] @
     opt_line (\<lambda>a. setting ''auto_start'' (bool_text a)) (hp_auto_start p) @
     opt_line (\<lambda>l. setting ''log_level'' (quote @ log_level_text l @ quote)) (hp_log_level p) @
     flag_line ''redirect_to_https'' (hp_redirect_to_https p) @
     flag_line ''enable_lets_encrypt'' (hp_enable_lets_encrypt p) @
     flag_line ''exclude_from_start_all'' (hp_exclude_from_start_all p) @
     opt_line (\<lambda>b. setting ''https'' (bool_text b)) (hp_https p) @
     opt_line (\<lambda>n. setting ''port'' (dec (unat n))) (hp_port p) @
     flag_line ''capture_subdomains'' (hp_capture_subdomains p) @
     flag_line ''terminate_tls'' (hp_terminate_tls p) @
     (case hp_env_vars p of Some vs \<Rightarrow> env_var_lines vs | None \<Rightarrow> [])"

definition config_lines :: "OddBoxV3Config \<Rightarrow> string list" where
  "config_lines cfg =
     global_lines cfg @
     concat (map dir_server_lines (unwrap_or (cfg_dir_server cfg) [])) @
     concat (map remote_lines (unwrap_or (cfg_remote_target cfg) [])) @
     concat (map process_lines (unwrap_or (cfg_hosted_process cfg) []))"

definition config_to_string :: "OddBoxV3Config \<Rightarrow> string" where
  "config_to_string cfg = join newline (config_lines cfg)"

text \<open>\<open>write_to_disk\<close>: the path and the text to write, or the error that there is no path.\<close>

definition write_to_disk :: "OddBoxV3Config \<Rightarrow> string + string \<times> string" where
  "write_to_disk cfg =
     (case cfg_path cfg of
        Some p \<Rightarrow> Inr (p, config_to_string cfg)
      | None \<Rightarrow> Inl ''Failed to save due to a bug in odd-box: No path found to the current configuration'')"

section \<open>What is not written\<close>

definition unwritten_remote :: "RemoteSiteConfig \<Rightarrow> RemoteSiteConfig" where
  "unwritten_remote r = r\<lparr> rs_terminate_http := None, rs_keep_original_host_header := None \<rparr>"

definition unwritten_process :: "InProcessSiteConfig \<Rightarrow> InProcessSiteConfig" where
  "unwritten_process p = p\<lparr> hp_terminate_http := None, hp_forward_subdomains := None, hp_log_format := None \<rparr>"

text \<open>Saving a configuration writes none of: original host header and HTTP termination of
  sites, forwarding of subdomains and log format of processes, and the loopback setting.\<close>

theorem saved_text_forgets_settings:
  "write_to_disk cfg = write_to_disk (cfg\<lparr>
     cfg_use_loopback_ip_for_procs := None,
     cfg_remote_target := map_option (map unwritten_remote) (cfg_remote_target cfg),
     cfg_hosted_process := map_option (map unwritten_process) (cfg_hosted_process cfg) \<rparr>)"
proof -
  have "remote_lines (unwritten_remote r) = remote_lines r" for r :: RemoteSiteConfig
    by (simp add: remote_lines_def unwritten_remote_def)
  moreover have "process_lines (unwritten_process p) = process_lines p" for p :: InProcessSiteConfig
    by (simp add: process_lines_def unwritten_process_def)
  ultimately have "config_lines cfg = config_lines (cfg\<lparr> cfg_use_loopback_ip_for_procs := None,
     cfg_remote_target := map_option (map unwritten_remote) (cfg_remote_target cfg),
     cfg_hosted_process := map_option (map unwritten_process) (cfg_hosted_process cfg) \<rparr>)"
    by (cases "cfg_remote_target cfg"; cases "cfg_hosted_process cfg")
       (simp_all add: config_lines_def global_lines_def comp_def)
  then show ?thesis
    by (cases "cfg_path cfg") (simp_all add: write_to_disk_def config_to_string_def)
qed

section \<open>Reading strings back\<close>

text \<open>
  A TOML basic string, up to its closing quote, with the escapes of one character: what is denoted, and
  what follows it. \<open>None\<close>: not a basic string of this form.
\<close>

fun read_basic :: "string \<Rightarrow> (string \<times> string) option" where
  "read_basic [] = None"
| "read_basic (c # cs) =
     (if c = CHR 0x22 then Some ([], cs)
      else if c = CHR 0x5C then
        (case cs of
           [] \<Rightarrow> None
         | e # cs \<Rightarrow>
             (case (if e = CHR ''t'' then Some (CHR 0x09) else if e = CHR ''n'' then Some (CHR 0x0A)
                    else if e = CHR ''r'' then Some (CHR 0x0D) else if e = CHR 0x22 \<or> e = CHR 0x5C then Some e else None) of
                None \<Rightarrow> None
              | Some x \<Rightarrow> map_option (\<lambda>(s, r). (x # s, r)) (read_basic cs)))
      else if (of_char c :: nat) < 32 \<or> (of_char c :: nat) = 127 then None
      else map_option (\<lambda>(s, r). (c # s, r)) (read_basic cs))"

definition read_basic_string :: "string \<Rightarrow> (string \<times> string) option" where
  "read_basic_string cs = (case cs of c # cs \<Rightarrow> if c = CHR 0x22 then read_basic cs else None | [] \<Rightarrow> None)"

definition plain_char :: "char \<Rightarrow> bool" where
  "plain_char c \<longleftrightarrow> (let n = of_char c :: nat in n = 9 \<or> n = 10 \<or> n = 13 \<or> 32 \<le> n \<and> n \<noteq> 127)"

lemma char_code: "(of_char c :: nat) = of_char d \<longleftrightarrow> c = d"
  by simp

lemma read_escaped:
  assumes "plain_char c"
  shows "read_basic (escape_debug c @ rest) = map_option (\<lambda>(s, r). (c # s, r)) (read_basic rest)"
proof -
  have codes: "(of_char c :: nat) = 9 \<longleftrightarrow> c = CHR 0x09" "(of_char c :: nat) = 10 \<longleftrightarrow> c = CHR 0x0A"
    "(of_char c :: nat) = 13 \<longleftrightarrow> c = CHR 0x0D" "(of_char c :: nat) = 0x22 \<longleftrightarrow> c = CHR 0x22"
    "(of_char c :: nat) = 0x5C \<longleftrightarrow> c = CHR 0x5C"
    using char_code [of c "CHR 0x09"] char_code [of c "CHR 0x0A"] char_code [of c "CHR 0x0D"]
      char_code [of c "CHR 0x22"] char_code [of c "CHR 0x5C"] by simp_all
  show ?thesis
    using assms by (auto simp: escape_debug_def plain_char_def Let_def codes)
qed

lemma read_escaped_all:
  "list_all plain_char s \<Longrightarrow> read_basic (concat (map escape_debug s) @ quote @ rest) = Some (s, rest)"
  by (induction s) (simp_all add: quote_def read_escaped)

text \<open>A string of printable ASCII characters, line breaks, tabs, quotes and backslashes,
  printed as the configuration writer does, is read back by a reader of TOML basic strings, whatever
  follows it.\<close>

theorem printed_string_roundtrip:
  assumes "list_all plain_char s"
  shows "read_basic_string (debug_str s @ rest) = Some (s, rest)"
  using read_escaped_all [OF assms, of rest] by (simp add: read_basic_string_def debug_str_def quote_def)

lemma printed_string_roundtrip_witness:
  "read_basic_string (debug_str [CHR ''a'', CHR 0x22, CHR 0x0A, CHR 0x5C] @ '' = x'') = Some ([CHR ''a'', CHR 0x22, CHR 0x0A, CHR 0x5C], '' = x'')"
  by (rule printed_string_roundtrip) code_simp

text \<open>The address of a backend is written between quotes without escaping: an address with a
  quote is read back as another one.\<close>

theorem backend_address_not_escaped:
  "\<exists>a. list_all plain_char a \<and> read_basic_string (quote @ a @ quote @ rest) \<noteq> Some (a, quote @ rest) \<and>
    (\<exists>s. backend_text \<lparr> bk_address = a, bk_port = 1, bk_https = None, bk_hints = None \<rparr> =
       [CHR 0x09] @ ''{ address='' @ quote @ a @ quote @ s)"
proof (intro exI conjI)
  show "list_all plain_char [CHR 0x22]" by code_simp
  show "read_basic_string (quote @ [CHR 0x22] @ quote @ rest) \<noteq> Some ([CHR 0x22], quote @ rest)"
    by (simp add: read_basic_string_def quote_def)
  show "backend_text \<lparr> bk_address = [CHR 0x22], bk_port = 1, bk_https = None, bk_hints = None \<rparr> =
       [CHR 0x09] @ ''{ address='' @ quote @ [CHR 0x22] @ quote @ '', port='' @ dec 1 @ ''}''"
    by (simp add: backend_text_def)
qed

end
