(* ===== verification/Proc_Host.thy ===== *)
theory Proc_Host
  imports Configuration Proxy
begin

text \<open>
  The supervision of a hosted process, \<open>src/proc_host.rs\<close>: the loop of \<open>host\<close>, which starts the
  process, watches it, obeys the messages of the proxy and restarts it, one turn at a time. What the
  outside answers in a turn is a record: what other tasks wrote to shared maps, messages, the exit flag,
  the file system, whether the process started, and a tick for each turn of the inner loop in which it was
  still alive. Sleeping and the threads that copy its output to the log are not modelled; killing a
  process is taken to work.
\<close>

section \<open>State\<close>

record ProcInfo =
  pi_config :: FullyResolvedInProcessSiteConfig
  pi_pid :: "string option"
  pi_marked_for_removal :: bool

record ProcCommand =
  cm_bin :: string
  cm_args :: "string list"
  cm_env :: "string \<rightharpoonup> string"
  cm_dir :: string

text \<open>
  What all hosts share: the configuration, \<open>PROC_THREAD_MAP\<close>, \<open>site_status_map\<close>, the status events
  sent to the WebSocket clients, and for the outside the commands started, the processes alive, and the
  names whose deletion was confirmed.
\<close>

record Supervisor =
  sp_config :: ConfigWrapper
  sp_threads :: "ProcId \<rightharpoonup> ProcInfo"
  sp_status :: "string \<rightharpoonup> ProcState"
  sp_emitted :: "(string \<times> ProcState \<times> ProcId) list"
  sp_started :: "ProcCommand list"
  sp_children :: "string set"
  sp_confirmed :: "string list"

text \<open>The variables of one host. \<open>previous_update\<close> is never read but to be returned, and is left out.\<close>

record HostState =
  hs_proc :: FullyResolvedInProcessSiteConfig
  hs_enabled :: bool
  hs_initialized :: bool
  hs_missing_bin :: bool

record HostTick =
  tk_exit :: bool
  tk_live_config :: "InProcessSiteConfig option"
  tk_messages :: "ProcMessage list"
  tk_marked :: bool

record HostTurn =
  ht_marked :: bool
  ht_exit :: bool
  ht_messages :: "ProcMessage list"
  ht_free :: "u16 \<Rightarrow> bool"
  ht_random :: "u16 option"
  ht_cwd :: string
  ht_exists :: "string \<Rightarrow> bool"
  ht_which :: "string \<Rightarrow> string option"
  ht_spawned :: "string option"
  ht_ticks :: "HostTick list"
  ht_exit_after :: bool

section \<open>Status\<close>

definition update_status :: "string \<Rightarrow> ProcId \<Rightarrow> ProcState \<Rightarrow> Supervisor \<Rightarrow> Supervisor" where
  "update_status host i st g =
     (let old = sp_status g host; g = g\<lparr> sp_status := (sp_status g)(host \<mapsto> st) \<rparr> in
      if old = Some st then g else g\<lparr> sp_emitted := sp_emitted g @ [(host, st, i)] \<rparr>)"

definition forget_status :: "string \<Rightarrow> Supervisor \<Rightarrow> Supervisor" where
  "forget_status host g = g\<lparr> sp_status := (sp_status g)(host := None) \<rparr>"

definition set_status :: "HostState \<Rightarrow> ProcState \<Rightarrow> Supervisor \<Rightarrow> Supervisor" where
  "set_status h st g = update_status (fr_host_name (hs_proc h)) (fr_proc_id (hs_proc h)) st g"

definition kill_child :: "string \<Rightarrow> Supervisor \<Rightarrow> Supervisor" where
  "kill_child pid g = g\<lparr> sp_children := sp_children g - {pid} \<rparr>"

section \<open>Messages\<close>

text \<open>The host name, and what comes before its first full stop.\<close>

definition acceptable_names :: "string \<Rightarrow> string list" where
  "acceptable_names host = [host, takeWhile (\<lambda>c. c \<noteq> CHR ''.'') host]"

definition is_for_me :: "string list \<Rightarrow> string \<Rightarrow> bool" where
  "is_for_me names s \<longleftrightarrow> s = ''all'' \<or> s \<in> set names"

text \<open>The messages that have arrived, in order: \<open>None\<close> when one deletes this process.\<close>

fun messages_while_stopped :: "string list \<Rightarrow> bool \<Rightarrow> ProcMessage list \<Rightarrow> bool \<Rightarrow> (bool + string)" where
  "messages_while_stopped names excluded [] enabled = Inl enabled"
| "messages_while_stopped names excluded (m # ms) enabled =
     (if excluded \<and> (m = StartAll \<or> m = Start ''all'') then messages_while_stopped names excluded ms enabled
      else
        (case m of
           Delete s \<Rightarrow> if s \<in> set names then Inr s else messages_while_stopped names excluded ms enabled
         | StartAll \<Rightarrow> messages_while_stopped names excluded ms True
         | StopAll \<Rightarrow> messages_while_stopped names excluded ms False
         | Start s \<Rightarrow> messages_while_stopped names excluded ms (is_for_me names s \<or> enabled)
         | Stop s \<Rightarrow> messages_while_stopped names excluded ms (\<not> is_for_me names s \<and> enabled)))"

fun messages_while_running :: "string list \<Rightarrow> ProcMessage list \<Rightarrow> bool \<Rightarrow> (bool + string)" where
  "messages_while_running names [] enabled = Inl enabled"
| "messages_while_running names (m # ms) enabled =
     (case m of
        Delete s \<Rightarrow> if s \<in> set names then Inr s else messages_while_running names ms enabled
      | StartAll \<Rightarrow> messages_while_running names ms True
      | StopAll \<Rightarrow> messages_while_running names ms False
      | Start s \<Rightarrow> messages_while_running names ms (is_for_me names s \<or> enabled)
      | Stop s \<Rightarrow> messages_while_running names ms (\<not> is_for_me names s \<and> enabled))"

section \<open>The command\<close>

text \<open>\<open>Path::join\<close>, on Unix.\<close>

definition path_join :: "string \<Rightarrow> string \<Rightarrow> string" where
  "path_join a b =
     (if starts_with b ''/'' then b else if a = [] \<or> ends_with a ''/'' then a @ b else a @ ''/'' @ b)"

definition resolve_bin_path ::
  "(string \<Rightarrow> bool) \<Rightarrow> (string \<Rightarrow> string option) \<Rightarrow> string \<Rightarrow> string \<Rightarrow> string \<Rightarrow> string option" where
  "resolve_bin_path exists which cwd workdir bin =
     (if starts_with bin ''/'' \<and> exists bin then Some bin
      else if \<not> starts_with bin ''/'' \<and> exists (path_join workdir bin) then Some (path_join workdir bin)
      else if exists (path_join cwd bin) then Some (path_join cwd bin)
      else which bin)"

fun add_env_vars :: "EnvVar list \<Rightarrow> (string \<rightharpoonup> string) \<Rightarrow> (string \<rightharpoonup> string)" where
  "add_env_vars [] m = m"
| "add_env_vars (v # vs) m = add_env_vars vs (m(ev_key v \<mapsto> ev_value v))"

definition command_for :: "OddBoxV3Config \<Rightarrow> FullyResolvedInProcessSiteConfig \<Rightarrow> u16 \<Rightarrow> string \<Rightarrow> string \<Rightarrow> ProcCommand" where
  "command_for cfg proc active bin workdir =
     (let port = dec (unat active);
          env = add_env_vars (cfg_env_vars cfg) Map.empty;
          env = add_env_vars (unwrap_or (fr_env_vars proc) []) env;
          env = env(''PORT'' \<mapsto> port)
      in \<lparr> cm_bin = bin, cm_args = map (replace_str ''$port'' port) (unwrap_or (fr_args proc) []),
           cm_env = env, cm_dir = workdir \<rparr>)"

section \<open>Watching a running process\<close>

datatype watched = ChildOver | HostLeft

fun watch_child :: "string \<Rightarrow> HostTick list \<Rightarrow> HostState \<Rightarrow> Supervisor \<Rightarrow> watched \<times> HostState \<times> Supervisor" where
  "watch_child pid [] h g = (ChildOver, h, kill_child pid g)"
| "watch_child pid (t # ts) h g =
     (if tk_exit t then (ChildOver, h, kill_child pid (set_status h Stopping g))
      else if (case tk_live_config t of Some c \<Rightarrow> hp_proc_id c \<noteq> fr_proc_id (hs_proc h) | None \<Rightarrow> False) then
        (ChildOver, h, kill_child pid (set_status h Stopping g))
      else
        (let h = (case tk_live_config t of
                    Some c \<Rightarrow> h\<lparr> hs_proc := (hs_proc h)\<lparr> fr_log_format := hp_log_format c, fr_log_level := hp_log_level c \<rparr> \<rparr>
                  | None \<Rightarrow> h);
             g = set_status h Running g in
         case messages_while_running (acceptable_names (fr_host_name (hs_proc h))) (tk_messages t) (hs_enabled h) of
           Inr s \<Rightarrow>
             (HostLeft, h,
              kill_child pid ((forget_status (fr_host_name (hs_proc h)) g)\<lparr> sp_confirmed := sp_confirmed g @ [s] \<rparr>))
         | Inl enabled \<Rightarrow>
             (let h = h\<lparr> hs_enabled := enabled \<rparr> in
              if tk_marked t then (HostLeft, h, kill_child pid (set_status h Stopping g))
              else if \<not> enabled then (ChildOver, h, kill_child pid (set_status h Stopping g))
              else watch_child pid ts h g)))"

section \<open>One turn of the host\<close>

text \<open>\<open>True\<close>: the host has left its loop.\<close>

definition after_child :: "HostTurn \<Rightarrow> HostState \<Rightarrow> Supervisor \<Rightarrow> bool \<times> HostState \<times> Supervisor" where
  "after_child turn h g =
     (if hs_enabled h then
        if \<not> ht_exit_after turn then (False, h, set_status h Faulty g) else (True, h, g)
      else (False, h, g))"

definition start_child :: "HostTurn \<Rightarrow> u16 \<Rightarrow> HostState \<Rightarrow> Supervisor \<Rightarrow> bool \<times> HostState \<times> Supervisor" where
  "start_child turn port h g =
     (let proc = hs_proc h; workdir = unwrap_or (fr_dir proc) (ht_cwd turn) in
      case resolve_bin_path (ht_exists turn) (ht_which turn) (ht_cwd turn) workdir (fr_bin proc) of
        None \<Rightarrow> (False, h\<lparr> hs_missing_bin := True \<rparr>, set_status h Faulty g)
      | Some bin \<Rightarrow>
          (let h = h\<lparr> hs_missing_bin := False \<rparr>;
               cmd = command_for (internal_configuration (sp_config g)) proc port bin workdir;
               g = set_status h Starting g in
           case ht_spawned turn of
             Some pid \<Rightarrow>
               (let g = g\<lparr> sp_started := sp_started g @ [cmd], sp_children := insert pid (sp_children g) \<rparr>;
                    g = set_status h Running g;
                    g = g\<lparr> sp_threads := (sp_threads g)(fr_proc_id proc :=
                            map_option (\<lambda>item. item\<lparr> pi_pid := Some pid,
                              pi_config := (pi_config item)\<lparr> fr_active_port := fr_active_port proc \<rparr> \<rparr>)
                              (sp_threads g (fr_proc_id proc))) \<rparr>;
                    (w, h, g) = watch_child pid (ht_ticks turn) h g in
                case w of
                  HostLeft \<Rightarrow> (True, h, g)
                | ChildOver \<Rightarrow> after_child turn h (set_status h Stopped g))
           | None \<Rightarrow> after_child turn h (set_status h Faulty g)))"

definition forget_pid :: "ProcId \<Rightarrow> Supervisor \<Rightarrow> Supervisor" where
  "forget_pid i g =
     g\<lparr> sp_threads := (sp_threads g)(i := map_option (\<lambda>item. item\<lparr> pi_pid := None \<rparr>) (sp_threads g i)) \<rparr>"

definition host_turn :: "HostTurn \<Rightarrow> HostState \<Rightarrow> Supervisor \<Rightarrow> (bool \<times> HostState \<times> Supervisor) run" where
  "host_turn turn h g =
     (let proc = hs_proc h; host = fr_host_name proc;
          known = (sp_threads g (fr_proc_id proc) \<noteq> None);
          g = forget_pid (fr_proc_id proc) g in
      if known \<and> ht_marked turn then Some (True, h, forget_status host g)
      else if ht_exit turn then Some (True, h, set_status h Stopped g)
      else
        (let g = set_status h Stopped g; h = h\<lparr> hs_initialized := True \<rparr> in
         case messages_while_stopped (acceptable_names host) (fr_excluded_from_start_all proc) (ht_messages turn) (hs_enabled h) of
           Inr s \<Rightarrow> Some (True, h, (forget_status host g)\<lparr> sp_confirmed := sp_confirmed g @ [s] \<rparr>)
         | Inl enabled \<Rightarrow>
             if \<not> enabled then
               Some (False, h\<lparr> hs_enabled := False \<rparr>, if enabled \<noteq> hs_enabled h then set_status h Stopped g else g)
             else
               (let h = h\<lparr> hs_enabled := True \<rparr> in
                case set_active_port (ht_free turn) (ht_random turn) (hs_proc h) (sp_config g) of
                  None \<Rightarrow> None
                | Some (r, cfg) \<Rightarrow>
                    (let g = g\<lparr> sp_config := cfg \<rparr>;
                         h = (case r of
                                Inr p \<Rightarrow> h\<lparr> hs_proc := (hs_proc h)\<lparr> fr_active_port := Some p \<rparr> \<rparr>
                              | Inl _ \<Rightarrow> h) in
                     case fr_active_port (hs_proc h) of
                       None \<Rightarrow> Some (False, h, g)
                     | Some port \<Rightarrow> Some (start_child turn port h g)))))"

text \<open>The beginning of \<open>host\<close>, and its turns until it leaves.\<close>

definition host_start :: "FullyResolvedInProcessSiteConfig \<Rightarrow> Supervisor \<Rightarrow> HostState \<times> Supervisor" where
  "host_start proc g =
     (let enabled = (case fr_auto_start proc of
                       Some v \<Rightarrow> v
                     | None \<Rightarrow> unwrap_or (cfg_auto_start (internal_configuration (sp_config g))) True) in
      (\<lparr> hs_proc = proc, hs_enabled = enabled, hs_initialized = False, hs_missing_bin = False \<rparr>,
       g\<lparr> sp_threads := (sp_threads g)(fr_proc_id proc \<mapsto>
            \<lparr> pi_config = proc, pi_pid = None, pi_marked_for_removal = False \<rparr>) \<rparr>))"

fun host_turns :: "HostTurn list \<Rightarrow> HostState \<Rightarrow> Supervisor \<Rightarrow> (bool \<times> HostState \<times> Supervisor) run" where
  "host_turns [] h g = Some (False, h, g)"
| "host_turns (t # ts) h g =
     (case host_turn t h g of
        None \<Rightarrow> None
      | Some (True, h, g) \<Rightarrow> Some (True, h, g)
      | Some (False, h, g) \<Rightarrow> host_turns ts h g)"

section \<open>Stopping a process\<close>

text \<open>
  \<open>graceful_stop_pid_only\<close>, with the phase in which the process exits (\<open>None\<close>: in none of them):
  the signals sent, each to the direct children and then to the process, and whether it stopped.
\<close>

datatype stop_signal = SIGINT | SIGTERM | SIGKILL

fun stop_phases :: "stop_signal list \<Rightarrow> nat list \<Rightarrow> nat \<Rightarrow> (stop_signal \<Rightarrow> bool) \<Rightarrow> bool \<Rightarrow> (nat \<times> stop_signal) list \<times> bool" where
  "stop_phases [] children parent exits late = ([], late)"
| "stop_phases (sg # sgs) children parent exits late =
     (let sent = map (\<lambda>c. (c, sg)) children @ [(parent, sg)] in
      if exits sg then (sent, True)
      else (let (more_sent, r) = stop_phases sgs children parent exits late in (sent @ more_sent, r)))"

definition graceful_stop_pid_only :: "nat list \<Rightarrow> nat \<Rightarrow> (stop_signal \<Rightarrow> bool) \<Rightarrow> bool \<Rightarrow> (nat \<times> stop_signal) list \<times> bool" where
  "graceful_stop_pid_only children parent exits late = stop_phases [SIGINT, SIGTERM, SIGKILL] children parent exits late"


text \<open>Killing comes after interrupting and terminating, and only when both have failed.\<close>

lemma graceful_stop_kills_last:
  "(p, SIGKILL) \<in> set (fst (graceful_stop_pid_only children parent exits late)) \<Longrightarrow>
     \<not> exits SIGINT \<and> \<not> exits SIGTERM \<and> p \<in> insert parent (set children)"
  by (auto simp: graceful_stop_pid_only_def Let_def split: if_splits)

section \<open>The processes alive\<close>

lemma status_fields [simp]:
  "sp_children (set_status h st g) = sp_children g" "sp_started (set_status h st g) = sp_started g"
  "sp_config (set_status h st g) = sp_config g" "sp_threads (set_status h st g) = sp_threads g"
  "sp_confirmed (set_status h st g) = sp_confirmed g"
  "sp_children (forget_status host g) = sp_children g" "sp_started (forget_status host g) = sp_started g"
  "sp_children (kill_child pid g) = sp_children g - {pid}" "sp_started (kill_child pid g) = sp_started g"
  "sp_children (forget_pid i g) = sp_children g" "sp_started (forget_pid i g) = sp_started g"
  "sp_config (forget_pid i g) = sp_config g" "sp_status (forget_pid i g) = sp_status g"
  "sp_emitted (forget_pid i g) = sp_emitted g" "sp_confirmed (forget_pid i g) = sp_confirmed g"
  by (simp_all add: forget_pid_def set_status_def update_status_def forget_status_def kill_child_def Let_def)

lemma watch_child_children:
  "watch_child pid ts h g = (w, h', g') \<Longrightarrow> sp_children g' = sp_children g - {pid} \<and> sp_started g' = sp_started g"
  by (induction pid ts h g rule: watch_child.induct) (auto simp: Let_def split: if_splits sum.splits option.splits)

lemma after_child_children:
  "after_child turn h g = (l, h', g') \<Longrightarrow> sp_children g' = sp_children g \<and> sp_started g' = sp_started g"
  by (auto simp: after_child_def split: if_splits)

text \<open>The supervisor once the process runs and is known, and the command it runs.\<close>

definition started_child :: "string \<Rightarrow> ProcCommand \<Rightarrow> HostState \<Rightarrow> Supervisor \<Rightarrow> Supervisor" where
  "started_child pid cmd h g =
     (let g = g\<lparr> sp_started := sp_started g @ [cmd], sp_children := insert pid (sp_children g) \<rparr>;
          g = set_status h Running g in
      g\<lparr> sp_threads := (sp_threads g)(fr_proc_id (hs_proc h) :=
           map_option (\<lambda>item. item\<lparr> pi_pid := Some pid,
             pi_config := (pi_config item)\<lparr> fr_active_port := fr_active_port (hs_proc h) \<rparr> \<rparr>)
             (sp_threads g (fr_proc_id (hs_proc h)))) \<rparr>)"

definition command_of :: "Supervisor \<Rightarrow> HostState \<Rightarrow> u16 \<Rightarrow> ProcCommand \<Rightarrow> bool" where
  "command_of g h port cmd \<longleftrightarrow>
     (\<exists>bin dir. cmd = command_for (internal_configuration (sp_config g)) (hs_proc h) port bin dir)"

lemma start_child_cases [consumes 1, case_names missing failed over left]:
  assumes "start_child turn port h g = r"
  obtains (missing) "r = (False, h\<lparr> hs_missing_bin := True \<rparr>, set_status h Faulty g)"
  | (failed) h1 where "h1 = h\<lparr> hs_missing_bin := False \<rparr>" "ht_spawned turn = None"
      "r = after_child turn h1 (set_status h1 Faulty (set_status h1 Starting g))"
  | (over) h1 cmd pid h2 g2 where "h1 = h\<lparr> hs_missing_bin := False \<rparr>" "ht_spawned turn = Some pid"
      "watch_child pid (ht_ticks turn) h1 (started_child pid cmd h1 (set_status h1 Starting g)) = (ChildOver, h2, g2)"
      "command_of g h port cmd"
      "r = after_child turn h2 (set_status h2 Stopped g2)"
  | (left) h1 cmd pid h2 g2 where "h1 = h\<lparr> hs_missing_bin := False \<rparr>" "ht_spawned turn = Some pid"
      "watch_child pid (ht_ticks turn) h1 (started_child pid cmd h1 (set_status h1 Starting g)) = (HostLeft, h2, g2)"
      "command_of g h port cmd"
      "r = (True, h2, g2)"
proof -
  let ?bin = "resolve_bin_path (ht_exists turn) (ht_which turn) (ht_cwd turn)
      (unwrap_or (fr_dir (hs_proc h)) (ht_cwd turn)) (fr_bin (hs_proc h))"
  define h1 where "h1 = h\<lparr> hs_missing_bin := False \<rparr>"
  have p1: "hs_proc h1 = hs_proc h" by (simp add: h1_def)
  show thesis
  proof (cases ?bin)
    case None
    with assms missing show thesis by (simp add: start_child_def Let_def)
  next
    case (Some bin)
    define cmd where "cmd = command_for (internal_configuration (sp_config g)) (hs_proc h) port bin
        (unwrap_or (fr_dir (hs_proc h)) (ht_cwd turn))"
    have c: "command_of g h port cmd" by (auto simp: command_of_def cmd_def)
    show thesis
    proof (cases "ht_spawned turn")
      case None
      with assms Some failed [OF h1_def] show thesis by (simp add: start_child_def Let_def h1_def)
    next
      case spawned: (Some pid)
      obtain w h2 g2 where w: "watch_child pid (ht_ticks turn) h1 (started_child pid cmd h1 (set_status h1 Starting g)) = (w, h2, g2)"
        by (metis prod_cases3)
      have r: "r = (case w of HostLeft \<Rightarrow> (True, h2, g2) | ChildOver \<Rightarrow> after_child turn h2 (set_status h2 Stopped g2))"
        using assms Some spawned w unfolding start_child_def started_child_def cmd_def h1_def Let_def by simp
      show thesis
        using over [OF h1_def spawned] left [OF h1_def spawned] w r c by (cases w) simp_all
    qed
  qed
qed

lemma started_child_children [simp]: "sp_children (started_child pid cmd h g) = insert pid (sp_children g)"
  by (simp add: started_child_def Let_def)

lemma start_child_children:
  assumes "start_child turn port h g = (l, h', g')" and "\<And>pid. ht_spawned turn = Some pid \<Longrightarrow> pid \<notin> sp_children g"
  shows "sp_children g' = sp_children g"
  using assms(1)
proof (cases rule: start_child_cases)
  case missing
  then show ?thesis by simp
next
  case (failed h1)
  with after_child_children [of turn h1] show ?thesis by (metis status_fields(1))
next
  case (over h1 cmd pid h2 g2)
  have "sp_children g' = sp_children g2" using after_child_children [OF over(5) [symmetric]] by simp
  with watch_child_children [OF over(3)] assms(2) [OF over(2)] show ?thesis by simp
next
  case (left h1 cmd pid h2 g2)
  with watch_child_children [OF left(3)] assms(2) [OF left(2)] show ?thesis by simp
qed

lemma host_turn_children:
  assumes "host_turn turn h g = Some (l, h', g')" and "\<And>pid. ht_spawned turn = Some pid \<Longrightarrow> pid \<notin> sp_children g"
  shows "sp_children g' = sp_children g"
  using assms
  by (auto simp: host_turn_def Let_def split: option.splits prod.splits if_splits sum.splits
      dest!: start_child_children)


section \<open>The statuses a process goes through\<close>

text \<open>
  The abstract process: it starts when stopped, runs when started, stops when running, and is faulty when it
  could not start or has ended by itself; from every status it is stopped at the head of a turn.
\<close>

fun status_move :: "ProcState option \<Rightarrow> ProcState \<Rightarrow> bool" where
  "status_move _ Stopped = True"
| "status_move (Some Stopped) Starting = True"
| "status_move (Some Starting) Running = True"
| "status_move (Some Running) Stopping = True"
| "status_move (Some Stopped) Faulty = True"
| "status_move (Some Starting) Faulty = True"
| "status_move _ _ = False"

fun status_path :: "ProcState option \<Rightarrow> ProcState list \<Rightarrow> bool" where
  "status_path s [] = True"
| "status_path s (x # xs) = (status_move s x \<and> status_path (Some x) xs)"

fun last_status :: "ProcState option \<Rightarrow> ProcState list \<Rightarrow> ProcState option" where
  "last_status s [] = s"
| "last_status s (x # xs) = last_status (Some x) xs"

lemma status_path_append: "status_path s (xs @ ys) \<longleftrightarrow> status_path s xs \<and> status_path (last_status s xs) ys"
  by (induction xs arbitrary: s) simp_all

lemma last_status_append: "last_status s (xs @ ys) = last_status (last_status s xs) ys"
  by (induction xs arbitrary: s) simp_all

definition follows :: "string \<Rightarrow> ProcId \<Rightarrow> Supervisor \<Rightarrow> Supervisor \<Rightarrow> bool" where
  "follows host i g g' \<longleftrightarrow>
     (\<exists>sts. sp_emitted g' = sp_emitted g @ map (\<lambda>st. (host, st, i)) sts \<and> status_path (sp_status g host) sts \<and>
        sp_status g' host = last_status (sp_status g host) sts)"

lemma follows_refl: "sp_emitted g' = sp_emitted g \<Longrightarrow> sp_status g' host = sp_status g host \<Longrightarrow> follows host i g g'"
  unfolding follows_def by (rule exI [of _ "[]"]) simp

lemma follows_trans:
  assumes "follows host i g g1" and "follows host i g1 g2"
  shows "follows host i g g2"
proof -
  obtain xs where x: "sp_emitted g1 = sp_emitted g @ map (\<lambda>st. (host, st, i)) xs" "status_path (sp_status g host) xs"
    "sp_status g1 host = last_status (sp_status g host) xs" using assms(1) by (auto simp: follows_def)
  obtain ys where y: "sp_emitted g2 = sp_emitted g1 @ map (\<lambda>st. (host, st, i)) ys" "status_path (sp_status g1 host) ys"
    "sp_status g2 host = last_status (sp_status g1 host) ys" using assms(2) by (auto simp: follows_def)
  show ?thesis
    unfolding follows_def by (rule exI [of _ "xs @ ys"]) (use x y in \<open>simp add: status_path_append last_status_append\<close>)
qed

lemma follows_update:
  assumes "sp_status g host = Some st \<or> status_move (sp_status g host) st"
  shows "follows host i g (update_status host i st g)"
proof (cases "sp_status g host = Some st")
  case True
  then show ?thesis by (intro follows_refl) (simp_all add: update_status_def)
next
  case False
  then show ?thesis
    unfolding follows_def using assms by (intro exI [of _ "[st]"]) (simp add: update_status_def Let_def)
qed

text \<open>A relation of the same shape for a whole host, whose names are fixed.\<close>

definition host_names :: "HostState \<Rightarrow> string \<times> ProcId" where
  "host_names h = (fr_host_name (hs_proc h), fr_proc_id (hs_proc h))"

lemma set_status_names: "host_names h = (host, i) \<Longrightarrow> set_status h st g = update_status host i st g"
  by (simp add: set_status_def host_names_def)

lemma status_of [simp]:
  "sp_status (update_status host i st g) host = Some st"
  "sp_status (kill_child pid g) = sp_status g" "sp_emitted (kill_child pid g) = sp_emitted g"
  by (simp_all add: update_status_def kill_child_def Let_def)

lemma follows_kill [simp]: "follows host i g (kill_child pid g') = follows host i g g'"
  by (simp add: follows_def)

text \<open>What a host that has left or forgotten its status has emitted.\<close>

definition emits :: "string \<Rightarrow> ProcId \<Rightarrow> Supervisor \<Rightarrow> Supervisor \<Rightarrow> bool" where
  "emits host i g g' \<longleftrightarrow>
     (\<exists>sts. sp_emitted g' = sp_emitted g @ map (\<lambda>st. (host, st, i)) sts \<and> status_path (sp_status g host) sts)"

lemma follows_emits: "follows host i g g' \<Longrightarrow> sp_emitted g2 = sp_emitted g' \<Longrightarrow> emits host i g g2"
  by (auto simp: follows_def emits_def)

lemma emits_trans: "follows host i g g1 \<Longrightarrow> emits host i g1 g2 \<Longrightarrow> emits host i g g2"
proof -
  assume f: "follows host i g g1" and e: "emits host i g1 g2"
  obtain xs where x: "sp_emitted g1 = sp_emitted g @ map (\<lambda>st. (host, st, i)) xs" "status_path (sp_status g host) xs"
    "sp_status g1 host = last_status (sp_status g host) xs" using f by (auto simp: follows_def)
  obtain ys where y: "sp_emitted g2 = sp_emitted g1 @ map (\<lambda>st. (host, st, i)) ys" "status_path (sp_status g1 host) ys"
    using e by (auto simp: emits_def)
  show "emits host i g g2"
    unfolding emits_def by (rule exI [of _ "xs @ ys"]) (use x y in \<open>simp add: status_path_append\<close>)
qed


lemma set_status_follows:
  assumes "host_names h = (host, i)" and "follows host i g0 g"
    and "sp_status g host = Some st \<or> status_move (sp_status g host) st"
  shows "follows host i g0 (set_status h st g)" and "sp_status (set_status h st g) host = Some st"
  using assms follows_trans [OF assms(2) follows_update [OF assms(3)]] by (simp_all add: set_status_names)

lemma host_names_update [simp]:
  "host_names (h\<lparr> hs_enabled := e \<rparr>) = host_names h" "host_names (h\<lparr> hs_initialized := b \<rparr>) = host_names h"
  "host_names (h\<lparr> hs_missing_bin := m \<rparr>) = host_names h"
  "host_names (h\<lparr> hs_proc := (hs_proc h)\<lparr> fr_log_format := f, fr_log_level := l \<rparr> \<rparr>) = host_names h"
  "host_names (h\<lparr> hs_proc := (hs_proc h)\<lparr> fr_active_port := p \<rparr> \<rparr>) = host_names h"
  by (simp_all add: host_names_def)

definition watch_outcome :: "string \<Rightarrow> ProcId \<Rightarrow> Supervisor \<Rightarrow> watched \<times> HostState \<times> Supervisor \<Rightarrow> bool" where
  "watch_outcome host i g0 r =
     (case r of
        (ChildOver, h', g') \<Rightarrow> host_names h' = (host, i) \<and> follows host i g0 g'
      | (HostLeft, h', g') \<Rightarrow> emits host i g0 g')"

lemma watch_child_follows:
  "follows host i g0 g \<Longrightarrow> host_names h = (host, i) \<Longrightarrow> sp_status g host = Some Running \<Longrightarrow>
     watch_outcome host i g0 (watch_child pid ts h g)"
proof (induction pid ts h g rule: watch_child.induct)
  case (1 pid h g)
  then show ?case by (simp add: watch_outcome_def)
next
  case (2 pid t ts h g)
  note stopping = set_status_follows [OF 2(3) 2(2), of Stopping]
  define h1 where "h1 = (case tk_live_config t of
      Some c \<Rightarrow> h\<lparr> hs_proc := (hs_proc h)\<lparr> fr_log_format := hp_log_format c, fr_log_level := hp_log_level c \<rparr> \<rparr> | None \<Rightarrow> h)"
  define g1 where "g1 = set_status h1 Running g"
  have n1: "host_names h1 = (host, i)"
    using 2(3) by (simp add: h1_def split: option.splits)
  have f1: "follows host i g0 g1" and s1: "sp_status g1 host = Some Running"
    using set_status_follows [OF n1 2(2), of Running] 2(4) by (simp_all add: g1_def)
  have stop1: "follows host i g0 (set_status h2 Stopping g1)" if "host_names h2 = (host, i)" for h2
    using set_status_follows(1) [OF that f1, of Stopping] s1 by simp
  show ?case
  proof (cases "tk_exit t \<or> (case tk_live_config t of Some c \<Rightarrow> hp_proc_id c \<noteq> fr_proc_id (hs_proc h) | None \<Rightarrow> False)")
    case True
    with stopping 2(3,4) show ?thesis by (auto simp: watch_outcome_def)
  next
    case False
    show ?thesis
    proof (cases "messages_while_running (acceptable_names (fr_host_name (hs_proc h1))) (tk_messages t) (hs_enabled h1)")
      case (Inr s)
      have "emits host i g0 (kill_child pid ((forget_status (fr_host_name (hs_proc h1)) g1)
          \<lparr> sp_confirmed := sp_confirmed g1 @ [s] \<rparr>))"
        by (rule follows_emits [OF f1]) (simp add: forget_status_def)
      with False Inr show ?thesis
        by (simp add: watch_outcome_def Let_def h1_def [symmetric] g1_def [symmetric] del: status_fields)
    next
      case (Inl enabled)
      note IH = 2(1) [OF _ _ h1_def g1_def Inl refl]
      show ?thesis
        using False Inl n1 stop1 [of "h1\<lparr> hs_enabled := enabled \<rparr>"] f1 s1 IH
        by (auto simp: watch_outcome_def Let_def h1_def [symmetric] g1_def [symmetric] follows_emits)
    qed
  qed
qed

text \<open>A turn, or a part of one, that began when the supervisor was \<open>g0\<close>.\<close>

definition turn_outcome :: "string \<Rightarrow> ProcId \<Rightarrow> Supervisor \<Rightarrow> bool \<times> HostState \<times> Supervisor \<Rightarrow> bool" where
  "turn_outcome host i g0 r =
     (case r of
        (False, h', g') \<Rightarrow> host_names h' = (host, i) \<and> follows host i g0 g'
      | (True, h', g') \<Rightarrow> emits host i g0 g')"

lemma after_child_follows:
  assumes "host_names h = (host, i)" and "follows host i g0 g" and "sp_status g host \<in> {Some Stopped, Some Faulty}"
  shows "turn_outcome host i g0 (after_child turn h g)"
  using assms set_status_follows [OF assms(1,2), of Faulty]
  by (auto simp: turn_outcome_def after_child_def intro: follows_emits)

lemma started_child_follows:
  assumes "host_names h = (host, i)" and "follows host i g0 g" and "sp_status g host = Some Starting"
  shows "follows host i g0 (started_child pid cmd h g)" and "sp_status (started_child pid cmd h g) host = Some Running"
proof -
  let ?g = "g\<lparr> sp_started := sp_started g @ [cmd], sp_children := insert pid (sp_children g) \<rparr>"
  have f: "follows host i g0 ?g" using assms(2) by (simp add: follows_def)
  have s: "sp_status ?g host = Some Starting" using assms(3) by simp
  show "follows host i g0 (started_child pid cmd h g)" "sp_status (started_child pid cmd h g) host = Some Running"
    using set_status_follows [OF assms(1) f, of Running] s by (simp_all add: started_child_def Let_def follows_def)
qed

lemma start_child_follows:
  assumes n: "host_names h = (host, i)" and f: "follows host i g0 g" and s: "sp_status g host = Some Stopped"
  shows "turn_outcome host i g0 (start_child turn port h g)"
  using refl [of "start_child turn port h g"]
proof (cases rule: start_child_cases)
  case missing
  with set_status_follows [OF n f, of Faulty] s n show ?thesis by (simp add: turn_outcome_def)
next
  case (failed h1)
  from failed n have n1: "host_names h1 = (host, i)" by simp
  have f1: "follows host i g0 (set_status h1 Starting g)" "sp_status (set_status h1 Starting g) host = Some Starting"
    using set_status_follows [OF n1 f, of Starting] s by simp_all
  from set_status_follows [OF n1 f1(1), of Faulty] f1(2) after_child_follows [OF n1] failed(3) show ?thesis by simp
next
  case (over h1 cmd pid h2 g2)
  from over n have n1: "host_names h1 = (host, i)" by simp
  have f1: "follows host i g0 (set_status h1 Starting g)" "sp_status (set_status h1 Starting g) host = Some Starting"
    using set_status_follows [OF n1 f, of Starting] s by simp_all
  from watch_child_follows [OF started_child_follows(1) [OF n1 f1] n1 started_child_follows(2) [OF n1 f1]] over(3)
  have n2: "host_names h2 = (host, i)" "follows host i g0 g2" by (metis (mono_tags, lifting) case_prod_conv watch_outcome_def watched.simps(3))+
  from after_child_follows [OF n2(1) set_status_follows(1) [OF n2, of Stopped]] set_status_follows(2) [OF n2, of Stopped] over(5)
  show ?thesis by simp
next
  case (left h1 cmd pid h2 g2)
  from left n have n1: "host_names h1 = (host, i)" by simp
  have f1: "follows host i g0 (set_status h1 Starting g)" "sp_status (set_status h1 Starting g) host = Some Starting"
    using set_status_follows [OF n1 f, of Starting] s by simp_all
  have "watch_outcome host i g0 (HostLeft, h2, g2)"
    unfolding left(3) [symmetric]
    by (rule watch_child_follows [OF started_child_follows(1) [OF n1 f1] n1 started_child_follows(2) [OF n1 f1]])
  with left(5) show ?thesis by (simp add: turn_outcome_def watch_outcome_def)
qed

text \<open>How a turn ends, from the supervisor at its head.\<close>

lemma host_turn_cases [consumes 1, case_names marked exited deleted idle no_port started]:
  assumes t: "host_turn turn h g = Some r"
  obtains (marked) "r = (True, h, forget_status (fr_host_name (hs_proc h)) (forget_pid (fr_proc_id (hs_proc h)) g))"
  | (exited) "r = (True, h, (set_status h Stopped (forget_pid (fr_proc_id (hs_proc h)) g)))"
  | (deleted) x s where "r = (True, h\<lparr> hs_initialized := True \<rparr>, (forget_status x (set_status h Stopped (forget_pid (fr_proc_id (hs_proc h)) g)))\<lparr> sp_confirmed := s \<rparr>)"
  | (idle) "r = (False, h\<lparr> hs_initialized := True, hs_enabled := False \<rparr>, (set_status h Stopped (forget_pid (fr_proc_id (hs_proc h)) g))) \<or>
      r = (False, h\<lparr> hs_initialized := True, hs_enabled := False \<rparr>, set_status (h\<lparr> hs_initialized := True \<rparr>) Stopped (set_status h Stopped (forget_pid (fr_proc_id (hs_proc h)) g)))"
  | (no_port) h2 cfg where "r = (False, h2, (set_status h Stopped (forget_pid (fr_proc_id (hs_proc h)) g))\<lparr> sp_config := cfg \<rparr>)" "host_names h2 = host_names h"
  | (started) h2 cfg port where "fr_active_port (hs_proc h2) = Some port" "r = start_child turn port h2 ((set_status h Stopped (forget_pid (fr_proc_id (hs_proc h)) g))\<lparr> sp_config := cfg \<rparr>)"
      "host_names h2 = host_names h"
proof -
  let ?msgs = "messages_while_stopped (acceptable_names (fr_host_name (hs_proc h)))
      (fr_excluded_from_start_all (hs_proc h)) (ht_messages turn) (hs_enabled h)"
  let ?port = "set_active_port (ht_free turn) (ht_random turn) (hs_proc h) (sp_config g)"
  note turn = t [unfolded host_turn_def Let_def]
  show thesis
  proof (cases "(sp_threads g (fr_proc_id (hs_proc h)) \<noteq> None \<and> ht_marked turn) \<or> ht_exit turn")
    case True
    with turn marked exited show thesis by (auto split: if_splits)
  next
    case running: False
    show thesis
    proof (cases ?msgs)
      case (Inr s)
      with running turn deleted show thesis by auto
    next
      case (Inl enabled)
      show thesis
      proof (cases "enabled \<and> ?port \<noteq> None")
        case False
        then show thesis
        proof (cases enabled)
          case True
          with False have "?port = None" by blast
          with True running Inl turn have False by (simp split: if_splits)
          then show thesis ..
        next
          case False
          with running Inl turn idle show thesis by (auto split: if_splits)
        qed
      next
        case True
        then obtain p cfg where p: "?port = Some (p, cfg)" by auto
        define h2 where "h2 = (case p of
            Inr q \<Rightarrow> h\<lparr> hs_initialized := True, hs_enabled := True, hs_proc := (hs_proc h)\<lparr> fr_active_port := Some q \<rparr> \<rparr>
          | Inl _ \<Rightarrow> h\<lparr> hs_initialized := True, hs_enabled := True \<rparr>)"
        have n2: "host_names h2 = host_names h" by (simp add: h2_def host_names_def split: sum.splits)
        have "r = (case fr_active_port (hs_proc h2) of
            None \<Rightarrow> (False, h2, (set_status h Stopped (forget_pid (fr_proc_id (hs_proc h)) g))\<lparr> sp_config := cfg \<rparr>)
          | Some q \<Rightarrow> start_child turn q h2 ((set_status h Stopped (forget_pid (fr_proc_id (hs_proc h)) g))\<lparr> sp_config := cfg \<rparr>))"
          using running Inl True p turn by (cases p) (auto simp: h2_def split: option.splits)
        with no_port [OF _ n2] started [OF _ _ n2] show thesis by (cases "fr_active_port (hs_proc h2)") simp_all
      qed
    qed
  qed
qed

lemma host_turn_follows:
  assumes t: "host_turn turn h g = Some r" and n: "host_names h = (host, i)"
  shows "turn_outcome host i g r"
proof -
  define g0 where "g0 = forget_pid (fr_proc_id (hs_proc h)) g"
  have f0: "follows host i g g0" by (rule follows_refl) (simp_all add: g0_def)
  define g1 where "g1 = set_status h Stopped g0"
  have f1: "follows host i g g1" and s1: "sp_status g1 host = Some Stopped"
    using set_status_follows [OF n f0, of Stopped] by (simp_all add: g1_def)
  have forget: "emits host i g (forget_status x g')" if "follows host i g g'" for x g'
    by (rule follows_emits [OF that]) (simp add: forget_status_def)
  show ?thesis
    using t
  proof (cases rule: host_turn_cases)
    case marked
    with forget [OF f0] show ?thesis by (simp add: g0_def g1_def turn_outcome_def)
  next
    case exited
    with follows_emits [OF f1] show ?thesis by (simp add: g0_def g1_def turn_outcome_def)
  next
    case deleted
    with forget [OF f1] show ?thesis by (simp add: g0_def g1_def turn_outcome_def emits_def)
  next
    case idle
    with f1 s1 n set_status_follows [of "h\<lparr> hs_initialized := True \<rparr>" host i g g1 Stopped] show ?thesis by (auto simp: g0_def g1_def turn_outcome_def)
  next
    case no_port
    with f1 n show ?thesis by (simp add: g0_def g1_def turn_outcome_def follows_def)
  next
    case (started h2 cfg port)
    from f1 have "follows host i g (g1\<lparr> sp_config := cfg \<rparr>)" by (simp add: follows_def)
    from start_child_follows [OF _ this] s1 n started show ?thesis by (simp add: g0_def g1_def)
  qed
qed


section \<open>What is started\<close>

lemma watch_child_fields:
  "watch_child pid ts h g = (w, h', g') \<Longrightarrow>
     sp_config g' = sp_config g \<and> fr_active_port (hs_proc h') = fr_active_port (hs_proc h) \<and>
     fr_env_vars (hs_proc h') = fr_env_vars (hs_proc h) \<and> fr_args (hs_proc h') = fr_args (hs_proc h)"
proof (induction pid ts h g rule: watch_child.induct)
  case (2 pid t ts h g)
  then show ?case
    by (auto simp: Let_def kill_child_def forget_status_def split: if_splits sum.splits option.splits)
qed (auto simp: kill_child_def)

lemma after_child_fields:
  "after_child turn h g = (l, h', g') \<Longrightarrow> sp_config g' = sp_config g \<and> h' = h"
  by (auto simp: after_child_def split: if_splits)

fun last_binding :: "string \<Rightarrow> EnvVar list \<Rightarrow> string option" where
  "last_binding k [] = None"
| "last_binding k (v # vs) =
     (case last_binding k vs of Some x \<Rightarrow> Some x | None \<Rightarrow> if ev_key v = k then Some (ev_value v) else None)"

lemma add_env_vars_lookup:
  "add_env_vars vs m k = (case last_binding k vs of Some x \<Rightarrow> Some x | None \<Rightarrow> m k)"
  by (induction vs arbitrary: m) (auto split: option.splits)

definition environment_ok :: "OddBoxV3Config \<Rightarrow> FullyResolvedInProcessSiteConfig \<Rightarrow> u16 \<Rightarrow> ProcCommand \<Rightarrow> bool" where
  "environment_ok cfg proc port cmd \<longleftrightarrow>
     cm_env cmd = (\<lambda>k. if k = ''PORT'' then Some (dec (unat port))
        else case last_binding k (unwrap_or (fr_env_vars proc) []) of
          Some v \<Rightarrow> Some v | None \<Rightarrow> last_binding k (cfg_env_vars cfg)) \<and>
     cm_args cmd = map (replace_str ''$port'' (dec (unat port))) (unwrap_or (fr_args proc) [])"

lemma environment_ok_cong:
  assumes "fr_env_vars p = fr_env_vars q" and "fr_args p = fr_args q"
  shows "environment_ok cfg p port cmd = environment_ok cfg q port cmd"
  using assms by (simp add: environment_ok_def cong: if_cong)

lemma command_for_environment: "environment_ok cfg proc port (command_for cfg proc port bin dir)"
  by (auto simp: environment_ok_def command_for_def Let_def add_env_vars_lookup fun_eq_iff split: option.splits)

lemma started_child_fields [simp]:
  "sp_config (started_child pid cmd h g) = sp_config g" "sp_started (started_child pid cmd h g) = sp_started g @ [cmd]"
  by (simp_all add: started_child_def Let_def)

lemma start_child_command:
  assumes "start_child turn port h g = (l, h', g')"
  shows "sp_started g' = sp_started g \<or>
    (\<exists>cmd. sp_started g' = sp_started g @ [cmd] \<and> fr_active_port (hs_proc h') = fr_active_port (hs_proc h) \<and>
       environment_ok (internal_configuration (sp_config g')) (hs_proc h') port cmd)"
  using assms
proof (cases rule: start_child_cases)
  case missing
  then show ?thesis by simp
next
  case (failed h1)
  with after_child_children [of turn h1] show ?thesis by (metis status_fields(2))
next
  case (over h1 cmd pid h2 g2)
  from over(4) command_for_environment have "environment_ok (internal_configuration (sp_config g)) (hs_proc h) port cmd"
    by (auto simp: command_of_def)
  with over(1) watch_child_fields [OF over(3)] watch_child_children [OF over(3)]
    after_child_fields [OF over(5) [symmetric]] after_child_children [OF over(5) [symmetric]]
  show ?thesis by (simp add: environment_ok_cong [of "hs_proc h2" "hs_proc h"])
next
  case (left h1 cmd pid h2 g2)
  from left(4) command_for_environment have "environment_ok (internal_configuration (sp_config g)) (hs_proc h) port cmd"
    by (auto simp: command_of_def)
  with left(1,5) watch_child_fields [OF left(3)] watch_child_children [OF left(3)]
  show ?thesis by (simp add: environment_ok_cong [of "hs_proc h2" "hs_proc h"])
qed

text \<open>The one command a turn starts finds the active port in PORT, whatever the configuration
  says of that variable, every other variable with the last value its own settings give it, or else
  the global ones, and the active port for each $port in its arguments.\<close>

theorem started_with_its_port:
  assumes "host_turn turn h g = Some (left, h', g')" and "sp_started g' \<noteq> sp_started g"
  shows "\<exists>cmd port. sp_started g' = sp_started g @ [cmd] \<and> fr_active_port (hs_proc h') = Some port \<and>
      cm_env cmd ''PORT'' = Some (dec (unat port)) \<and>
      (\<forall>k \<in> - {''PORT''}. cm_env cmd k =
        (case last_binding k (unwrap_or (fr_env_vars (hs_proc h')) []) of
           Some v \<Rightarrow> Some v
         | None \<Rightarrow> last_binding k (cfg_env_vars (internal_configuration (sp_config g'))))) \<and>
      cm_args cmd = map (replace_str ''$port'' (dec (unat port))) (unwrap_or (fr_args (hs_proc h')) [])"
  using assms(1)
proof (cases rule: host_turn_cases)
  case (started h2 cfg port)
  from start_child_command [OF started(2) [symmetric]] assms(2) obtain cmd where
    "sp_started g' = sp_started g @ [cmd]" "fr_active_port (hs_proc h') = Some port"
    "environment_ok (internal_configuration (sp_config g')) (hs_proc h') port cmd"
    using started(1) by auto
  then show ?thesis by (auto simp: environment_ok_def)
qed (use assms(2) in auto)

section \<open>Leaving and being replaced\<close>

text \<open>A running process marked for removal leaves the status Stopping in the map for good,
  while one that is marked when not running has its status removed.\<close>

theorem stopping_left_behind:
  assumes "tk_marked t" and "\<not> tk_exit t" and "tk_messages t = []"
    and "\<forall>c. tk_live_config t = Some c \<longrightarrow> hp_proc_id c = fr_proc_id (hs_proc h)"
    and "sp_threads g0 (fr_proc_id (hs_proc h)) \<noteq> None" and "ht_marked turn"
  shows "(\<exists>h' g'. watch_child pid (t # ts) h g = (HostLeft, h', g') \<and>
        sp_status g' (fr_host_name (hs_proc h)) = Some Stopping) \<and>
     (\<exists>h' g'. host_turn turn h g0 = Some (True, h', g') \<and> sp_status g' (fr_host_name (hs_proc h)) = None)"
  (is "?running \<and> ?stopped")
proof
  show ?running
    using assms(1-4) by (cases "tk_live_config t") (simp_all add: Let_def set_status_def)
  show ?stopped
    using assms(5,6) by (simp add: host_turn_def Let_def forget_status_def)
qed

text \<open>A host whose process has been replaced by one of the same name kills it, but stays
  enabled under its old id, reports the name as Faulty and remains in its loop, to start the old
  process again.\<close>

theorem replaced_process_restarted:
  assumes "start_child turn port h g = (left, h', g')"
    and "sp_started g' \<noteq> sp_started g" and "ht_ticks turn = t # ts"
    and "tk_live_config t = Some c" and "hp_proc_id c \<noteq> fr_proc_id (hs_proc h)" and "\<not> tk_exit t"
    and "hs_enabled h" and "\<not> ht_exit_after turn"
  shows "\<not> left \<and> hs_enabled h' \<and> fr_proc_id (hs_proc h') = fr_proc_id (hs_proc h) \<and>
      sp_status g' (fr_host_name (hs_proc h)) = Some Faulty"
  using assms(1)
proof (cases rule: start_child_cases)
  case missing
  with assms(2) show ?thesis by simp
next
  case (failed h1)
  with after_child_children [of turn h1] assms(2) show ?thesis by (metis status_fields(2))
next
  case (over h1 cmd pid h2 g2)
  with assms(3-8) show ?thesis by (auto simp: after_child_def set_status_def)
next
  case (left h1 cmd pid h2 g2)
  with assms(3-8) show ?thesis by simp
qed

section \<open>Examples\<close>

definition supervisor_sample :: Supervisor where
  "supervisor_sample =
     \<lparr> sp_config = ConfigWrapper_new (config_sample None (Some [process_sample ''a'' None])),
       sp_threads = Map.empty, sp_status = Map.empty, sp_emitted = [], sp_started = [], sp_children = {''1''},
       sp_confirmed = [] \<rparr>"

definition host_sample :: HostState where
  "host_sample =
     \<lparr> hs_proc = (resolved_sample ''a'' (Some 4200))\<lparr> fr_env_vars := Some [\<lparr> ev_key = ''K'', ev_value = ''v'' \<rparr>] \<rparr>,
       hs_enabled = True, hs_initialized = False, hs_missing_bin = False \<rparr>"

definition tick_sample :: "InProcessSiteConfig option \<Rightarrow> ProcMessage list \<Rightarrow> bool \<Rightarrow> HostTick" where
  "tick_sample c ms marked = \<lparr> tk_exit = False, tk_live_config = c, tk_messages = ms, tk_marked = marked \<rparr>"

definition turn_sample :: "bool \<Rightarrow> HostTick list \<Rightarrow> HostTurn" where
  "turn_sample marked ticks =
     \<lparr> ht_marked = marked, ht_exit = False, ht_messages = [], ht_free = (\<lambda>_. True), ht_random = None,
       ht_cwd = ''/w'', ht_exists = (\<lambda>p. p = ''/w/run''), ht_which = (\<lambda>_. None), ht_spawned = Some ''7'',
       ht_ticks = ticks, ht_exit_after = False \<rparr>"

lemmas host_samples = supervisor_sample_def host_sample_def tick_sample_def turn_sample_def config_samples
  ConfigWrapper_new_def

lemmas host_evaluation = host_turn_def set_active_port_def busy_ports_def forget_pid_def start_child_def
  host_samples Let_def resolve_bin_path_def path_join_def ends_with_def set_status_def update_status_def
  is_for_me_def acceptable_names_def after_child_def kill_child_def

definition busy_turn :: HostTurn where
  "busy_turn = turn_sample False [tick_sample None [] False, tick_sample None [Stop ''a''] False]"

lemma busy_turn_runs:
  "\<exists>h g. host_turn busy_turn host_sample supervisor_sample = Some (False, h, g) \<and> length (sp_started g) = 1 \<and>
     map (\<lambda>(_, st, _). st) (sp_emitted g) = [Stopped, Starting, Running, Stopping, Stopped]"
  by (simp add: busy_turn_def host_evaluation)

lemma busy_turns_run: "\<exists>h g. host_turns [busy_turn] host_sample supervisor_sample = Some (False, h, g)"
  using busy_turn_runs by auto



lemma started_with_its_port_witness:
  "\<exists>h g cmd port. host_turn busy_turn host_sample supervisor_sample = Some (False, h, g) \<and> sp_started g = [cmd] \<and>
     cm_env cmd ''PORT'' = Some (dec (unat (port :: u16)))"
proof -
  from busy_turn_runs obtain h g where r: "host_turn busy_turn host_sample supervisor_sample = Some (False, h, g)"
    "length (sp_started g) = 1" by blast
  from r(2) have "sp_started g \<noteq> sp_started supervisor_sample" by (auto simp: host_samples)
  from started_with_its_port [OF r(1) this] r(1) show ?thesis by (auto simp: host_samples)
qed

lemma stopping_left_behind_witness:
  "\<exists>h g. watch_child ''7'' [tick_sample None [] True] host_sample supervisor_sample = (HostLeft, h, g) \<and>
     sp_status g ''a'' = Some Stopping"
  using stopping_left_behind [of "tick_sample None [] True" host_sample
      "snd (host_start (hs_proc host_sample) supervisor_sample)" "turn_sample True []" "''7''" "[]" supervisor_sample]
  by (simp add: host_samples host_start_def Let_def)

lemma replaced_process_restarted_witness:
  "\<exists>h g. start_child (turn_sample False [tick_sample (Some (process_sample ''b'' None)) [] False]) 4200
       host_sample supervisor_sample = (False, h, g) \<and> hs_enabled h \<and> sp_status g ''a'' = Some Faulty"
proof -
  let ?t = "turn_sample False [tick_sample (Some (process_sample ''b'' None)) [] False]"
  obtain l h g where r: "start_child ?t 4200 host_sample supervisor_sample = (l, h, g)" by (metis prod_cases3)
  then have "sp_started g \<noteq> sp_started supervisor_sample" by (auto simp: host_evaluation)
  from replaced_process_restarted [OF r this, of "tick_sample (Some (process_sample ''b'' None)) [] False" "[]"
      "process_sample ''b'' None"] r
  show ?thesis by (simp add: host_samples)
qed

end
