(* ===== verification/Http_Service.thy ===== *)
theory Http_Service
  imports Proc_Host
begin

text \<open>
  The HTTP service of terminated connections, \<open>src/http_proxy/service.rs\<close>, with the forwarding of
  \<open>src/http_proxy/utils.rs\<close> and the choice of a target in \<open>src/http_proxy/websockets.rs\<close>. The types of
  the \<open>http\<close> crate appear as what the code observes of them: a header map as the values of each name, a
  URI as its parts. What else that crate and the HTTP client compute is given by the record \<open>http_lib\<close>
  and by \<open>send\<close>. The pages it answers with are left as names, error texts as \<open>dbg\<close> prints them; waiting is
  not modelled, the relay of a WebSocket is not either. The handler of directory sites is an argument.
\<close>

section \<open>Requests and responses\<close>

type_synonym Headers = "string \<rightharpoonup> string list"

record Authority =
  au_text :: string
  au_host :: string
  au_port :: "u16 option"

record Uri =
  ur_scheme :: "string option"
  ur_authority :: "Authority option"
  ur_path :: string
  ur_query :: "string option"
  ur_path_and_query :: "string option"
  ur_text :: string

text \<open>\<open>hq_on_upgrade\<close>: the request has the extension with which its connection can be taken over.\<close>

record 'b Request =
  hq_method :: string
  hq_uri :: Uri
  hq_version :: http_version
  hq_headers :: Headers
  hq_body :: 'b
  hq_on_upgrade :: bool

datatype page = StopPage | StartPage | PleaseWaitPage | StreamTestPage

datatype 'b response_body = Text string | Page page | EmptyBody | Forwarded 'b

text \<open>\<open>hr_upgrade\<close>: the extension of a response that switches protocols, and whether awaiting it succeeds.\<close>

record 'b Response =
  hr_status :: nat
  hr_headers :: Headers
  hr_body :: "'b response_body"
  hr_upgrade :: "bool option"

definition new_response :: "'b response_body \<Rightarrow> 'b Response" where
  "new_response b = \<lparr> hr_status = 200, hr_headers = Map.empty, hr_body = b, hr_upgrade = None \<rparr>"

definition with_status :: "nat \<Rightarrow> 'b Response \<Rightarrow> 'b Response" where
  "with_status st r = r\<lparr> hr_status := st \<rparr>"

definition header_get :: "string \<Rightarrow> Headers \<Rightarrow> string option" where
  "header_get k h = (case h k of Some (v # vs) \<Rightarrow> Some v | _ \<Rightarrow> None)"

definition header_insert :: "string \<Rightarrow> string \<Rightarrow> Headers \<Rightarrow> Headers" where
  "header_insert k v h = h(k \<mapsto> [v])"

definition header_remove :: "string \<Rightarrow> Headers \<Rightarrow> Headers" where
  "header_remove k h = h(k := None)"

text \<open>
  \<open>HeaderValue::to_str\<close> and \<open>from_str\<close>, the header name of a text (in lower case), the parsers of the URI
  types, \<open>Uri::from_parts\<close> with another authority, the decoding of a query into a map, and the test for a
  WebSocket request.
\<close>

record http_lib =
  hl_to_str :: "string \<Rightarrow> string option"
  hl_from_str :: "string \<Rightarrow> string option"
  hl_name :: "string \<Rightarrow> string option"
  hl_parse_uri :: "string \<Rightarrow> Uri option"
  hl_parse_authority :: "string \<Rightarrow> Authority option"
  hl_with_authority :: "Uri \<Rightarrow> Authority \<Rightarrow> Uri option"
  hl_form_params :: "string \<Rightarrow> string \<rightharpoonup> string"
  hl_is_websocket :: "string \<Rightarrow> Headers \<Rightarrow> bool"
  hl_upper :: "string \<Rightarrow> string"

definition header_str :: "http_lib \<Rightarrow> string \<Rightarrow> Headers \<Rightarrow> string option" where
  "header_str lib k h = Option.bind (header_get k h) (hl_to_str lib)"

text \<open>\<open>with_headers\<close> replaces all headers by the given ones, without those that are not valid.\<close>

fun collect_headers :: "http_lib \<Rightarrow> (string \<times> string) list \<Rightarrow> Headers" where
  "collect_headers lib [] = Map.empty"
| "collect_headers lib ((k, v) # kvs) =
     (case hl_from_str lib v of
        Some v \<Rightarrow> (let h = collect_headers lib kvs in h(k \<mapsto> v # unwrap_or (h k) []))
      | None \<Rightarrow> collect_headers lib kvs)"

definition with_headers :: "http_lib \<Rightarrow> (string \<times> string) list \<Rightarrow> 'b Response \<Rightarrow> 'b Response" where
  "with_headers lib kvs r = r\<lparr> hr_headers := collect_headers lib kvs \<rparr>"

section \<open>Forwarding a request\<close>

datatype ProxyError =
    InvalidUri
  | UpgradeMismatch "string option" "string option"
  | UpgradeMissing
  | UpgradeFailed
  | LegacyError string
  | OddBoxError string

datatype 'b ProxyCallResult = NormalResponse "'b Response" | EpicResponse "'b Response"

definition get_upgrade_type :: "http_lib \<Rightarrow> Headers \<Rightarrow> string option" where
  "get_upgrade_type lib h = header_str lib ''upgrade'' h"

text \<open>
  When the override is no valid header value the code replaces the host of a copy of the URI, which does
  nothing.
\<close>

definition create_proxied_request ::
  "http_lib \<Rightarrow> string \<Rightarrow> 'b Request \<Rightarrow> string option \<Rightarrow> string option \<Rightarrow> ProxyError + 'b Request" where
  "create_proxied_request lib backend_target_url request upgrade_type host_header_override =
     (case hl_parse_uri lib backend_target_url of
        None \<Rightarrow> Inl InvalidUri
      | Some target_uri \<Rightarrow>
          (let h = hq_headers request;
               h = (case Option.bind host_header_override (hl_from_str lib) of
                      Some v \<Rightarrow> header_insert ''host'' v h | None \<Rightarrow> h);
               h = header_remove ''upgrade-insecure-requests'' h;
               request = request\<lparr> hq_uri := target_uri, hq_headers := h \<rparr> in
           case upgrade_type of
             None \<Rightarrow> Inr request
           | Some value \<Rightarrow>
               (case hl_from_str lib value of
                  None \<Rightarrow> Inl (OddBoxError ''InvalidHeaderValue'')
                | Some v \<Rightarrow>
                    Inr (request\<lparr> hq_headers := header_insert ''connection'' v (header_insert ''upgrade'' v h) \<rparr>))))"

definition HOP_HEADERS :: "string list" where
  "HOP_HEADERS =
     [''connection'', ''te'', ''trailer'', ''keep-alive'', ''proxy-connection'', ''proxy-authenticate'',
      ''proxy-authorization'', ''transfer-encoding'', ''upgrade'']"

definition remove_hop_headers :: "Headers \<Rightarrow> Headers" where
  "remove_hop_headers h = fold header_remove HOP_HEADERS h"

text \<open>\<open>expect\<close> panics when the value is no text; \<open>split\<close> at each comma.\<close>

fun split_on :: "char \<Rightarrow> string \<Rightarrow> string list" where
  "split_on c [] = [[]]"
| "split_on c (x # xs) =
     (if x = c then [] # split_on c xs
      else (case split_on c xs of p # ps \<Rightarrow> (x # p) # ps | [] \<Rightarrow> [[x]]))"

definition trim_blanks :: "string \<Rightarrow> string" where
  "trim_blanks s =
     (let blank = (\<lambda>c. c = CHR '' '' \<or> c = CHR 0x09 \<or> c = CHR 0x0A \<or> c = CHR 0x0D \<or> c = CHR 0x0B \<or> c = CHR 0x0C)
      in rev (dropWhile blank (rev (dropWhile blank s))))"

definition remove_connection_headers :: "http_lib \<Rightarrow> Headers \<Rightarrow> Headers run" where
  "remove_connection_headers lib h =
     (case header_get ''connection'' h of
        None \<Rightarrow> Some h
      | Some value \<Rightarrow>
          (case hl_to_str lib value of
             None \<Rightarrow> None
           | Some v \<Rightarrow>
               Some (fold header_remove
                 (List.map_filter (hl_name lib) (filter (\<lambda>n. n \<noteq> []) (map trim_blanks (split_on CHR '','' v)))) h)))"

definition create_proxied_response :: "http_lib \<Rightarrow> 'b Response \<Rightarrow> 'b Response run" where
  "create_proxied_response lib r =
     map_option (\<lambda>h. r\<lparr> hr_headers := h \<rparr>) (remove_connection_headers lib (remove_hop_headers (hr_headers r)))"

definition update_port :: "http_lib \<Rightarrow> u16 \<Rightarrow> bool \<Rightarrow> Uri \<Rightarrow> Uri" where
  "update_port lib new_port use_https uri =
     (case ur_authority uri of
        None \<Rightarrow> uri
      | Some authority \<Rightarrow>
          (let updated =
             (if use_https \<and> new_port = 443 \<or> \<not> use_https \<and> new_port = 80 then au_host authority
              else au_host authority @ '':'' @ dec (unat new_port)) in
           case Option.bind (hl_parse_authority lib updated) (hl_with_authority lib uri) of
             Some u \<Rightarrow> u
           | None \<Rightarrow> uri))"

text \<open>Whether HTTP/2 is spoken to the backend without asking.\<close>

definition h2_prior_knowledge :: "Hint list \<Rightarrow> bool \<Rightarrow> bool" where
  "h2_prior_knowledge hints incoming_h2c =
     (let use_h2c_prior = incoming_h2c \<and> H2CPK \<in> set hints in
      use_h2c_prior \<or> \<not> use_h2c_prior \<and> \<not> incoming_h2c \<and> H2CPK \<in> set hints \<and> H1 \<notin> set hints)"

text \<open>What is sent to the backend, and whether with the client for HTTP/2 only.\<close>

definition prepare_request ::
  "http_lib \<Rightarrow> string option \<Rightarrow> bool \<Rightarrow> 'b Request \<Rightarrow> string \<Rightarrow> bool \<Rightarrow> Backend \<Rightarrow> ProxyError + bool \<times> 'b Request" where
  "prepare_request lib host_header_override original_connection_is_https req backend_target_url
     use_https_to_backend_target backend =
     (let request_upgrade_type = get_upgrade_type lib (hq_headers req);
          used_h2c_header = (case request_upgrade_type of Some t \<Rightarrow> hl_upper lib t = ''H2C'' | None \<Rightarrow> False) in
      case create_proxied_request lib backend_target_url req request_upgrade_type host_header_override of
        Inl e \<Rightarrow> Inl e
      | Inr proxied \<Rightarrow>
          (let incoming_h2c = (\<not> original_connection_is_https \<and> (hq_version proxied = HTTP_2 \<or> used_h2c_header));
               h2_only = h2_prior_knowledge (unwrap_or (bk_hints backend) []) incoming_h2c;
               p = (case Option.bind (ur_authority (hq_uri proxied)) au_port of
                      Some p \<Rightarrow> p | None \<Rightarrow> if use_https_to_backend_target then 443 else 80)
           in Inr (h2_only,
                   proxied\<lparr> hq_version := (if h2_only then HTTP_2 else HTTP_11),
                            hq_uri := update_port lib p use_https_to_backend_target (hq_uri proxied) \<rparr>)))"

text \<open>\<open>dbg_request\<close> and \<open>dbg_response\<close> print what is broadcast; \<open>send True\<close> is the client for HTTP/2 only.\<close>

definition proxy ::
  "http_lib \<Rightarrow> (bool \<Rightarrow> 'b Request \<Rightarrow> string + 'b Response) \<Rightarrow> ('b Request \<Rightarrow> string) \<Rightarrow> ('b Response \<Rightarrow> string) \<Rightarrow>
   string option \<Rightarrow> bool \<Rightarrow> 'b Request \<Rightarrow> string \<Rightarrow> bool \<Rightarrow> Backend \<Rightarrow> ConnectionKey \<Rightarrow> 'a ConnectionTable_scheme \<Rightarrow>
   ((ProxyError + 'b ProxyCallResult) \<times> 'a ConnectionTable_scheme) run" where
  "proxy lib send dbg_request dbg_response host_header_override original_connection_is_https req
     backend_target_url use_https_to_backend_target backend key s =
     (let request_upgrade_type = get_upgrade_type lib (hq_headers req);
          request_upgraded = hq_on_upgrade req; req = req\<lparr> hq_on_upgrade := False \<rparr> in
      case prepare_request lib host_header_override original_connection_is_https req backend_target_url
             use_https_to_backend_target backend of
        Inl e \<Rightarrow> Some (Inl e, s)
      | Inr (h2_only, proxied) \<Rightarrow>
          (case send h2_only proxied of
             Inl e \<Rightarrow> Some (Inl (LegacyError e), s)
           | Inr response \<Rightarrow>
               (let s = s\<lparr> global_broadcast := global_broadcast s @
                      [SentHttpRequestToBackend key (dbg_request proxied),
                       GotResponseFromBackend key (dbg_response response)] \<rparr> in
                if hr_status response = 101 then
                  (let response_upgrade_type = get_upgrade_type lib (hr_headers response) in
                   if request_upgrade_type = response_upgrade_type then
                     if request_upgraded then
                       (case hr_upgrade response of
                          None \<Rightarrow> None
                        | Some False \<Rightarrow> Some (Inl UpgradeFailed, s)
                        | Some True \<Rightarrow> Some (Inr (EpicResponse (response\<lparr> hr_upgrade := None \<rparr>)), s))
                     else Some (Inl UpgradeMissing, s)
                   else Some (Inl (UpgradeMismatch response_upgrade_type request_upgrade_type), s))
                else map_option (\<lambda>r. (Inr (NormalResponse r), s)) (create_proxied_response lib response))))"

section \<open>Choosing what to answer\<close>

datatype service_error =
    BadHeader
  | NoHostAndAuthority
  | HostHeaderMissing
  | NoUsableBackend
  | NoSiteInfo ProcId
  | NoActivePort string
  | NoSuchTarget string
  | NoPortForTarget string

definition no_slash :: "Uri \<Rightarrow> string" where
  "no_slash uri = (let pq = unwrap_or (ur_path_and_query uri) [] in if pq = ''/'' then [] else pq)"

definition before_colon :: "string \<Rightarrow> string" where
  "before_colon s = takeWhile (\<lambda>c. c \<noteq> CHR '':'') s"

definition resolved_host_name ::
  "http_lib \<Rightarrow> ReverseTcpProxyTarget option \<Rightarrow> 'b Request \<Rightarrow> service_error + string" where
  "resolved_host_name lib peeked_target req =
     (case peeked_target of
        Some t \<Rightarrow> Inr (tg_host_name t)
      | None \<Rightarrow>
          (case header_get ''host'' (hq_headers req) of
             Some hh \<Rightarrow> (case hl_to_str lib hh of Some s \<Rightarrow> Inr (before_colon s) | None \<Rightarrow> Inl BadHeader)
           | None \<Rightarrow>
               (case ur_authority (hq_uri req) of
                  Some a \<Rightarrow> Inr (au_host a)
                | None \<Rightarrow> Inl NoHostAndAuthority)))"

text \<open>The result of \<open>send\<close> on the channel to the processes: it fails when nobody listens.\<close>

definition tell_processes :: "bool \<Rightarrow> ProcMessage \<Rightarrow> 'a ProxyState_scheme \<Rightarrow> bool \<times> 'a ProxyState_scheme" where
  "tell_processes listened m s = (if listened then (True, s\<lparr> px_sent := px_sent s @ [m] \<rparr>) else (False, s))"

definition intercept_local_commands ::
  "bool \<Rightarrow> string \<Rightarrow> (string \<rightharpoonup> string) \<Rightarrow> string \<Rightarrow> 'a ProxyState_scheme \<Rightarrow> 'b Response option \<times> 'a ProxyState_scheme" where
  "intercept_local_commands listened req_host_name params req_path s =
     (if req_host_name \<noteq> ''127.0.0.1'' \<and> req_host_name \<noteq> ''localhost'' then (None, s)
      else
        (let target = unwrap_or (params ''proc'') ''all'' in
         if req_path = ''/STOP'' then
           (let (sent, s) = tell_processes listened (Stop target) s in
            (Some (if sent then new_response (Page StopPage) else with_status 500 (new_response (Text ''SendError''))), s))
         else if req_path = ''/START'' then
           (let (sent, s) = tell_processes listened (Start target) s in
            (Some (if sent then new_response (Page StartPage) else with_status 500 (new_response (Text ''SendError''))), s))
         else (None, s)))"

definition redir_to_https :: "http_lib \<Rightarrow> 'b Request \<Rightarrow> u16 \<Rightarrow> service_error + 'b Response" where
  "redir_to_https lib req https_port =
     (case header_str lib ''host'' (hq_headers req) of
        None \<Rightarrow> Inl HostHeaderMissing
      | Some host_header \<Rightarrow>
          (let hostname = before_colon host_header;
               path_and_query = unwrap_or (ur_path_and_query (hq_uri req)) ''/'';
               location =
                 (if CHR '':'' \<in> set host_header then
                    ''https://'' @ hostname @ '':'' @ dec (unat https_port) @ path_and_query
                  else ''https://'' @ hostname @ path_and_query)
           in Inr (with_status 308 (with_headers lib [(''location'', location)] (new_response EmptyBody)))))"

definition error_response :: "string \<Rightarrow> 'b Response" where
  "error_response t = with_status 500 (new_response (Text t))"

definition map_result :: "(ProxyError \<Rightarrow> string) \<Rightarrow> ProxyError + 'b ProxyCallResult \<Rightarrow> 'b Response" where
  "map_result dbg result =
     (case result of
        Inr (EpicResponse r) \<Rightarrow> r
      | Inr (NormalResponse r) \<Rightarrow> r
      | Inl e \<Rightarrow> error_response (dbg e))"

text \<open>
  What the service has besides the connection: the library, the HTTP client, how things are printed, the
  configuration, the operating system, whether a process listens to messages, what \<open>PROC_THREAD_MAP\<close> holds
  at each second, the handler of directory sites and the maps of the ACME client.
\<close>

record 'b http_env =
  he_lib :: http_lib
  he_send :: "bool \<Rightarrow> 'b Request \<Rightarrow> string + 'b Response"
  he_dbg_request :: "'b Request \<Rightarrow> string"
  he_dbg_response :: "'b Response \<Rightarrow> string"
  he_dbg_proxy_error :: "ProxyError \<Rightarrow> string"
  he_dbg_error :: "service_error \<Rightarrow> string"
  he_configuration :: OddBoxV3Config
  he_os :: os
  he_listened :: bool
  he_threads :: "nat \<Rightarrow> ProcId \<rightharpoonup> ProcInfo"
  he_directory :: "DirServer \<Rightarrow> 'b Request \<Rightarrow> string + 'b Response"
  he_challenge_tokens :: "string \<rightharpoonup> string"
  he_challenges :: "string \<rightharpoonup> string"

text \<open>The request and what comes with it from its connection.\<close>

record 'b incoming =
  in_request :: "'b Request"
  in_is_https :: bool
  in_key :: ConnectionKey

definition forward ::
  "'b http_env \<Rightarrow> string option \<Rightarrow> 'b incoming \<Rightarrow> string \<Rightarrow> bool \<Rightarrow> Backend \<Rightarrow> 'a ConnectionTable_scheme \<Rightarrow>
   ((service_error + 'b Response) \<times> 'a ConnectionTable_scheme) run" where
  "forward env host_header_override inc url https backend s =
     map_option (\<lambda>(r, s). (Inr (map_result (he_dbg_proxy_error env) r), s))
       (proxy (he_lib env) (he_send env) (he_dbg_request env) (he_dbg_response env) host_header_override
          (in_is_https inc) (in_request inc) url https backend (in_key inc) s)"

definition perform_remote_forwarding ::
  "'b http_env \<Rightarrow> string \<Rightarrow> RemoteSiteConfig \<Rightarrow> 'b incoming \<Rightarrow> 'a ProxyState_scheme \<Rightarrow>
   ((service_error + 'b Response) \<times> 'a ProxyState_scheme) run" where
  "perform_remote_forwarding env req_host_name cfg inc s =
     (case remote_next_backend (tn_balancer s) Any cfg of
        None \<Rightarrow> Some (Inl NoUsableBackend, s)
      | Some b \<Rightarrow>
          (let enforce_https = is_set (bk_https b);
               scheme = (if enforce_https then ''https'' else ''http'');
               url = scheme @ ''://'' @ bk_address b @ '':'' @ dec (unat (bk_port b)) @ no_slash (hq_uri (in_request inc)) in
           do {
             host_header_override \<leftarrow>
               (if is_set (rs_keep_original_host_header cfg) then Some None
                else if is_set (rs_forward_subdomains cfg) then
                  map_option (map_option (\<lambda>sub. sub @ ''.'' @ bk_address b))
                    (get_subdomain (hl_upper (he_lib env)) req_host_name (rs_host_name cfg))
                else Some None);
             forward env host_header_override inc url enforce_https b s }))"

text \<open>The port of a process: at most eleven looks, a second apart.\<close>

fun await_port :: "nat \<Rightarrow> (nat \<Rightarrow> ProcId \<rightharpoonup> ProcInfo) \<Rightarrow> ProcId \<Rightarrow> string \<Rightarrow> service_error + u16" where
  "await_port 0 threads i host = Inl (NoActivePort host)"
| "await_port (Suc n) threads i host =
     (case threads 0 i of
        None \<Rightarrow> Inl (NoSiteInfo i)
      | Some info \<Rightarrow>
          (case (pi_pid info, fr_active_port (pi_config info)) of
             (Some _, Some p) \<Rightarrow> Inr p
           | _ \<Rightarrow> await_port n (\<lambda>k. threads (Suc k)) i host))"

definition is_browser :: "http_lib \<Rightarrow> string \<Rightarrow> bool" where
  "is_browser lib ua =
     (let hv = hl_upper lib (unwrap_or (hl_to_str lib ua) []) in
      contains_sub hv ''MOZILLA'' \<or> contains_sub hv ''SAFARI'' \<or> contains_sub hv ''CHROME'' \<or> contains_sub hv ''EDGE'')"

text \<open>Whether the page that asks to wait is shown instead of waiting.\<close>

definition shows_wait_page :: "http_lib \<Rightarrow> ProcState option \<Rightarrow> 'b Request \<Rightarrow> bool" where
  "shows_wait_page lib status req \<longleftrightarrow>
     status \<in> {Some Stopped, Some Starting, Some Faulty} \<and> hq_method req = ''GET'' \<and>
     (case header_get ''user-agent'' (hq_headers req) of Some ua \<Rightarrow> is_browser lib ua | None \<Rightarrow> False)"

definition serve_process ::
  "'b http_env \<Rightarrow> string \<Rightarrow> InProcessSiteConfig \<Rightarrow> 'b incoming \<Rightarrow> 'a ProxyState_scheme \<Rightarrow>
   ((service_error + 'b Response) \<times> 'a ProxyState_scheme) run" where
  "serve_process env host cfg inc s =
     (let status = px_site_status s (hp_host_name cfg);
          s = (if status \<in> {Some Running, Some Faulty, Some Starting} then s
               else snd (tell_processes (he_listened env) (Start (hp_host_name cfg)) s)) in
      if shows_wait_page (he_lib env) status (in_request inc) then Some (Inr (new_response (Page PleaseWaitPage)), s)
      else
        (case await_port 11 (he_threads env) (hp_proc_id cfg) host of
           Inl e \<Rightarrow> Some (Inl e, s)
         | Inr port \<Rightarrow>
             (let https = is_set (hp_https cfg); scheme = (if https then ''https'' else ''http'');
                  local_addr = (if is_set (cfg_use_loopback_ip_for_procs (he_configuration env)) then ''127.0.0.1''
                                else ''localhost'');
                  url = scheme @ ''://'' @ local_addr @ '':'' @ dec (unat port) @ no_slash (hq_uri (in_request inc));
                  backend = \<lparr> bk_address = local_addr, bk_port = port, bk_https = Some https, bk_hints = hp_hints cfg \<rparr> in
              do {
                host_header_override \<leftarrow>
                  (if is_set (hp_capture_subdomains cfg) \<or> is_set (hp_forward_subdomains cfg) then
                     do {
                       sub \<leftarrow> get_subdomain (hl_upper (he_lib env)) host (hp_host_name cfg);
                       Some (Some (if is_set (hp_forward_subdomains cfg)
                                   then (case sub of Some d \<Rightarrow> d @ ''.'' @ hp_host_name cfg | None \<Rightarrow> hp_host_name cfg)
                                   else hp_host_name cfg)) }
                   else Some None);
                forward env host_header_override inc url https backend s })))"

text \<open>A site of the configuration that serves a name: itself, or with subdomains captured one below it.\<close>

definition serves_name :: "string \<Rightarrow> string \<Rightarrow> bool option \<Rightarrow> bool" where
  "serves_name name host_name capture \<longleftrightarrow> name = host_name \<or> is_set capture \<and> ends_with name (''.'' @ host_name)"

definition https_port :: "OddBoxV3Config \<Rightarrow> u16" where
  "https_port cfg = unwrap_or (cfg_tls_port cfg) 4343"

text \<open>The first directory site of the name that can be resolved.\<close>

fun find_directory :: "os \<Rightarrow> OddBoxV3Config \<Rightarrow> string \<Rightarrow> DirServer list \<Rightarrow> DirServer option" where
  "find_directory sys cfg name [] = None"
| "find_directory sys cfg name (x # xs) =
     (case (if ds_host_name x = name then resolve_dir_server_configuration sys cfg x else Inl NoHomeDir) of
        Inr r \<Rightarrow> Some r
      | Inl _ \<Rightarrow> find_directory sys cfg name xs)"

definition serve_directory ::
  "'b http_env \<Rightarrow> string \<Rightarrow> DirServer \<Rightarrow> 'b incoming \<Rightarrow> 'b Response run" where
  "serve_directory env host t inc =
     (if ds_redirect_to_https t = Some True \<and> \<not> in_is_https inc then
        (let text = ''Please use https://'' @ host @ '' instead of http://'' @ host;
             location = ''https://'' @ host @ '':'' @ dec (unat (https_port (he_configuration env))) @
                        ur_text (hq_uri (in_request inc)) in
         map_option (\<lambda>v. (new_response (Text text))\<lparr> hr_status := 308, hr_headers := [''location'' \<mapsto> [v]] \<rparr>)
           (hl_from_str (he_lib env) location))
      else
        (case he_directory env t (in_request inc) of
           Inr r \<Rightarrow> Some r
         | Inl e \<Rightarrow> Some (error_response e)))"

definition serve_site ::
  "'b http_env \<Rightarrow> ReverseTcpProxyTarget option \<Rightarrow> string \<Rightarrow> 'b incoming \<Rightarrow> 'a ProxyState_scheme \<Rightarrow>
   ((service_error + 'b Response) \<times> 'a ProxyState_scheme) run" where
  "serve_site env peeked_target host inc s =
     (let cfg = he_configuration env; req = in_request inc;
          found_hosted =
            (case Option.bind peeked_target tg_hosted_target_config of
               Some p \<Rightarrow> Some p
             | None \<Rightarrow> List.find (\<lambda>p. serves_name host (hp_host_name p) (hp_capture_subdomains p))
                         (unwrap_or (cfg_hosted_process cfg) [])) in
      case found_hosted of
        Some proc \<Rightarrow>
          if \<not> in_is_https inc \<and> is_set (hp_redirect_to_https proc) then
            Some (redir_to_https (he_lib env) req (https_port cfg), s)
          else serve_process env host proc inc s
      | None \<Rightarrow>
          (case (case Option.bind peeked_target tg_remote_target_config of
                   Some r \<Rightarrow> Some r
                 | None \<Rightarrow> List.find (\<lambda>p. serves_name host (rs_host_name p) (rs_capture_subdomains p))
                             (unwrap_or (cfg_remote_target cfg) [])) of
             Some r \<Rightarrow>
               if \<not> in_is_https inc \<and> is_set (rs_redirect_to_https r) then
                 Some (redir_to_https (he_lib env) req (https_port cfg), s)
               else perform_remote_forwarding env host r inc s
           | None \<Rightarrow>
               Some (Inr (error_response (''Sorry, I don't know how to proxy this request.. '' @ he_dbg_request env req)), s)))"

definition count_request :: "string \<Rightarrow> 'a TunnelState_scheme \<Rightarrow> 'a TunnelState_scheme" where
  "count_request host s = s\<lparr> tn_balancer := count_access host (tn_balancer s) \<rparr>"

definition for_odd_box :: "OddBoxV3Config \<Rightarrow> string \<Rightarrow> bool" where
  "for_odd_box cfg host \<longleftrightarrow>
     host \<in> {unwrap_or (cfg_odd_box_url cfg) ''!'', ''localhost'', ''oddbox.localhost'', ''odd-box.localhost''}"

text \<open>A directory site, a container, or a site of the configuration.\<close>

definition serve_name ::
  "'b http_env \<Rightarrow> ReverseTcpProxyTarget option \<Rightarrow> string \<Rightarrow> 'b incoming \<Rightarrow> 'a ProxyState_scheme \<Rightarrow>
   ((service_error + 'b Response) \<times> 'a ProxyState_scheme) run" where
  "serve_name env peeked_target host inc s =
     (case (if peeked_target \<noteq> None then None
            else find_directory (he_os env) (he_configuration env) host (unwrap_or (cfg_dir_server (he_configuration env)) [])) of
        Some t \<Rightarrow> map_option (\<lambda>r. (Inr r, s)) (serve_directory env host t inc)
      | None \<Rightarrow>
          (case (if peeked_target = None then map_of (ro_docker (px_routing s)) host else None) of
             Some c \<Rightarrow> perform_remote_forwarding env host (generate_remote_config c) inc s
           | None \<Rightarrow> serve_site env peeked_target host inc s))"

text \<open>What is left of a request that has been counted.\<close>

definition serve_counted ::
  "'b http_env \<Rightarrow> ReverseTcpProxyTarget option \<Rightarrow> string \<Rightarrow> (string \<rightharpoonup> string) \<Rightarrow> 'b incoming \<Rightarrow> 'a ProxyState_scheme \<Rightarrow>
   ((service_error + 'b Response) \<times> 'a ProxyState_scheme) run" where
  "serve_counted env peeked_target host params inc s =
     (let (answer, s) = intercept_local_commands (he_listened env) host params (ur_path (hq_uri (in_request inc))) s in
      case answer of
        Some r \<Rightarrow> Some (Inr r, s)
      | None \<Rightarrow> serve_name env peeked_target host inc s)"

definition handle_http_request ::
  "'b http_env \<Rightarrow> ReverseTcpProxyTarget option \<Rightarrow> 'b incoming \<Rightarrow> 'a ProxyState_scheme \<Rightarrow>
   ((service_error + 'b Response) \<times> 'a ProxyState_scheme) run" where
  "handle_http_request env peeked_target inc s =
     (let cfg = he_configuration env; uri = hq_uri (in_request inc) in
      case resolved_host_name (he_lib env) peeked_target (in_request inc) of
        Inl e \<Rightarrow> Some (Inl e, s)
      | Inr host \<Rightarrow>
          (let params = (case ur_query uri of Some q \<Rightarrow> hl_form_params (he_lib env) q | None \<Rightarrow> Map.empty) in
           if peeked_target = None \<and> \<not> in_is_https inc then
             (let (answer, s) = intercept_local_commands (he_listened env) host params (ur_path uri) s in
              case answer of
                Some r \<Rightarrow> Some (Inr r, s)
              | None \<Rightarrow>
                  if for_odd_box cfg host then
                    Some (Inr (with_status 307 (with_headers (he_lib env)
                      [(''location'', ''https://'' @ host @ '':'' @ dec (unat (https_port cfg)))] (new_response EmptyBody))), s)
                  else serve_counted env peeked_target host params inc (count_request host s))
           else serve_counted env peeked_target host params inc (count_request host s)))"

section \<open>The service\<close>

text \<open>The answer to a challenge of the certificate authority.\<close>

definition acme_answer :: "'b http_env \<Rightarrow> 'b Request \<Rightarrow> service_error + 'b Response" where
  "acme_answer env req =
     (case header_get ''host'' (hq_headers req) of
        None \<Rightarrow> Inl NoHostAndAuthority
      | Some value \<Rightarrow>
          (case hl_to_str (he_lib env) value of
             None \<Rightarrow> Inl BadHeader
           | Some h \<Rightarrow>
               (let host = before_colon h in
                Inr (new_response (Text
                  (case he_challenge_tokens env host of
                     Some token \<Rightarrow> (case he_challenges env token of Some r \<Rightarrow> r | None \<Rightarrow> ''nothing here 1'')
                   | None \<Rightarrow> ''nothing here 2''))))))"

definition forwarded_for :: "http_lib \<Rightarrow> string \<Rightarrow> Headers \<Rightarrow> string" where
  "forwarded_for lib client_ip h =
     (let existing = unwrap_or (header_str lib ''x-forwarded-for'' h) [] in
      if existing = [] then client_ip else existing @ '', '' @ client_ip)"

text \<open>The host the client asked for: \<open>None\<close> when the authority is no header value, which panics.\<close>

definition original_host :: "http_lib \<Rightarrow> 'b Request \<Rightarrow> string option run" where
  "original_host lib req =
     (case Option.bind (header_str lib ''host'' (hq_headers req)) (hl_from_str lib) of
        Some h \<Rightarrow> Some (Some h)
      | None \<Rightarrow>
          (case ur_authority (hq_uri req) of
             None \<Rightarrow> Some None
           | Some a \<Rightarrow> map_option Some (hl_from_str lib (au_text a))))"

definition add_forwarded :: "string \<Rightarrow> bool \<Rightarrow> string option \<Rightarrow> 'b Response \<Rightarrow> 'b Response" where
  "add_forwarded ff is_https host r =
     (let h = header_insert ''x-forwarded-for'' ff (hr_headers r);
          h = header_insert ''x-forwarded-proto'' (if is_https then ''https'' else ''http'') h;
          h = (case host of Some v \<Rightarrow> header_insert ''x-forwarded-host'' v h | None \<Rightarrow> h)
      in r\<lparr> hr_headers := h \<rparr>)"

datatype 'b service_answer =
    Answer "service_error + 'b Response"
  | WebSocketUpgrade
  | StreamTest

definition service_call ::
  "'b http_env \<Rightarrow> ReverseTcpProxyTarget option \<Rightarrow> string \<Rightarrow> 'b incoming \<Rightarrow> 'a ProxyState_scheme \<Rightarrow>
   ('b service_answer \<times> 'a ProxyState_scheme) run" where
  "service_call env resolved_target client_ip inc s =
     (let lib = he_lib env; req = in_request inc in
      if hl_is_websocket lib (hq_method req) (hq_headers req) then Some (WebSocketUpgrade, s)
      else if hq_version req = HTTP_2 \<and>
              (case ur_query (hq_uri req) of Some q \<Rightarrow> contains_sub q ''stream_test_odd_box'' | None \<Rightarrow> False) then
        Some (StreamTest, s)
      else if starts_with (ur_path (hq_uri req)) ''/.well-known/acme-challenge/'' then
        Some (Answer (acme_answer env req), s)
      else
        do {
          ff \<leftarrow> hl_from_str lib (forwarded_for lib client_ip (hq_headers req));
          host \<leftarrow> original_host lib req;
          (r, s) \<leftarrow> handle_http_request env resolved_target inc s;
          Some (Answer (Inr (case r of
                  Inr x \<Rightarrow> add_forwarded ff (in_is_https inc) host x
                | Inl e \<Rightarrow> error_response (he_dbg_error env e))), s) })"

section \<open>WebSockets\<close>

text \<open>Where the WebSocket of a client is relayed to.\<close>

definition ws_url ::
  "'b http_env \<Rightarrow> 'b incoming \<Rightarrow> BalancerState \<Rightarrow> service_error + string" where
  "ws_url env inc b =
     (let cfg = he_configuration env; req = in_request inc in
      case resolved_host_name (he_lib env) None req of
        Inl e \<Rightarrow> Inl e
      | Inr name \<Rightarrow>
          (let found =
             (case List.find (\<lambda>p. serves_name name (hp_host_name p) (hp_capture_subdomains p)) (unwrap_or (cfg_hosted_process cfg) []) of
                Some p \<Rightarrow> Inr (hp_host_name p, unwrap_or (hp_active_port p) 0, is_set (hp_https p))
              | None \<Rightarrow>
                  (case List.find (\<lambda>x. serves_name name (rs_host_name x) (rs_capture_subdomains x)) (unwrap_or (cfg_remote_target cfg) []) of
                     Some x \<Rightarrow>
                       (case remote_next_backend b Any x of
                          Some next \<Rightarrow> Inr (bk_address next, bk_port next, is_set (bk_https next))
                        | None \<Rightarrow> Inl NoUsableBackend)
                   | None \<Rightarrow> Inl (NoSuchTarget name))) in
           case found of
             Inl e \<Rightarrow> Inl e
           | Inr (target_host, port, enforce_https) \<Rightarrow>
               if port = 0 then Inl (NoPortForTarget target_host)
               else
                 (let svc_scheme = (if in_is_https inc then ''wss'' else ''ws'');
                      proto = (if enforce_https then ''wss'' else unwrap_or (ur_scheme (hq_uri req)) svc_scheme)
                  in Inr (proto @ ''://'' @ target_host @ '':'' @ dec (unat port) @ unwrap_or (ur_path_and_query (hq_uri req)) []))))"

section \<open>What is forwarded\<close>

lemma h2_prior_knowledge_iff:
  "h2_prior_knowledge hints incoming_h2c \<longleftrightarrow> H2CPK \<in> set hints \<and> (incoming_h2c \<or> H1 \<notin> set hints)"
  by (auto simp: h2_prior_knowledge_def Let_def)

lemma create_proxied_request_fields:
  assumes "create_proxied_request lib url req upgrade override = Inr r"
  shows "hq_method r = hq_method req \<and> hq_body r = hq_body req \<and> hq_version r = hq_version req \<and>
    hl_parse_uri lib url = Some (hq_uri r) \<and>
    (\<forall>k. k \<notin> {''host'', ''upgrade-insecure-requests'', ''upgrade'', ''connection''} \<longrightarrow> hq_headers r k = hq_headers req k) \<and>
    header_get ''host'' (hq_headers r) =
      (case Option.bind override (hl_from_str lib) of Some v \<Rightarrow> Some v | None \<Rightarrow> header_get ''host'' (hq_headers req))"
  using assms
  by (auto simp: create_proxied_request_def header_insert_def header_remove_def header_get_def Let_def
      split: option.splits)

text \<open>C32: What is sent to a backend keeps method, body and all headers but four, has the host
  header of the override if that is valid and the client's otherwise, and speaks HTTP/2 exactly when
  the backend has the hint for it and the client came with cleartext HTTP/2 or the backend does not
  speak HTTP/1.\<close>

theorem forwarded_request:
  assumes "prepare_request lib override tls req url https b = Inr (h2_only, r)"
  shows "hq_method r = hq_method req \<and> hq_body r = hq_body req \<and>
    (\<forall>k. k \<notin> {''host'', ''upgrade-insecure-requests'', ''upgrade'', ''connection''} \<longrightarrow> hq_headers r k = hq_headers req k) \<and>
    header_get ''host'' (hq_headers r) =
      (case Option.bind override (hl_from_str lib) of Some v \<Rightarrow> Some v | None \<Rightarrow> header_get ''host'' (hq_headers req)) \<and>
    hq_version r = (if h2_only then HTTP_2 else HTTP_11) \<and>
    (h2_only \<longleftrightarrow> H2CPK \<in> set (unwrap_or (bk_hints b) []) \<and>
       (\<not> tls \<and> (hq_version req = HTTP_2 \<or>
          (\<exists>t. get_upgrade_type lib (hq_headers req) = Some t \<and> hl_upper lib t = ''H2C'')) \<or>
        H1 \<notin> set (unwrap_or (bk_hints b) [])))"
proof -
  obtain q where q: "create_proxied_request lib url req (get_upgrade_type lib (hq_headers req)) override = Inr q"
    using assms by (auto simp: prepare_request_def Let_def split: sum.splits)
  note f = create_proxied_request_fields [OF q]
  have h2: "h2_only = h2_prior_knowledge (unwrap_or (bk_hints b) [])
      (\<not> tls \<and> (hq_version q = HTTP_2 \<or> (case get_upgrade_type lib (hq_headers req) of Some t \<Rightarrow> hl_upper lib t = ''H2C'' | None \<Rightarrow> False)))"
    and r: "hq_method r = hq_method q" "hq_body r = hq_body q" "hq_headers r = hq_headers q"
      "hq_version r = (if h2_only then HTTP_2 else HTTP_11)"
    using assms q by (auto simp: prepare_request_def Let_def)
  show ?thesis
    using f r unfolding h2 h2_prior_knowledge_iff by (auto split: option.splits)
qed

lemma service_call_proxied:
  assumes "service_call env target client_ip inc s = Some (Answer a, s')"
    and "\<not> starts_with (ur_path (hq_uri (in_request inc))) ''/.well-known/acme-challenge/''"
  obtains ff host r where "hl_from_str (he_lib env) (forwarded_for (he_lib env) client_ip (hq_headers (in_request inc))) = Some ff"
    "original_host (he_lib env) (in_request inc) = Some host" "handle_http_request env target inc s = Some (r, s')"
    "a = Inr (case r of Inr x \<Rightarrow> add_forwarded ff (in_is_https inc) host x | Inl e \<Rightarrow> error_response (he_dbg_error env e))"
  using assms
  by (simp add: service_call_def Let_def bind_eq_Some_conv split: if_splits)
    (elim exE conjE, blast)

text \<open>The X-Forwarded headers, made from the client's address, are found on the response to
  the client.\<close>

theorem forwarded_headers_sent_to_client:
  assumes "service_call env target client_ip inc s = Some (Answer (Inr x), s')"
    and "hr_status x \<noteq> 500" and "\<not> starts_with (ur_path (hq_uri (in_request inc))) ''/.well-known/acme-challenge/''"
  shows "header_get ''x-forwarded-proto'' (hr_headers x) = Some (if in_is_https inc then ''https'' else ''http'') \<and>
    header_get ''x-forwarded-for'' (hr_headers x) =
      hl_from_str (he_lib env) (forwarded_for (he_lib env) client_ip (hq_headers (in_request inc)))"
  using assms(1,3)
proof (rule service_call_proxied)
  fix ff host r
  assume ff: "hl_from_str (he_lib env) (forwarded_for (he_lib env) client_ip (hq_headers (in_request inc))) = Some ff"
    and x: "Inr x = (Inr (case r of Inr x \<Rightarrow> add_forwarded ff (in_is_https inc) host x
      | Inl e \<Rightarrow> error_response (he_dbg_error env e)) :: service_error + 'a Response)"
  from x assms(2) obtain y where "x = add_forwarded ff (in_is_https inc) host y"
    by (cases r) (auto simp: error_response_def with_status_def)
  with ff show ?thesis
    by (auto simp: add_forwarded_def header_insert_def header_get_def Let_def split: option.splits)
qed

text \<open>The service answers every request with a response: its only error is a challenge request
  without a readable host header, which changes nothing.\<close>

theorem failures_become_responses:
  assumes "service_call env target client_ip inc s = Some (Answer (Inl e), s')"
  shows "starts_with (ur_path (hq_uri (in_request inc))) ''/.well-known/acme-challenge/'' \<and> s' = s \<and>
    (header_get ''host'' (hq_headers (in_request inc)) = None \<or>
     header_str (he_lib env) ''host'' (hq_headers (in_request inc)) = None)"
proof (cases "starts_with (ur_path (hq_uri (in_request inc))) ''/.well-known/acme-challenge/''")
  case True
  then show ?thesis
    using assms
    by (auto simp: service_call_def Let_def acme_answer_def header_str_def split: if_splits option.splits)
next
  case False
  from service_call_proxied [OF assms this] show ?thesis by (metis sum.distinct(1))
qed

section \<open>What is sent back\<close>

lemma fold_header_remove: "fold header_remove ks h = h |` (- set ks)"
proof (induction ks arbitrary: h)
  case (Cons k ks)
  have "header_remove k h |` (- set ks) = h |` (- set (k # ks))"
    by (auto simp: header_remove_def restrict_map_def fun_eq_iff)
  with Cons show ?case by simp
qed (simp add: restrict_map_def)

text \<open>Of the headers of a backend's response exactly the hop headers are removed, and never
  those that its Connection header names.\<close>

theorem connection_options_kept:
  "create_proxied_response lib r = Some (r\<lparr> hr_headers := hr_headers r |` (- set HOP_HEADERS) \<rparr>)"
proof -
  have "header_get ''connection'' (hr_headers r |` (- set HOP_HEADERS)) = None"
    by (simp add: header_get_def HOP_HEADERS_def)
  then show ?thesis
    by (simp add: create_proxied_response_def remove_hop_headers_def fold_header_remove remove_connection_headers_def)
qed


text \<open>The redirect to HTTPS keeps host name, path and query, and names the HTTPS port exactly
  when the request named a port.\<close>

theorem redirect_location:
  assumes "redir_to_https lib req port = Inr r"
  shows "\<exists>host. header_str lib ''host'' (hq_headers req) = Some host \<and> hr_status r = 308 \<and>
    header_get ''location'' (hr_headers r) =
      hl_from_str lib (''https://'' @ before_colon host @
        (if CHR '':'' \<in> set host then '':'' @ dec (unat port) else []) @
        unwrap_or (ur_path_and_query (hq_uri req)) ''/'')"
proof -
  obtain host where h: "header_str lib ''host'' (hq_headers req) = Some host"
    using assms by (cases "header_str lib ''host'' (hq_headers req)") (simp_all add: redir_to_https_def)
  define loc where "loc = ''https://'' @ before_colon host @
        (if CHR '':'' \<in> set host then '':'' @ dec (unat port) else []) @
        unwrap_or (ur_path_and_query (hq_uri req)) ''/''"
  have "r = with_status 308 (with_headers lib [(''location'', loc)] (new_response EmptyBody))"
    using assms h unfolding loc_def by (cases "CHR '':'' \<in> set host") (simp_all add: redir_to_https_def Let_def)
  then have "hr_status r = 308 \<and> header_get ''location'' (hr_headers r) = hl_from_str lib loc"
    by (simp add: with_status_def with_headers_def header_get_def new_response_def Let_def split: option.splits)
  with h show ?thesis unfolding loc_def by blast
qed

section \<open>Which backend, and under which name\<close>

lemma remote_next_backend_update [simp]:
  "remote_next_backend b flt (cfg\<lparr> rs_forward_subdomains := f \<rparr>) = remote_next_backend b flt cfg"
  by (simp add: remote_next_backend_def)

lemma own_name_has_no_subdomain:
  "perform_remote_forwarding env (rs_host_name cfg) (cfg\<lparr> rs_forward_subdomains := f \<rparr>) inc s =
     perform_remote_forwarding env (rs_host_name cfg) cfg inc s"
  by (simp add: perform_remote_forwarding_def get_subdomain_def Let_def split: option.splits)

text \<open>On a connection whose remote site is known, the setting forward_subdomains makes no
  difference.\<close>

theorem subdomain_never_forwarded:
  "handle_http_request env (Some (remote_target_of cfg sub)) inc s =
   handle_http_request env (Some (remote_target_of (cfg\<lparr> rs_forward_subdomains := f \<rparr>) sub)) inc s"
  by (simp add: handle_http_request_def resolved_host_name_def remote_target_of_def serve_counted_def serve_name_def
      serve_site_def Let_def own_name_has_no_subdomain split: option.splits prod.splits)

lemma count_request_balancer:
  "lb_access_count_per_hostname (tn_balancer (count_request host s)) h =
     (if h = host then Some (case lb_access_count_per_hostname (tn_balancer s) host of Some v \<Rightarrow> (v + 1) mod 2 ^ 64 | None \<Rightarrow> 1)
      else lb_access_count_per_hostname (tn_balancer s) h)"
  by (simp add: count_request_def count_access_def)

lemma intercept_none:
  "host \<notin> {''127.0.0.1'', ''localhost''} \<Longrightarrow> intercept_local_commands l host ps path t = (None, t)"
  by (simp add: intercept_local_commands_def)

text \<open>A request on a connection whose remote site is known is counted under the site's own
  name and then forwarded, to the backend that follows the last one in the list.\<close>

theorem terminated_requests_take_turns:
  assumes "rs_host_name cfg \<notin> {''127.0.0.1'', ''localhost''}"
    and "\<forall>p \<in> set (unwrap_or (cfg_hosted_process (he_configuration env)) []).
          \<not> serves_name (rs_host_name cfg) (hp_host_name p) (hp_capture_subdomains p)"
    and "in_is_https inc \<or> \<not> is_set (rs_redirect_to_https cfg)"
    and "lb_access_count_per_hostname (tn_balancer s) (rs_host_name cfg) = Some n" and "n < 2 ^ 64 - 1"
    and "1 < length (rs_backends cfg)"
  shows "handle_http_request env (Some (remote_target_of cfg sub)) inc s =
      perform_remote_forwarding env (rs_host_name cfg) cfg inc (count_request (rs_host_name cfg) s) \<and>
    remote_next_backend (tn_balancer (count_request (rs_host_name cfg) s)) Any cfg =
      Some (rs_backends cfg ! (Suc n mod length (rs_backends cfg)))"
proof
  note i = intercept_none [OF assms(1)]
  have f: "List.find (\<lambda>p. serves_name (rs_host_name cfg) (hp_host_name p) (hp_capture_subdomains p))
      (unwrap_or (cfg_hosted_process (he_configuration env)) []) = None"
    using assms(2) by (simp add: find_None_iff)
  show "handle_http_request env (Some (remote_target_of cfg sub)) inc s =
      perform_remote_forwarding env (rs_host_name cfg) cfg inc (count_request (rs_host_name cfg) s)"
    using assms(3) f
    by (auto simp: handle_http_request_def resolved_host_name_def remote_target_of_def serve_counted_def serve_name_def
        serve_site_def Let_def i)
  have "filter (\<lambda>x. filter_backend x Any) (rs_backends cfg) = rs_backends cfg"
    by (simp add: filter_backend_def)
  with assms(4-6) show "remote_next_backend (tn_balancer (count_request (rs_host_name cfg) s)) Any cfg =
      Some (rs_backends cfg ! (Suc n mod length (rs_backends cfg)))"
    by (cases "rs_backends cfg") (simp_all add: remote_next_backend_def pick_backend_def count_request_balancer)
qed

lemma proxy_balancer:
  fixes s :: "'a TunnelState_scheme"
  assumes "proxy lib send dbg_request dbg_response override tls req url https b key s = Some (r, s')"
  shows "tn_balancer s' = tn_balancer s"
  using assms by (auto simp: proxy_def Let_def split: sum.splits prod.splits if_splits option.splits bool.splits)

lemma forward_balancer:
  fixes s :: "'a TunnelState_scheme"
  assumes "forward env override inc url https b s = Some (r, s')"
  shows "tn_balancer s' = tn_balancer s"
  using assms by (auto simp: forward_def dest!: proxy_balancer)

lemma tell_processes_balancer [simp]: "tn_balancer (snd (tell_processes l m s)) = tn_balancer s"
  by (simp add: tell_processes_def)

lemma perform_remote_forwarding_balancer:
  assumes "perform_remote_forwarding env host cfg inc s = Some (r, s')"
  shows "tn_balancer s' = tn_balancer s"
  using assms
  by (auto simp: perform_remote_forwarding_def Let_def bind_eq_Some_conv dest: forward_balancer split: option.splits)

lemma serve_process_balancer:
  assumes "serve_process env host cfg inc s = Some (r, s')"
  shows "tn_balancer s' = tn_balancer s"
  using assms
  by (auto simp: serve_process_def Let_def bind_eq_Some_conv dest: forward_balancer split: if_splits sum.splits)

lemma serve_site_balancer:
  assumes "serve_site env t host inc s = Some (r, s')"
  shows "tn_balancer s' = tn_balancer s"
  using assms
  by (auto simp: serve_site_def Let_def dest: perform_remote_forwarding_balancer serve_process_balancer
      split: if_splits option.splits)

lemma intercept_balancer:
  assumes "intercept_local_commands l host ps path s = (a, s')"
  shows "tn_balancer s' = tn_balancer s"
  using assms by (auto simp: intercept_local_commands_def Let_def tell_processes_def split: if_splits)

lemma count_request_cong: "tn_balancer t = tn_balancer s \<Longrightarrow> tn_balancer (count_request host t) = tn_balancer (count_request host s)"
  by (simp add: count_request_def)

lemma serve_name_balancer:
  assumes "serve_name env target host inc s = Some (r, s')"
  shows "tn_balancer s' = tn_balancer s"
  using assms
  by (auto simp: serve_name_def dest: serve_site_balancer perform_remote_forwarding_balancer split: option.splits if_splits)

lemma serve_counted_balancer:
  assumes "serve_counted env target host params inc s = Some (r, s')"
  shows "tn_balancer s' = tn_balancer s"
  using assms
  by (auto simp: serve_counted_def split: option.splits prod.splits dest!: serve_name_balancer intercept_balancer)

lemma handle_balancer:
  assumes "handle_http_request env target inc s = Some (r, s')"
    and "resolved_host_name (he_lib env) target (in_request inc) = Inr host"
  shows "tn_balancer s' = tn_balancer s \<or> tn_balancer s' = tn_balancer (count_request host s)"
  using assms
  by (auto simp: handle_http_request_def Let_def split: option.splits prod.splits if_splits
      dest!: serve_counted_balancer intercept_balancer intro: count_request_cong)

text \<open>A request for a name that is not the site's own does not advance the turn of the site's
  backends.\<close>

theorem captured_requests_share_backend:
  assumes "resolved_host_name (he_lib env) target (in_request inc) = Inr host" and "host \<noteq> rs_host_name cfg"
    and "handle_http_request env target inc s = Some (r, s')"
  shows "remote_next_backend (tn_balancer s') flt cfg = remote_next_backend (tn_balancer s) flt cfg"
proof -
  have "tn_balancer s' = tn_balancer s \<or> tn_balancer s' = tn_balancer (count_request host s)"
    using handle_balancer [OF assms(3,1)] .
  then have "lb_access_count_per_hostname (tn_balancer s') (rs_host_name cfg) =
      lb_access_count_per_hostname (tn_balancer s) (rs_host_name cfg)"
    using assms(2) by (auto simp: count_request_balancer)
  then show ?thesis by (simp add: remote_next_backend_def pick_backend_def)
qed

section \<open>Hosted processes\<close>

lemma await_port_found:
  "await_port n threads i host = Inr p \<Longrightarrow>
     \<exists>k < n. \<exists>info. threads k i = Some info \<and> pi_pid info \<noteq> None \<and> fr_active_port (pi_config info) = Some p"
proof (induction n arbitrary: threads)
  case (Suc n)
  show ?case
  proof (cases "\<exists>info. threads 0 i = Some info \<and> pi_pid info \<noteq> None \<and> fr_active_port (pi_config info) \<noteq> None")
    case True
    with Suc.prems show ?thesis by (intro exI [of _ 0]) auto
  next
    case False
    with Suc.prems have "await_port n (\<lambda>k. threads (Suc k)) i host = Inr p"
      by (auto split: option.splits)
    from Suc.IH [OF this] show ?thesis by (metis Suc_less_eq)
  qed
qed simp

text \<open>A request for a hosted process is answered by the page that asks to wait, or forwarded
  to the port of the process as it was at a moment when the process ran.\<close>

theorem process_request_waits_for_port:
  assumes "serve_process env host cfg inc s = Some (Inr r, s')" and "r \<noteq> new_response (Page PleaseWaitPage)"
  shows "\<exists>k < 11. \<exists>info port addr override s1.
    he_threads env k (hp_proc_id cfg) = Some info \<and> pi_pid info \<noteq> None \<and> fr_active_port (pi_config info) = Some port \<and>
    addr \<in> {''127.0.0.1'', ''localhost''} \<and>
    forward env override inc
      ((if is_set (hp_https cfg) then ''https'' else ''http'') @ ''://'' @ addr @ '':'' @ dec (unat port) @ no_slash (hq_uri (in_request inc)))
      (is_set (hp_https cfg))
      \<lparr> bk_address = addr, bk_port = port, bk_https = Some (is_set (hp_https cfg)), bk_hints = hp_hints cfg \<rparr> s1 = Some (Inr r, s')"
proof -
  let ?status = "px_site_status s (hp_host_name cfg)"
  define s1 where "s1 = (if ?status \<in> {Some Running, Some Faulty, Some Starting} then s
      else snd (tell_processes (he_listened env) (Start (hp_host_name cfg)) s))"
  define addr where "addr = (if is_set (cfg_use_loopback_ip_for_procs (he_configuration env)) then ''127.0.0.1'' else ''localhost'')"
  have w: "\<not> shows_wait_page (he_lib env) ?status (in_request inc)"
    using assms by (auto simp: serve_process_def Let_def)
  obtain port where p: "await_port 11 (he_threads env) (hp_proc_id cfg) host = Inr port"
    using assms(1) w
    by (cases "await_port 11 (he_threads env) (hp_proc_id cfg) host") (simp_all add: serve_process_def Let_def)
  have "\<exists>override. forward env override inc
      ((if is_set (hp_https cfg) then ''https'' else ''http'') @ ''://'' @ addr @ '':'' @ dec (unat port) @ no_slash (hq_uri (in_request inc)))
      (is_set (hp_https cfg))
      \<lparr> bk_address = addr, bk_port = port, bk_https = Some (is_set (hp_https cfg)), bk_hints = hp_hints cfg \<rparr> s1 = Some (Inr r, s')"
    using assms(1) w p unfolding serve_process_def Let_def s1_def [symmetric] addr_def [symmetric]
    by (auto simp: bind_eq_Some_conv)
  moreover have "addr \<in> {''127.0.0.1'', ''localhost''}" by (simp add: addr_def)
  ultimately show ?thesis using await_port_found [OF p] by blast
qed

section \<open>WebSockets\<close>

text \<open>The WebSocket of an HTTPS client is relayed over TLS, whatever its backend speaks.\<close>

theorem websocket_scheme_of_the_client:
  assumes "ws_url env inc b = Inr url" and "in_is_https inc" and "ur_scheme (hq_uri (in_request inc)) = None"
  shows "starts_with url ''wss://''"
  using assms by (auto simp: ws_url_def Let_def split: sum.splits option.splits if_splits)

section \<open>Examples\<close>

definition lib_sample :: http_lib where
  "lib_sample =
     \<lparr> hl_to_str = Some, hl_from_str = Some, hl_name = Some,
       hl_parse_uri = (\<lambda>u. Some \<lparr> ur_scheme = Some ''http'', ur_authority = Some \<lparr> au_text = ''h'', au_host = ''h'', au_port = Some 80 \<rparr>,
         ur_path = ''/'', ur_query = None, ur_path_and_query = Some ''/'', ur_text = u \<rparr>),
       hl_parse_authority = (\<lambda>a. Some \<lparr> au_text = a, au_host = a, au_port = None \<rparr>),
       hl_with_authority = (\<lambda>u a. Some (u\<lparr> ur_authority := Some a \<rparr>)),
       hl_form_params = (\<lambda>_. Map.empty), hl_is_websocket = (\<lambda>_ _. False), hl_upper = (\<lambda>x. x) \<rparr>"

definition request_sample :: "string \<Rightarrow> Headers \<Rightarrow> unit Request" where
  "request_sample path h =
     \<lparr> hq_method = ''GET'',
       hq_uri = \<lparr> ur_scheme = None, ur_authority = None, ur_path = path, ur_query = None, ur_path_and_query = Some path, ur_text = path \<rparr>,
       hq_version = HTTP_11, hq_headers = h, hq_body = (), hq_on_upgrade = True \<rparr>"

definition response_sample :: "nat \<Rightarrow> Headers \<Rightarrow> unit Response" where
  "response_sample st h = \<lparr> hr_status = st, hr_headers = h, hr_body = Forwarded (), hr_upgrade = Some True \<rparr>"

definition http_env_sample :: "unit Response \<Rightarrow> unit http_env" where
  "http_env_sample r =
     \<lparr> he_lib = lib_sample, he_send = (\<lambda>_ _. Inr r), he_dbg_request = (\<lambda>_. []), he_dbg_response = (\<lambda>_. []),
       he_dbg_proxy_error = (\<lambda>_. []), he_dbg_error = (\<lambda>_. []), he_configuration = config_sample None None,
       he_os = os_sample, he_listened = True,
       he_threads = (\<lambda>k. if k < 2 then [''p'' \<mapsto> \<lparr> pi_config = resolved_sample ''p'' None, pi_pid = None, pi_marked_for_removal = False \<rparr>]
         else [''p'' \<mapsto> \<lparr> pi_config = resolved_sample ''p'' (Some 4200), pi_pid = Some ''7'', pi_marked_for_removal = False \<rparr>]),
       he_directory = (\<lambda>_ _. Inl []), he_challenge_tokens = Map.empty, he_challenges = Map.empty \<rparr>"

definition incoming_sample :: "string \<Rightarrow> Headers \<Rightarrow> bool \<Rightarrow> unit incoming" where
  "incoming_sample path h tls = \<lparr> in_request = request_sample path h, in_is_https = tls, in_key = 7 \<rparr>"

definition two_backends :: RemoteSiteConfig where
  "two_backends = remote_sample [backend_sample ''b1'' None, backend_sample ''b2'' None]"

definition counted_sample :: "nat \<Rightarrow> ProxyState" where
  "counted_sample n = (proxy_sample [])\<lparr> tn_balancer := \<lparr> lb_access_count_per_hostname = [''a.dev'' \<mapsto> n], bs_use_loopback = None \<rparr> \<rparr>"

lemmas http_samples = lib_sample_def request_sample_def response_sample_def http_env_sample_def incoming_sample_def
  two_backends_def counted_sample_def config_samples remote_sample_def backend_sample_def

lemma prepared_sample:
  "\<exists>h2 r. prepare_request lib_sample None False (request_sample ''/'' [''host'' \<mapsto> [''a.dev'']]) ''http://b1:80'' False
     (backend_sample ''b1'' (Some [H2CPK])) = Inr (h2, r)"
  by (simp add: prepare_request_def create_proxied_request_def get_upgrade_type_def header_str_def header_get_def http_samples Let_def)

lemma forwarded_request_witness:
  "\<exists>r. prepare_request lib_sample None False (request_sample ''/'' [''host'' \<mapsto> [''a.dev'']]) ''http://b1:80'' False
     (backend_sample ''b1'' (Some [H2CPK])) = Inr (True, r) \<and> hq_version r = HTTP_2 \<and> header_get ''host'' (hq_headers r) = Some ''a.dev''"
proof -
  obtain h2 r where r: "prepare_request lib_sample None False (request_sample ''/'' [''host'' \<mapsto> [''a.dev'']]) ''http://b1:80'' False
     (backend_sample ''b1'' (Some [H2CPK])) = Inr (h2, r)" using prepared_sample by blast
  from forwarded_request [OF r] have "h2 \<and> hq_version r = HTTP_2 \<and> header_get ''host'' (hq_headers r) = Some ''a.dev''"
    by (simp add: http_samples header_get_def)
  with r show ?thesis by auto
qed

lemma service_sample_runs:
  "\<exists>x s'. service_call (http_env_sample (response_sample 200 [''connection'' \<mapsto> [''x-hop'']])) (Some (remote_target_of two_backends None)) ''1.2.3.4''
     (incoming_sample ''/'' [''host'' \<mapsto> [''a.dev'']] True) (counted_sample 0) = Some (Answer (Inr x), s') \<and> hr_status x = 200"
  by (simp add: service_call_def forwarded_for_def original_host_def handle_http_request_def resolved_host_name_def
      serve_counted_def serve_name_def serve_site_def intercept_local_commands_def perform_remote_forwarding_def forward_def
      proxy_def prepare_request_def create_proxied_request_def get_upgrade_type_def header_str_def header_get_def
      header_remove_def header_insert_def connection_options_kept map_result_def add_forwarded_def remote_target_of_def
      remote_next_backend_def pick_backend_def filter_backend_def count_request_def http_samples Let_def)

lemma forwarded_headers_sent_to_client_witness:
  "\<exists>x s'. service_call (http_env_sample (response_sample 200 [''connection'' \<mapsto> [''x-hop'']])) (Some (remote_target_of two_backends None)) ''1.2.3.4''
     (incoming_sample ''/'' [''host'' \<mapsto> [''a.dev'']] True) (counted_sample 0) = Some (Answer (Inr x), s') \<and>
     header_get ''x-forwarded-for'' (hr_headers x) = Some ''1.2.3.4''"
proof -
  obtain x s' where r: "service_call (http_env_sample (response_sample 200 [''connection'' \<mapsto> [''x-hop'']])) (Some (remote_target_of two_backends None)) ''1.2.3.4''
     (incoming_sample ''/'' [''host'' \<mapsto> [''a.dev'']] True) (counted_sample 0) = Some (Answer (Inr x), s')" "hr_status x = 200"
    using service_sample_runs by blast
  have "header_get ''x-forwarded-for'' (hr_headers x) = Some ''1.2.3.4''"
    using forwarded_headers_sent_to_client [OF r(1)] r(2)
    by (simp add: forwarded_for_def header_str_def header_get_def http_samples)
  with r(1) show ?thesis by blast
qed

lemma failures_become_responses_witness:
  "service_call (http_env_sample (response_sample 200 Map.empty)) None ''1.2.3.4''
     (incoming_sample ''/.well-known/acme-challenge/t'' Map.empty False) (counted_sample 0) =
     Some (Answer (Inl NoHostAndAuthority), counted_sample 0) \<and>
   header_get ''host'' (hq_headers (in_request (incoming_sample ''/.well-known/acme-challenge/t'' Map.empty False))) = None"
proof -
  have r: "service_call (http_env_sample (response_sample 200 Map.empty)) None ''1.2.3.4''
     (incoming_sample ''/.well-known/acme-challenge/t'' Map.empty False) (counted_sample 0) =
     Some (Answer (Inl NoHostAndAuthority), counted_sample 0)"
    by (simp add: service_call_def acme_answer_def header_get_def http_samples)
  from failures_become_responses [OF this] r show ?thesis by (simp add: http_samples header_str_def)
qed


lemma redirect_location_witness:
  "\<exists>r. redir_to_https lib_sample (request_sample ''/x'' [''host'' \<mapsto> [''a.dev:8080'']]) 4343 = Inr r \<and>
     header_get ''location'' (hr_headers (r :: unit Response)) = Some (''https://a.dev:'' @ dec 4343 @ ''/x'')"
proof -
  obtain r :: "unit Response" where r: "redir_to_https lib_sample (request_sample ''/x'' [''host'' \<mapsto> [''a.dev:8080'']]) 4343 = Inr r"
    by (simp add: redir_to_https_def header_str_def header_get_def http_samples Let_def)
  from redirect_location [OF r] r show ?thesis
    by (auto simp: header_str_def header_get_def http_samples before_colon_def)
qed

lemma four_mod_two: "4 mod Suc (Suc 0) = 0"
  by presburger

lemma five_mod_two: "Suc 4 mod length [x, y] = (1 :: nat)"
  by simp presburger

lemma terminated_requests_take_turns_witness:
  "remote_next_backend (tn_balancer (count_request ''a.dev'' (counted_sample 4))) Any two_backends = Some (backend_sample ''b2'' None)"
proof -
  have b: "rs_backends two_backends = [backend_sample ''b1'' None, backend_sample ''b2'' None]"
    and n: "rs_host_name two_backends = ''a.dev''"
    by (simp_all add: http_samples)
  have "remote_next_backend (tn_balancer (count_request (rs_host_name two_backends) (counted_sample 4))) Any two_backends =
      Some (rs_backends two_backends ! (Suc 4 mod length (rs_backends two_backends)))"
    by (rule conjunct2 [OF terminated_requests_take_turns [where env = "http_env_sample (response_sample 200 Map.empty)"
        and inc = "incoming_sample ''/'' Map.empty True" and sub = None]])
      (simp_all add: http_samples)
  then show ?thesis unfolding b n five_mod_two by simp
qed

lemma captured_requests_share_backend_witness:
  "\<exists>r s'. handle_http_request (http_env_sample (response_sample 200 Map.empty)) None
     (incoming_sample ''/'' [''host'' \<mapsto> [''sub.a.dev'']] True) (counted_sample 4) = Some (r, s') \<and>
     remote_next_backend (tn_balancer s') Any two_backends = Some (backend_sample ''b1'' None)"
proof -
  obtain r s' where r: "handle_http_request (http_env_sample (response_sample 200 Map.empty)) None
     (incoming_sample ''/'' [''host'' \<mapsto> [''sub.a.dev'']] True) (counted_sample 4) = Some (r, s')"
    by (simp add: handle_http_request_def resolved_host_name_def serve_counted_def serve_name_def serve_site_def before_colon_def
        intercept_local_commands_def header_get_def http_samples Let_def proxy_sample_def count_request_def)
  have "remote_next_backend (tn_balancer s') Any two_backends = remote_next_backend (tn_balancer (counted_sample 4)) Any two_backends"
    by (rule captured_requests_share_backend [OF _ _ r, of "''sub.a.dev''"])
      (simp_all add: resolved_host_name_def header_get_def before_colon_def http_samples)
  also have "\<dots> = Some (backend_sample ''b1'' None)"
    by (simp add: http_samples four_mod_two remote_next_backend_def pick_backend_def filter_backend_def)
  finally show ?thesis using r by blast
qed

lemma process_request_waits_for_port_witness:
  "\<exists>r s' k info. serve_process (http_env_sample (response_sample 200 Map.empty)) ''p'' (process_sample ''p'' None)
     (incoming_sample ''/'' Map.empty True) (counted_sample 0) = Some (Inr r, s') \<and>
     he_threads (http_env_sample (response_sample 200 Map.empty)) k ''p'' = Some info \<and> pi_pid info \<noteq> None"
proof -
  have p: "await_port 11 (he_threads (http_env_sample (response_sample 200 Map.empty))) ''p'' ''p'' = Inr 4200"
    by (simp add: eval_nat_numeral http_samples)
  obtain r s' where r: "serve_process (http_env_sample (response_sample 200 Map.empty)) ''p'' (process_sample ''p'' None)
     (incoming_sample ''/'' Map.empty True) (counted_sample 0) = Some (Inr r, s')" "r \<noteq> new_response (Page PleaseWaitPage)"
    using p by (simp add: serve_process_def shows_wait_page_def forward_def proxy_def prepare_request_def create_proxied_request_def
        get_upgrade_type_def header_str_def header_get_def header_remove_def connection_options_kept map_result_def http_samples
        Let_def new_response_def)
  from process_request_waits_for_port [OF r] r(1) show ?thesis by (simp add: process_sample_def) blast
qed

lemma websocket_scheme_of_the_client_witness:
  "\<exists>url. ws_url ((http_env_sample (response_sample 200 Map.empty))\<lparr> he_configuration := config_sample (Some [two_backends]) None \<rparr>)
     (incoming_sample ''/'' [''host'' \<mapsto> [''a.dev'']] True) (tn_balancer (counted_sample 0)) = Inr url \<and> starts_with url ''wss://''"
proof -
  obtain url where r: "ws_url ((http_env_sample (response_sample 200 Map.empty))\<lparr> he_configuration := config_sample (Some [two_backends]) None \<rparr>)
     (incoming_sample ''/'' [''host'' \<mapsto> [''a.dev'']] True) (tn_balancer (counted_sample 0)) = Inr url"
    by (simp add: ws_url_def resolved_host_name_def header_get_def before_colon_def serves_name_def remote_next_backend_def
        pick_backend_def filter_backend_def http_samples Let_def)
  from websocket_scheme_of_the_client [OF r] r show ?thesis by (simp add: http_samples)
qed

end
