(* ===== verification/Certificates.thy ===== *)
theory Certificates
  imports Prelude
begin

text \<open>
  \<open>src/certs.rs\<close>: which certificate a TLS client is shown. The resolver has two caches in memory, of
  certificates signed by Let's Encrypt and of self-signed ones; the latter are also kept in files. What
  X.509, PEM and key libraries compute, and the generation of a certificate, is given by the record
  \<open>cert_lib\<close>, taken anew at each call as it depends on the time.
\<close>

section \<open>Certificates and files\<close>

text \<open>
  The end of the validity of a certificate as the code sees it: \<open>from_der\<close> fails, \<open>time_to_expiration\<close> has
  no answer, or the whole days that are left.
\<close>

datatype validity = Unreadable | Expired | DaysLeft int

record ('c, 'k) CertifiedKey =
  ck_chain :: "'c list"
  ck_key :: 'k

text \<open>
  The readable certificates and the private keys in a PEM text, whether a key can sign, a new pair of PEM
  texts for a host name, \<open>to_lowercase\<close>, and which directories and files can be written.
\<close>

record ('c, 'k) cert_lib =
  cl_validity :: "'c \<Rightarrow> validity"
  cl_certs :: "string \<Rightarrow> 'c list"
  cl_keys :: "string \<Rightarrow> string + 'k list"
  cl_can_sign :: "'k \<Rightarrow> bool"
  cl_generate :: "string \<Rightarrow> string + string \<times> string"
  cl_lower :: "string \<Rightarrow> string"
  cl_create_dir_all :: "string \<Rightarrow> bool"
  cl_writable :: "string \<Rightarrow> bool"

text \<open>What exists: a file with its text, or something that cannot be opened.\<close>

type_synonym Files = "string \<rightharpoonup> string option"

definition read_text :: "Files \<Rightarrow> string \<Rightarrow> string option" where
  "read_text files path = (case files path of Some t \<Rightarrow> t | None \<Rightarrow> None)"

definition write_text :: "('c, 'k) cert_lib \<Rightarrow> string \<Rightarrow> string \<Rightarrow> Files \<Rightarrow> Files" where
  "write_text lib path t files = (if cl_writable lib path then files(path \<mapsto> Some t) else files)"

definition get_certs_from_path :: "('c, 'k) cert_lib \<Rightarrow> Files \<Rightarrow> string \<Rightarrow> 'c list option" where
  "get_certs_from_path lib files path = map_option (cl_certs lib) (read_text files path)"

definition single_key :: "'k list \<Rightarrow> string + 'k" where
  "single_key ks =
     (case ks of
        [] \<Rightarrow> Inl ''No PKCS8-encoded private key found''
      | [k] \<Rightarrow> Inr k
      | _ \<Rightarrow> Inl ''More than one PKCS8-encoded private key found'')"

definition get_priv_key_from_path :: "('c, 'k) cert_lib \<Rightarrow> Files \<Rightarrow> string \<Rightarrow> string + 'k" where
  "get_priv_key_from_path lib files path =
     (case read_text files path of
        None \<Rightarrow> Inl ''open''
      | Some t \<Rightarrow> (case cl_keys lib t of Inl e \<Rightarrow> Inl e | Inr ks \<Rightarrow> single_key ks))"

definition extract_priv_key_from_pem :: "('c, 'k) cert_lib \<Rightarrow> string \<Rightarrow> string + 'k" where
  "extract_priv_key_from_pem lib t = (case cl_keys lib t of Inl e \<Rightarrow> Inl e | Inr ks \<Rightarrow> single_key ks)"

section \<open>The resolver\<close>

record ('c, 'k) DynamicCertResolver =
  enable_lets_encrypt :: bool
  self_signed_cert_cache :: "string \<rightharpoonup> ('c, 'k) CertifiedKey"
  lets_encrypt_signed_certs :: "string \<rightharpoonup> ('c, 'k) CertifiedKey"

definition DynamicCertResolver_new :: "bool \<Rightarrow> ('c, 'k) DynamicCertResolver" where
  "DynamicCertResolver_new enable =
     \<lparr> enable_lets_encrypt = enable, self_signed_cert_cache = Map.empty, lets_encrypt_signed_certs = Map.empty \<rparr>"

definition set_lets_encrypt :: "bool \<Rightarrow> ('c, 'k) DynamicCertResolver \<Rightarrow> ('c, 'k) DynamicCertResolver" where
  "set_lets_encrypt on r = r\<lparr> enable_lets_encrypt := on \<rparr>"

definition add_self_signed ::
  "string \<Rightarrow> ('c, 'k) CertifiedKey \<Rightarrow> ('c, 'k) DynamicCertResolver \<Rightarrow> ('c, 'k) DynamicCertResolver" where
  "add_self_signed domain c r = r\<lparr> self_signed_cert_cache := (self_signed_cert_cache r)(domain \<mapsto> c) \<rparr>"

definition add_lets_encrypt ::
  "string \<Rightarrow> ('c, 'k) CertifiedKey \<Rightarrow> ('c, 'k) DynamicCertResolver \<Rightarrow> ('c, 'k) DynamicCertResolver" where
  "add_lets_encrypt domain c r = r\<lparr> lets_encrypt_signed_certs := (lets_encrypt_signed_certs r)(domain \<mapsto> c) \<rparr>"

definition remove_lets_encrypt :: "string \<Rightarrow> ('c, 'k) DynamicCertResolver \<Rightarrow> ('c, 'k) DynamicCertResolver" where
  "remove_lets_encrypt domain r = r\<lparr> lets_encrypt_signed_certs := (lets_encrypt_signed_certs r)(domain := None) \<rparr>"

text \<open>\<open>end_entity_cert\<close> fails for an empty chain.\<close>

definition worth_keeping :: "('c, 'k) cert_lib \<Rightarrow> ('c, 'k) CertifiedKey \<Rightarrow> bool" where
  "worth_keeping lib c =
     (case ck_chain c of
        [] \<Rightarrow> False
      | e # _ \<Rightarrow> (case cl_validity lib e of DaysLeft days \<Rightarrow> \<not> days < 30 | Expired \<Rightarrow> False | Unreadable \<Rightarrow> False))"

definition get_self_signed_cert_from_cache ::
  "('c, 'k) cert_lib \<Rightarrow> string \<Rightarrow> ('c, 'k) DynamicCertResolver \<Rightarrow>
   ('c, 'k) CertifiedKey option \<times> ('c, 'k) DynamicCertResolver" where
  "get_self_signed_cert_from_cache lib domain r =
     (case self_signed_cert_cache r domain of
        None \<Rightarrow> (None, r)
      | Some c \<Rightarrow> if worth_keeping lib c then (Some c, r) else (None, remove_lets_encrypt domain r))"

definition get_lets_encrypt_signed_cert_from_mem_cache ::
  "('c, 'k) cert_lib \<Rightarrow> string \<Rightarrow> ('c, 'k) DynamicCertResolver \<Rightarrow>
   ('c, 'k) CertifiedKey option \<times> ('c, 'k) DynamicCertResolver" where
  "get_lets_encrypt_signed_cert_from_mem_cache lib domain r =
     (case lets_encrypt_signed_certs r domain of
        None \<Rightarrow> (None, r)
      | Some c \<Rightarrow> if worth_keeping lib c then (Some c, r) else (None, remove_lets_encrypt domain r))"

definition generate_cert_if_not_exist ::
  "('c, 'k) cert_lib \<Rightarrow> string \<Rightarrow> string \<Rightarrow> string \<Rightarrow> Files \<Rightarrow> (string + unit) \<times> Files" where
  "generate_cert_if_not_exist lib hostname cert_path key_path files =
     (let crt_exists = files cert_path \<noteq> None; key_exists = files key_path \<noteq> None in
      if crt_exists \<and> key_exists then (Inr (), files)
      else if crt_exists \<noteq> key_exists then (Inl ''Missing key or crt for this hostname.'', files)
      else
        (case cl_generate lib hostname of
           Inr (cert_pem, key_pem) \<Rightarrow>
             (Inr (), write_text lib key_path key_pem (write_text lib cert_path cert_pem files))
         | Inl e \<Rightarrow> (Inl e, files)))"

definition load_certified_key ::
  "('c, 'k) cert_lib \<Rightarrow> Files \<Rightarrow> string \<Rightarrow> string \<Rightarrow> ('c, 'k) CertifiedKey option" where
  "load_certified_key lib files cert_path key_path =
     (case get_certs_from_path lib files cert_path of
        None \<Rightarrow> None
      | Some chain \<Rightarrow>
          if chain = [] then None
          else
            (case get_priv_key_from_path lib files key_path of
               Inl _ \<Rightarrow> None
             | Inr k \<Rightarrow> if cl_can_sign lib k then Some \<lparr> ck_chain = chain, ck_key = k \<rparr> else None))"

definition odd_cache_base :: string where
  "odd_cache_base = ''.odd_box_cache''"

definition cert_path :: "string \<Rightarrow> string" where
  "cert_path name = odd_cache_base @ ''/'' @ name @ ''/cert.pem''"

definition key_path :: "string \<Rightarrow> string" where
  "key_path name = odd_cache_base @ ''/'' @ name @ ''/key.pem''"

text \<open>The part of \<open>resolve\<close> after the caches have been asked.\<close>

definition resolve_from_files ::
  "('c, 'k) cert_lib \<Rightarrow> string \<Rightarrow> ('c, 'k) DynamicCertResolver \<Rightarrow> Files \<Rightarrow>
   ('c, 'k) CertifiedKey option \<times> ('c, 'k) DynamicCertResolver \<times> Files" where
  "resolve_from_files lib name r files =
     (if \<not> cl_create_dir_all lib (odd_cache_base @ ''/'' @ name) then (None, r, files)
      else
        (let (generated, files) = generate_cert_if_not_exist lib name (cert_path name) (key_path name) files in
         case generated of
           Inl _ \<Rightarrow> (None, r, files)
         | Inr _ \<Rightarrow>
             (case load_certified_key lib files (cert_path name) (key_path name) of
                None \<Rightarrow> (None, r, files)
              | Some c \<Rightarrow> (Some c, add_self_signed name c r, files))))"

definition shown_name :: "string \<Rightarrow> string" where
  "shown_name server_name = (if server_name = ''localhost'' then ''odd-box.localhost'' else server_name)"

definition resolve ::
  "('c, 'k) cert_lib \<Rightarrow> string option \<Rightarrow> ('c, 'k) DynamicCertResolver \<Rightarrow> Files \<Rightarrow>
   ('c, 'k) CertifiedKey option \<times> ('c, 'k) DynamicCertResolver \<times> Files" where
  "resolve lib sni r files =
     (case sni of
        None \<Rightarrow> (None, r, files)
      | Some server_name \<Rightarrow>
          (let name = shown_name server_name;
               (le, r) =
                 (if enable_lets_encrypt r \<and> \<not> ends_with (cl_lower lib name) ''localhost''
                  then get_lets_encrypt_signed_cert_from_mem_cache lib name r else (None, r)) in
           case le of
             Some c \<Rightarrow> (Some c, r, files)
           | None \<Rightarrow>
               (let (own, r) = get_self_signed_cert_from_cache lib name r in
                case own of
                  Some c \<Rightarrow> (Some c, r, files)
                | None \<Rightarrow> resolve_from_files lib name r files)))"

section \<open>Which certificate is shown\<close>

lemma get_lets_encrypt_cases:
  obtains "get_lets_encrypt_signed_cert_from_mem_cache lib d r = (None, r)" "lets_encrypt_signed_certs r d = None"
  | c where "get_lets_encrypt_signed_cert_from_mem_cache lib d r = (Some c, r)" "lets_encrypt_signed_certs r d = Some c"
      "worth_keeping lib c"
  | c where "get_lets_encrypt_signed_cert_from_mem_cache lib d r = (None, remove_lets_encrypt d r)"
      "lets_encrypt_signed_certs r d = Some c" "\<not> worth_keeping lib c"
  by (cases "lets_encrypt_signed_certs r d") (auto simp: get_lets_encrypt_signed_cert_from_mem_cache_def split: if_splits)

lemma get_self_signed_cases:
  obtains "get_self_signed_cert_from_cache lib d r = (None, r)" "self_signed_cert_cache r d = None"
  | c where "get_self_signed_cert_from_cache lib d r = (Some c, r)" "self_signed_cert_cache r d = Some c"
      "worth_keeping lib c"
  | c where "get_self_signed_cert_from_cache lib d r = (None, remove_lets_encrypt d r)"
      "self_signed_cert_cache r d = Some c" "\<not> worth_keeping lib c"
  by (cases "self_signed_cert_cache r d") (auto simp: get_self_signed_cert_from_cache_def split: if_splits)

lemma remove_lets_encrypt_simps [simp]:
  "self_signed_cert_cache (remove_lets_encrypt d r) = self_signed_cert_cache r"
  "enable_lets_encrypt (remove_lets_encrypt d r) = enable_lets_encrypt r"
  "lets_encrypt_signed_certs (remove_lets_encrypt d r) = (lets_encrypt_signed_certs r)(d := None)"
  by (simp_all add: remove_lets_encrypt_def)

lemma add_self_signed_simps [simp]:
  "self_signed_cert_cache (add_self_signed d c r) = (self_signed_cert_cache r)(d \<mapsto> c)"
  "enable_lets_encrypt (add_self_signed d c r) = enable_lets_encrypt r"
  "lets_encrypt_signed_certs (add_self_signed d c r) = lets_encrypt_signed_certs r"
  by (simp_all add: add_self_signed_def)

definition may_use_lets_encrypt :: "('c, 'k) cert_lib \<Rightarrow> string \<Rightarrow> ('c, 'k) DynamicCertResolver \<Rightarrow> bool" where
  "may_use_lets_encrypt lib name r \<longleftrightarrow> enable_lets_encrypt r \<and> \<not> ends_with (cl_lower lib name) ''localhost''"

text \<open>What \<open>resolve\<close> does once a valid certificate of Let's Encrypt is not at hand.\<close>

lemma resolve_self_signed:
  assumes "\<not> (may_use_lets_encrypt lib (shown_name n) r \<and> (\<exists>c. lets_encrypt_signed_certs r (shown_name n) = Some c \<and> worth_keeping lib c))"
  obtains r1 where "self_signed_cert_cache r1 = self_signed_cert_cache r"
    "lets_encrypt_signed_certs r1 \<subseteq>\<^sub>m lets_encrypt_signed_certs r"
    "resolve lib (Some n) r files =
       (case self_signed_cert_cache r (shown_name n) of
          Some c \<Rightarrow> if worth_keeping lib c then (Some c, r1, files)
                    else resolve_from_files lib (shown_name n) (remove_lets_encrypt (shown_name n) r1) files
        | None \<Rightarrow> resolve_from_files lib (shown_name n) r1 files)"
proof -
  define r1 where "r1 = (if may_use_lets_encrypt lib (shown_name n) r
    then snd (get_lets_encrypt_signed_cert_from_mem_cache lib (shown_name n) r) else r)"
  have le: "(if may_use_lets_encrypt lib (shown_name n) r
      then get_lets_encrypt_signed_cert_from_mem_cache lib (shown_name n) r else (None, r)) = (None, r1)"
    using assms by (cases rule: get_lets_encrypt_cases [of lib "shown_name n" r]) (auto simp: r1_def)
  have own: "self_signed_cert_cache r1 = self_signed_cert_cache r"
    by (cases rule: get_lets_encrypt_cases [of lib "shown_name n" r]) (auto simp: r1_def)
  moreover have "lets_encrypt_signed_certs r1 \<subseteq>\<^sub>m lets_encrypt_signed_certs r"
    by (cases rule: get_lets_encrypt_cases [of lib "shown_name n" r]) (auto simp: r1_def map_le_def)
  moreover have "resolve lib (Some n) r files =
       (case self_signed_cert_cache r (shown_name n) of
          Some c \<Rightarrow> if worth_keeping lib c then (Some c, r1, files)
                    else resolve_from_files lib (shown_name n) (remove_lets_encrypt (shown_name n) r1) files
        | None \<Rightarrow> resolve_from_files lib (shown_name n) r1 files)"
    using le by (simp add: resolve_def may_use_lets_encrypt_def Let_def own get_self_signed_cert_from_cache_def
        split: option.splits)
  ultimately show thesis by (rule that)
qed

lemma resolve_lets_encrypt:
  assumes "may_use_lets_encrypt lib (shown_name n) r"
    and "lets_encrypt_signed_certs r (shown_name n) = Some c" and "worth_keeping lib c"
  shows "resolve lib (Some n) r files = (Some c, r, files)"
  using assms
  by (simp add: resolve_def may_use_lets_encrypt_def get_lets_encrypt_signed_cert_from_mem_cache_def)

lemma load_certified_key_iff:
  "load_certified_key lib files cp kp = Some c \<longleftrightarrow>
     (\<exists>ct kt. files cp = Some (Some ct) \<and> files kp = Some (Some kt) \<and> cl_certs lib ct \<noteq> [] \<and>
        cl_keys lib kt = Inr [ck_key c] \<and> cl_can_sign lib (ck_key c) \<and> c = \<lparr> ck_chain = cl_certs lib ct, ck_key = ck_key c \<rparr>)"
  by (auto simp: load_certified_key_def get_certs_from_path_def get_priv_key_from_path_def read_text_def single_key_def
      split: option.splits sum.splits list.splits if_splits)

lemma resolve_from_files_existing:
  assumes "load_certified_key lib files (cert_path name) (key_path name) = Some c"
    and "cl_create_dir_all lib (odd_cache_base @ ''/'' @ name)"
  shows "resolve_from_files lib name r files = (Some c, add_self_signed name c r, files)"
proof -
  have "files (cert_path name) \<noteq> None" "files (key_path name) \<noteq> None"
    using assms(1) by (auto simp: load_certified_key_iff)
  with assms show ?thesis
    by (simp add: resolve_from_files_def generate_cert_if_not_exist_def)
qed

text \<open>A self-signed certificate that is no longer worth keeping is replaced by whatever the
  files hold, which may be the same certificate, and the certificate of Let's Encrypt of the same
  name is removed from memory instead.\<close>

theorem expired_certificate_kept:
  assumes "\<not> (may_use_lets_encrypt lib (shown_name n) r \<and> (\<exists>c. lets_encrypt_signed_certs r (shown_name n) = Some c \<and> worth_keeping lib c))"
    and "self_signed_cert_cache r (shown_name n) = Some old" and "\<not> worth_keeping lib old"
    and "load_certified_key lib files (cert_path (shown_name n)) (key_path (shown_name n)) = Some c"
    and "cl_create_dir_all lib (odd_cache_base @ ''/'' @ shown_name n)"
  shows "\<exists>r'. resolve lib (Some n) r files = (Some c, r', files) \<and>
    self_signed_cert_cache r' = (self_signed_cert_cache r)(shown_name n \<mapsto> c) \<and>
    lets_encrypt_signed_certs r' (shown_name n) = None"
proof -
  obtain r1 where "self_signed_cert_cache r1 = self_signed_cert_cache r"
    and "resolve lib (Some n) r files =
      (case self_signed_cert_cache r (shown_name n) of
         Some c \<Rightarrow> if worth_keeping lib c then (Some c, r1, files)
                   else resolve_from_files lib (shown_name n) (remove_lets_encrypt (shown_name n) r1) files
       | None \<Rightarrow> resolve_from_files lib (shown_name n) r1 files)"
    by (rule resolve_self_signed [OF assms(1), of files]) (use that in blast)
  with assms(2,3) resolve_from_files_existing [OF assms(4,5)] show ?thesis by simp
qed

section \<open>New certificates\<close>

lemma key_path_not_cert_path [simp]: "key_path a \<noteq> cert_path b"
proof
  assume "key_path a = cert_path b"
  have "take 8 (rev (key_path a)) = take 8 (rev (cert_path b))" using \<open>key_path a = cert_path b\<close> by simp
  then show False by (simp add: key_path_def cert_path_def)
qed

lemma cert_path_inj [simp]: "cert_path a = cert_path b \<longleftrightarrow> a = b" "key_path a = key_path b \<longleftrightarrow> a = b"
  by (simp_all add: cert_path_def key_path_def)

lemma cert_path_not_key_path [simp]: "cert_path a \<noteq> key_path b"
  using key_path_not_cert_path by metis

lemma generated_pair_loads:
  assumes "files (cert_path name) = None" and "files (key_path name) = None"
    and "cl_generate lib name = Inr (cp, kp)" and "cl_writable lib (cert_path name)" and "cl_writable lib (key_path name)"
    and "cl_certs lib cp = e # es" and "cl_keys lib kp = Inr [k]" and "cl_can_sign lib k"
    and "cl_create_dir_all lib (odd_cache_base @ ''/'' @ name)"
  shows "resolve_from_files lib name r files =
    (Some \<lparr> ck_chain = e # es, ck_key = k \<rparr>, add_self_signed name \<lparr> ck_chain = e # es, ck_key = k \<rparr> r,
     files(cert_path name \<mapsto> Some cp, key_path name \<mapsto> Some kp))"
proof -
  let ?f = "files(cert_path name \<mapsto> Some cp, key_path name \<mapsto> Some kp)"
  have "load_certified_key lib ?f (cert_path name) (key_path name) = Some \<lparr> ck_chain = e # es, ck_key = k \<rparr>"
    using assms(6-8) by (auto simp: load_certified_key_iff)
  with assms show ?thesis
    by (simp add: resolve_from_files_def generate_cert_if_not_exist_def write_text_def)
qed

text \<open>A certificate is generated at the first connection for a name and written to its two
  files; later connections, and those after a restart, are shown the same certificate.\<close>

theorem certificate_generated_once:
  assumes "\<not> may_use_lets_encrypt lib (shown_name n) r" and "self_signed_cert_cache r (shown_name n) = None"
    and "files (cert_path (shown_name n)) = None" and "files (key_path (shown_name n)) = None"
    and "cl_generate lib (shown_name n) = Inr (cp, kp)"
    and "cl_writable lib (cert_path (shown_name n))" and "cl_writable lib (key_path (shown_name n))"
    and "cl_certs lib cp = e # es" and "cl_keys lib kp = Inr [k]" and "cl_can_sign lib k"
    and "cl_create_dir_all lib (odd_cache_base @ ''/'' @ shown_name n)"
    and "cl_validity lib e = DaysLeft days" and "30 \<le> days"
  shows "\<exists>r' files'. resolve lib (Some n) r files = (Some \<lparr> ck_chain = e # es, ck_key = k \<rparr>, r', files') \<and>
    resolve lib (Some n) r' files' = (Some \<lparr> ck_chain = e # es, ck_key = k \<rparr>, r', files') \<and>
    (\<forall>r''. self_signed_cert_cache r'' (shown_name n) = None \<and> enable_lets_encrypt r'' = enable_lets_encrypt r \<longrightarrow>
       fst (resolve lib (Some n) r'' files') = Some \<lparr> ck_chain = e # es, ck_key = k \<rparr>)"
proof -
  let ?name = "shown_name n" and ?c = "\<lparr> ck_chain = e # es, ck_key = k \<rparr>"
  let ?f = "files(cert_path ?name \<mapsto> Some cp, key_path ?name \<mapsto> Some kp)"
  have own: "resolve lib (Some n) r0 f0 =
      (let (own, r1) = get_self_signed_cert_from_cache lib ?name r0 in
       case own of Some c \<Rightarrow> (Some c, r1, f0) | None \<Rightarrow> resolve_from_files lib ?name r1 f0)"
    if "enable_lets_encrypt r0 = enable_lets_encrypt r" for r0 f0
  proof -
    have "\<not> (enable_lets_encrypt r0 \<and> \<not> ends_with (cl_lower lib ?name) ''localhost'')"
      using assms(1) that by (simp add: may_use_lets_encrypt_def)
    then show ?thesis by (simp only: resolve_def Let_def option.case if_False prod.case)
  qed
  have "resolve lib (Some n) r files = (Some ?c, add_self_signed ?name ?c r, ?f)"
    using generated_pair_loads [OF assms(3-11)] assms(2) by (simp add: own get_self_signed_cert_from_cache_def)
  moreover have "resolve lib (Some n) (add_self_signed ?name ?c r) ?f = (Some ?c, add_self_signed ?name ?c r, ?f)"
    using assms(12,13) by (simp add: own get_self_signed_cert_from_cache_def worth_keeping_def)
  moreover have "load_certified_key lib ?f (cert_path ?name) (key_path ?name) = Some ?c"
    using assms(8-10) by (auto simp: load_certified_key_iff)
  then have "fst (resolve lib (Some n) r'' ?f) = Some ?c"
    if "self_signed_cert_cache r'' ?name = None" "enable_lets_encrypt r'' = enable_lets_encrypt r" for r''
    using resolve_from_files_existing [OF _ assms(11)] that by (simp add: own get_self_signed_cert_from_cache_def)
  ultimately show ?thesis by blast
qed

section \<open>No certificate of another name\<close>

text \<open>
  Whatever makes a certificate one of a name: all that is cached or found in files has it, and so has what
  is generated.
\<close>

definition certificates_ok ::
  "(string \<Rightarrow> ('c, 'k) CertifiedKey \<Rightarrow> bool) \<Rightarrow> ('c, 'k) cert_lib \<Rightarrow> ('c, 'k) DynamicCertResolver \<Rightarrow> Files \<Rightarrow> bool" where
  "certificates_ok P lib r files \<longleftrightarrow>
     (\<forall>d c. lets_encrypt_signed_certs r d = Some c \<longrightarrow> P d c) \<and>
     (\<forall>d c. self_signed_cert_cache r d = Some c \<longrightarrow> P d c) \<and>
     (\<forall>d c. load_certified_key lib files (cert_path d) (key_path d) = Some c \<longrightarrow> P d c)"

definition generator_law :: "(string \<Rightarrow> ('c, 'k) CertifiedKey \<Rightarrow> bool) \<Rightarrow> ('c, 'k) cert_lib \<Rightarrow> bool" where
  "generator_law P lib \<longleftrightarrow>
     (\<forall>d cp kp k. cl_generate lib d = Inr (cp, kp) \<longrightarrow> cl_keys lib kp = Inr [k] \<longrightarrow>
        P d \<lparr> ck_chain = cl_certs lib cp, ck_key = k \<rparr>)"

lemma generate_keeps:
  assumes "certificates_ok P lib r files" and "generator_law P lib"
    and "generate_cert_if_not_exist lib name (cert_path name) (key_path name) files = (res, files')"
  shows "certificates_ok P lib r files'"
proof (cases "files' = files")
  case False
  then obtain cp kp where g: "cl_generate lib name = Inr (cp, kp)"
    and n: "files (cert_path name) = None" "files (key_path name) = None"
    and f: "files' = write_text lib (key_path name) kp (write_text lib (cert_path name) cp files)"
    using assms(3)
    by (auto simp: generate_cert_if_not_exist_def Let_def split: if_splits sum.splits prod.splits)
  have "P d c" if l: "load_certified_key lib files' (cert_path d) (key_path d) = Some c" for d c
  proof (cases "d = name")
    case True
    with l f n g assms(2) show ?thesis
      by (auto simp: load_certified_key_iff write_text_def generator_law_def split: if_splits) (metis)+
  next
    case False
    then have "load_certified_key lib files (cert_path d) (key_path d) = Some c"
      using l by (auto simp: f load_certified_key_iff write_text_def split: if_splits)
    with assms(1) show ?thesis by (simp add: certificates_ok_def)
  qed
  with assms(1) show ?thesis by (simp add: certificates_ok_def)
qed (use assms(1) in simp)

lemma certificates_ok_remove [simp]:
  "certificates_ok P lib r files \<Longrightarrow> certificates_ok P lib (remove_lets_encrypt d r) files"
  by (simp add: certificates_ok_def)

lemma resolve_from_files_keeps:
  assumes "certificates_ok P lib r files" and "generator_law P lib"
    and "resolve_from_files lib name r files = (found, r', files')"
  shows "certificates_ok P lib r' files' \<and> (\<forall>c. found = Some c \<longrightarrow> P name c)"
proof -
  obtain res fs where g: "generate_cert_if_not_exist lib name (cert_path name) (key_path name) files = (res, fs)"
    by (cases "generate_cert_if_not_exist lib name (cert_path name) (key_path name) files")
  from generate_keeps [OF assms(1,2) g] assms(1,3) g show ?thesis
    by (auto simp: resolve_from_files_def certificates_ok_def split: if_splits sum.splits option.splits)
qed

text \<open>C19: Whatever holds of every certificate that is stored or generated for a name also
  holds of the certificate shown to a client that asks for that name, and of what is stored
  afterwards; localhost is shown the certificate of odd-box.localhost, and a client that names no
  server gets none.\<close>

theorem certificates_of_their_names:
  assumes "certificates_ok P lib r files" and "generator_law P lib"
    and "resolve lib sni r files = (found, r', files')"
  shows "certificates_ok P lib r' files' \<and>
    (\<forall>c. found = Some c \<longrightarrow> (\<exists>n. sni = Some n \<and> P (shown_name n) c))"
proof (cases sni)
  case None
  with assms show ?thesis by (auto simp: resolve_def)
next
  case (Some n)
  let ?name = "shown_name n"
  show ?thesis
  proof (cases "may_use_lets_encrypt lib ?name r \<and>
      (\<exists>c. lets_encrypt_signed_certs r ?name = Some c \<and> worth_keeping lib c)")
    case True
    then obtain c where c: "lets_encrypt_signed_certs r ?name = Some c" "resolve lib (Some n) r files = (Some c, r, files)"
      using resolve_lets_encrypt by blast
    with assms Some show ?thesis by (simp add: certificates_ok_def)
  next
    case False
    then obtain r1 where r1: "self_signed_cert_cache r1 = self_signed_cert_cache r"
        "lets_encrypt_signed_certs r1 \<subseteq>\<^sub>m lets_encrypt_signed_certs r"
      and r: "resolve lib (Some n) r files =
        (case self_signed_cert_cache r ?name of
           Some c \<Rightarrow> if worth_keeping lib c then (Some c, r1, files)
                     else resolve_from_files lib ?name (remove_lets_encrypt ?name r1) files
         | None \<Rightarrow> resolve_from_files lib ?name r1 files)"
      by (rule resolve_self_signed [where files = files]) (use that in blast)
    from assms(1) r1 have ok: "certificates_ok P lib r1 files"
      by (auto simp: certificates_ok_def map_le_def dom_def)
    note keeps = resolve_from_files_keeps [OF ok assms(2)]
      resolve_from_files_keeps [OF certificates_ok_remove [OF ok] assms(2)]
    have "\<And>c. self_signed_cert_cache r ?name = Some c \<Longrightarrow> P ?name c"
      using assms(1) by (simp add: certificates_ok_def)
    with ok r assms(3) Some show ?thesis
      by (auto dest: keeps split: option.splits if_splits)
  qed
qed

section \<open>Examples\<close>

text \<open>A certificate is the name it was made for and its days; a key is a number.\<close>

definition cert_lib_sample :: "int \<Rightarrow> (string \<times> int, nat) cert_lib" where
  "cert_lib_sample today =
     \<lparr> cl_validity = (\<lambda>(_, last). if last < today then Expired else DaysLeft (last - today)),
       cl_certs = (\<lambda>t. [(t, 100)]), cl_keys = (\<lambda>_. Inr [7]), cl_can_sign = (\<lambda>_. True),
       cl_generate = (\<lambda>h. Inr (h, ''key'')), cl_lower = (\<lambda>s. s), cl_create_dir_all = (\<lambda>_. True), cl_writable = (\<lambda>_. True) \<rparr>"

definition pair_sample :: "string \<Rightarrow> (string \<times> int, nat) CertifiedKey" where
  "pair_sample name = \<lparr> ck_chain = [(name, 100)], ck_key = 7 \<rparr>"

definition resolver_sample :: "(string \<times> int, nat) DynamicCertResolver" where
  "resolver_sample = add_self_signed ''a.dev'' (pair_sample ''a.dev'') (DynamicCertResolver_new False)"

definition files_sample :: Files where
  "files_sample = [cert_path ''a.dev'' \<mapsto> Some ''a.dev'', key_path ''a.dev'' \<mapsto> Some ''key'']"

lemmas cert_samples = cert_lib_sample_def pair_sample_def resolver_sample_def files_sample_def add_self_signed_def
  DynamicCertResolver_new_def may_use_lets_encrypt_def shown_name_def worth_keeping_def

lemma expired_certificate_kept_witness:
  "\<exists>r'. resolve (cert_lib_sample 101) (Some ''a.dev'') resolver_sample files_sample = (Some (pair_sample ''a.dev''), r', files_sample) \<and>
     cl_validity (cert_lib_sample 101) (hd (ck_chain (pair_sample ''a.dev''))) = Expired"
proof -
  have "\<exists>r'. resolve (cert_lib_sample 101) (Some ''a.dev'') resolver_sample files_sample = (Some (pair_sample ''a.dev''), r', files_sample) \<and>
      self_signed_cert_cache r' = (self_signed_cert_cache resolver_sample)(shown_name ''a.dev'' \<mapsto> pair_sample ''a.dev'') \<and>
      lets_encrypt_signed_certs r' (shown_name ''a.dev'') = None"
    by (rule expired_certificate_kept [where old = "pair_sample ''a.dev''"])
      (simp_all add: cert_samples load_certified_key_iff)
  then show ?thesis by (auto simp: cert_samples)
qed

lemma certificate_generated_once_witness:
  "\<exists>r' files'. resolve (cert_lib_sample 0) (Some ''a.dev'') (DynamicCertResolver_new False) Map.empty = (Some (pair_sample ''a.dev''), r', files') \<and>
     resolve (cert_lib_sample 0) (Some ''a.dev'') r' files' = (Some (pair_sample ''a.dev''), r', files')"
  using certificate_generated_once [of "cert_lib_sample 0" "''a.dev''" "DynamicCertResolver_new False" Map.empty
      "''a.dev''" "''key''" "(''a.dev'', 100)" "[]" 7 100]
  by (auto simp: cert_samples)

lemma certificates_of_their_names_witness:
  "certificates_ok (\<lambda>d c. ck_chain c = [(d, 100)]) (cert_lib_sample 0) resolver_sample files_sample \<and>
   fst (resolve (cert_lib_sample 0) (Some ''a.dev'') resolver_sample files_sample) = Some (pair_sample ''a.dev'') \<and>
   ck_chain (pair_sample ''a.dev'') = [(''a.dev'', 100)]"
proof -
  let ?P = "\<lambda>d c. ck_chain c = [(d, 100)]"
  have ok: "certificates_ok ?P (cert_lib_sample 0) resolver_sample files_sample"
    by (auto simp: certificates_ok_def load_certified_key_iff cert_samples split: if_splits)
  have gen: "generator_law ?P (cert_lib_sample 0)"
    by (simp add: generator_law_def cert_samples)
  have r: "resolve (cert_lib_sample 0) (Some ''a.dev'') resolver_sample files_sample =
      (Some (pair_sample ''a.dev''), resolver_sample, files_sample)"
    by (simp add: resolve_def get_self_signed_cert_from_cache_def cert_samples Let_def)
  from certificates_of_their_names [OF ok gen r] ok r show ?thesis by (simp add: cert_samples)
qed

end
