(* ===== verification/Lets_Encrypt.thy ===== *)
theory Lets_Encrypt
  imports Http_Service Certificates "HOL-Library.List_Lexorder" "HOL-Library.Char_ord"
begin

text \<open>
  The ACME client and the worker that keeps the certificates of Let's Encrypt, \<open>src/letsencrypt.rs\<close>. The
  authority is a function from the calls made so far to its answer to the last one, so every theorem holds
  whatever it answers. Keys, hashes, base64, the text of JSON and the reader of the directory are fields of
  \<open>acme_env\<close>; a key pair is its PEM text. Waiting between polls is left out. A step returns a failure or a
  value, and the state; a failure is an error that its caller sees, or a panic, which ends the worker.
\<close>

section \<open>JSON and calls\<close>

datatype json =
    JNull
  | JBool bool
  | JNumber int
  | JString string
  | JArray "json list"
  | JObject "string \<rightharpoonup> json"

text \<open>\<open>Value::get\<close> with a name and with an index, \<open>body[name]\<close>, and \<open>as_str\<close>.\<close>

fun jget :: "string \<Rightarrow> json \<Rightarrow> json option" where
  "jget k (JObject m) = m k"
| "jget k _ = None"

fun jnth :: "nat \<Rightarrow> json \<Rightarrow> json option" where
  "jnth i (JArray xs) = (if i < length xs then Some (xs ! i) else None)"
| "jnth i _ = None"

definition jfield :: "string \<Rightarrow> json \<Rightarrow> json" where
  "jfield k j = unwrap_or (jget k j) JNull"

fun as_str :: "json \<Rightarrow> string option" where
  "as_str (JString s) = Some s"
| "as_str _ = None"

fun as_array :: "json \<Rightarrow> json list option" where
  "as_array (JArray xs) = Some xs"
| "as_array _ = None"

datatype call = HEAD string | GET string | POST string string

text \<open>An answer: whether its status is a success, its headers (\<open>None\<close> inside: not a text) and its body.\<close>

record answer =
  an_success :: bool
  an_headers :: "string \<rightharpoonup> string option"
  an_json :: "string + json"
  an_text :: "string + string"

record Directory =
  new_nonce :: string
  new_account :: string
  new_order :: string

record ('c, 'k) acme_env =
  ae_lib :: "('c, 'k) cert_lib"
  ae_net :: "call list \<Rightarrow> string + answer"
  ae_generate :: "string + string"
  ae_from_pem :: "string \<Rightarrow> bool"
  ae_directory :: "string \<Rightarrow> Directory option"
  ae_csr :: "string \<Rightarrow> string + string \<times> string"
  ae_jwk :: "string \<Rightarrow> string + json"
  ae_sha256 :: "string \<Rightarrow> string"
  ae_es256 :: "string \<Rightarrow> string \<Rightarrow> string + string"
  ae_base64 :: "string \<Rightarrow> string"
  ae_json_text :: "json \<Rightarrow> string"

record LECertManager =
  acc_certified_key :: string
  account_url :: "string option"
  directory :: Directory
  needs_to_register :: bool

text \<open>\<open>CHALLENGE_MAP\<close>, \<open>DOMAIN_TO_CHALLENGE_TOKEN_MAP\<close>, the files, and the calls made so far.\<close>

record AcmeState =
  ac_challenges :: "string \<rightharpoonup> string"
  ac_tokens :: "string \<rightharpoonup> string"
  ac_files :: Files
  ac_log :: "call list"

datatype failure = Bail string | Panic

type_synonym 'a acme = "AcmeState \<Rightarrow> (failure + 'a) \<times> AcmeState"

definition return :: "'a \<Rightarrow> 'a acme" where
  "return x s = (Inr x, s)"

definition bail :: "string \<Rightarrow> 'a acme" where
  "bail e s = (Inl (Bail e), s)"

definition and_then :: "'a acme \<Rightarrow> ('a \<Rightarrow> 'b acme) \<Rightarrow> 'b acme" where
  "and_then m f s = (case m s of (Inl e, s) \<Rightarrow> (Inl e, s) | (Inr x, s) \<Rightarrow> f x s)"

definition ok_or :: "string \<Rightarrow> 'a option \<Rightarrow> 'a acme" where
  "ok_or e x = (case x of Some v \<Rightarrow> return v | None \<Rightarrow> bail e)"

definition try_sum :: "string + 'a \<Rightarrow> 'a acme" where
  "try_sum x = (case x of Inr v \<Rightarrow> return v | Inl e \<Rightarrow> bail e)"

definition http :: "('c, 'k) acme_env \<Rightarrow> call \<Rightarrow> answer acme" where
  "http env c s = (let s = s\<lparr> ac_log := ac_log s @ [c] \<rparr> in try_sum (ae_net env (ac_log s)) s)"

definition header_text :: "string \<Rightarrow> answer \<Rightarrow> string acme" where
  "header_text k a = and_then (ok_or k (an_headers a k)) (ok_or k)"

definition write_file :: "('c, 'k) acme_env \<Rightarrow> string \<Rightarrow> string \<Rightarrow> unit acme" where
  "write_file env path t s =
     (if cl_writable (ae_lib env) path then (Inr (), s\<lparr> ac_files := (ac_files s)(path \<mapsto> Some t) \<rparr>) else (Inl (Bail path), s))"

definition read_file :: "string \<Rightarrow> string acme" where
  "read_file path s = ok_or path (read_text (ac_files s) path) s"

section \<open>Signed requests\<close>

definition fetch_nonce :: "('c, 'k) acme_env \<Rightarrow> string \<Rightarrow> string acme" where
  "fetch_nonce env new_nonce_url = and_then (http env (HEAD new_nonce_url)) (header_text ''replay-nonce'')"

definition sign_request ::
  "('c, 'k) acme_env \<Rightarrow> string \<Rightarrow> json option \<Rightarrow> string \<Rightarrow> string \<Rightarrow> string option \<Rightarrow> string + string" where
  "sign_request env key payload nonce url account =
     (let protected = [''alg'' \<mapsto> JString ''ES256'', ''nonce'' \<mapsto> JString nonce, ''url'' \<mapsto> JString url] in
      case (case account of
              Some a \<Rightarrow> Inr (protected(''kid'' \<mapsto> JString a))
            | None \<Rightarrow> (case ae_jwk env key of Inl e \<Rightarrow> Inl e | Inr jwk \<Rightarrow> Inr (protected(''jwk'' \<mapsto> jwk)))) of
        Inl e \<Rightarrow> Inl e
      | Inr protected \<Rightarrow>
          (let protected_b64 = ae_base64 env (ae_json_text env (JObject protected));
               payload_b64 = ae_base64 env (case payload of Some p \<Rightarrow> ae_json_text env p | None \<Rightarrow> []) in
           case ae_es256 env key (protected_b64 @ ''.'' @ payload_b64) of
             Inl e \<Rightarrow> Inl e
           | Inr signature \<Rightarrow>
               Inr (ae_json_text env (JObject
                 [''protected'' \<mapsto> JString protected_b64, ''payload'' \<mapsto> JString payload_b64,
                  ''signature'' \<mapsto> JString (ae_base64 env signature)]))))"

text \<open>The nonce, the signature and the request, as they follow each other in every function below.\<close>

definition signed_post :: "('c, 'k) acme_env \<Rightarrow> LECertManager \<Rightarrow> json option \<Rightarrow> string \<Rightarrow> answer acme" where
  "signed_post env mgr payload url =
     and_then (fetch_nonce env (new_nonce (directory mgr))) (\<lambda>nonce.
     and_then (try_sum (sign_request env (acc_certified_key mgr) payload nonce url (account_url mgr))) (\<lambda>body.
     http env (POST url body)))"

definition compute_jwk_thumbprint :: "('c, 'k) acme_env \<Rightarrow> json \<Rightarrow> string" where
  "compute_jwk_thumbprint env jwk =
     ae_base64 env (ae_sha256 env (ae_json_text env (JObject
       [''crv'' \<mapsto> jfield ''crv'' jwk, ''kty'' \<mapsto> jfield ''kty'' jwk, ''x'' \<mapsto> jfield ''x'' jwk, ''y'' \<mapsto> jfield ''y'' jwk])))"

definition generate_key_authorization :: "('c, 'k) acme_env \<Rightarrow> LECertManager \<Rightarrow> string \<Rightarrow> string + string" where
  "generate_key_authorization env mgr token =
     (case ae_jwk env (acc_certified_key mgr) of
        Inl e \<Rightarrow> Inl e
      | Inr jwk \<Rightarrow> Inr (token @ ''.'' @ compute_jwk_thumbprint env jwk))"

section \<open>The account\<close>

definition fetch_directory :: "('c, 'k) acme_env \<Rightarrow> string \<Rightarrow> Directory acme" where
  "fetch_directory env url =
     and_then (http env (GET url)) (\<lambda>a.
     and_then (try_sum (an_text a)) (\<lambda>t.
     ok_or ''failed to deserialize'' (ae_directory env t)))"

text \<open>The regular expression \<open>.*@.*\<close> matches a text with an at sign.\<close>

definition register_acme_account :: "('c, 'k) acme_env \<Rightarrow> string \<Rightarrow> Directory \<Rightarrow> string \<Rightarrow> string acme" where
  "register_acme_account env email dir key =
     (if CHR ''@'' \<notin> set email then bail ''Invalid email address''
      else
        and_then (fetch_nonce env (new_nonce dir)) (\<lambda>nonce.
        and_then (try_sum (sign_request env key
            (Some (JObject [''termsOfServiceAgreed'' \<mapsto> JBool True, ''contact'' \<mapsto> JArray [JString (''mailto:'' @ email)]]))
            nonce (new_account dir) None)) (\<lambda>body.
        and_then (http env (POST (new_account dir) body)) (\<lambda>a.
        if an_success a then
          (case an_headers a ''Location'' of
             None \<Rightarrow> bail ''Failed to obtain account URL from Location header''
           | Some v \<Rightarrow>
               and_then (ok_or ''Location'' v) (\<lambda>url.
               and_then (try_sum (an_json a)) (\<lambda>_. return url)))
        else bail ''ACME account registration failed''))))"

definition account_key_path :: string where
  "account_key_path = ''.odd_box_cache/lets_encrypt_account.key''"

definition acc_url_path :: string where
  "acc_url_path = ''./.odd_box_cache/lets_encrypt_account_url''"

definition directory_url :: string where
  "directory_url = ''https://acme-v02.api.letsencrypt.org/directory''"

definition account_key :: "('c, 'k) acme_env \<Rightarrow> string acme" where
  "account_key env s =
     (if ac_files s account_key_path = None then
        and_then (try_sum (ae_generate env)) (\<lambda>key.
        and_then (write_file env account_key_path key) (\<lambda>_. return key)) s
      else
        and_then (read_file account_key_path) (\<lambda>pem.
        if ae_from_pem env pem then return pem else bail ''from_pem'') s)"

definition account_url_for :: "('c, 'k) acme_env \<Rightarrow> string \<Rightarrow> Directory \<Rightarrow> string \<Rightarrow> string option acme" where
  "account_url_for env email dir key s =
     (if ac_files s acc_url_path \<noteq> None then and_then (read_file acc_url_path) (\<lambda>url. return (Some url)) s
      else if email \<noteq> [] then
        and_then (register_acme_account env email dir key) (\<lambda>url.
        and_then (write_file env acc_url_path url) (\<lambda>_. return (Some url))) s
      else return None s)"

definition LECertManager_new :: "('c, 'k) acme_env \<Rightarrow> string \<Rightarrow> LECertManager acme" where
  "LECertManager_new env email s =
     (if ac_files s ''.odd_box_cache'' = None \<and> \<not> cl_create_dir_all (ae_lib env) ''.odd_box_cache'' then
        bail ''.odd_box_cache'' s
      else
        and_then (account_key env) (\<lambda>key.
        and_then (fetch_directory env directory_url) (\<lambda>dir.
        and_then (account_url_for env email dir key) (\<lambda>url.
        return \<lparr> acc_certified_key = key, account_url = url, directory = dir, needs_to_register = (url = None) \<rparr>))) s)"

section \<open>An order\<close>

definition create_order :: "('c, 'k) acme_env \<Rightarrow> LECertManager \<Rightarrow> string \<Rightarrow> (string \<times> string \<times> string) acme" where
  "create_order env mgr domain =
     and_then (signed_post env mgr
       (Some (JObject [''identifiers'' \<mapsto> JArray [JObject [''type'' \<mapsto> JString ''dns'', ''value'' \<mapsto> JString domain]]]))
       (new_order (directory mgr))) (\<lambda>a.
     and_then (header_text ''Location'' a) (\<lambda>order_url.
     if an_success a then
       and_then (try_sum (an_json a)) (\<lambda>body.
       and_then (ok_or ''Finalize URL not found'' (as_str (jfield ''finalize'' body))) (\<lambda>finalize_url.
       and_then (ok_or ''Authorization URL not found'' (Option.bind (jnth 0 (jfield ''authorizations'' body)) as_str)) (\<lambda>auth_url.
       return (auth_url, finalize_url, order_url))))
     else bail ''Failed to create order''))"

definition validation_record_url :: "json \<Rightarrow> string option" where
  "validation_record_url body =
     do {
       challenges \<leftarrow> jget ''challenges'' body;
       challenge \<leftarrow> jnth 0 challenges;
       records \<leftarrow> jget ''validationRecord'' challenge;
       record_0 \<leftarrow> jnth 0 records;
       url \<leftarrow> jget ''url'' record_0;
       as_str url }"

definition publish_challenge :: "string \<Rightarrow> string \<Rightarrow> string \<Rightarrow> unit acme" where
  "publish_challenge domain token auth s =
     (Inr (), s\<lparr> ac_challenges := (ac_challenges s)(token \<mapsto> auth), ac_tokens := (ac_tokens s)(domain \<mapsto> token) \<rparr>)"

definition trigger_challenge :: "('c, 'k) acme_env \<Rightarrow> LECertManager \<Rightarrow> string \<Rightarrow> string acme" where
  "trigger_challenge env mgr url =
     and_then (signed_post env mgr (Some (JObject Map.empty)) url) (\<lambda>a.
     if an_success a then
       and_then (try_sum (an_json a)) (\<lambda>body.
       ok_or ''Challenge validation failed'' (Option.bind (jget ''url'' body) as_str))
     else bail ''Challenge validation failed'')"

definition offer_challenge :: "('c, 'k) acme_env \<Rightarrow> LECertManager \<Rightarrow> string \<Rightarrow> string \<Rightarrow> string \<Rightarrow> json \<Rightarrow> string acme" where
  "offer_challenge env mgr domain token auth challenge =
     and_then (publish_challenge domain token auth) (\<lambda>_.
     and_then (ok_or ''Challenge URL not found'' (as_str (jfield ''url'' challenge))) (\<lambda>url.
     trigger_challenge env mgr url))"

definition handle_http_01_challenge :: "('c, 'k) acme_env \<Rightarrow> LECertManager \<Rightarrow> string \<Rightarrow> string \<Rightarrow> string acme" where
  "handle_http_01_challenge env mgr auth_url domain =
     and_then (http env (GET auth_url)) (\<lambda>a.
     if \<not> an_success a then bail ''Failed to fetch authorization details''
     else
       and_then (try_sum (an_json a)) (\<lambda>body.
       and_then (ok_or ''No HTTP-01 challenge found''
         (Option.bind (as_array (jfield ''challenges'' body))
           (List.find (\<lambda>ch. jfield ''type'' ch = JString ''http-01'')))) (\<lambda>challenge.
       if jget ''status'' challenge = Some (JString ''valid'') then
         ok_or ''URL not found in the expected JSON structure'' (validation_record_url body)
       else
         and_then (ok_or ''Token not found'' (Option.bind (jget ''token'' challenge) as_str)) (\<lambda>token.
         and_then (try_sum (generate_key_authorization env mgr token)) (\<lambda>auth.
         offer_challenge env mgr domain token auth challenge)))))"

fun poll_order :: "nat \<Rightarrow> ('c, 'k) acme_env \<Rightarrow> LECertManager \<Rightarrow> string \<Rightarrow> unit acme" where
  "poll_order 0 env mgr url = bail ''Failed to get certificate after 10 attempts''"
| "poll_order (Suc n) env mgr url =
     and_then (signed_post env mgr None url) (\<lambda>a.
     and_then (try_sum (an_json a)) (\<lambda>body.
     if jfield ''status'' body = JString ''valid'' then return () else poll_order n env mgr url))"

definition poll_order_status_util_valid :: "('c, 'k) acme_env \<Rightarrow> LECertManager \<Rightarrow> string \<Rightarrow> unit acme" where
  "poll_order_status_util_valid env mgr url = poll_order 6 env mgr url"

definition finalize_order :: "('c, 'k) acme_env \<Rightarrow> LECertManager \<Rightarrow> string \<Rightarrow> string \<Rightarrow> string acme" where
  "finalize_order env mgr url domain =
     and_then (fetch_nonce env (new_nonce (directory mgr))) (\<lambda>nonce.
     and_then (try_sum (ae_csr env domain)) (\<lambda>(csr, key).
     and_then (try_sum (sign_request env (acc_certified_key mgr) (Some (JObject [''csr'' \<mapsto> JString csr])) nonce url
       (account_url mgr))) (\<lambda>body.
     and_then (http env (POST url body)) (\<lambda>a.
     and_then (try_sum (an_text a)) (\<lambda>t.
     if an_success a then return key else bail t)))))"

definition fetch_certificate :: "('c, 'k) acme_env \<Rightarrow> LECertManager \<Rightarrow> string \<Rightarrow> string acme" where
  "fetch_certificate env mgr url =
     and_then (signed_post env mgr None url) (\<lambda>a.
     if an_success a then
       and_then (try_sum (an_json a)) (\<lambda>j.
       and_then (ok_or ''Cert not found in response body'' (as_str (jfield ''certificate'' j))) (\<lambda>cert_url.
       and_then (http env (GET cert_url)) (\<lambda>a. try_sum (an_text a))))
     else and_then (try_sum (an_text a)) bail)"

section \<open>A certificate for a name\<close>

definition le_cache_base :: string where
  "le_cache_base = ''.odd_box_cache/lets_encrypt''"

definition le_cert_file :: "string \<Rightarrow> string" where
  "le_cert_file domain = le_cache_base @ ''/'' @ domain @ ''/'' @ domain @ ''.crt''"

definition le_key_file :: "string \<Rightarrow> string" where
  "le_key_file domain = le_cache_base @ ''/'' @ domain @ ''/'' @ domain @ ''.key''"

definition certified_key_from ::
  "('c, 'k) acme_env \<Rightarrow> string \<Rightarrow> string \<Rightarrow> string + ('c, 'k) CertifiedKey" where
  "certified_key_from env crt key =
     (case extract_priv_key_from_pem (ae_lib env) key of
        Inl e \<Rightarrow> Inl e
      | Inr k \<Rightarrow>
          if cl_can_sign (ae_lib env) k then Inr \<lparr> ck_chain = cl_certs (ae_lib env) crt, ck_key = k \<rparr>
          else Inl ''Failed to create signing key'')"

text \<open>
  What the files say: no pair (\<open>None\<close>), a certificate to go on with, or whether validation can be left out.
  The two \<open>unwrap\<close> panic when the file holds no certificate, or one that cannot be read.
\<close>

datatype ('c, 'k) stored = NothingStored | KeepUsing "('c, 'k) CertifiedKey" | Renew bool

definition stored_certificate :: "('c, 'k) acme_env \<Rightarrow> string \<Rightarrow> ('c, 'k) stored acme" where
  "stored_certificate env domain s =
     (if ac_files s (le_cert_file domain) = None \<or> ac_files s (le_key_file domain) = None then return NothingStored s
      else
        and_then (read_file (le_cert_file domain)) (\<lambda>crt.
        and_then (read_file (le_key_file domain)) (\<lambda>key.
        and_then (try_sum (certified_key_from env crt key)) (\<lambda>c s.
        (case ck_chain c of
           [] \<Rightarrow> (Inl Panic, s)
         | e # _ \<Rightarrow>
             (case cl_validity (ae_lib env) e of
                Unreadable \<Rightarrow> (Inl Panic, s)
              | Expired \<Rightarrow> return (Renew False) s
              | DaysLeft days \<Rightarrow> if days < 89 then return (Renew True) s else return (KeepUsing c) s))))) s)"

definition forget_challenge :: "string \<Rightarrow> unit acme" where
  "forget_challenge domain s =
     (Inr (),
      case ac_tokens s domain of
        None \<Rightarrow> s
      | Some token \<Rightarrow>
          s\<lparr> ac_tokens := (ac_tokens s)(domain := None), ac_challenges := (ac_challenges s)(token := None) \<rparr>)"

definition order_certificate :: "('c, 'k) acme_env \<Rightarrow> LECertManager \<Rightarrow> string \<Rightarrow> bool \<Rightarrow> ('c, 'k) CertifiedKey acme" where
  "order_certificate env mgr domain skip_validation =
     and_then (create_order env mgr domain) (\<lambda>(auth_url, finalize_url, order_url).
     and_then (if skip_validation then return ()
               else and_then (handle_http_01_challenge env mgr auth_url domain) (poll_order_status_util_valid env mgr)) (\<lambda>_.
     and_then (finalize_order env mgr finalize_url domain) (\<lambda>key.
     and_then (poll_order_status_util_valid env mgr order_url) (\<lambda>_.
     and_then (fetch_certificate env mgr order_url) (\<lambda>crt.
     and_then (write_file env (le_cert_file domain) crt) (\<lambda>_.
     and_then (write_file env (le_key_file domain) key) (\<lambda>_.
     and_then (forget_challenge domain) (\<lambda>_.
     try_sum (certified_key_from env crt key)))))))))"

text \<open>
  A challenge of the name that is pending is waited for, and nobody else ends it: the worker that waits is
  the only one that orders.
\<close>

definition get_or_create_cert :: "('c, 'k) acme_env \<Rightarrow> LECertManager \<Rightarrow> string \<Rightarrow> ('c, 'k) CertifiedKey acme" where
  "get_or_create_cert env mgr domain s =
     (if ac_tokens s domain \<noteq> None then bail ''Challenge timed out'' s
      else if \<not> cl_create_dir_all (ae_lib env) (le_cache_base @ ''/'' @ domain) then bail ''Could not create directory'' s
      else
        and_then (stored_certificate env domain) (\<lambda>st.
        (case st of
           KeepUsing c \<Rightarrow> return c
         | NothingStored \<Rightarrow> order_certificate env mgr domain False
         | Renew skip_validation \<Rightarrow> order_certificate env mgr domain skip_validation)) s)"

section \<open>The worker\<close>

definition le_enabled_sites :: "OddBoxV3Config \<Rightarrow> string list" where
  "le_enabled_sites cfg =
     map rs_host_name (filter (\<lambda>x. is_set (rs_enable_lets_encrypt x)) (unwrap_or (cfg_remote_target cfg) [])) @
     map hp_host_name (filter (\<lambda>x. is_set (hp_enable_lets_encrypt x)) (unwrap_or (cfg_hosted_process cfg) [])) @
     map ds_host_name (filter (\<lambda>x. is_set (ds_enable_lets_encrypt x)) (unwrap_or (cfg_dir_server cfg) [])) @
     (case cfg_odd_box_url cfg of Some u \<Rightarrow> [u] | None \<Rightarrow> [])"

definition local_name :: "string \<Rightarrow> bool" where
  "local_name x \<longleftrightarrow> ends_with x ''.localtest.me'' \<or> ends_with x ''.localhost'' \<or> x = ''localhost''"

text \<open>\<open>sort\<close> and \<open>dedup\<close>, on strings ordered as their bytes.\<close>

definition le_sites :: "OddBoxV3Config \<Rightarrow> string list" where
  "le_sites cfg = remdups_adj (sort (filter (\<lambda>x. \<not> local_name x) (le_enabled_sites cfg)))"

datatype worker_status = Active | Disabled | Generated nat

record ('c, 'k) Worker =
  wk_resolver :: "('c, 'k) DynamicCertResolver"
  wk_manager :: "LECertManager option"
  wk_generated :: nat
  wk_status :: worker_status
  wk_acme :: AcmeState

text \<open>The loop over the names: \<open>None\<close> when it panics.\<close>

fun work_on :: "('c, 'k) acme_env \<Rightarrow> LECertManager \<Rightarrow> string list \<Rightarrow> ('c, 'k) Worker \<Rightarrow> ('c, 'k) Worker run" where
  "work_on env mgr [] w = Some w"
| "work_on env mgr (d # ds) w =
     (let (found, r) = get_lets_encrypt_signed_cert_from_mem_cache (ae_lib env) d (wk_resolver w); w = w\<lparr> wk_resolver := r \<rparr> in
      if found \<noteq> None then work_on env mgr ds w
      else
        (let (res, s) = get_or_create_cert env mgr d (wk_acme w); w = w\<lparr> wk_acme := s \<rparr> in
         case res of
           Inr c \<Rightarrow> work_on env mgr ds (w\<lparr> wk_resolver := add_lets_encrypt d c (wk_resolver w), wk_generated := wk_generated w + 1 \<rparr>)
         | Inl Panic \<Rightarrow> None
         | Inl (Bail _) \<Rightarrow> work_on env mgr ds w))"

text \<open>One turn of the worker, without the number of pending challenges in its status.\<close>

definition worker_turn :: "('c, 'k) acme_env \<Rightarrow> OddBoxV3Config \<Rightarrow> ('c, 'k) Worker \<Rightarrow> ('c, 'k) Worker run" where
  "worker_turn env cfg w =
     (case cfg_lets_encrypt_account_email cfg of
        None \<Rightarrow> Some (w\<lparr> wk_status := Disabled \<rparr>)
      | Some mail \<Rightarrow>
          (let (mgr, s) =
             (case wk_manager w of
                Some m \<Rightarrow> (Inr m, wk_acme w)
              | None \<Rightarrow> LECertManager_new env mail (wk_acme w));
               w = w\<lparr> wk_acme := s \<rparr> in
           case mgr of
             Inl Panic \<Rightarrow> None
           | Inl (Bail _) \<Rightarrow> Some w
           | Inr m \<Rightarrow>
               map_option (\<lambda>w. w\<lparr> wk_status := Generated (wk_generated w) \<rparr>)
                 (work_on env m (le_sites cfg) (w\<lparr> wk_manager := Some m \<rparr>))))"

section \<open>What steps keep\<close>

named_theorems keeps_intros \<open>steps that keep a property of the state\<close>

definition keeps :: "(AcmeState \<Rightarrow> bool) \<Rightarrow> 'a acme \<Rightarrow> bool" where
  "keeps I m \<longleftrightarrow> (\<forall>s. I s \<longrightarrow> I (snd (m s)))"

lemma keepsD: "keeps I m \<Longrightarrow> I s \<Longrightarrow> m s = (r, s') \<Longrightarrow> I s'"
  unfolding keeps_def by (metis snd_conv)

lemma keeps_and_then [keeps_intros]: "keeps I m \<Longrightarrow> (\<And>x. keeps I (f x)) \<Longrightarrow> keeps I (and_then m f)"
  unfolding keeps_def and_then_def by (auto split: prod.splits sum.splits)

lemma keeps_values [keeps_intros]:
  "keeps I (return x)" "keeps I (bail e)" "keeps I (ok_or e y)" "keeps I (try_sum z)"
  by (auto simp: keeps_def return_def bail_def ok_or_def try_sum_def split: option.splits sum.splits)

lemma keeps_if [keeps_intros]: "keeps I m \<Longrightarrow> keeps I n \<Longrightarrow> keeps I (if b then m else n)"
  by simp

lemma keeps_cond [keeps_intros]: "keeps I m \<Longrightarrow> keeps I n \<Longrightarrow> keeps I (\<lambda>s. if b s then m s else n s)"
  by (simp add: keeps_def)

lemma keeps_prod [keeps_intros]: "(\<And>x y. keeps I (f x y)) \<Longrightarrow> keeps I (case p of (x, y) \<Rightarrow> f x y)"
  by (cases p) simp

lemma keeps_option [keeps_intros]: "keeps I m \<Longrightarrow> (\<And>x. keeps I (f x)) \<Longrightarrow> keeps I (case y of None \<Rightarrow> m | Some x \<Rightarrow> f x)"
  by (cases y) simp_all

lemma keeps_header_text [keeps_intros]: "keeps I (header_text k a)"
  unfolding header_text_def by (intro keeps_intros)

lemma keeps_read_file [keeps_intros]: "keeps I (read_file path)"
  by (auto simp: keeps_def read_file_def ok_or_def return_def bail_def split: option.splits)

lemma keeps_stored_certificate [keeps_intros]: "keeps I (stored_certificate env d)"
proof -
  have "keeps I (\<lambda>s. (case ck_chain c of
           [] \<Rightarrow> (Inl Panic, s)
         | e # _ \<Rightarrow>
             (case cl_validity (ae_lib env) e of
                Unreadable \<Rightarrow> (Inl Panic, s)
              | Expired \<Rightarrow> return (Renew False) s
              | DaysLeft days \<Rightarrow> if days < 89 then return (Renew True) s else return (KeepUsing c) s)))" for c
    by (auto simp: keeps_def return_def split: list.splits validity.splits)
  then show ?thesis
    unfolding stored_certificate_def [abs_def] by (intro keeps_intros)
qed

text \<open>
  The steps of an order keep what a call without a signature, a signed one and the last request keep; and
  these keep what does not depend on the log.
\<close>

locale call_steps =
  fixes I :: "AcmeState \<Rightarrow> bool" and env :: "('c, 'k) acme_env" and mgr :: LECertManager
  assumes get: "keeps I (http env (GET u))"
    and signed_post: "keeps I (signed_post env mgr p u)"
    and finalize_order: "keeps I (finalize_order env mgr u d)"
begin

lemma create_order: "keeps I (create_order env mgr d)"
  unfolding create_order_def by (intro keeps_intros signed_post)

lemma trigger_challenge: "keeps I (trigger_challenge env mgr u)"
  unfolding trigger_challenge_def by (intro keeps_intros signed_post)

lemma poll_order: "keeps I (poll_order n env mgr u)"
  by (induction n) (auto intro!: keeps_intros signed_post)

lemma fetch_certificate: "keeps I (fetch_certificate env mgr u)"
  unfolding fetch_certificate_def by (intro keeps_intros get signed_post)

lemma handle_http_01_challenge:
  assumes "\<And>t a. keeps I (publish_challenge d t a)"
  shows "keeps I (handle_http_01_challenge env mgr u d)"
  unfolding handle_http_01_challenge_def offer_challenge_def by (intro keeps_intros get trigger_challenge assms)

lemma order_certificate:
  assumes "\<And>t a. keeps I (publish_challenge d t a)" and "\<And>p t. keeps I (write_file env p t)" and "keeps I (forget_challenge d)"
  shows "keeps I (order_certificate env mgr d skip)"
  unfolding order_certificate_def poll_order_status_util_valid_def
  by (intro keeps_intros assms create_order handle_http_01_challenge poll_order finalize_order fetch_certificate)

lemma get_or_create_cert:
  assumes "\<And>t a. keeps I (publish_challenge d t a)" and "\<And>p t. keeps I (write_file env p t)" and "keeps I (forget_challenge d)"
  shows "keeps I (get_or_create_cert env mgr d)"
proof -
  have "keeps I (case st of KeepUsing c \<Rightarrow> return c | NothingStored \<Rightarrow> order_certificate env mgr d False
      | Renew skip_validation \<Rightarrow> order_certificate env mgr d skip_validation)" for st
    using order_certificate [OF assms] by (cases st) (simp_all add: keeps_intros)
  then show ?thesis
    unfolding get_or_create_cert_def [abs_def] by (intro keeps_intros)
qed

end

locale log_free =
  fixes I :: "AcmeState \<Rightarrow> bool" and env :: "('c, 'k) acme_env"
  assumes log: "I (s\<lparr> ac_log := l \<rparr>) = I s"
begin

lemma http: "keeps I (http env c)"
  by (auto simp: keeps_def http_def Let_def try_sum_def return_def bail_def log split: sum.splits)

lemma fetch_nonce: "keeps I (fetch_nonce env u)"
  unfolding fetch_nonce_def by (intro keeps_intros http)

lemma register_acme_account: "keeps I (register_acme_account env e d k)"
  unfolding register_acme_account_def by (intro keeps_intros http fetch_nonce)

lemma fetch_directory: "keeps I (fetch_directory env u)"
  unfolding fetch_directory_def by (intro keeps_intros http)

lemma LECertManager_new:
  assumes "\<And>p t. keeps I (write_file env p t)"
  shows "keeps I (LECertManager_new env e)"
  unfolding LECertManager_new_def [abs_def] account_key_def [abs_def] account_url_for_def [abs_def]
  by (intro keeps_intros assms fetch_directory register_acme_account)

end

sublocale log_free \<subseteq> call_steps I env mgr for mgr
  by unfold_locales
    (unfold signed_post_def finalize_order_def, (intro keeps_intros http fetch_nonce)+)

section \<open>A challenge that failed\<close>

definition tokens_at :: "string \<Rightarrow> string option \<Rightarrow> AcmeState \<Rightarrow> bool" where
  "tokens_at d t s \<longleftrightarrow> ac_tokens s d = t"

interpretation tokens: log_free "tokens_at d t" env for d t env
  by unfold_locales (simp add: tokens_at_def)

lemma tokens_at_write_file: "keeps (tokens_at d t) (write_file env p x)"
  by (auto simp: keeps_def write_file_def tokens_at_def)

lemma other_tokens_kept:
  assumes "get_or_create_cert env mgr d s = (r, s')" and "d' \<noteq> d"
  shows "ac_tokens s' d' = ac_tokens s d'"
proof -
  have "keeps (tokens_at d' (ac_tokens s d')) (get_or_create_cert env mgr d)"
    using assms(2)
    by (intro tokens.get_or_create_cert tokens_at_write_file)
      (auto simp: keeps_def tokens_at_def publish_challenge_def forget_challenge_def split: option.splits)
  from keepsD [OF this _ assms(1)] show ?thesis by (simp add: tokens_at_def)
qed

definition stuck :: "string \<Rightarrow> ('c, 'k) Worker \<Rightarrow> bool" where
  "stuck d w \<longleftrightarrow> ac_tokens (wk_acme w) d \<noteq> None \<and> lets_encrypt_signed_certs (wk_resolver w) d = None"

lemma get_lets_encrypt_none:
  "get_lets_encrypt_signed_cert_from_mem_cache lib x r = (c, r') \<Longrightarrow> lets_encrypt_signed_certs r d = None \<Longrightarrow>
     lets_encrypt_signed_certs r' d = None"
  by (cases rule: get_lets_encrypt_cases [of lib x r]) auto

lemma work_on_stuck: "work_on env mgr ds w = Some w' \<Longrightarrow> stuck d w \<Longrightarrow> stuck d w'"
proof (induction ds arbitrary: w)
  case (Cons x ds)
  obtain found r where f: "get_lets_encrypt_signed_cert_from_mem_cache (ae_lib env) x (wk_resolver w) = (found, r)"
    by (cases "get_lets_encrypt_signed_cert_from_mem_cache (ae_lib env) x (wk_resolver w)")
  obtain res s where g: "get_or_create_cert env mgr x (wk_acme w) = (res, s)"
    by (cases "get_or_create_cert env mgr x (wk_acme w)")
  note r = get_lets_encrypt_none [OF f, of d]
  show ?case
  proof (cases "found = None")
    case False
    with Cons f r show ?thesis by (simp add: stuck_def Let_def)
  next
    case True
    show ?thesis
    proof (cases "x = d")
      case True
      with Cons.prems(2) g have "res = Inl (Bail ''Challenge timed out'')" "s = wk_acme w"
        by (auto simp: stuck_def get_or_create_cert_def bail_def)
      with Cons f g r \<open>found = None\<close> show ?thesis by (simp add: stuck_def Let_def)
    next
      case False
      then have "ac_tokens s d = ac_tokens (wk_acme w) d" using other_tokens_kept [OF g] by simp
      with Cons f g r \<open>found = None\<close> False show ?thesis
        by (auto simp: stuck_def Let_def add_lets_encrypt_def split: sum.splits failure.splits)
    qed
  qed
qed simp

fun worker_turns :: "(('c, 'k) acme_env \<times> OddBoxV3Config) list \<Rightarrow> ('c, 'k) Worker \<Rightarrow> ('c, 'k) Worker run" where
  "worker_turns [] w = Some w"
| "worker_turns ((env, cfg) # ts) w = Option.bind (worker_turn env cfg w) (worker_turns ts)"

lemma worker_turn_stuck:
  assumes "worker_turn env cfg w = Some w'" and "stuck d w"
  shows "stuck d w'"
proof (cases "cfg_lets_encrypt_account_email cfg")
  case None
  with assms show ?thesis by (auto simp: worker_turn_def stuck_def)
next
  case (Some mail)
  obtain mgr s where m: "(case wk_manager w of Some m \<Rightarrow> (Inr m, wk_acme w) | None \<Rightarrow> LECertManager_new env mail (wk_acme w)) = (mgr, s)"
    by (metis surj_pair)
  have "keeps (tokens_at d (ac_tokens (wk_acme w) d)) (LECertManager_new env mail)"
    by (intro tokens.LECertManager_new tokens_at_write_file)
  then have "ac_tokens s d = ac_tokens (wk_acme w) d"
    using m by (auto simp: tokens_at_def dest: keepsD split: option.splits)
  with assms Some m show ?thesis
    by (auto simp: worker_turn_def Let_def stuck_def split: sum.splits failure.splits
        dest!: work_on_stuck [of _ _ _ _ _ d, unfolded stuck_def])
qed

text \<open>C17: Once a challenge is left pending for a name without a certificate in memory, no
  number of turns of the worker, with any configuration and any answers of the authority, ends the
  challenge or gets a certificate: each attempt times out, until the program is restarted.\<close>

theorem failed_challenge_never_retried:
  assumes "ac_tokens (wk_acme w) d \<noteq> None" and "lets_encrypt_signed_certs (wk_resolver w) d = None"
    and "worker_turns turns w = Some w'"
  shows "ac_tokens (wk_acme w') d \<noteq> None \<and> lets_encrypt_signed_certs (wk_resolver w') d = None \<and>
    get_or_create_cert env mgr d (wk_acme w') = (Inl (Bail ''Challenge timed out''), wk_acme w')"
proof -
  have "stuck d w" using assms(1,2) by (simp add: stuck_def)
  with assms(3) have "stuck d w'"
    by (induction turns w rule: worker_turns.induct) (auto simp: bind_eq_Some_conv dest: worker_turn_stuck)
  then show ?thesis by (auto simp: stuck_def get_or_create_cert_def bail_def)
qed

section \<open>Signatures\<close>

text \<open>Each request carries the nonce that the call before it fetched, its own address and the account.\<close>

definition fresh_signature :: "('c, 'k) acme_env \<Rightarrow> LECertManager \<Rightarrow> call list \<Rightarrow> nat \<Rightarrow> string \<Rightarrow> string \<Rightarrow> bool" where
  "fresh_signature env mgr calls i url body \<longleftrightarrow>
     (\<exists>a nonce payload. 0 < i \<and> calls ! (i - 1) = HEAD (new_nonce (directory mgr)) \<and>
        ae_net env (take i calls) = Inr a \<and> an_headers a ''replay-nonce'' = Some (Some nonce) \<and>
        sign_request env (acc_certified_key mgr) payload nonce url (account_url mgr) = Inr body)"

definition posts_signed :: "('c, 'k) acme_env \<Rightarrow> LECertManager \<Rightarrow> AcmeState \<Rightarrow> bool" where
  "posts_signed env mgr s \<longleftrightarrow>
     (\<forall>i url body. i < length (ac_log s) \<longrightarrow> ac_log s ! i = POST url body \<longrightarrow> fresh_signature env mgr (ac_log s) i url body)"

lemma fresh_signature_append:
  assumes "i \<le> length l"
  shows "fresh_signature env mgr (l @ m) i u b = fresh_signature env mgr l i u b"
proof -
  have "(l @ m) ! (i - 1) = l ! (i - 1)" if "0 < i"
    using that assms by (intro nth_append_left) linarith
  with assms show ?thesis by (auto simp: fresh_signature_def)
qed

lemma posts_signed_snoc:
  assumes "posts_signed env mgr s" and "ac_log s' = ac_log s @ [c]"
    and "\<And>u b. c = POST u b \<Longrightarrow> fresh_signature env mgr (ac_log s) (length (ac_log s)) u b"
  shows "posts_signed env mgr s'"
  using assms by (auto simp: posts_signed_def fresh_signature_append nth_append less_Suc_eq)

lemma http_state: "http env c s = (case ae_net env (ac_log s @ [c]) of Inr a \<Rightarrow> (Inr a, s\<lparr> ac_log := ac_log s @ [c] \<rparr>)
    | Inl e \<Rightarrow> (Inl (Bail e), s\<lparr> ac_log := ac_log s @ [c] \<rparr>))"
  by (simp add: http_def Let_def try_sum_def return_def bail_def split: sum.splits)

lemma fetch_nonce_state:
  assumes "fetch_nonce env u s = (r, s')"
  shows "s' = s\<lparr> ac_log := ac_log s @ [HEAD u] \<rparr>"
    and "r = Inr nonce \<Longrightarrow> \<exists>a. ae_net env (ac_log s @ [HEAD u]) = Inr a \<and> an_headers a ''replay-nonce'' = Some (Some nonce)"
  using assms
  by (auto simp: fetch_nonce_def and_then_def http_state header_text_def ok_or_def return_def bail_def
      split: sum.splits option.splits)

lemma posts_signed_nonce: "keeps (posts_signed env mgr) (fetch_nonce env u)"
  unfolding keeps_def
proof (intro allI impI)
  fix s
  assume p: "posts_signed env mgr s"
  obtain r t where t: "fetch_nonce env u s = (r, t)" by (cases "fetch_nonce env u s")
  show "posts_signed env mgr (snd (fetch_nonce env u s))"
    by (rule posts_signed_snoc [OF p, where c = "HEAD u"]) (simp_all add: t fetch_nonce_state(1) [OF t])
qed

lemma posts_signed_post:
  assumes "posts_signed env mgr s" and "fetch_nonce env (new_nonce (directory mgr)) s = (Inr nonce, t)"
    and "sign_request env (acc_certified_key mgr) payload nonce url (account_url mgr) = Inr body"
  shows "posts_signed env mgr (snd (http env (POST url body) t))"
proof -
  obtain a where l: "ac_log t = ac_log s @ [HEAD (new_nonce (directory mgr))]"
    and a: "ae_net env (ac_log t) = Inr a" "an_headers a ''replay-nonce'' = Some (Some nonce)"
    using fetch_nonce_state [OF assms(2)] by auto
  have "posts_signed env mgr t" using keepsD [OF posts_signed_nonce assms(1,2)] .
  moreover have "ac_log (snd (http env (POST url body) t)) = ac_log t @ [POST url body]"
    by (simp add: http_state split: sum.splits)
  moreover have "fresh_signature env mgr (ac_log t) (length (ac_log t)) url body"
    unfolding fresh_signature_def using a assms(3) l by (intro exI [of _ a] exI [of _ nonce] exI [of _ payload]) simp
  ultimately show ?thesis by (auto intro: posts_signed_snoc)
qed

lemma posts_signed_after_nonce:
  assumes "\<And>s nonce t. posts_signed env mgr s \<Longrightarrow> fetch_nonce env (new_nonce (directory mgr)) s = (Inr nonce, t) \<Longrightarrow>
      posts_signed env mgr t \<Longrightarrow> posts_signed env mgr (snd (f nonce t))"
  shows "keeps (posts_signed env mgr) (and_then (fetch_nonce env (new_nonce (directory mgr))) f)"
  unfolding keeps_def
proof (intro allI impI)
  fix s
  assume p: "posts_signed env mgr s"
  obtain r t where t: "fetch_nonce env (new_nonce (directory mgr)) s = (r, t)"
    by (cases "fetch_nonce env (new_nonce (directory mgr)) s")
  have "posts_signed env mgr t" using keepsD [OF posts_signed_nonce p t] .
  with p t assms show "posts_signed env mgr (snd (and_then (fetch_nonce env (new_nonce (directory mgr))) f s))"
    by (cases r) (auto simp: and_then_def)
qed

lemma try_sum_simps [simp]: "try_sum (Inr v) s = (Inr v, s)" "try_sum (Inl e) s = (Inl (Bail e), s)"
  by (simp_all add: try_sum_def return_def bail_def)

lemma posts_signed_then:
  assumes "posts_signed env mgr s" and "fetch_nonce env (new_nonce (directory mgr)) s = (Inr nonce, t)"
    and "posts_signed env mgr t" and "\<And>a. keeps (posts_signed env mgr) (g a)"
  shows "posts_signed env mgr (snd (and_then
      (try_sum (sign_request env (acc_certified_key mgr) payload nonce url (account_url mgr)))
      (\<lambda>body. and_then (http env (POST url body)) g) t))"
proof (cases "sign_request env (acc_certified_key mgr) payload nonce url (account_url mgr)")
  case (Inl e)
  with assms(3) show ?thesis by (simp add: and_then_def)
next
  case (Inr body)
  obtain r t' where h: "http env (POST url body) t = (r, t')" by (cases "http env (POST url body) t")
  from posts_signed_post [OF assms(1,2) Inr] h have "posts_signed env mgr t'" by simp
  with assms(4) Inr h show ?thesis by (cases r) (auto simp: and_then_def keeps_def)
qed

lemma and_then_return: "and_then m return = m"
  by (auto simp: fun_eq_iff and_then_def return_def split: prod.splits sum.splits)

interpretation posts: call_steps "posts_signed env mgr" env mgr for env mgr
proof
  show "keeps (posts_signed env mgr) (http env (GET u))" for u
    by (auto simp: keeps_def http_state split: sum.splits elim: posts_signed_snoc)
  show "keeps (posts_signed env mgr) (signed_post env mgr p u)" for p u
    unfolding signed_post_def
    by (rule posts_signed_after_nonce)
      (use posts_signed_then [where g = return] in \<open>simp add: and_then_return keeps_intros\<close>)
  show "keeps (posts_signed env mgr) (finalize_order env mgr u d)" for u d
    unfolding finalize_order_def
  proof (rule posts_signed_after_nonce)
    fix s nonce t
    assume n: "posts_signed env mgr s" "fetch_nonce env (new_nonce (directory mgr)) s = (Inr nonce, t)" "posts_signed env mgr t"
    have then_post: "posts_signed env mgr (snd (and_then
        (try_sum (sign_request env (acc_certified_key mgr) payload nonce u (account_url mgr)))
        (\<lambda>body. and_then (http env (POST u body)) (\<lambda>a. and_then (try_sum (an_text a))
          (\<lambda>x. if an_success a then return key else bail x))) t))" for payload and key :: string
      by (intro posts_signed_then [OF n] keeps_intros)
    show "posts_signed env mgr (snd (and_then (try_sum (ae_csr env d)) (\<lambda>(csr, key).
        and_then (try_sum (sign_request env (acc_certified_key mgr) (Some (JObject [''csr'' \<mapsto> JString csr])) nonce u (account_url mgr)))
          (\<lambda>body. and_then (http env (POST u body)) (\<lambda>a. and_then (try_sum (an_text a))
             (\<lambda>t. if an_success a then return key else bail t)))) t))"
    proof (cases "ae_csr env d")
      case (Inl e)
      with n show ?thesis by (simp add: and_then_def)
    next
      case (Inr p)
      obtain csr key where "p = (csr, key)" by (cases p)
      with Inr have "and_then (try_sum (ae_csr env d)) f t = f (csr, key) t" for f :: "string \<times> string \<Rightarrow> string acme"
        by (simp add: and_then_def)
      then show ?thesis using then_post by simp
    qed
  qed
qed

text \<open>C18: Whatever the authority answers, every POST of an order carries a signature, made
  with the account key over its own address and the nonce that was fetched by the call just before
  it.\<close>

theorem requests_freshly_signed:
  assumes "posts_signed env mgr s" and "get_or_create_cert env mgr d s = (r, s')"
  shows "posts_signed env mgr s'"
proof -
  have "keeps (posts_signed env mgr) (get_or_create_cert env mgr d)"
    by (intro posts.get_or_create_cert)
      (auto simp: keeps_def posts_signed_def publish_challenge_def write_file_def forget_challenge_def split: option.splits)
  from keepsD [OF this assms] show ?thesis .
qed

section \<open>What an order leaves\<close>

lemma and_then_cases:
  assumes "and_then m f s = (r, s')"
  obtains (failed) e where "m s = (Inl e, s')" "r = Inl e"
  | (passed) x t where "m s = (Inr x, t)" "f x t = (r, s')"
  using assms by (auto simp: and_then_def split: prod.splits sum.splits)

lemma and_then_Inr:
  assumes "and_then m f s = (Inr y, s')"
  obtains x t where "m s = (Inr x, t)" "f x t = (Inr y, s')"
  using assms by (cases rule: and_then_cases) auto

lemma http_calls:
  "http env c s = (r, s') \<Longrightarrow> ac_log s' = ac_log s @ [c] \<and> (\<forall>a. r = Inr a \<longrightarrow> ae_net env (ac_log s') = Inr a)"
  by (auto simp: http_state split: sum.splits)

lemma signed_post_calls:
  assumes "signed_post env mgr p u s = (r, s')"
  shows "\<exists>l. ac_log s' = ac_log s @ l \<and> length l \<le> 2 \<and> (\<forall>a. r = Inr a \<longrightarrow> ae_net env (ac_log s') = Inr a)"
proof (cases rule: and_then_cases [OF assms [unfolded signed_post_def]])
  case (1 e)
  then show ?thesis using fetch_nonce_state(1) [OF 1(1)] by simp
next
  case (2 nonce t)
  have t: "ac_log t = ac_log s @ [HEAD (new_nonce (directory mgr))]"
    using fetch_nonce_state(1) [OF 2(1)] by simp
  from 2(2) have "(s' = t \<and> (\<exists>e. r = Inl e)) \<or> (\<exists>body. http env (POST u body) t = (r, s'))"
    by (cases rule: and_then_cases) (auto simp: try_sum_def return_def bail_def split: sum.splits)
  with t show ?thesis by (auto dest: http_calls)
qed

lemma poll_order_calls:
  "poll_order n env mgr u s = (r, s') \<Longrightarrow>
     \<exists>l. ac_log s' = ac_log s @ l \<and> length l \<le> 2 * n \<and>
       (r = Inr () \<longrightarrow> (\<exists>a body. ae_net env (ac_log s') = Inr a \<and> an_json a = Inr body \<and> jfield ''status'' body = JString ''valid''))"
proof (induction n arbitrary: s)
  case (Suc n)
  from Suc.prems [unfolded poll_order.simps] show ?case
  proof (cases rule: and_then_cases)
    case (failed e)
    with signed_post_calls [OF failed(1)] show ?thesis by auto
  next
    case (passed a t)
    from signed_post_calls [OF passed(1)] obtain l where l: "ac_log t = ac_log s @ l" "length l \<le> 2" "ae_net env (ac_log t) = Inr a"
      by auto
    show ?thesis
    proof (cases "an_json a")
      case (Inl e)
      with passed(2) l show ?thesis by (auto simp: and_then_def)
    next
      case (Inr body)
      show ?thesis
      proof (cases "jfield ''status'' body = JString ''valid''")
        case True
        with passed(2) l Inr show ?thesis by (auto simp: and_then_def return_def)
      next
        case False
        with passed(2) Inr have "poll_order n env mgr u t = (r, s')" by (simp add: and_then_def)
        from Suc.IH [OF this] l show ?thesis by auto
      qed
    qed
  qed
qed (auto simp: bail_def)

text \<open>Polling makes at most six requests, each with a nonce, and succeeds only if the last
  answer has the status valid.\<close>

theorem polling_is_bounded:
  assumes "poll_order_status_util_valid env mgr u s = (r, s')"
  shows "\<exists>l. ac_log s' = ac_log s @ l \<and> length l \<le> 12 \<and>
    (r = Inr () \<longrightarrow> (\<exists>a body. ae_net env (ac_log s') = Inr a \<and> an_json a = Inr body \<and> jfield ''status'' body = JString ''valid''))"
  using poll_order_calls [OF assms [unfolded poll_order_status_util_valid_def]] by simp

lemma le_files_differ [simp]: "le_cert_file d \<noteq> le_key_file d'" "le_key_file d' \<noteq> le_cert_file d"
proof -
  have "take 4 (rev (le_cert_file d)) \<noteq> take 4 (rev (le_key_file d'))"
    by (simp add: le_cert_file_def le_key_file_def)
  then show "le_cert_file d \<noteq> le_key_file d'" "le_key_file d' \<noteq> le_cert_file d" by auto
qed

lemma order_certificate_saved:
  assumes "order_certificate env mgr d skip s = (Inr c, s')"
  shows "\<exists>crt key. ac_files s' (le_cert_file d) = Some (Some crt) \<and> ac_files s' (le_key_file d) = Some (Some key) \<and>
    certified_key_from env crt key = Inr c \<and> ac_tokens s' d = None"
  using assms
    unfolding order_certificate_def
    by (auto elim!: and_then_Inr split: prod.splits)
      (auto simp: write_file_def forget_challenge_def try_sum_def return_def bail_def
        split: if_splits sum.splits option.splits)

lemma stored_certificate_loaded:
  assumes "ac_files s (le_cert_file d) = Some (Some crt)" and "ac_files s (le_key_file d) = Some (Some key)"
    and "certified_key_from env crt key = Inr c"
  shows "stored_certificate env d s =
    (case ck_chain c of
       [] \<Rightarrow> (Inl Panic, s)
     | e # _ \<Rightarrow>
         (case cl_validity (ae_lib env) e of
            Unreadable \<Rightarrow> (Inl Panic, s)
          | Expired \<Rightarrow> (Inr (Renew False), s)
          | DaysLeft days \<Rightarrow> (Inr (if days < 89 then Renew True else KeepUsing c), s)))"
  using assms
  by (auto simp: stored_certificate_def and_then_def read_file_def read_text_def ok_or_def return_def
      split: list.splits validity.splits)

text \<open>A certificate on disk with 89 days or more left is used without a call to the authority;
  one with fewer is ordered again without a challenge, an expired one with a challenge, and one that
  cannot be read panics.\<close>

theorem stored_certificate_decides:
  assumes "ac_tokens s d = None" and "cl_create_dir_all (ae_lib env) (le_cache_base @ ''/'' @ d)"
    and "ac_files s (le_cert_file d) = Some (Some crt)" and "ac_files s (le_key_file d) = Some (Some key)"
    and "certified_key_from env crt key = Inr c"
  shows "get_or_create_cert env mgr d s =
    (case ck_chain c of
       [] \<Rightarrow> (Inl Panic, s)
     | e # _ \<Rightarrow>
         (case cl_validity (ae_lib env) e of
            Unreadable \<Rightarrow> (Inl Panic, s)
          | Expired \<Rightarrow> order_certificate env mgr d False s
          | DaysLeft days \<Rightarrow> if days < 89 then order_certificate env mgr d True s else (Inr c, s)))"
  using assms(1,2) stored_certificate_loaded [OF assms(3-5)]
  by (auto simp: get_or_create_cert_def and_then_def return_def split: list.splits validity.splits)

lemma stored_certificate_log:
  assumes "stored_certificate env d s = (r, s')"
  shows "s' = s"
  using assms keepsD [OF keeps_stored_certificate, where I = "\<lambda>t. t = s", OF refl] by metis

text \<open>A certificate that was just issued is on disk, its challenge is forgotten, and for as
  long as it has 89 days left the same certificate is found there without a call to the authority.\<close>

theorem issued_certificate_kept:
  assumes "get_or_create_cert env mgr d s = (Inr c, s')" and "ac_log s' \<noteq> ac_log s"
    and "ck_chain c = e # es" and "cl_validity (ae_lib env') e = DaysLeft days" and "89 \<le> days"
    and "ae_lib env' = (ae_lib env)\<lparr> cl_validity := v \<rparr>"
  shows "ac_tokens s' d = None \<and> get_or_create_cert env' mgr' d s' = (Inr c, s')"
proof -
  have n: "ac_tokens s d = None" and dir: "cl_create_dir_all (ae_lib env) (le_cache_base @ ''/'' @ d)"
    using assms(1) by (auto simp: get_or_create_cert_def bail_def split: if_splits)
  with assms(1) have "and_then (stored_certificate env d) (\<lambda>st.
        (case st of
           KeepUsing c \<Rightarrow> return c
         | NothingStored \<Rightarrow> order_certificate env mgr d False
         | Renew skip_validation \<Rightarrow> order_certificate env mgr d skip_validation)) s = (Inr c, s')"
    by (simp add: get_or_create_cert_def)
  then obtain st where st: "(case st of
           KeepUsing c \<Rightarrow> return c
         | NothingStored \<Rightarrow> order_certificate env mgr d False
         | Renew skip_validation \<Rightarrow> order_certificate env mgr d skip_validation) s = (Inr c, s')"
    by (elim and_then_Inr) (auto dest!: stored_certificate_log)
  with assms(2) obtain skip where "order_certificate env mgr d skip s = (Inr c, s')"
    by (cases st) (auto simp: return_def)
  from order_certificate_saved [OF this] obtain crt key where o: "ac_files s' (le_cert_file d) = Some (Some crt)"
      "ac_files s' (le_key_file d) = Some (Some key)" "certified_key_from env crt key = Inr c" "ac_tokens s' d = None"
    by blast
  have "certified_key_from env' crt key = Inr c"
    using o(3) unfolding certified_key_from_def extract_priv_key_from_pem_def assms(6)
    by (auto split: sum.splits if_splits)
  moreover have "cl_create_dir_all (ae_lib env') (le_cache_base @ ''/'' @ d)"
    using dir assms(6) by simp
  ultimately show ?thesis
    using stored_certificate_decides [of s' d env', OF o(4) _ o(1,2)] assms(3-5) o(4) by simp
qed

section \<open>The answer to a challenge\<close>

definition challenge_published :: "('c, 'k) acme_env \<Rightarrow> LECertManager \<Rightarrow> string \<Rightarrow> AcmeState \<Rightarrow> bool" where
  "challenge_published env mgr d s \<longleftrightarrow>
     (\<exists>token auth. ac_tokens s d = Some token \<and> ac_challenges s token = Some auth \<and>
        generate_key_authorization env mgr token = Inr auth)"

interpretation published: log_free "challenge_published env mgr d" env' for env mgr d env'
  by unfold_locales (simp add: challenge_published_def)

lemma triggered_when_published:
  assumes "handle_http_01_challenge env mgr u d s = (r, s')"
  shows "(\<exists>c. ac_log s' = ac_log s @ [GET c]) \<or> challenge_published env mgr d s'"
proof -
  have published: "challenge_published env mgr d t'"
    if "generate_key_authorization env mgr token = Inr auth" and "offer_challenge env mgr d token auth ch t = (r, t')"
    for token auth ch t t'
  proof -
    let ?rest = "and_then (ok_or ''Challenge URL not found'' (as_str (jfield ''url'' ch))) (trigger_challenge env mgr)"
    have "keeps (challenge_published env mgr d) ?rest"
      by (intro keeps_intros published.trigger_challenge)
    moreover have "challenge_published env mgr d (snd (publish_challenge d token auth t))"
      using that(1) by (simp add: challenge_published_def publish_challenge_def)
    moreover have "?rest (snd (publish_challenge d token auth t)) = (r, t')"
      using that(2) by (simp add: offer_challenge_def and_then_def [of "publish_challenge d token auth"] publish_challenge_def)
    ultimately show ?thesis using keepsD by blast
  qed
  from assms show ?thesis
    unfolding handle_http_01_challenge_def
    by (auto simp: http_state try_sum_def ok_or_def return_def bail_def split: sum.splits option.splits if_splits
        elim!: and_then_cases)
      (use published in blast)
qed

text \<open>When the authority has been asked to validate a challenge for a name, the HTTP service
  answers the challenge request for that name with the key authorization of a token.\<close>

theorem challenge_answered:
  assumes "handle_http_01_challenge env mgr u d s = (r, s')" and "POST v b \<in> set (drop (length (ac_log s)) (ac_log s'))"
    and "header_get ''host'' (hq_headers req) = Some hv" and "hl_to_str (he_lib henv) hv = Some h" and "before_colon h = d"
    and "he_challenge_tokens henv = ac_tokens s'" and "he_challenges henv = ac_challenges s'"
  shows "\<exists>token auth. generate_key_authorization env mgr token = Inr auth \<and>
    acme_answer henv req = Inr (new_response (Text auth))"
proof -
  have "challenge_published env mgr d s'"
    using triggered_when_published [OF assms(1)] assms(2) by auto
  then obtain token auth where "ac_tokens s' d = Some token" "ac_challenges s' token = Some auth"
    "generate_key_authorization env mgr token = Inr auth"
    by (auto simp: challenge_published_def)
  with assms(3-7) show ?thesis by (intro exI [of _ token] exI [of _ auth]) (simp add: acme_answer_def)
qed

section \<open>The names the worker looks after\<close>

lemma work_on_other:
  assumes "work_on env mgr ds w = Some w'" and "d \<notin> set ds"
  shows "ac_tokens (wk_acme w') d = ac_tokens (wk_acme w) d \<and>
    lets_encrypt_signed_certs (wk_resolver w') d = lets_encrypt_signed_certs (wk_resolver w) d"
  using assms
proof (induction ds arbitrary: w)
  case (Cons x ds)
  obtain found r where f: "get_lets_encrypt_signed_cert_from_mem_cache (ae_lib env) x (wk_resolver w) = (found, r)"
    by (cases "get_lets_encrypt_signed_cert_from_mem_cache (ae_lib env) x (wk_resolver w)")
  obtain res s where g: "get_or_create_cert env mgr x (wk_acme w) = (res, s)"
    by (cases "get_or_create_cert env mgr x (wk_acme w)")
  have "lets_encrypt_signed_certs r d = lets_encrypt_signed_certs (wk_resolver w) d"
    using f Cons.prems(2) by (cases rule: get_lets_encrypt_cases [of "ae_lib env" x "wk_resolver w"]) auto
  moreover have "ac_tokens s d = ac_tokens (wk_acme w) d"
    using other_tokens_kept [OF g] Cons.prems(2) by simp
  ultimately show ?case
    using Cons f g
    by (auto simp: Let_def add_lets_encrypt_def split: if_splits sum.splits failure.splits)
qed simp

lemma LECertManager_new_tokens:
  assumes "LECertManager_new env e s = (r, s')"
  shows "ac_tokens s' d = ac_tokens s d"
proof -
  have "keeps (tokens_at d (ac_tokens s d)) (LECertManager_new env e)"
    by (intro tokens.LECertManager_new tokens_at_write_file)
  from keepsD [OF this _ assms] show ?thesis by (simp add: tokens_at_def)
qed

text \<open>A turn of the worker leaves challenges and certificates alone for every name that is
  local or for which no site has Let's Encrypt enabled.\<close>

theorem worker_serves_enabled_sites:
  assumes "worker_turn env cfg w = Some w'"
    and "local_name d \<or> d \<notin> set (le_enabled_sites cfg)"
  shows "ac_tokens (wk_acme w') d = ac_tokens (wk_acme w) d \<and>
    lets_encrypt_signed_certs (wk_resolver w') d = lets_encrypt_signed_certs (wk_resolver w) d"
proof (cases "cfg_lets_encrypt_account_email cfg")
  case None
  with assms(1) show ?thesis by (auto simp: worker_turn_def)
next
  case (Some mail)
  obtain mgr s where m: "(case wk_manager w of Some m \<Rightarrow> (Inr m, wk_acme w) | None \<Rightarrow> LECertManager_new env mail (wk_acme w)) = (mgr, s)"
    by (metis surj_pair)
  have "ac_tokens s d = ac_tokens (wk_acme w) d"
    using m by (auto dest: LECertManager_new_tokens split: option.splits)
  moreover have "d \<notin> set (le_sites cfg)" using assms(2) by (auto simp: le_sites_def)
  ultimately show ?thesis
    using assms(1) Some m
    by (auto simp: worker_turn_def Let_def split: sum.splits failure.splits dest!: work_on_other)
qed

section \<open>Examples\<close>

definition body_sample :: "string \<Rightarrow> json" where
  "body_sample status = JObject
     [''finalize'' \<mapsto> JString ''f'', ''authorizations'' \<mapsto> JArray [JString ''a''], ''url'' \<mapsto> JString ''c'',
      ''challenges'' \<mapsto> JArray [JObject [''type'' \<mapsto> JString ''http-01'', ''token'' \<mapsto> JString ''t'', ''url'' \<mapsto> JString ''c'']],
      ''status'' \<mapsto> JString status, ''certificate'' \<mapsto> JString ''x'']"

text \<open>An authority that always gives the same answer: each order is at once valid, or never.\<close>

definition acme_sample :: "string \<Rightarrow> int \<Rightarrow> (string \<times> int, nat) acme_env" where
  "acme_sample status today =
     \<lparr> ae_lib = cert_lib_sample today,
       ae_net = (\<lambda>_. Inr \<lparr> an_success = True, an_headers = [''replay-nonce'' \<mapsto> Some ''n'', ''Location'' \<mapsto> Some ''o''],
         an_json = Inr (body_sample status), an_text = Inr ''crt'' \<rparr>),
       ae_generate = Inr ''acc'', ae_from_pem = (\<lambda>_. True), ae_directory = (\<lambda>_. Some \<lparr> new_nonce = ''nn'', new_account = ''na'', new_order = ''no'' \<rparr>),
       ae_csr = (\<lambda>d. Inr (''csr'', ''key'')), ae_jwk = (\<lambda>_. Inr JNull), ae_sha256 = (\<lambda>s. s), ae_es256 = (\<lambda>_ _. Inr ''sig''),
       ae_base64 = (\<lambda>s. s), ae_json_text = (\<lambda>j. ''json'') \<rparr>"

definition manager_sample :: LECertManager where
  "manager_sample =
     \<lparr> acc_certified_key = ''acc'', account_url = Some ''u'',
       directory = \<lparr> new_nonce = ''nn'', new_account = ''na'', new_order = ''no'' \<rparr>, needs_to_register = False \<rparr>"

definition acme_start :: AcmeState where
  "acme_start = \<lparr> ac_challenges = Map.empty, ac_tokens = Map.empty, ac_files = Map.empty, ac_log = [] \<rparr>"

definition worker_sample :: "AcmeState \<Rightarrow> (string \<times> int, nat) Worker" where
  "worker_sample s =
     \<lparr> wk_resolver = DynamicCertResolver_new True, wk_manager = Some manager_sample, wk_generated = 0, wk_status = Active, wk_acme = s \<rparr>"

lemmas acme_samples = body_sample_def acme_sample_def manager_sample_def acme_start_def worker_sample_def

lemmas acme_steps = and_then_def http_state header_text_def ok_or_def return_def bail_def fetch_nonce_def signed_post_def
  sign_request_def jfield_def get_or_create_cert_def stored_certificate_def order_certificate_def create_order_def
  handle_http_01_challenge_def offer_challenge_def generate_key_authorization_def publish_challenge_def trigger_challenge_def
  poll_order_status_util_valid_def finalize_order_def fetch_certificate_def write_file_def forget_challenge_def
  certified_key_from_def extract_priv_key_from_pem_def single_key_def

lemma order_succeeds:
  "\<exists>s'. get_or_create_cert (acme_sample ''valid'' 0) manager_sample ''a.dev'' acme_start =
     (Inr \<lparr> ck_chain = [(''crt'', 100)], ck_key = 7 \<rparr>, s') \<and> ac_log s' \<noteq> []"
  by (simp add: acme_steps acme_samples cert_lib_sample_def eval_nat_numeral)

lemma order_fails:
  "\<exists>s'. get_or_create_cert (acme_sample ''pending'' 0) manager_sample ''a.dev'' acme_start =
     (Inl (Bail ''Failed to get certificate after 10 attempts''), s') \<and> ac_tokens s' ''a.dev'' = Some ''t''"
  by (simp add: acme_steps acme_samples cert_lib_sample_def eval_nat_numeral)

definition le_config :: OddBoxV3Config where
  "le_config = (config_sample (Some [(remote_sample [])\<lparr> rs_host_name := ''a.dev'', rs_enable_lets_encrypt := Some True \<rparr>]) None)
     \<lparr> cfg_lets_encrypt_account_email := Some ''me@a.dev'' \<rparr>"

lemma failed_challenge_never_retried_witness:
  "\<exists>s' w'. get_or_create_cert (acme_sample ''pending'' 0) manager_sample ''a.dev'' acme_start =
       (Inl (Bail ''Failed to get certificate after 10 attempts''), s') \<and>
     worker_turns [(acme_sample ''valid'' 0, le_config)] (worker_sample s') = Some w' \<and>
     get_or_create_cert (acme_sample ''valid'' 0) manager_sample ''a.dev'' (wk_acme w') = (Inl (Bail ''Challenge timed out''), wk_acme w')"
proof -
  obtain s' where s: "get_or_create_cert (acme_sample ''pending'' 0) manager_sample ''a.dev'' acme_start =
      (Inl (Bail ''Failed to get certificate after 10 attempts''), s')" "ac_tokens s' ''a.dev'' = Some ''t''"
    using order_fails by blast
  have n: "le_sites le_config = [''a.dev'']"
    by (simp add: le_sites_def le_enabled_sites_def le_config_def config_sample_def remote_sample_def local_name_def ends_with_def)
  have g: "get_or_create_cert (acme_sample ''valid'' 0) manager_sample ''a.dev'' s' = (Inl (Bail ''Challenge timed out''), s')"
    using s(2) by (simp add: get_or_create_cert_def bail_def)
  have m: "cfg_lets_encrypt_account_email le_config = Some ''me@a.dev''" by (simp add: le_config_def)
  obtain w' where w: "worker_turns [(acme_sample ''valid'' 0, le_config)] (worker_sample s') = Some w'"
    using g by (simp add: worker_turn_def worker_sample_def DynamicCertResolver_new_def m n
        get_lets_encrypt_signed_cert_from_mem_cache_def)
  from failed_challenge_never_retried [OF _ _ w, of "''a.dev''"] s w show ?thesis
    by (auto simp: worker_sample_def DynamicCertResolver_new_def)
qed

lemma requests_freshly_signed_witness:
  "\<exists>r s'. get_or_create_cert (acme_sample ''valid'' 0) manager_sample ''a.dev'' acme_start = (r, s') \<and> ac_log s' \<noteq> [] \<and>
     posts_signed (acme_sample ''valid'' 0) manager_sample s'"
proof -
  obtain r s' where r: "get_or_create_cert (acme_sample ''valid'' 0) manager_sample ''a.dev'' acme_start = (r, s')" "ac_log s' \<noteq> []"
    using order_succeeds by blast
  have "posts_signed (acme_sample ''valid'' 0) manager_sample acme_start"
    by (simp add: posts_signed_def acme_start_def)
  from requests_freshly_signed [OF this r(1)] r show ?thesis by blast
qed

lemma polling_is_bounded_witness:
  "\<exists>r s'. poll_order_status_util_valid (acme_sample ''pending'' 0) manager_sample ''o'' acme_start = (r, s') \<and> length (ac_log s') \<le> 12"
proof -
  obtain r s' where r: "poll_order_status_util_valid (acme_sample ''pending'' 0) manager_sample ''o'' acme_start = (r, s')"
    by (metis surj_pair)
  from polling_is_bounded [OF r] r show ?thesis by (auto simp: acme_start_def)
qed

definition stored_sample :: AcmeState where
  "stored_sample = acme_start\<lparr> ac_files := [le_cert_file ''a.dev'' \<mapsto> Some ''crt'', le_key_file ''a.dev'' \<mapsto> Some ''key''] \<rparr>"

lemma stored_certificate_decides_witness:
  "get_or_create_cert (acme_sample ''valid'' 20) manager_sample ''a.dev'' stored_sample =
     order_certificate (acme_sample ''valid'' 20) manager_sample ''a.dev'' True stored_sample"
  by (subst stored_certificate_decides [where crt = "''crt''" and key = "''key''" and c = "\<lparr> ck_chain = [(''crt'', 100)], ck_key = 7 \<rparr>"])
    (simp_all add: stored_sample_def acme_samples cert_lib_sample_def certified_key_from_def extract_priv_key_from_pem_def single_key_def)

lemma issued_certificate_kept_witness:
  "\<exists>c s'. get_or_create_cert (acme_sample ''valid'' 0) manager_sample ''a.dev'' acme_start = (Inr c, s') \<and>
     get_or_create_cert (acme_sample ''valid'' 5) manager_sample ''a.dev'' s' = (Inr c, s')"
proof -
  obtain s' where s: "get_or_create_cert (acme_sample ''valid'' 0) manager_sample ''a.dev'' acme_start =
      (Inr \<lparr> ck_chain = [(''crt'', 100)], ck_key = 7 \<rparr>, s')" "ac_log s' \<noteq> ac_log acme_start"
    using order_succeeds by (auto simp: acme_start_def)
  from issued_certificate_kept [OF s, where env' = "acme_sample ''valid'' 5" and v = "cl_validity (cert_lib_sample 5)" and days = 95] s
  show ?thesis by (auto simp: acme_sample_def cert_lib_sample_def)
qed

lemma worker_serves_enabled_sites_witness:
  "\<exists>w'. worker_turn (acme_sample ''valid'' 0) le_config (worker_sample (acme_start\<lparr> ac_tokens := [''a.dev'' \<mapsto> ''t'', ''b.dev'' \<mapsto> ''t''] \<rparr>)) = Some w' \<and>
     ac_tokens (wk_acme w') ''b.dev'' = Some ''t''"
proof -
  have m: "cfg_lets_encrypt_account_email le_config = Some ''me@a.dev''" by (simp add: le_config_def)
  have n: "le_sites le_config = [''a.dev'']" and b: "''b.dev'' \<notin> set (le_enabled_sites le_config)"
    by (simp_all add: le_sites_def le_enabled_sites_def le_config_def config_sample_def remote_sample_def local_name_def ends_with_def)
  obtain w' where w: "worker_turn (acme_sample ''valid'' 0) le_config (worker_sample (acme_start\<lparr> ac_tokens := [''a.dev'' \<mapsto> ''t'', ''b.dev'' \<mapsto> ''t''] \<rparr>)) = Some w'"
    by (simp add: worker_turn_def worker_sample_def DynamicCertResolver_new_def get_or_create_cert_def bail_def m n
        get_lets_encrypt_signed_cert_from_mem_cache_def)
  from worker_serves_enabled_sites [OF w, of "''b.dev''"] b w show ?thesis by (simp add: worker_sample_def)
qed

lemma challenge_answered_witness:
  "\<exists>r s' auth. handle_http_01_challenge (acme_sample ''valid'' 0) manager_sample ''a'' ''a.dev'' acme_start = (r, s') \<and>
     acme_answer ((http_env_sample (response_sample 200 Map.empty))\<lparr> he_challenge_tokens := ac_tokens s', he_challenges := ac_challenges s' \<rparr>)
       (request_sample ''/.well-known/acme-challenge/t'' [''host'' \<mapsto> [''a.dev:80'']]) = Inr (new_response (Text auth))"
proof -
  obtain r s' where r: "handle_http_01_challenge (acme_sample ''valid'' 0) manager_sample ''a'' ''a.dev'' acme_start = (r, s')"
      "POST ''c'' ''json'' \<in> set (ac_log s')"
    by (simp add: acme_steps acme_samples)
  have "POST ''c'' ''json'' \<in> set (drop (length (ac_log acme_start)) (ac_log s'))" using r(2) by (simp add: acme_start_def)
  from challenge_answered [OF r(1) this, where req = "request_sample ''/.well-known/acme-challenge/t'' [''host'' \<mapsto> [''a.dev:80'']]"
      and hv = "''a.dev:80''" and h = "''a.dev:80''" and henv = "(http_env_sample (response_sample 200 Map.empty))
        \<lparr> he_challenge_tokens := ac_tokens s', he_challenges := ac_challenges s' \<rparr>"] r(1)
  show ?thesis by (auto simp: header_get_def before_colon_def http_samples)
qed

end
