(* ===== verification/Reload.thy ===== *)
theory Reload
  imports Proc_Host Config_Upgrade Certificates
begin

text \<open>
  Reloading the configuration when its file has changed, \<open>src/configuration/reload.rs\<close>: reading and
  checking it, finding the processes that have changed, waiting for their hosts to leave, the statuses,
  the hosts that are spawned, and the swap. What other tasks do while it waits are functions on the
  shared state; the order in which a map is iterated, the file and the readers of TOML are fields of
  \<open>reload_env\<close>. The log handle is the level it was set to.
\<close>

section \<open>State\<close>

record reload_env =
  re_os :: os
  re_readers :: toml_readers
  re_read_file :: "string \<Rightarrow> string option"
  re_fresh :: "nat \<Rightarrow> nat \<Rightarrow> ProcId"
  re_entries :: "(ProcId \<rightharpoonup> ProcInfo) \<Rightarrow> ProcInfo list"
  re_wait :: "(Supervisor \<Rightarrow> Supervisor) list"

record ('c, 'k) App =
  ap_super :: Supervisor
  ap_hosts :: "FullyResolvedInProcessSiteConfig list"
  ap_log_level :: LogLevel
  ap_resolver :: "('c, 'k) DynamicCertResolver"
  ap_targets :: "string \<rightharpoonup> ReverseTcpProxyTarget"

text \<open>The last two are found after processes have been marked; \<open>LeftUnresolved\<close> names the process.\<close>

datatype reload_error =
    PathNotSet
  | FileError
  | ParseError string
  | Invalid config_error
  | UnresolvedProcesses
  | LeftUnresolved string resolve_error

section \<open>The new configuration\<close>

text \<open>The derived equality of configurations, over the equality that sites have.\<close>

definition sites_eq :: "('a \<Rightarrow> 'a \<Rightarrow> bool) \<Rightarrow> 'a list option \<Rightarrow> 'a list option \<Rightarrow> bool" where
  "sites_eq eq a b = (case (a, b) of (None, None) \<Rightarrow> True | (Some xs, Some ys) \<Rightarrow> list_all2 eq xs ys | _ \<Rightarrow> False)"

definition config_eq :: "OddBoxV3Config \<Rightarrow> OddBoxV3Config \<Rightarrow> bool" where
  "config_eq a b \<longleftrightarrow>
     cfg_path a = cfg_path b \<and> cfg_root_dir a = cfg_root_dir b \<and> cfg_log_level a = cfg_log_level b \<and>
     cfg_alpn a = cfg_alpn b \<and> cfg_port_range_start a = cfg_port_range_start b \<and>
     cfg_default_log_format a = cfg_default_log_format b \<and> cfg_ip a = cfg_ip b \<and>
     cfg_http_port a = cfg_http_port b \<and> cfg_tls_port a = cfg_tls_port b \<and> cfg_auto_start a = cfg_auto_start b \<and>
     cfg_env_vars a = cfg_env_vars b \<and>
     sites_eq remote_eq (cfg_remote_target a) (cfg_remote_target b) \<and>
     sites_eq process_eq (cfg_hosted_process a) (cfg_hosted_process b) \<and>
     cfg_dir_server a = cfg_dir_server b \<and>
     cfg_lets_encrypt_account_email a = cfg_lets_encrypt_account_email b \<and> cfg_odd_box_url a = cfg_odd_box_url b \<and>
     cfg_odd_box_password a = cfg_odd_box_password b \<and>
     cfg_use_loopback_ip_for_procs a = cfg_use_loopback_ip_for_procs b"

text \<open>The file, parsed, upgraded (which never fails), checked and given its path.\<close>

definition load_configuration :: "reload_env \<Rightarrow> ConfigWrapper \<Rightarrow> reload_error + ConfigWrapper" where
  "load_configuration env active =
     (case cfg_path (internal_configuration active) of
        None \<Rightarrow> Inl PathNotSet
      | Some path \<Rightarrow>
          (case re_read_file env path of
             None \<Rightarrow> Inl FileError
           | Some contents \<Rightarrow>
               (case parse_config (re_readers env) contents of
                  Inl e \<Rightarrow> Inl (ParseError e)
                | Inr configuration \<Rightarrow>
                    (case try_upgrade_to_latest_version (re_fresh env) configuration of
                       Inl e \<Rightarrow> Inl (ParseError e)
                     | Inr (c, _, _) \<Rightarrow>
                         (case is_valid c of
                            Inl e \<Rightarrow> Inl (Invalid e)
                          | Inr _ \<Rightarrow>
                              (case canonicalize (re_os env) path of
                                 None \<Rightarrow> Inl FileError
                               | Some full \<Rightarrow>
                                   Inr ((ConfigWrapper_new (c\<lparr> cfg_path := Some full \<rparr>))
                                     \<lparr> internal_version := internal_version active + 1 \<rparr>)))))))"

section \<open>Processes\<close>

text \<open>
  A process of the file beside the running one of the same name: it takes over identity and port, and is
  changed unless its resolved configuration is the one that runs. \<open>None\<close> when it cannot be resolved.
\<close>

definition running_entry :: "ProcInfo list \<Rightarrow> string \<Rightarrow> ProcInfo option" where
  "running_entry entries host = List.find (\<lambda>y. fr_host_name (pi_config y) = host) entries"

definition examine :: "os \<Rightarrow> OddBoxV3Config \<Rightarrow> ProcInfo list \<Rightarrow> InProcessSiteConfig \<Rightarrow> (InProcessSiteConfig \<times> bool) option" where
  "examine sys c entries p =
     (case running_entry entries (hp_host_name p) of
        None \<Rightarrow> Some (p, True)
      | Some existing \<Rightarrow>
          (case resolve_process_configuration sys c p of
             Inl _ \<Rightarrow> None
           | Inr r \<Rightarrow>
               (let i = fr_proc_id (pi_config existing); port = fr_active_port (pi_config existing);
                    r = r\<lparr> fr_proc_id := i, fr_active_port := port \<rparr> in
                Some (p\<lparr> hp_active_port := port, hp_proc_id := i \<rparr>, pi_config existing \<noteq> r))))"

definition examine_all ::
  "os \<Rightarrow> OddBoxV3Config \<Rightarrow> ProcInfo list \<Rightarrow> (InProcessSiteConfig list \<times> InProcessSiteConfig list) option" where
  "examine_all sys c entries =
     (let rs = map (examine sys c entries) (unwrap_or (cfg_hosted_process c) []) in
      if None \<in> set rs then None
      else Some (map (fst \<circ> the) rs, map (fst \<circ> the) (filter (snd \<circ> the) rs)))"

definition has_host :: "InProcessSiteConfig list \<Rightarrow> string \<Rightarrow> bool" where
  "has_host ps host = list_ex (\<lambda>p. hp_host_name p = host) ps"

definition mark_entry :: "InProcessSiteConfig list \<Rightarrow> InProcessSiteConfig list \<Rightarrow> ProcInfo \<Rightarrow> ProcInfo" where
  "mark_entry modified all x =
     (let host = fr_host_name (pi_config x) in
      if has_host modified host then x\<lparr> pi_marked_for_removal := True \<rparr>
      else if has_host all host then x
      else x\<lparr> pi_marked_for_removal := True \<rparr>)"

definition mark_changed :: "InProcessSiteConfig list \<Rightarrow> InProcessSiteConfig list \<Rightarrow> Supervisor \<Rightarrow> Supervisor" where
  "mark_changed modified all g = g\<lparr> sp_threads := (\<lambda>i. map_option (mark_entry modified all) (sp_threads g i)) \<rparr>"

text \<open>The wait, over what happens in each half second: \<open>None\<close> when a marked process is left.\<close>

fun await_removed :: "((ProcId \<rightharpoonup> ProcInfo) \<Rightarrow> ProcInfo list) \<Rightarrow> (Supervisor \<Rightarrow> Supervisor) list \<Rightarrow> Supervisor \<Rightarrow> Supervisor run" where
  "await_removed entries fs g =
     (if list_ex pi_marked_for_removal (entries (sp_threads g)) then
        (case fs of [] \<Rightarrow> None | f # fs \<Rightarrow> await_removed entries fs (f g))
      else Some g)"

declare await_removed.simps [simp del]

section \<open>Statuses and hosts\<close>

definition retained :: "ConfigWrapper \<Rightarrow> string \<Rightarrow> ProcState \<Rightarrow> bool" where
  "retained new k v =
     (case v of
        Remote \<Rightarrow> list_ex (\<lambda>y. rs_host_name y = k) (unwrap_or (cfg_remote_target (internal_configuration new)) [])
      | DirServerState \<Rightarrow> list_ex (\<lambda>y. ds_host_name y = k) (unwrap_or (cfg_dir_server (internal_configuration new)) [])
      | _ \<Rightarrow> hosted_processes new k \<noteq> None)"

definition reload_statuses :: "ConfigWrapper \<Rightarrow> Supervisor \<Rightarrow> Supervisor" where
  "reload_statuses new g =
     (let c = internal_configuration new;
          m = (\<lambda>k. case sp_status g k of Some v \<Rightarrow> if retained new k v then Some v else None | None \<Rightarrow> None);
          m = foldl (\<lambda>m x. m(rs_host_name x \<mapsto> Remote)) m (unwrap_or (cfg_remote_target c) []);
          m = foldl (\<lambda>m x. m(ds_host_name x \<mapsto> DirServerState)) m (unwrap_or (cfg_dir_server c) []) in
      g\<lparr> sp_status := m \<rparr>)"

fun spawn_hosts ::
  "os \<Rightarrow> OddBoxV3Config \<Rightarrow> InProcessSiteConfig list \<Rightarrow> reload_error option \<times> FullyResolvedInProcessSiteConfig list" where
  "spawn_hosts sys c [] = (None, [])"
| "spawn_hosts sys c (p # ps) =
     (case resolve_process_configuration sys c p of
        Inl e \<Rightarrow> (Some (LeftUnresolved (hp_host_name p) e), [])
      | Inr r \<Rightarrow> (let (failed, hosts) = spawn_hosts sys c ps in (failed, r # hosts)))"

text \<open>The swap, the log level, Let's Encrypt, and the caches.\<close>

definition apply_configuration :: "OddBoxV3Config \<Rightarrow> ConfigWrapper \<Rightarrow> ('c, 'k) App \<Rightarrow> ('c, 'k) App" where
  "apply_configuration old new app =
     (let email = cfg_lets_encrypt_account_email; c = internal_configuration new in
      app\<lparr> ap_super := (ap_super app)\<lparr> sp_config := new \<rparr>,
           ap_log_level := unwrap_or (cfg_log_level c) Info,
           ap_resolver :=
             (if email c \<noteq> email old then set_lets_encrypt (email old \<noteq> None) (ap_resolver app) else ap_resolver app),
           ap_targets := Map.empty \<rparr>)"

definition replace_processes :: "InProcessSiteConfig list \<Rightarrow> ConfigWrapper \<Rightarrow> ConfigWrapper" where
  "replace_processes ps w =
     reload_dashmaps (w\<lparr> internal_configuration := (internal_configuration w)\<lparr> cfg_hosted_process := Some ps \<rparr> \<rparr>)"

definition reload_from_disk :: "reload_env \<Rightarrow> ('c, 'k) App \<Rightarrow> ((reload_error + unit) \<times> ('c, 'k) App) run" where
  "reload_from_disk env app =
     (let g = ap_super app; active = sp_config g; old = internal_configuration active in
      case load_configuration env active of
        Inl e \<Rightarrow> Some (Inl e, app)
      | Inr new \<Rightarrow>
          if config_eq (internal_configuration new) old then Some (Inr (), app)
          else
            (case examine_all (re_os env) (internal_configuration new) (re_entries env (sp_threads g)) of
               None \<Rightarrow> Some (Inl UnresolvedProcesses, app)
             | Some (all, modified) \<Rightarrow>
                 (let new = replace_processes all new in
                  do {
                    g \<leftarrow> await_removed (re_entries env) (re_wait env) (mark_changed modified all g);
                    let g = reload_statuses new g;
                        (failed, hosts) = spawn_hosts (re_os env) (internal_configuration new) modified;
                        app = app\<lparr> ap_super := g, ap_hosts := ap_hosts app @ hosts \<rparr>
                    in case failed of
                         Some e \<Rightarrow> Some (Inl e, app)
                       | None \<Rightarrow> Some (Inr (), apply_configuration old new app) })))"

section \<open>Equality\<close>

lemma compare_refl [simp]: "compare_option_bool a a" "compare_option_log_format f f"
  by (auto simp: compare_option_bool_def compare_option_log_format_def split: option.splits bool.splits LogFormat.splits)

lemma process_eq_refl [simp]: "process_eq p p"
  by (simp add: process_eq_def)

lemma remote_eq_refl [simp]: "remote_eq r r"
  by (simp add: remote_eq_def)

lemma sites_eq_refl [simp]: "(\<And>x. eq x x) \<Longrightarrow> sites_eq eq a a"
  by (auto simp: sites_eq_def list_all2_same split: option.splits)

lemma process_eq_unseen [simp]:
  "process_eq (p\<lparr> hp_redirect_to_https := a, hp_enable_lets_encrypt := b \<rparr>) q \<longleftrightarrow> process_eq p q"
  "process_eq (p\<lparr> hp_active_port := port, hp_proc_id := i \<rparr>) q \<longleftrightarrow> process_eq p q"
  "process_eq q (p\<lparr> hp_active_port := port, hp_proc_id := i \<rparr>) \<longleftrightarrow> process_eq q p"
  by (simp_all add: process_eq_def)

lemma remote_eq_unseen [simp]: "remote_eq (r\<lparr> rs_redirect_to_https := a \<rparr>) s \<longleftrightarrow> remote_eq r s"
  by (simp add: remote_eq_def)

section \<open>Steps of a reload\<close>

lemma load_configuration_facts:
  assumes "load_configuration env active = Inr new"
  obtains c full path contents any v u where "cfg_path (internal_configuration active) = Some path"
    "re_read_file env path = Some contents" "parse_config (re_readers env) contents = Inr any"
    "try_upgrade_to_latest_version (re_fresh env) any = Inr (c, v, u)" "is_valid c = Inr ()"
    "canonicalize (re_os env) path = Some full"
    "new = (ConfigWrapper_new (c\<lparr> cfg_path := Some full \<rparr>))\<lparr> internal_version := internal_version active + 1 \<rparr>"
  using assms by (fastforce simp: load_configuration_def split: option.splits sum.splits prod.splits)

lemma loaded_distinct:
  assumes "load_configuration env active = Inr new"
  shows "distinct (all_host_names (internal_configuration new))"
proof -
  from assms obtain c full where "is_valid c = Inr ()"
      and new: "new = (ConfigWrapper_new (c\<lparr> cfg_path := Some full \<rparr>))\<lparr> internal_version := internal_version active + 1 \<rparr>"
    by (rule load_configuration_facts)
  then have "distinct (all_host_names c)" by (simp add: valid_iff)
  then show ?thesis unfolding new by (simp add: ConfigWrapper_new_def all_host_names_def)
qed

lemma resolve_with_entry:
  "resolve_process_configuration sys c (p\<lparr> hp_active_port := port, hp_proc_id := i \<rparr>) =
     (case resolve_process_configuration sys c p of Inl e \<Rightarrow> Inl e | Inr r \<Rightarrow> Inr (r\<lparr> fr_proc_id := i, fr_active_port := port \<rparr>))"
  by (simp add: resolve_process_configuration_def Let_def split: option.splits sum.splits)

lemma resolve_other_processes [simp]:
  "resolve_process_configuration sys (c\<lparr> cfg_hosted_process := ps \<rparr>) = resolve_process_configuration sys c"
  by (rule ext) (simp add: resolve_process_configuration_def get_parent_path_def cong: option.case_cong sum.case_cong)

text \<open>A host runs the process just as it is configured.\<close>

definition runs :: "os \<Rightarrow> OddBoxV3Config \<Rightarrow> ProcInfo list \<Rightarrow> InProcessSiteConfig \<Rightarrow> bool" where
  "runs sys c entries p \<longleftrightarrow>
     (case running_entry entries (hp_host_name p) of
        None \<Rightarrow> False
      | Some x \<Rightarrow> resolve_process_configuration sys c p = Inr (pi_config x))"

lemma runs_other_processes [simp]: "runs sys (c\<lparr> cfg_hosted_process := ps \<rparr>) = runs sys c"
  by (intro ext) (simp add: runs_def cong: option.case_cong)

definition taken_over :: "ProcInfo list \<Rightarrow> InProcessSiteConfig \<Rightarrow> bool" where
  "taken_over entries p \<longleftrightarrow>
     (case running_entry entries (hp_host_name p) of
        None \<Rightarrow> True
      | Some x \<Rightarrow> hp_proc_id p = fr_proc_id (pi_config x) \<and> hp_active_port p = fr_active_port (pi_config x))"

lemma examine_facts:
  assumes "examine sys c entries p = Some (p', m)"
  shows "hp_host_name p' = hp_host_name p" "m \<longleftrightarrow> \<not> runs sys c entries p'" "taken_over entries p'"
    "p' = p \<or> (\<exists>i port. p' = p\<lparr> hp_active_port := port, hp_proc_id := i \<rparr>)"
proof -
  show "hp_host_name p' = hp_host_name p" "m \<longleftrightarrow> \<not> runs sys c entries p'" "taken_over entries p'"
    using assms by (auto simp: examine_def runs_def taken_over_def resolve_with_entry Let_def split: option.splits sum.splits)
  show "p' = p \<or> (\<exists>i port. p' = p\<lparr> hp_active_port := port, hp_proc_id := i \<rparr>)"
    using assms by (auto simp: examine_def Let_def split: option.splits sum.splits)
qed

lemma examine_list:
  assumes "None \<notin> set (map (examine sys c entries) ps)"
  defines "all \<equiv> map (fst \<circ> the) (map (examine sys c entries) ps)"
  shows "map hp_host_name all = map hp_host_name ps" "\<forall>p \<in> set all. taken_over entries p"
    "map (fst \<circ> the) (filter (snd \<circ> the) (map (examine sys c entries) ps)) = filter (\<lambda>p. \<not> runs sys c entries p) all"
    "list_all2 process_eq ps all"
proof -
  have one: "\<exists>p' m. examine sys c entries p = Some (p', m)" if "p \<in> set ps" for p
    using assms(1) that by (cases "examine sys c entries p") (auto simp: image_iff)
  have "hp_host_name (fst (the (examine sys c entries p))) = hp_host_name p" if "p \<in> set ps" for p
    using one [OF that] by (auto dest: examine_facts(1))
  then show "map hp_host_name all = map hp_host_name ps"
    unfolding all_def by simp
  have "taken_over entries (fst (the (examine sys c entries p)))" if "p \<in> set ps" for p
    using one [OF that] by (auto dest: examine_facts(3))
  then show "\<forall>p \<in> set all. taken_over entries p"
    unfolding all_def by simp
  have "snd (the (examine sys c entries p)) \<longleftrightarrow> \<not> runs sys c entries (fst (the (examine sys c entries p)))" if "p \<in> set ps" for p
    using one [OF that] by (auto dest: examine_facts(2))
  then show "map (fst \<circ> the) (filter (snd \<circ> the) (map (examine sys c entries) ps)) = filter (\<lambda>p. \<not> runs sys c entries p) all"
    unfolding all_def by (simp add: filter_map o_def cong: filter_cong)
  have "process_eq p (fst (the (examine sys c entries p)))" if p: "p \<in> set ps" for p
  proof -
    from one [OF p] obtain p' m where e: "examine sys c entries p = Some (p', m)" by blast
    with examine_facts(4) [OF e] show ?thesis by auto
  qed
  then show "list_all2 process_eq ps all"
    unfolding all_def by (simp add: list.rel_map list_all2_same)
qed

lemma examine_all_facts:
  assumes "examine_all sys c entries = Some (all, modified)"
  shows "map hp_host_name all = map hp_host_name (unwrap_or (cfg_hosted_process c) [])"
    "\<forall>p \<in> set all. taken_over entries p" "modified = filter (\<lambda>p. \<not> runs sys c entries p) all"
    "list_all2 process_eq (unwrap_or (cfg_hosted_process c) []) all"
proof -
  let ?ps = "unwrap_or (cfg_hosted_process c) []"
  have n: "None \<notin> set (map (examine sys c entries) ?ps)"
    and all: "all = map (fst \<circ> the) (map (examine sys c entries) ?ps)"
    and m: "modified = map (fst \<circ> the) (filter (snd \<circ> the) (map (examine sys c entries) ?ps))"
    using assms by (simp_all add: examine_all_def Let_def split: if_splits)
  show "map hp_host_name all = map hp_host_name ?ps" "\<forall>p \<in> set all. taken_over entries p"
    "modified = filter (\<lambda>p. \<not> runs sys c entries p) all" "list_all2 process_eq ?ps all"
    unfolding all m by (fact examine_list [OF n])+
qed

lemma await_removed_unmarked:
  "await_removed entries fs g = Some g' \<Longrightarrow> \<forall>x \<in> set (entries (sp_threads g')). \<not> pi_marked_for_removal x"
proof (induction fs arbitrary: g)
  case Nil
  then show ?case by (simp add: await_removed.simps [of _ "[]"] list_ex_iff split: if_splits)
next
  case (Cons f fs)
  then show ?case by (auto simp: await_removed.simps [of _ "f # fs"] list_ex_iff split: if_splits)
qed

lemma spawn_hosts_done:
  "spawn_hosts sys c ps = (None, hosts) \<Longrightarrow> map Inr hosts = map (resolve_process_configuration sys c) ps"
  by (induction ps arbitrary: hosts) (auto split: sum.splits prod.splits)

lemma spawn_hosts_failed:
  "spawn_hosts sys c ps = (Some e, hosts) \<Longrightarrow> \<exists>h r. e = LeftUnresolved h r"
  by (induction ps arbitrary: hosts) (auto split: sum.splits prod.splits)

text \<open>How a reload can end.\<close>

lemma reload_cases [case_names rejected same unresolved waiting left over]:
  fixes env and app :: "('c, 'k) App"
  defines "old \<equiv> internal_configuration (sp_config (ap_super app))"
  obtains e where "reload_from_disk env app = Some (Inl e, app)" "load_configuration env (sp_config (ap_super app)) = Inl e"
  | new where "load_configuration env (sp_config (ap_super app)) = Inr new" "config_eq (internal_configuration new) old"
      "reload_from_disk env app = Some (Inr (), app)"
  | new where "load_configuration env (sp_config (ap_super app)) = Inr new" "\<not> config_eq (internal_configuration new) old"
      "reload_from_disk env app = Some (Inl UnresolvedProcesses, app)"
  | new where "load_configuration env (sp_config (ap_super app)) = Inr new" "\<not> config_eq (internal_configuration new) old"
      "reload_from_disk env app = None"
  | new all modified g e hosts where
      "load_configuration env (sp_config (ap_super app)) = Inr new" "\<not> config_eq (internal_configuration new) old"
      "examine_all (re_os env) (internal_configuration new) (re_entries env (sp_threads (ap_super app))) = Some (all, modified)"
      "await_removed (re_entries env) (re_wait env) (mark_changed modified all (ap_super app)) = Some g"
      "spawn_hosts (re_os env) (internal_configuration (replace_processes all new)) modified = (Some e, hosts)"
      "reload_from_disk env app = Some (Inl e,
         app\<lparr> ap_super := reload_statuses (replace_processes all new) g, ap_hosts := ap_hosts app @ hosts \<rparr>)"
  | new all modified g hosts where
      "load_configuration env (sp_config (ap_super app)) = Inr new" "\<not> config_eq (internal_configuration new) old"
      "examine_all (re_os env) (internal_configuration new) (re_entries env (sp_threads (ap_super app))) = Some (all, modified)"
      "await_removed (re_entries env) (re_wait env) (mark_changed modified all (ap_super app)) = Some g"
      "spawn_hosts (re_os env) (internal_configuration (replace_processes all new)) modified = (None, hosts)"
      "reload_from_disk env app = Some (Inr (), apply_configuration old (replace_processes all new)
         (app\<lparr> ap_super := reload_statuses (replace_processes all new) g, ap_hosts := ap_hosts app @ hosts \<rparr>))"
proof (cases "load_configuration env (sp_config (ap_super app))")
  case (Inl e)
  then show ?thesis by (intro that(1)) (simp_all add: reload_from_disk_def Let_def)
next
  case (Inr new)
  note l = Inr
  let ?x = "examine_all (re_os env) (internal_configuration new) (re_entries env (sp_threads (ap_super app)))"
  consider "config_eq (internal_configuration new) old" | "\<not> config_eq (internal_configuration new) old" "?x = None"
    | all modified where "\<not> config_eq (internal_configuration new) old" "?x = Some (all, modified)"
    by (cases ?x) auto
  then show ?thesis
  proof cases
    case 1
    with l show ?thesis by (intro that(2)) (simp_all add: reload_from_disk_def Let_def old_def)
  next
    case 2
    with l show ?thesis by (intro that(3)) (simp_all add: reload_from_disk_def Let_def old_def)
  next
    case 3
    let ?w = "await_removed (re_entries env) (re_wait env) (mark_changed modified all (ap_super app))"
    obtain failed hosts where s: "spawn_hosts (re_os env) (internal_configuration (replace_processes all new)) modified = (failed, hosts)"
      by fastforce
    note u = l 3 [unfolded old_def] s [simplified]
    show ?thesis
    proof (cases ?w)
      case None
      with u show ?thesis by (intro that(4)) (simp_all add: reload_from_disk_def Let_def old_def)
    next
      case (Some g)
      show ?thesis
      proof (cases failed)
        case None
        with u Some show ?thesis by (intro that(6)) (simp_all add: reload_from_disk_def Let_def old_def)
      next
        case (Some e)
        with u \<open>?w = Some g\<close> show ?thesis by (intro that(5)) (simp_all add: reload_from_disk_def Let_def old_def)
      qed
    qed
  qed
qed

text \<open>What a reload that went through did.\<close>

lemma reload_done:
  assumes "reload_from_disk env app = Some (Inr (), app')"
    and "load_configuration env (sp_config (ap_super app)) = Inr new"
    and "\<not> config_eq (internal_configuration new) (internal_configuration (sp_config (ap_super app)))"
  obtains all modified g hosts where
    "examine_all (re_os env) (internal_configuration new) (re_entries env (sp_threads (ap_super app))) = Some (all, modified)"
    "await_removed (re_entries env) (re_wait env) (mark_changed modified all (ap_super app)) = Some g"
    "spawn_hosts (re_os env) (internal_configuration (replace_processes all new)) modified = (None, hosts)"
    "app' = apply_configuration (internal_configuration (sp_config (ap_super app))) (replace_processes all new)
       (app\<lparr> ap_super := reload_statuses (replace_processes all new) g, ap_hosts := ap_hosts app @ hosts \<rparr>)"
proof (cases rule: reload_cases [of env app])
  case (over new' all modified g hosts)
  from over(1) assms(2) have [simp]: "new' = new" by simp
  show ?thesis
    by (rule that [OF over(3-5) [unfolded \<open>new' = new\<close>]]) (use over(6) assms(1) in simp)
qed (use assms in simp_all)

section \<open>What is restarted\<close>

lemma replace_processes_fields [simp]:
  "internal_configuration (replace_processes ps w) = (internal_configuration w)\<lparr> cfg_hosted_process := Some ps \<rparr>"
  "internal_version (replace_processes ps w) = internal_version w"
  "hosted_processes (replace_processes ps w) = keyed_map hp_host_name (Some ps)"
  by (simp_all add: replace_processes_def reload_dashmaps_def)

lemma apply_configuration_fields [simp]:
  "sp_config (ap_super (apply_configuration old new app)) = new"
  "sp_status (ap_super (apply_configuration old new app)) = sp_status (ap_super app)"
  "sp_threads (ap_super (apply_configuration old new app)) = sp_threads (ap_super app)"
  "ap_hosts (apply_configuration old new app) = ap_hosts app"
  "ap_targets (apply_configuration old new app) = Map.empty"
  by (simp_all add: apply_configuration_def Let_def)

lemma reload_statuses_fields [simp]: "sp_threads (reload_statuses new g) = sp_threads g" "sp_config (reload_statuses new g) = sp_config g"
  by (simp_all add: reload_statuses_def Let_def)

text \<open>C11: After a reload that exchanged the configuration, the hosts that were spawned are,
  in order, those of the processes for which no host was running the very configuration they resolve
  to; every process that had a host keeps its identity and port, and host names are those of the
  file.\<close>

theorem only_changed_processes_restarted:
  assumes "reload_from_disk env app = Some (Inr (), app')"
    and "load_configuration env (sp_config (ap_super app)) = Inr new"
    and "\<not> config_eq (internal_configuration new) (internal_configuration (sp_config (ap_super app)))"
  shows "\<exists>ps hosts. let entries = re_entries env (sp_threads (ap_super app)); c = internal_configuration (sp_config (ap_super app')) in
    cfg_hosted_process c = Some ps \<and> ap_hosts app' = ap_hosts app @ hosts \<and>
    map hp_host_name ps = map hp_host_name (unwrap_or (cfg_hosted_process (internal_configuration new)) []) \<and>
    (\<forall>p \<in> set ps. taken_over entries p) \<and>
    map Inr hosts = map (resolve_process_configuration (re_os env) c) (filter (\<lambda>p. \<not> runs (re_os env) c entries p) ps)"
proof -
  from assms obtain all modified g hosts where
    x: "examine_all (re_os env) (internal_configuration new) (re_entries env (sp_threads (ap_super app))) = Some (all, modified)"
    and s: "spawn_hosts (re_os env) (internal_configuration (replace_processes all new)) modified = (None, hosts)"
    and app': "app' = apply_configuration (internal_configuration (sp_config (ap_super app))) (replace_processes all new)
       (app\<lparr> ap_super := reload_statuses (replace_processes all new) g, ap_hosts := ap_hosts app @ hosts \<rparr>)"
    by (rule reload_done)
  show ?thesis
    using examine_all_facts [OF x] spawn_hosts_done [OF s]
    by (intro exI [of _ all] exI [of _ hosts]) (simp add: app' Let_def)
qed

text \<open>A host is marked for removal exactly when no process of the new configuration has its
  name and runs just as it is configured (or it was marked before).\<close>

theorem marked_for_removal_exactly:
  assumes "examine_all sys c (re_entries env (sp_threads g)) = Some (all, modified)"
    and "distinct (map hp_host_name (unwrap_or (cfg_hosted_process c) []))"
    and "sp_threads g i = Some x"
  shows "\<exists>x'. sp_threads (mark_changed modified all g) i = Some x' \<and> pi_config x' = pi_config x \<and>
    (pi_marked_for_removal x' \<longleftrightarrow> pi_marked_for_removal x \<or>
       \<not> (\<exists>p \<in> set all. hp_host_name p = fr_host_name (pi_config x) \<and> runs sys c (re_entries env (sp_threads g)) p))"
proof -
  note f = examine_all_facts [OF assms(1)]
  have one: "p = q" if "p \<in> set all" "q \<in> set all" "hp_host_name p = hp_host_name q" for p q
    using that f(1) assms(2) by (metis distinct_map inj_onD)
  have "pi_marked_for_removal (mark_entry modified all x) \<longleftrightarrow> pi_marked_for_removal x \<or>
       \<not> (\<exists>p \<in> set all. hp_host_name p = fr_host_name (pi_config x) \<and> runs sys c (re_entries env (sp_threads g)) p)"
    unfolding f(3) mark_entry_def has_host_def list_ex_iff Let_def by simp (metis one)
  moreover have "pi_config (mark_entry modified all x) = pi_config x" by (simp add: mark_entry_def Let_def)
  ultimately show ?thesis
    using assms(3) by (simp add: mark_changed_def)
qed

section \<open>Statuses afterwards\<close>

lemma foldl_const_map:
  "foldl (\<lambda>m x. m(key x \<mapsto> v)) m xs k = (if k \<in> key ` set xs then Some v else m k)"
  by (induction xs arbitrary: m) auto

lemma reload_statuses_at:
  "sp_status (reload_statuses new g) k =
     (if k \<in> ds_host_name ` set (unwrap_or (cfg_dir_server (internal_configuration new)) []) then Some DirServerState
      else if k \<in> rs_host_name ` set (unwrap_or (cfg_remote_target (internal_configuration new)) []) then Some Remote
      else case sp_status g k of Some v \<Rightarrow> if retained new k v then Some v else None | None \<Rightarrow> None)"
  by (simp add: reload_statuses_def Let_def foldl_const_map)

text \<open>C13: After a reload the statuses agree with the configuration: exactly its remote sites
  are Remote and its directory servers DirServer, every other status belongs to a site of the
  configuration, and no host is left marked.\<close>

theorem statuses_after_reload:
  assumes "reload_from_disk env app = Some (Inr (), app')"
    and "load_configuration env (sp_config (ap_super app)) = Inr new"
    and "\<not> config_eq (internal_configuration new) (internal_configuration (sp_config (ap_super app)))"
    and "set (re_entries env (sp_threads (ap_super app'))) = ran (sp_threads (ap_super app'))"
  shows "let c = internal_configuration (sp_config (ap_super app')); st = sp_status (ap_super app') in
    (\<forall>k. st k = Some Remote \<longleftrightarrow> k \<in> rs_host_name ` set (unwrap_or (cfg_remote_target c) [])) \<and>
    (\<forall>k. st k = Some DirServerState \<longleftrightarrow> k \<in> ds_host_name ` set (unwrap_or (cfg_dir_server c) [])) \<and>
    dom st \<subseteq> set (all_host_names c) \<and>
    (\<forall>x \<in> ran (sp_threads (ap_super app')). \<not> pi_marked_for_removal x)"
proof -
  from assms(1-3) obtain all modified g hosts where
    x: "examine_all (re_os env) (internal_configuration new) (re_entries env (sp_threads (ap_super app))) = Some (all, modified)"
    and w: "await_removed (re_entries env) (re_wait env) (mark_changed modified all (ap_super app)) = Some g"
    and app': "app' = apply_configuration (internal_configuration (sp_config (ap_super app))) (replace_processes all new)
       (app\<lparr> ap_super := reload_statuses (replace_processes all new) g, ap_hosts := ap_hosts app @ hosts \<rparr>)"
    by (rule reload_done)
  have d: "distinct (all_host_names (internal_configuration new))"
    using assms(2) by (rule loaded_distinct)
  have h: "hosted_processes (replace_processes all new) k \<noteq> None \<Longrightarrow> k \<in> hp_host_name ` set all" for k
    by (auto simp: keyed_map_lookup Let_def filter_empty_conv split: if_splits)
  have unmarked: "\<forall>x \<in> ran (sp_threads (ap_super app')). \<not> pi_marked_for_removal x"
    using await_removed_unmarked [OF w] assms(4) by (simp add: app')
  show ?thesis
    unfolding Let_def
  proof (intro conjI allI)
    show "\<forall>x \<in> ran (sp_threads (ap_super app')). \<not> pi_marked_for_removal x" by (fact unmarked)
    show "dom (sp_status (ap_super app')) \<subseteq> set (all_host_names (internal_configuration (sp_config (ap_super app'))))"
      using h by (fastforce simp: app' reload_statuses_at all_host_names_def retained_def list_ex_iff dom_def
          split: if_splits option.splits ProcState.splits)
  qed (use d in \<open>auto simp: app' reload_statuses_at all_host_names_def retained_def list_ex_iff split: option.splits ProcState.splits\<close>)
qed

section \<open>Errors and settings\<close>

text \<open>A reload that fails because the file cannot be read, parsed, validated or compared with
  the running processes leaves everything as it was.\<close>

theorem rejected_reload_changes_nothing:
  assumes "reload_from_disk env app = Some (Inl e, app')" and "\<And>h r. e \<noteq> LeftUnresolved h r"
  shows "app' = app"
  using assms by (cases rule: reload_cases [of env app]) (auto dest!: spawn_hosts_failed)

text \<open>When the first new process cannot be resolved, the reload fails after the old hosts have
  left and statuses have been replaced: the old configuration stays active without its processes.\<close>

theorem unresolved_process_leaves_reload_half_done:
  assumes "load_configuration env (sp_config (ap_super app)) = Inr new"
    and "\<not> config_eq (internal_configuration new) (internal_configuration (sp_config (ap_super app)))"
    and "cfg_hosted_process (internal_configuration new) = Some (p # ps)"
    and "\<And>q. q \<in> set (p # ps) \<Longrightarrow> running_entry (re_entries env (sp_threads (ap_super app))) (hp_host_name q) = None"
    and "resolve_process_configuration (re_os env) (internal_configuration new) p = Inl e"
    and "await_removed (re_entries env) (re_wait env) (mark_changed (p # ps) (p # ps) (ap_super app)) = Some g"
  shows "reload_from_disk env app =
    Some (Inl (LeftUnresolved (hp_host_name p) e), app\<lparr> ap_super := reload_statuses (replace_processes (p # ps) new) g \<rparr>)"
proof -
  have "map (examine (re_os env) (internal_configuration new) (re_entries env (sp_threads (ap_super app)))) (p # ps) =
      map (\<lambda>q. Some (q, True)) (p # ps)"
    using assms(4) by (intro map_cong) (simp_all add: examine_def)
  then have "examine_all (re_os env) (internal_configuration new) (re_entries env (sp_threads (ap_super app))) = Some (p # ps, p # ps)"
    unfolding examine_all_def Let_def assms(3) unwrap_or_simps by (simp only:) (auto simp: filter_map o_def)
  with assms show ?thesis by (simp add: reload_from_disk_def Let_def)
qed

definition with_unseen_changes :: "(InProcessSiteConfig \<Rightarrow> bool option \<times> bool option) \<Rightarrow> (RemoteSiteConfig \<Rightarrow> bool option) \<Rightarrow> OddBoxV3Config \<Rightarrow> OddBoxV3Config" where
  "with_unseen_changes f h c =
     c\<lparr> cfg_hosted_process := map_option (map (\<lambda>p. p\<lparr> hp_redirect_to_https := fst (f p), hp_enable_lets_encrypt := snd (f p) \<rparr>)) (cfg_hosted_process c),
        cfg_remote_target := map_option (map (\<lambda>r. r\<lparr> rs_redirect_to_https := h r \<rparr>)) (cfg_remote_target c) \<rparr>"

lemma with_unseen_changes_eq: "config_eq (with_unseen_changes f h c) c"
  by (simp add: config_eq_def with_unseen_changes_def sites_eq_def list.rel_map list_all2_same split: option.splits)

text \<open>A file that differs only in redirect_to_https of sites, or in enable_lets_encrypt of
  processes, is not loaded.\<close>

theorem changed_redirects_not_reloaded:
  assumes "load_configuration env (sp_config (ap_super app)) = Inr new"
    and "internal_configuration new = with_unseen_changes f h (internal_configuration (sp_config (ap_super app)))"
  shows "reload_from_disk env app = Some (Inr (), app)"
  using assms with_unseen_changes_eq by (simp add: reload_from_disk_def Let_def)

text \<open>When a reload changes the email for Let's Encrypt, Let's Encrypt is enabled afterwards
  exactly when there was an email before.\<close>

theorem lets_encrypt_switched_by_old_email:
  assumes "reload_from_disk env app = Some (Inr (), app')"
    and "load_configuration env (sp_config (ap_super app)) = Inr new"
    and "cfg_lets_encrypt_account_email (internal_configuration new) \<noteq>
      cfg_lets_encrypt_account_email (internal_configuration (sp_config (ap_super app)))"
  shows "enable_lets_encrypt (ap_resolver app') \<longleftrightarrow>
    cfg_lets_encrypt_account_email (internal_configuration (sp_config (ap_super app))) \<noteq> None"
proof -
  have "\<not> config_eq (internal_configuration new) (internal_configuration (sp_config (ap_super app)))"
    using assms(3) by (simp add: config_eq_def)
  with assms obtain all modified g hosts where
    "app' = apply_configuration (internal_configuration (sp_config (ap_super app))) (replace_processes all new)
       (app\<lparr> ap_super := reload_statuses (replace_processes all new) g, ap_hosts := ap_hosts app @ hosts \<rparr>)"
    using reload_done [of env app app' new] by metis
  then show ?thesis
    using assms(3) by (simp add: apply_configuration_def Let_def set_lets_encrypt_def)
qed

text \<open>C40: Reloading the same file again does nothing, except when the file has no hosted
  processes: then the file is never taken to be equal to the active configuration.\<close>

theorem second_reload_changes_nothing:
  assumes "reload_from_disk env app = Some (Inr (), app')"
    and "load_configuration env (sp_config (ap_super app)) = Inr new"
    and "\<not> config_eq (internal_configuration new) (internal_configuration (sp_config (ap_super app)))"
    and "\<And>p full. canonicalize (re_os env) p = Some full \<Longrightarrow>
      canonicalize (re_os env) full = Some full \<and> re_read_file env full = re_read_file env p"
  shows "load_configuration env (sp_config (ap_super app')) = Inr (new\<lparr> internal_version := internal_version new + 1 \<rparr>) \<and>
    (cfg_hosted_process (internal_configuration new) \<noteq> None \<longrightarrow> reload_from_disk env app' = Some (Inr (), app')) \<and>
    (cfg_hosted_process (internal_configuration new) = None \<longrightarrow>
       \<not> config_eq (internal_configuration new) (internal_configuration (sp_config (ap_super app'))))"
proof -
  from assms(1-3) obtain all modified g hosts where
    x: "examine_all (re_os env) (internal_configuration new) (re_entries env (sp_threads (ap_super app))) = Some (all, modified)"
    and app': "app' = apply_configuration (internal_configuration (sp_config (ap_super app))) (replace_processes all new)
       (app\<lparr> ap_super := reload_statuses (replace_processes all new) g, ap_hosts := ap_hosts app @ hosts \<rparr>)"
    by (rule reload_done)
  from assms(2) obtain c full path contents any v u where l: "cfg_path (internal_configuration (sp_config (ap_super app))) = Some path"
    "re_read_file env path = Some contents" "parse_config (re_readers env) contents = Inr any"
    "try_upgrade_to_latest_version (re_fresh env) any = Inr (c, v, u)" "is_valid c = Inr ()"
    "canonicalize (re_os env) path = Some full"
    and new: "new = (ConfigWrapper_new (c\<lparr> cfg_path := Some full \<rparr>))\<lparr> internal_version := internal_version (sp_config (ap_super app)) + 1 \<rparr>"
    by (rule load_configuration_facts)
  have again: "load_configuration env (sp_config (ap_super app')) = Inr (new\<lparr> internal_version := internal_version new + 1 \<rparr>)"
    using assms(4) [OF l(6)] l by (simp add: load_configuration_def app' new ConfigWrapper_new_def)
  have e: "config_eq (internal_configuration new) (internal_configuration (sp_config (ap_super app'))) \<longleftrightarrow>
      cfg_hosted_process (internal_configuration new) \<noteq> None"
    using examine_all_facts(4) [OF x] by (auto simp: app' config_eq_def sites_eq_def list_all2_same split: option.splits)
  then show ?thesis
    using again by (simp add: reload_from_disk_def Let_def)
qed

section \<open>The monitor of the file\<close>

text \<open>
  \<open>config_file_monitor\<close> of \<open>src/main.rs\<close>: what is received in each turn of its loop, and what a reload then
  finds. Nobody else takes the permit for reloading.
\<close>

datatype watch_event = DataModified | FileRemoved | OtherEvent

datatype received = NothingReceived | WatchError | Event watch_event | WatcherGone

record monitor_turn =
  mo_exit :: bool
  mo_received :: received
  mo_env :: reload_env

fun config_file_monitor :: "monitor_turn list \<Rightarrow> ('c, 'k) App \<Rightarrow> ('c, 'k) App run" where
  "config_file_monitor [] app = Some app"
| "config_file_monitor (t # ts) app =
     (if mo_exit t then Some app
      else
        (case mo_received t of
           WatcherGone \<Rightarrow> Some app
         | Event DataModified \<Rightarrow>
             (case reload_from_disk (mo_env t) app of None \<Rightarrow> None | Some (_, app) \<Rightarrow> config_file_monitor ts app)
         | _ \<Rightarrow> config_file_monitor ts app))"

definition waits_keep_configuration :: "reload_env \<Rightarrow> bool" where
  "waits_keep_configuration env \<longleftrightarrow> list_all (\<lambda>f. \<forall>g. sp_config (f g) = sp_config g) (re_wait env)"

lemma await_removed_config:
  "await_removed entries fs g = Some g' \<Longrightarrow> list_all (\<lambda>f. \<forall>g. sp_config (f g) = sp_config g) fs \<Longrightarrow> sp_config g' = sp_config g"
proof (induction fs arbitrary: g)
  case Nil
  then show ?case by (simp add: await_removed.simps [of _ "[]"] split: if_splits)
next
  case (Cons f fs)
  then show ?case by (auto simp: await_removed.simps [of _ "f # fs"] split: if_splits)
qed

lemma reload_version:
  assumes "reload_from_disk env app = Some (r, app')" and "waits_keep_configuration env"
  shows "sp_config (ap_super app') = sp_config (ap_super app) \<or>
    internal_version (sp_config (ap_super app')) = internal_version (sp_config (ap_super app)) + 1"
proof (cases rule: reload_cases [of env app])
  case (left new all modified g e hosts)
  have "sp_config g = sp_config (ap_super app)"
    using await_removed_config [OF left(4)] assms(2) by (simp add: waits_keep_configuration_def mark_changed_def)
  with left(6) assms(1) show ?thesis by auto
next
  case (over new all modified g hosts)
  have "internal_version new = internal_version (sp_config (ap_super app)) + 1"
    using over(1) by (rule load_configuration_facts) simp
  with over(6) assms(1) show ?thesis by auto
qed (use assms(1) in auto)

text \<open>However many events the monitor of the file handles, the active configuration is the
  same as before or has a greater version.\<close>

theorem version_grows_with_configuration:
  assumes "config_file_monitor ts app = Some app'" and "\<And>t. t \<in> set ts \<Longrightarrow> waits_keep_configuration (mo_env t)"
  shows "sp_config (ap_super app') = sp_config (ap_super app) \<or>
    internal_version (sp_config (ap_super app)) < internal_version (sp_config (ap_super app'))"
  using assms
proof (induction ts arbitrary: app)
  case (Cons t ts)
  have w: "waits_keep_configuration (mo_env t)" "\<And>t. t \<in> set ts \<Longrightarrow> waits_keep_configuration (mo_env t)"
    using Cons.prems(2) by auto
  show ?case
  proof (cases "\<not> mo_exit t \<and> mo_received t = Event DataModified")
    case True
    with Cons.prems(1) obtain r app1 where r: "reload_from_disk (mo_env t) app = Some (r, app1)"
      and m: "config_file_monitor ts app1 = Some app'" by (auto split: option.splits)
    show ?thesis
      using reload_version [OF r w(1)] Cons.IH [OF m w(2)] by auto
  next
    case False
    with Cons.prems(1) Cons.IH [OF _ w(2)] show ?thesis by (auto split: if_splits received.splits watch_event.splits)
  qed
qed simp

section \<open>Examples\<close>

definition reload_env_sample :: "OddBoxV3Config \<Rightarrow> reload_env" where
  "reload_env_sample c =
     \<lparr> re_os = os_sample, re_readers = \<lparr> read_v3 = (\<lambda>_. Inr c), read_v2 = (\<lambda>_. Inl []), read_v1 = (\<lambda>_. Inl []), read_legacy = (\<lambda>_. Inl []) \<rparr>,
       re_read_file = (\<lambda>_. Some []), re_fresh = (\<lambda>_ _. []), re_entries = (\<lambda>m. List.map_filter m [''a'', ''b'']),
       re_wait = [\<lambda>g. g\<lparr> sp_threads := Map.empty \<rparr>] \<rparr>"

text \<open>The process \<open>a\<close> runs.\<close>

definition app_sample :: "(nat, nat) App" where
  "app_sample =
     \<lparr> ap_super = supervisor_sample\<lparr>
         sp_threads := [''a'' \<mapsto> \<lparr> pi_config = resolved_sample ''a'' None, pi_pid = None, pi_marked_for_removal = False \<rparr>],
         sp_status := [''a'' \<mapsto> Running] \<rparr>,
       ap_hosts = [], ap_log_level = Info, ap_resolver = DynamicCertResolver_new False, ap_targets = Map.empty \<rparr>"

lemma with_vars_run: "with_vars r c h ''run'' = ''run''"
  by (simp add: with_vars_def replace_str.simps)

lemma resolve_sample:
  "resolve_process_configuration os_sample (config_sample rs ps) (process_sample h None) = Inr (resolved_sample h None)"
  by (simp add: resolve_process_configuration_def os_sample_def cfg_dir_sample)
    (simp add: config_sample_def process_sample_def resolved_sample_def with_vars_run Let_def)

lemma sample_fields:
  "hp_host_name (process_sample h p) = h" "fr_host_name (resolved_sample h a) = h" "fr_proc_id (resolved_sample h a) = h"
  "fr_active_port (resolved_sample h a) = a" "(resolved_sample h None)\<lparr> fr_proc_id := h, fr_active_port := None \<rparr> = resolved_sample h None"
  "(process_sample h p)\<lparr> hp_active_port := None, hp_proc_id := h \<rparr> = process_sample h p"
  "cfg_hosted_process (config_sample rs ps) = ps" "cfg_dir_server (config_sample rs ps) = None" "cfg_remote_target (config_sample rs ps) = rs"
  "cfg_lets_encrypt_account_email (config_sample rs ps) = None"
  by (simp_all add: process_sample_def resolved_sample_def config_sample_def)

lemma load_sample:
  assumes "is_valid c = Inr ()" and "cfg_path c = Some ''/etc/odd/odd-box.toml''"
  shows "load_configuration (reload_env_sample c) (sp_config (ap_super app_sample)) =
    Inr ((ConfigWrapper_new c)\<lparr> internal_version := 1 \<rparr>)"
  using assms
  by (cases c) (simp add: load_configuration_def reload_env_sample_def app_sample_def host_samples os_sample_def parse_config_def
      try_upgrade_to_latest_version_def)

text \<open>The process \<open>b\<close> is new, \<open>a\<close> is as it was.\<close>

definition with_b :: OddBoxV3Config where
  "with_b = config_sample None (Some [process_sample ''a'' None, process_sample ''b'' None])"

lemma with_b_valid: "is_valid with_b = Inr ()" "cfg_path with_b = Some ''/etc/odd/odd-box.toml''"
  unfolding valid_iff
  by (simp_all add: with_b_def config_samples all_host_names_def configured_ports_def lets_encrypt_ok_def port_variables_ok_def)

lemma with_b_examined:
  "examine_all os_sample with_b (re_entries (reload_env_sample c) (sp_threads (ap_super app_sample))) =
     Some ([process_sample ''a'' None, process_sample ''b'' None], [process_sample ''b'' None])"
proof -
  have "re_entries (reload_env_sample c) (sp_threads (ap_super app_sample)) =
      [\<lparr> pi_config = resolved_sample ''a'' None, pi_pid = None, pi_marked_for_removal = False \<rparr>]"
    by (simp add: reload_env_sample_def app_sample_def List.map_filter_def)
  then show ?thesis
    by (simp add: examine_all_def examine_def running_entry_def with_b_def resolve_sample sample_fields Let_def)
qed

lemma sample_configuration:
  "internal_configuration (sp_config (ap_super app_sample)) = config_sample None (Some [process_sample ''a'' None])"
  by (simp add: app_sample_def supervisor_sample_def ConfigWrapper_new_def)

lemma with_b_changed: "\<not> config_eq with_b (internal_configuration (sp_config (ap_super app_sample)))"
  by (simp add: sample_configuration with_b_def config_eq_def sites_eq_def sample_fields)

lemma reload_env_fields [simp]:
  "re_os (reload_env_sample c) = os_sample" "re_wait (reload_env_sample c) = [\<lambda>g. g\<lparr> sp_threads := Map.empty \<rparr>]"
  by (simp_all add: reload_env_sample_def)

lemma new_internal [simp]: "internal_configuration ((ConfigWrapper_new c)\<lparr> internal_version := n \<rparr>) = c"
  by (simp add: ConfigWrapper_new_def)

lemma b_spawned:
  "\<exists>app'. reload_from_disk (reload_env_sample with_b) app_sample = Some (Inr (), app') \<and> ap_hosts app' = [resolved_sample ''b'' None] \<and>
     sp_threads (ap_super app') = sp_threads (ap_super app_sample) \<and>
     internal_configuration (sp_config (ap_super app')) = with_b"
proof -
  let ?all = "[process_sample ''a'' None, process_sample ''b'' None]"
  have w: "await_removed (re_entries (reload_env_sample with_b)) [\<lambda>g. g\<lparr> sp_threads := Map.empty \<rparr>]
      (mark_changed [process_sample ''b'' None] ?all (ap_super app_sample)) = Some (ap_super app_sample)"
    by (simp add: await_removed.simps reload_env_sample_def mark_changed_def app_sample_def List.map_filter_def mark_entry_def has_host_def
        sample_fields fun_upd_def fun_eq_iff supervisor_sample_def)
  have "with_b\<lparr> cfg_hosted_process := Some ?all \<rparr> = with_b" by (simp add: with_b_def config_sample_def)
  with w show ?thesis
    using with_b_changed
    by (simp add: reload_from_disk_def load_sample [OF with_b_valid] with_b_examined Let_def with_b_def [symmetric])
      (simp add: with_b_def resolve_sample app_sample_def)
qed

lemma only_changed_processes_restarted_witness:
  "\<exists>app' hosts. reload_from_disk (reload_env_sample with_b) app_sample = Some (Inr (), app') \<and>
     ap_hosts app' = ap_hosts app_sample @ hosts \<and> map fr_host_name hosts = [''b'']"
proof -
  from b_spawned obtain app' where r: "reload_from_disk (reload_env_sample with_b) app_sample = Some (Inr (), app')"
    and h: "ap_hosts app' = [resolved_sample ''b'' None]" by blast
  from only_changed_processes_restarted [OF r load_sample [OF with_b_valid]] with_b_changed
  obtain hosts where "ap_hosts app' = ap_hosts app_sample @ hosts" by (auto simp: Let_def)
  with r h show ?thesis by (auto simp: app_sample_def sample_fields)
qed

lemma marked_for_removal_exactly_witness:
  "\<exists>x'. sp_threads (mark_changed [process_sample ''b'' None] [process_sample ''a'' None, process_sample ''b'' None] (ap_super app_sample)) ''a'' = Some x' \<and>
     \<not> pi_marked_for_removal x'"
proof -
  let ?es = "re_entries (reload_env_sample with_b) (sp_threads (ap_super app_sample))"
  have a: "sp_threads (ap_super app_sample) ''a'' = Some \<lparr> pi_config = resolved_sample ''a'' None, pi_pid = None, pi_marked_for_removal = False \<rparr>"
    by (simp add: app_sample_def)
  have "runs os_sample with_b ?es (process_sample ''a'' None)"
    by (simp add: runs_def running_entry_def reload_env_sample_def app_sample_def List.map_filter_def sample_fields with_b_def resolve_sample)
  with marked_for_removal_exactly [OF with_b_examined [of with_b] _ a] show ?thesis
    by (auto simp: with_b_def sample_fields)
qed

lemma statuses_after_reload_witness:
  "\<exists>app'. reload_from_disk (reload_env_sample with_b) app_sample = Some (Inr (), app') \<and> dom (sp_status (ap_super app')) \<subseteq> {''a'', ''b''}"
proof -
  from b_spawned obtain app' where r: "reload_from_disk (reload_env_sample with_b) app_sample = Some (Inr (), app')"
    and t: "sp_threads (ap_super app') = sp_threads (ap_super app_sample)" and c: "internal_configuration (sp_config (ap_super app')) = with_b"
    by blast
  have e: "set (re_entries (reload_env_sample with_b) (sp_threads (ap_super app'))) = ran (sp_threads (ap_super app'))"
    unfolding t by (auto simp: reload_env_sample_def app_sample_def List.map_filter_def ran_def split: if_splits)
  have "dom (sp_status (ap_super app')) \<subseteq> set (all_host_names with_b)"
    using statuses_after_reload [OF r load_sample [OF with_b_valid] _ e] with_b_changed by (simp add: Let_def c)
  with r show ?thesis by (auto simp: all_host_names_def with_b_def sample_fields)
qed

lemma rejected_reload_changes_nothing_witness:
  "reload_from_disk ((reload_env_sample with_b)\<lparr> re_read_file := (\<lambda>_. None) \<rparr>) app_sample = Some (Inl FileError, app_sample)"
proof -
  let ?env = "(reload_env_sample with_b)\<lparr> re_read_file := (\<lambda>_. None) \<rparr>"
  obtain app' where r: "reload_from_disk ?env app_sample = Some (Inl FileError, app')"
    by (simp add: reload_from_disk_def load_configuration_def sample_configuration Let_def) (simp add: config_sample_def)
  with rejected_reload_changes_nothing [OF r] show ?thesis by simp
qed

lemma load_current_dir:
  "load_configuration (env\<lparr> re_os := (re_os env)\<lparr> current_dir := d \<rparr> \<rparr>) w = load_configuration env w"
  by (simp add: load_configuration_def cong: option.case_cong sum.case_cong)

text \<open>The program runs no process, and the current directory is gone.\<close>

lemma unresolved_process_leaves_reload_half_done_witness:
  "\<exists>env (app :: (nat, nat) App) app'. reload_from_disk env app = Some (Inl (LeftUnresolved ''a'' NoCurrentDir), app') \<and>
     sp_status (ap_super app) = [''c'' \<mapsto> Remote] \<and> sp_status (ap_super app') ''c'' = None \<and>
     sp_config (ap_super app') = sp_config (ap_super app)"
proof -
  let ?env = "(reload_env_sample with_b)\<lparr> re_os := os_sample\<lparr> current_dir := None \<rparr> \<rparr>"
  let ?ps = "[process_sample ''b'' None]"
  let ?g = "(ap_super app_sample)\<lparr> sp_threads := Map.empty, sp_status := [''c'' \<mapsto> Remote] \<rparr>"
  let ?app = "app_sample\<lparr> ap_super := ?g \<rparr>"
  let ?new = "(ConfigWrapper_new with_b)\<lparr> internal_version := 1 \<rparr>"
  have l: "load_configuration ?env (sp_config (ap_super ?app)) = Inr ?new"
    using load_sample [OF with_b_valid] load_current_dir [where env = "reload_env_sample with_b" and d = None] by simp
  have h: "cfg_hosted_process (internal_configuration ?new) = Some (process_sample ''a'' None # ?ps)"
    by (simp add: with_b_def sample_fields)
  have u: "resolve_process_configuration (re_os ?env) (internal_configuration ?new) (process_sample ''a'' None) = Inl NoCurrentDir"
    by (simp add: resolve_process_configuration_def os_sample_def with_b_def cfg_dir_sample) (simp add: config_sample_def)
  have w: "await_removed (re_entries ?env) (re_wait ?env)
      (mark_changed (process_sample ''a'' None # ?ps) (process_sample ''a'' None # ?ps) (ap_super ?app)) = Some ?g"
    by (simp add: await_removed.simps reload_env_sample_def mark_changed_def List.map_filter_def)
  have "reload_from_disk ?env ?app =
      Some (Inl (LeftUnresolved (hp_host_name (process_sample ''a'' None)) NoCurrentDir),
        ?app\<lparr> ap_super := reload_statuses (replace_processes (process_sample ''a'' None # ?ps) ?new) ?g \<rparr>)"
    by (rule unresolved_process_leaves_reload_half_done [OF l _ h _ u w])
      (use with_b_changed in \<open>simp_all add: running_entry_def reload_env_sample_def List.map_filter_def\<close>)
  moreover have "sp_status (reload_statuses (replace_processes (process_sample ''a'' None # ?ps) ?new) ?g) ''c'' = None"
    by (simp add: reload_statuses_at retained_def with_b_def sample_fields)
  ultimately show ?thesis
    by (intro exI [of _ ?env] exI [of _ ?app]
        exI [of _ "?app\<lparr> ap_super := reload_statuses (replace_processes (process_sample ''a'' None # ?ps) ?new) ?g \<rparr>"]) (simp add: sample_fields)
qed

lemma changed_redirects_not_reloaded_witness:
  "\<exists>c. c \<noteq> config_sample None (Some [process_sample ''a'' None]) \<and>
     reload_from_disk (reload_env_sample c) app_sample = Some (Inr (), app_sample)"
proof -
  let ?c = "with_unseen_changes (\<lambda>_. (Some True, None)) (\<lambda>_. None) (config_sample None (Some [process_sample ''a'' None]))"
  have v: "is_valid ?c = Inr ()" "cfg_path ?c = Some ''/etc/odd/odd-box.toml''"
    unfolding valid_iff
    by (simp_all add: with_unseen_changes_def config_samples all_host_names_def configured_ports_def lets_encrypt_ok_def port_variables_ok_def)
  have "reload_from_disk (reload_env_sample ?c) app_sample = Some (Inr (), app_sample)"
    by (rule changed_redirects_not_reloaded [OF load_sample [OF v]]) (simp add: sample_configuration)
  moreover have "?c \<noteq> config_sample None (Some [process_sample ''a'' None])"
    by (simp add: with_unseen_changes_def config_samples)
  ultimately show ?thesis by blast
qed

text \<open>An email is set for the first time, which leaves Let's Encrypt disabled.\<close>

lemma lets_encrypt_switched_by_old_email_witness:
  "\<exists>c app'. cfg_lets_encrypt_account_email c = Some ''me@x'' \<and>
     reload_from_disk (reload_env_sample c) app_sample = Some (Inr (), app') \<and> \<not> enable_lets_encrypt (ap_resolver app')"
proof -
  let ?c = "with_b\<lparr> cfg_lets_encrypt_account_email := Some ''me@x'' \<rparr>"
  let ?all = "[process_sample ''a'' None, process_sample ''b'' None]"
  let ?new = "(ConfigWrapper_new ?c)\<lparr> internal_version := 1 \<rparr>"
  have v: "is_valid ?c = Inr ()" "cfg_path ?c = Some ''/etc/odd/odd-box.toml''"
    unfolding valid_iff
    by (simp_all add: with_b_def config_samples all_host_names_def configured_ports_def lets_encrypt_ok_def port_variables_ok_def)
  have res: "resolve_process_configuration os_sample ?c = resolve_process_configuration os_sample with_b"
    by (rule ext) (simp add: resolve_process_configuration_def get_parent_path_def cong: option.case_cong sum.case_cong)
  have x: "examine_all os_sample ?c (re_entries (reload_env_sample ?c) (sp_threads (ap_super app_sample))) = Some (?all, [process_sample ''b'' None])"
  proof -
    have "examine os_sample ?c es p = examine os_sample with_b es p" for es p by (simp only: examine_def res)
    then have "examine os_sample ?c = examine os_sample with_b" by (intro ext)
    with with_b_examined [of ?c] show ?thesis by (simp add: examine_all_def)
  qed
  have w: "\<exists>g. await_removed (re_entries (reload_env_sample ?c)) [\<lambda>g. g\<lparr> sp_threads := Map.empty \<rparr>]
      (mark_changed [process_sample ''b'' None] ?all (ap_super app_sample)) = Some g"
    by (simp add: await_removed.simps reload_env_sample_def List.map_filter_def)
  have "spawn_hosts os_sample (?c\<lparr> cfg_hosted_process := Some ?all \<rparr>) [process_sample ''b'' None] = (None, [resolved_sample ''b'' None])"
    by (simp add: res) (simp add: with_b_def resolve_sample)
  moreover have d: "cfg_lets_encrypt_account_email ?c \<noteq> cfg_lets_encrypt_account_email (internal_configuration (sp_config (ap_super app_sample)))"
    by (simp add: sample_configuration sample_fields)
  then have "\<not> config_eq ?c (internal_configuration (sp_config (ap_super app_sample)))" by (auto simp: config_eq_def)
  ultimately obtain app' where r: "reload_from_disk (reload_env_sample ?c) app_sample = Some (Inr (), app')"
    using w x by (auto simp: reload_from_disk_def load_sample [OF v] Let_def)
  have "\<not> enable_lets_encrypt (ap_resolver app')"
    using lets_encrypt_switched_by_old_email [OF r load_sample [OF v]] d by (simp add: sample_configuration sample_fields)
  with r show ?thesis by (intro exI [of _ ?c] exI [of _ app']) simp
qed

lemma second_reload_changes_nothing_witness:
  "\<exists>app'. reload_from_disk (reload_env_sample with_b) app_sample = Some (Inr (), app') \<and>
     reload_from_disk (reload_env_sample with_b) app' = Some (Inr (), app')"
proof -
  from b_spawned obtain app' where r: "reload_from_disk (reload_env_sample with_b) app_sample = Some (Inr (), app')" by blast
  have "cfg_hosted_process with_b \<noteq> None" by (simp add: with_b_def sample_fields)
  then have "reload_from_disk (reload_env_sample with_b) app' = Some (Inr (), app')"
    using second_reload_changes_nothing [OF r load_sample [OF with_b_valid]] with_b_changed
    by (simp add: reload_env_sample_def os_sample_def)
  with r show ?thesis by blast
qed

lemma version_grows_with_configuration_witness:
  "\<exists>app'. config_file_monitor [\<lparr> mo_exit = False, mo_received = Event DataModified, mo_env = reload_env_sample with_b \<rparr>] app_sample = Some app' \<and>
     internal_version (sp_config (ap_super app_sample)) < internal_version (sp_config (ap_super app'))"
proof -
  let ?ts = "[\<lparr> mo_exit = False, mo_received = Event DataModified, mo_env = reload_env_sample with_b \<rparr>]"
  from b_spawned obtain app' where r: "reload_from_disk (reload_env_sample with_b) app_sample = Some (Inr (), app')"
    and c: "internal_configuration (sp_config (ap_super app')) = with_b" by blast
  then have m: "config_file_monitor ?ts app_sample = Some app'" by simp
  have "sp_config (ap_super app') \<noteq> sp_config (ap_super app_sample)"
    using c with_b_changed by (auto simp: config_eq_def)
  then show ?thesis
    using version_grows_with_configuration [OF m] m by (auto simp: waits_keep_configuration_def)
qed

end
