(* ===== verification/Dir_Pages.thy ===== *)
theory Dir_Pages
  imports Config_Text
begin

text \<open>
  The texts that the server of directory sites writes: the page around a Markdown document
  (\<open>markdown_to_html\<close> in \<open>src/custom_servers/mod.rs\<close>), the head, the icons and the sizes of a listing
  (\<open>src/custom_servers/directory.rs\<close>). A character outside ASCII is its UTF-8 bytes.
\<close>

section \<open>Pages\<close>

datatype ThemeDecision = Dark | Light | Auto

definition apostrophe :: string where
  "apostrophe = [CHR 0x27]"

definition tag_style :: "ThemeDecision \<Rightarrow> string" where
  "tag_style theme =
     (case theme of
        Dark \<Rightarrow> ''style='' @ apostrophe @ ''background:#161a29;color:#ffffff'' @ apostrophe
      | Light \<Rightarrow> ''style='' @ apostrophe @ ''background:#ffffff;color:#000000'' @ apostrophe
      | Auto \<Rightarrow> [])"

text \<open>The lines of the page; the template begins and ends with a line break.\<close>

definition markdown_page_lines :: "string \<Rightarrow> string \<Rightarrow> string \<Rightarrow> string list" where
  \<open>markdown_page_lines title md_html html_tag_style =
     [[],
      ''<!doctype html>'',
      ''<html lang='' @ quote @ ''en'' @ quote @ '' '' @ html_tag_style @ ''>'',
      ''<head>'',
      ''<meta charset='' @ quote @ ''utf-8'' @ quote @ ''>'',
      ''<meta name='' @ quote @ ''viewport'' @ quote @ '' content='' @ quote @ ''width=device-width,initial-scale=1'' @ quote @ ''>'',
      ''<title>'' @ title @ ''</title>'',
      [],
      ''<!-- === early theme bootstrap ========================================= -->'',
      ''<script>'',
      ''(() => {'',
      ''    /* ----- helpers ---------------------------------------------------- */'',
      ''    const getCookieTheme = () => {'',
      ''        const m = document.cookie.match(/(?:^|;'' @ [CHR 0x5C] @ ''s*)theme=(dark|light)/);'',
      ''        return m ? m[1] : null;'',
      ''    };'',
      ''    const sysPrefersDark = window.matchMedia?.('(prefers-color-scheme: dark)').matches ?? false;'',
      [],
      ''    /* ----- decide ----------------------------------------------------- */'',
      ''    const theme ='',
      ''        getCookieTheme() ??'',
      ''        localStorage.getItem('theme') ??'',
      ''        (sysPrefersDark ? 'dark' : 'light');'',
      [],
      ''    const dark = theme === 'dark';'',
      [],
      ''    /* ----- paint & class --------------------------------------------- */'',
      ''    document.documentElement.classList.add(dark ? 'dark-mode' : 'light-mode');'',
      ''    document.documentElement.style.backgroundColor = dark ? '#161a29' : '#ffffff';'',
      ''    document.documentElement.style.color           = dark ? '#ffffff' : '#000000';'',
      ''})();'',
      ''</script>'',
      [],
      ''<!-- placeholders that will be swapped by JS after boot -->'',
      ''<link id='' @ quote @ ''theme-stylesheet'' @ quote @ '' rel='' @ quote @ ''stylesheet'' @ quote @ ''>'',
      ''<link id='' @ quote @ ''syntax-stylesheet'' @ quote @ '' rel='' @ quote @ ''stylesheet'' @ quote @ ''>'',
      [],
      ''<style>'',
      '':root {'',
      ''    --font-size: 1rem;'',
      ''    --font-family: Arial, sans-serif;'',
      ''    --line-height: 1.6;'',
      ''}'',
      ''body {'',
      ''    font-family: var(--font-family);'',
      ''    font-family: 'Crimson Text', serif;'',
      ''    font-size: var(--font-size);'',
      ''    line-height: var(--line-height);'',
      ''    margin: 0;'',
      ''    padding: 2rem;'',
      ''    transition: background-color .3s,color .3s;'',
      ''    display:flex;justify-content:center;'',
      ''}'',
      ''.inner-markdown { max-width:1400px;width:100%;position:relative; }'',
      ''/* --- toggle ---------------------------------------------------------- */'',
      ''.theme-toggle {'',
      ''    position:absolute;top:1rem;right:1rem;width:40px;height:20px;background:#ccc;'',
      ''    border-radius:10px;display:flex;align-items:center;cursor:pointer;z-index:1;'',
      ''}'',
      ''.toggle-slider {'',
      ''    position:absolute;width:16px;height:16px;background:#333;border-radius:50%;'',
      ''    transition:transform .3s;'',
      ''}'',
      ''.light-mode .toggle-slider { transform:translateX(2px);  }'',
      ''.dark-mode  .toggle-slider { transform:translateX(22px); }'',
      ''.light-mode pre { border:1px solid #ddd; }'',
      ''.dark-mode  pre { border:1px solid #333; }'',
      ''.markdown-body pre code { white-space:break-spaces!important; }'',
      ''.markdown-body {'',
      ''        background-color: transparent !important;'',
      ''}'',
      ''</style>'',
      [],
      ''<script>'',
      ''/* after the bootstrap above has decided, wire up the page -------------- */'',
      ''window.addEventListener('DOMContentLoaded', () => {'',
      ''    const dark = document.documentElement.classList.contains('dark-mode');'',
      [],
      ''    const themeSheet   = document.getElementById('theme-stylesheet');'',
      ''    const syntaxSheet  = document.getElementById('syntax-stylesheet');'',
      ''    const setSheets = (isDark) => {'',
      ''        themeSheet.href  = `https://cdn.jsdelivr.net/gh/hyrious/github-markdown-css@main/dist/${isDark?'dark':'light'}.css`;'',
      ''        syntaxSheet.href = `https://cdnjs.cloudflare.com/ajax/libs/highlight.js/11.7.0/styles/${isDark?'atom-one-dark':'github'}.min.css`;'',
      ''    };'',
      ''    setSheets(dark);'',
      [],
      ''    window.toggleTheme = () => {'',
      ''        const nowDark = document.documentElement.classList.toggle('dark-mode');'',
      ''        document.documentElement.classList.toggle('light-mode', !nowDark);'',
      ''        document.documentElement.style.backgroundColor = nowDark ? '#161a29' : '#ffffff';'',
      ''        document.documentElement.style.color           = nowDark ? '#ffffff' : '#000000';'',
      ''        setSheets(nowDark);'',
      [],
      ''        /* persist */'',
      ''        localStorage.setItem('theme', nowDark ? 'dark' : 'light');'',
      ''        document.cookie = `theme=${nowDark?'dark':'light'}; path=/; SameSite=Lax`;'',
      ''    };'',
      ''});'',
      ''</script>'',
      ''</head>'',
      [],
      ''<body class='' @ quote @ ''markdown-body'' @ quote @ ''>'',
      ''    <div class='' @ quote @ ''inner-markdown'' @ quote @ ''>'',
      ''        <div class='' @ quote @ ''theme-toggle'' @ quote @ '' onclick='' @ quote @ ''toggleTheme()'' @ quote @ ''>'',
      ''            <div class='' @ quote @ ''toggle-slider'' @ quote @ ''></div>'',
      ''        </div>'',
      ''        '' @ md_html,
      ''    </div>'',
      [],
      ''    <!-- highlight.js ---------------------------------------------------- -->'',
      ''    <script src='' @ quote @ ''https://cdnjs.cloudflare.com/ajax/libs/highlight.js/11.7.0/highlight.min.js'' @ quote @ ''></script>'',
      ''    <script>'',
      ''        hljs.highlightAll();'',
      ''    </script>'',
      ''</body>'',
      ''</html>'',
      []]\<close>

definition markdown_page :: "ThemeDecision \<Rightarrow> string \<Rightarrow> string \<Rightarrow> string" where
  "markdown_page theme title md_html = join newline (markdown_page_lines title md_html (tag_style theme))"

definition listing_head :: string where
  \<open>listing_head = join newline
     [''<!doctype html><meta charset=utf-8><title>Directory listing</title>'',
      ''<style>'',
      ''body{font-family:Arial,system-ui;margin:0;padding:2rem;background:#161a29;color:#fff}'',
      ''a{color:#1e90ff;text-decoration:none}'',
      ''a:hover{text-decoration:underline}'',
      ''ul{list-style:none;padding:0;max-width:900px;margin:auto;border:4px solid transparent;'',
      ''background-image:linear-gradient(45deg,#ff0000,#ff7f00,#ffff00,#00ff00,#0000ff,#4b0082,#8f00ff,#ff0000);'',
      ''background-size:200% 200%;animation:rb 10s alternate-reverse infinite;border-radius:8px}'',
      ''li{display:flex;padding:.6rem 1rem;border-bottom:1px solid #333;background:#1e2336}'',
      ''li:nth-child(even){background:#0e1623}.icon{margin-right:.6rem}.size{margin-left:auto;color:#888}'',
      ''@keyframes rb{0%{background-position:0 50%}100%{background-position:100% 50%}}'',
      ''</style><ul>'']\<close>

section \<open>Icons and sizes\<close>

definition icon_bytes :: "string \<Rightarrow> nat list" where
  "icon_bytes ext =
     (let table =
        [''png'' \<mapsto> [0xF0, 0x9F, 0x96, 0xBC, 0xEF, 0xB8, 0x8F], ''jpg'' \<mapsto> [0xF0, 0x9F, 0x96, 0xBC, 0xEF, 0xB8, 0x8F],
         ''jpeg'' \<mapsto> [0xF0, 0x9F, 0x96, 0xBC, 0xEF, 0xB8, 0x8F], ''gif'' \<mapsto> [0xF0, 0x9F, 0x96, 0xBC, 0xEF, 0xB8, 0x8F],
         ''bmp'' \<mapsto> [0xF0, 0x9F, 0x96, 0xBC, 0xEF, 0xB8, 0x8F], ''txt'' \<mapsto> [0xF0, 0x9F, 0x93, 0x84],
         ''md'' \<mapsto> [0xF0, 0x9F, 0x93, 0x9D], ''html'' \<mapsto> [0xF0, 0x9F, 0x8C, 0x90], ''css'' \<mapsto> [0xF0, 0x9F, 0x8E, 0xA8],
         ''js'' \<mapsto> [0xF0, 0x9F, 0x93, 0x9C], ''json'' \<mapsto> [0xF0, 0x9F, 0x93, 0x84], ''rs'' \<mapsto> [0xF0, 0x9F, 0xA6, 0x80],
         ''py'' \<mapsto> [0xF0, 0x9F, 0x90, 0x8D], ''java'' \<mapsto> [0xE2, 0x98, 0x95], ''c'' \<mapsto> [0xF0, 0x9F, 0x93, 0x98],
         ''cpp'' \<mapsto> [0xF0, 0x9F, 0x93, 0x98], ''cs'' \<mapsto> [0xF0, 0x9F, 0x92, 0xBB], ''pdf'' \<mapsto> [0xF0, 0x9F, 0x93, 0x95],
         ''zip'' \<mapsto> [0xF0, 0x9F, 0x93, 0xA6], ''tar'' \<mapsto> [0xF0, 0x9F, 0x93, 0xA6], ''gz'' \<mapsto> [0xF0, 0x9F, 0x93, 0xA6],
         ''mp3'' \<mapsto> [0xF0, 0x9F, 0x8E, 0xB5], ''mp4'' \<mapsto> [0xF0, 0x9F, 0x8E, 0xA5], ''wav'' \<mapsto> [0xF0, 0x9F, 0x8E, 0xB6],
         ''doc'' \<mapsto> [0xF0, 0x9F, 0x93, 0x84], ''docx'' \<mapsto> [0xF0, 0x9F, 0x93, 0x84], ''xls'' \<mapsto> [0xF0, 0x9F, 0x93, 0x8A],
         ''xlsx'' \<mapsto> [0xF0, 0x9F, 0x93, 0x8A]]
      in unwrap_or (table ext) [0xF0, 0x9F, 0x93, 0x84])"

definition icon :: "string \<Rightarrow> string" where
  "icon ext = map (\<lambda>n. char_of n) (icon_bytes ext)"

definition folder_icon :: string where
  "folder_icon = map (\<lambda>n. char_of n) [0xF0 :: nat, 0x9F, 0x93, 0x81]"

text \<open>
  \<open>fmt_size\<close>: the size becomes an \<open>f64\<close>, which keeps 53 bits (\<open>as_f64\<close>); dividing by 1024 is exact, and
  printing with two decimals rounds the exact value, ties to even (\<open>round_div\<close>).
\<close>

definition round_div :: "nat \<Rightarrow> nat \<Rightarrow> nat" where
  "round_div a b =
     (let q = a div b; r = a mod b in if 2 * r > b \<or> 2 * r = b \<and> odd q then q + 1 else q)"

fun as_f64_scaled :: "nat \<Rightarrow> nat \<Rightarrow> nat \<Rightarrow> nat" where
  "as_f64_scaled 0 n unit = round_div n unit * unit"
| "as_f64_scaled (Suc k) n unit = (if n div unit < 2 ^ 53 then round_div n unit * unit else as_f64_scaled k n (2 * unit))"

definition as_f64 :: "u64 \<Rightarrow> nat" where
  "as_f64 w = as_f64_scaled 11 (unat w) 1"

definition size_units :: "string list" where
  "size_units = [''B'', ''KB'', ''MB'', ''GB'', ''TB'']"

text \<open>The loop over the units; \<open>sz\<close> is \<open>x / unit\<close>.\<close>

fun size_unit :: "nat \<Rightarrow> nat \<Rightarrow> string list \<Rightarrow> nat \<times> string" where
  "size_unit x unit [] = (unit, [])"
| "size_unit x unit [name] = (unit, name)"
| "size_unit x unit (name # name' # names) =
     (if 1024 * unit \<le> x then size_unit x (1024 * unit) (name' # names) else (unit, name))"

definition fmt_size :: "u64 \<Rightarrow> string" where
  "fmt_size len =
     (let x = as_f64 len; (unit, name) = size_unit x 1 size_units; hundredths = round_div (100 * x) unit; c = hundredths mod 100 in
      dec (hundredths div 100) @ ''.'' @ dec (c div 10) @ dec (c mod 10) @ '' '' @ name)"

lemma round_div_1 [simp]: "round_div n 1 = n" "round_div n (Suc 0) = n"
  by (simp_all add: round_div_def)

lemma as_f64_exact:
  assumes "unat w < 2 ^ 53"
  shows "as_f64 w = unat w"
proof -
  have "(11 :: nat) = Suc 10" by simp
  then show ?thesis using assms by (simp only: as_f64_def as_f64_scaled.simps div_by_1 if_True round_div_1 mult_1_right)
qed

text \<open>A file of less than 1024 bytes is shown with its size; a size just below a unit rounds up to 1024.\<close>

lemma fmt_size_bytes: "unat w < 1024 \<Longrightarrow> fmt_size w = dec (unat w) @ ''.00 B''"
  using dec.simps [of 0] by (simp add: fmt_size_def as_f64_exact size_units_def digit_char_def Let_def)

lemma fmt_size_rounds_to_1024: "fmt_size 1048575 = ''1024.00 KB''"
  by (simp add: fmt_size_def as_f64_exact size_units_def round_div_def dec.simps digit_char_def)

end
