(* ===== verification/Dir_Server.thy ===== *)
theory Dir_Server
  imports Http_Service Dir_Pages "HOL-Library.Sorting_Algorithms" "HOL-Library.List_Lexorder" "HOL-Library.Char_ord"
begin

text \<open>
  The server of directory sites, \<open>src/custom_servers/directory.rs\<close>: the path of a request, the cache of
  responses, files, Markdown and listings. The file system, the clock and the libraries for dates, cookies,
  media types and Markdown are fields of \<open>dir_env\<close>. A body that is streamed is the path it is read from.
\<close>

section \<open>Paths\<close>

datatype path_component = RootDir | CurDir | ParentDir | Normal string

definition component_of :: "string \<Rightarrow> path_component" where
  "component_of x = (if x = ''..'' then ParentDir else Normal x)"

text \<open>\<open>Path::components\<close> on Unix, and \<open>Path::starts_with\<close>.\<close>

definition path_components :: "string \<Rightarrow> path_component list" where
  "path_components p =
     (if starts_with p ''/'' then [RootDir]
      else if p = ''.'' \<or> starts_with p ''./'' then [CurDir] else []) @
     map component_of (filter (\<lambda>x. x \<noteq> [] \<and> x \<noteq> ''.'') (split_on CHR ''/'' p))"

definition path_under :: "string \<Rightarrow> string \<Rightarrow> bool" where
  "path_under base p = starts_with (path_components p) (path_components base)"

text \<open>\<open>strip_prefix("/")\<close>: separators and \<open>.\<close> components at both ends go too.\<close>

fun trim_front :: "string \<Rightarrow> string" where
  "trim_front [] = []"
| "trim_front (c # cs) =
     (if c = CHR ''/'' then trim_front cs
      else if c = CHR ''.'' \<and> (cs = [] \<or> hd cs = CHR ''/'') then trim_front cs
      else c # cs)"

definition strip_root :: "string \<Rightarrow> string option" where
  "strip_root p = (if starts_with p ''/'' then Some (trim_path (trim_front p)) else None)"

definition trim_end_slashes :: "string \<Rightarrow> string" where
  "trim_end_slashes s = rev (dropWhile (\<lambda>c. c = CHR ''/'') (rev s))"

section \<open>The outside\<close>

record Entry =
  en_name :: string
  en_meta :: "(bool \<times> u64) option"

text \<open>A file's size and the time of its last change in nanoseconds since 1970, when there is one.\<close>

record Metadata =
  md_len :: u64
  md_modified :: "int option"

text \<open>\<open>dv_canonicalize\<close> fails with the kind \<open>NotFound\<close> (\<open>None\<close>) or another error.\<close>

record dir_env =
  dv_lib :: http_lib
  dv_now :: nat
  dv_decode :: "string \<Rightarrow> string + string"
  dv_cookie :: "string \<Rightarrow> (string \<times> string) option"
  dv_canonicalize :: "string \<Rightarrow> string option + string"
  dv_exists :: "string \<Rightarrow> bool"
  dv_is_file :: "string \<Rightarrow> bool"
  dv_is_dir :: "string \<Rightarrow> bool"
  dv_metadata :: "string \<Rightarrow> Metadata option"
  dv_read :: "string \<Rightarrow> string + string"
  dv_read_dir :: "string \<Rightarrow> string + Entry list"
  dv_lossy :: "string \<Rightarrow> string"
  dv_lower :: "string \<Rightarrow> string"
  dv_mime :: "string \<Rightarrow> string"
  dv_fmt_http_date :: "int \<Rightarrow> string"
  dv_parse_http_date :: "string \<Rightarrow> int option"
  dv_markdown :: "string \<Rightarrow> string + string"

text \<open>\<open>RESPONSE_CACHE\<close>: content type, time of insertion in nanoseconds, response.\<close>

type_synonym Cache = "string \<rightharpoonup> string \<times> nat \<times> string Response"

definition cookie_of :: "dir_env \<Rightarrow> 'b Request \<Rightarrow> string option" where
  "cookie_of env req = header_str (dv_lib env) ''cookie'' (hq_headers req)"

definition find_map :: "('a \<Rightarrow> 'b option) \<Rightarrow> 'a list \<Rightarrow> 'b option" where
  "find_map f xs = (case List.map_filter f xs of [] \<Rightarrow> None | y # _ \<Rightarrow> Some y)"

definition theme_from_req :: "dir_env \<Rightarrow> 'b Request \<Rightarrow> ThemeDecision" where
  "theme_from_req env req =
     (case Option.bind (cookie_of env req) (\<lambda>raw. find_map (\<lambda>p. dv_cookie env (trim_blanks p)) (split_on CHR '';'' raw)) of
        None \<Rightarrow> Auto
      | Some (name, v) \<Rightarrow>
          if name \<noteq> ''theme'' then Auto
          else if trim_blanks v = ''dark'' then Dark
          else if trim_blanks v = ''light'' then Light
          else Auto)"

section \<open>Responses\<close>

text \<open>\<open>Response::builder\<close>: a value that is no header value makes \<open>body\<close> fail.\<close>

definition put_header :: "http_lib \<Rightarrow> string \<Rightarrow> string \<Rightarrow> Headers option \<Rightarrow> Headers option" where
  "put_header lib k v h =
     (case h of None \<Rightarrow> None
      | Some m \<Rightarrow> (case hl_from_str lib v of Some x \<Rightarrow> Some (m(k \<mapsto> [x])) | None \<Rightarrow> None))"

definition build :: "nat \<Rightarrow> Headers option \<Rightarrow> 'b response_body \<Rightarrow> string + 'b Response" where
  "build status h body =
     (case h of
        None \<Rightarrow> Inl ''failed to build response''
      | Some m \<Rightarrow> Inr \<lparr> hr_status = status, hr_headers = m, hr_body = body, hr_upgrade = None \<rparr>)"

definition max_age_text :: "u64 \<Rightarrow> string" where
  "max_age_text n = ''public, max-age='' @ dec (unat n) @ '', immutable''"

definition put_max_age :: "http_lib \<Rightarrow> u64 option \<Rightarrow> Headers option \<Rightarrow> Headers option" where
  "put_max_age lib max_age h =
     (case max_age of Some n \<Rightarrow> put_header lib ''cache-control'' (max_age_text n) h | None \<Rightarrow> h)"

definition put_conditional :: "http_lib \<Rightarrow> (string \<times> string) option \<Rightarrow> Headers option \<Rightarrow> Headers option" where
  "put_conditional lib conditional h =
     (case conditional of
        Some (etag, last_modified) \<Rightarrow> put_header lib ''last-modified'' last_modified (put_header lib ''etag'' etag h)
      | None \<Rightarrow> h)"

definition build_response ::
  "http_lib \<Rightarrow> nat \<Rightarrow> string \<Rightarrow> u64 option \<Rightarrow> (string \<times> string) option \<Rightarrow> string \<Rightarrow> string + string Response" where
  "build_response lib status content_type max_age conditional body =
     build status
       (put_conditional lib conditional (put_max_age lib max_age
         (map_option (\<lambda>m. m(''vary'' \<mapsto> [''Cookie''])) (put_header lib ''content-type'' content_type (Some Map.empty)))))
       (Text body)"

text \<open>Here each value is unwrapped: one that is no header value panics.\<close>

definition apply_streaming_headers ::
  "http_lib \<Rightarrow> string \<Rightarrow> u64 option \<Rightarrow> (string \<times> string) option \<Rightarrow> u64 option \<Rightarrow> 'b Response \<Rightarrow> 'b Response run" where
  "apply_streaming_headers lib content_type max_age conditional body_length resp =
     map_option (\<lambda>h. resp\<lparr> hr_status := 200, hr_headers := h \<rparr>)
       ((case body_length of Some n \<Rightarrow> put_header lib ''content-length'' (dec (unat n)) | None \<Rightarrow> (\<lambda>h. h))
         (put_conditional lib conditional (put_max_age lib max_age
           (map_option (\<lambda>m. m(''vary'' \<mapsto> [''Cookie''], ''accept-ranges'' \<mapsto> [''bytes'']))
             (put_header lib ''content-type'' content_type (Some (hr_headers resp)))))))"

definition simple_status :: "nat \<Rightarrow> string \<Rightarrow> string Response" where
  "simple_status code body =
     \<lparr> hr_status = code, hr_headers = [''content-type'' \<mapsto> [''text/plain''], ''vary'' \<mapsto> [''Cookie'']], hr_body = Text body,
       hr_upgrade = None \<rparr>"

section \<open>The cache\<close>

definition ten_seconds :: nat where
  "ten_seconds = 10000000000"

definition cached_fresh_response :: "dir_env \<Rightarrow> string \<Rightarrow> Cache \<Rightarrow> (string + string Response option) \<times> Cache" where
  "cached_fresh_response env ck cache =
     (case cache ck of
        None \<Rightarrow> (Inr None, cache)
      | Some (_, inserted, resp) \<Rightarrow>
          if dv_now env - inserted < ten_seconds then
            (case hl_from_str (dv_lib env) ck of
               None \<Rightarrow> (Inl ''InvalidHeaderValue'', cache)
             | Some k \<Rightarrow>
                 (Inr (Some (resp\<lparr> hr_headers := (hr_headers resp)(''mem-cached'' \<mapsto> [''true''], ''cache-key'' \<mapsto> [k]) \<rparr>)), cache))
          else (Inr None, cache(ck := None)))"

definition cache_response :: "dir_env \<Rightarrow> string \<Rightarrow> string \<Rightarrow> string Response \<Rightarrow> Cache \<Rightarrow> Cache" where
  "cache_response env ck content_type resp cache = cache(ck \<mapsto> (content_type, dv_now env, resp))"

definition cache_key :: "dir_env \<Rightarrow> DirServer \<Rightarrow> 'b Request \<Rightarrow> string \<Rightarrow> string" where
  "cache_key env target req path_decoded =
     ds_host_name target @ ''-'' @ unwrap_or (cookie_of env req) ''no-cookies'' @ ''-'' @ trim_end_slashes path_decoded"

section \<open>Files\<close>

definition SMALL_FILE_MAX :: nat where
  "SMALL_FILE_MAX = 2 * 1024 * 1024"

definition is_not_modified :: "dir_env \<Rightarrow> 'b Request \<Rightarrow> string \<Rightarrow> int option \<Rightarrow> bool" where
  "is_not_modified env req etag modified =
     ((case header_get ''if-none-match'' (hq_headers req) of
         Some hv \<Rightarrow> unwrap_or (hl_to_str (dv_lib env) hv) [] = etag
       | None \<Rightarrow> False) \<or>
      (case (modified, header_get ''if-modified-since'' (hq_headers req)) of
         (Some m, Some hv) \<Rightarrow>
           (case dv_parse_http_date env (unwrap_or (hl_to_str (dv_lib env) hv) []) of
              Some since \<Rightarrow> m \<le> since
            | None \<Rightarrow> False)
       | _ \<Rightarrow> False))"

definition NANOS :: int where
  "NANOS = 1000000000"

text \<open>The seconds since 1970, 0 before.\<close>

definition epoch_secs :: "int \<Rightarrow> nat" where
  "epoch_secs t = nat (t div NANOS)"

definition file_etag :: "Metadata \<Rightarrow> string \<Rightarrow> string" where
  "file_etag meta ck =
     [CHR 0x22] @ dec (unat (md_len meta)) @ ''-'' @ dec (epoch_secs (unwrap_or (md_modified meta) 0)) @ ''-'' @ ck @ [CHR 0x22]"

definition extension_is_md :: "string \<Rightarrow> bool" where
  "extension_is_md p =
     (let name = rev (takeWhile (\<lambda>c. c \<noteq> CHR ''/'') (rev p));
          ext = rev (takeWhile (\<lambda>c. c \<noteq> CHR ''.'') (rev name)) in
      CHR ''.'' \<in> set (tl name) \<and> str_eq_ignore_case ext ''md'')"

definition markdown_to_html :: "dir_env \<Rightarrow> ThemeDecision \<Rightarrow> string \<Rightarrow> string + string" where
  "markdown_to_html env theme t =
     (let cleaned = replace_str ''* [] '' ''* [ ] '' (replace_str ''- [] '' ''- [ ] '' t) in
      case dv_markdown env cleaned of Inl e \<Rightarrow> Inl e | Inr h \<Rightarrow> Inr (markdown_page theme ''markdown'' h))"

definition serve_markdown ::
  "dir_env \<Rightarrow> DirServer \<Rightarrow> string \<Rightarrow> string \<Rightarrow> string \<Rightarrow> string \<Rightarrow> ThemeDecision \<Rightarrow> Cache \<Rightarrow>
   (string + string Response) \<times> Cache" where
  "serve_markdown env cfg md_bytes etag last_modified ck theme cache =
     (case markdown_to_html env theme (dv_lossy env md_bytes) of
        Inl e \<Rightarrow> (Inl e, cache)
      | Inr html \<Rightarrow>
          (case build_response (dv_lib env) 200 ''text/html; charset=utf-8'' (ds_cache_control_max_age_in_seconds cfg)
                  (Some (etag, last_modified)) html of
             Inl e \<Rightarrow> (Inl e, cache)
           | Inr resp \<Rightarrow> (Inr resp, cache_response env ck ''text/html; charset=utf-8'' resp cache)))"

text \<open>A file that is not Markdown: the headers, and the body at once and cached, or streamed.\<close>

definition serve_plain_file ::
  "dir_env \<Rightarrow> DirServer \<Rightarrow> 'b Request \<Rightarrow> string \<Rightarrow> Metadata \<Rightarrow> string \<Rightarrow> string \<Rightarrow> string \<Rightarrow> Cache \<Rightarrow>
   ((string + string Response) \<times> Cache) run" where
  "serve_plain_file env cfg req full_path meta etag last_modified ck cache =
     (let lib = dv_lib env; size = md_len meta;
          mime = (if extension_is_md full_path then ''text/plain; charset=utf-8'' else dv_mime env full_path);
          max_age = ds_cache_control_max_age_in_seconds cfg in
      do {
        resp \<leftarrow> apply_streaming_headers lib mime max_age (Some (etag, last_modified)) (Some size) (new_response EmptyBody);
        if hq_method req = ''HEAD'' then Some (Inr resp, cache)
        else if unat size \<le> SMALL_FILE_MAX then
          (case dv_read env full_path of
             Inl e \<Rightarrow> Some (Inl e, cache)
           | Inr content \<Rightarrow>
               (let cache =
                  (if 0 < size then
                     (case build_response lib 200 mime max_age (Some (etag, last_modified)) content of
                        Inr cached \<Rightarrow> cache_response env ck mime cached cache
                      | Inl _ \<Rightarrow> cache)
                   else cache)
                in Some (Inr (resp\<lparr> hr_body := Text content \<rparr>), cache)))
        else Some (Inr (resp\<lparr> hr_body := Forwarded full_path \<rparr>), cache) })"

definition serve_file ::
  "dir_env \<Rightarrow> DirServer \<Rightarrow> 'b Request \<Rightarrow> string \<Rightarrow> string \<Rightarrow> Cache \<Rightarrow> ((string + string Response) \<times> Cache) run" where
  "serve_file env cfg req full_path ck cache =
     (case dv_metadata env full_path of
        None \<Rightarrow> Some (Inr (simple_status 404 ''404 - FILE NOT FOUND''), cache)
      | Some meta \<Rightarrow>
          (let last_modified = dv_fmt_http_date env (unwrap_or (md_modified meta) 0); etag = file_etag meta ck in
           if is_not_modified env req etag (md_modified meta) then Some (Inr (simple_status 304 []), cache)
           else if is_set (ds_render_markdown cfg) \<and> extension_is_md full_path then
             (case dv_read env full_path of
                Inl e \<Rightarrow> Some (Inl e, cache)
              | Inr md \<Rightarrow> Some (serve_markdown env cfg md etag last_modified ck (theme_from_req env req) cache))
           else serve_plain_file env cfg req full_path meta etag last_modified ck cache))"

section \<open>Listings\<close>

definition entry_is_dir :: "Entry \<Rightarrow> bool" where
  "entry_is_dir e = (case en_meta e of Some (d, _) \<Rightarrow> d | None \<Rightarrow> False)"

definition compare_names :: "string \<Rightarrow> string \<Rightarrow> comp" where
  "compare_names a b = (if a < b then Less else if a = b then Equiv else Greater)"

text \<open>The closure given to \<open>sort_by\<close>.\<close>

definition entry_cmp :: "(string \<Rightarrow> string) \<Rightarrow> Entry \<Rightarrow> Entry \<Rightarrow> comp" where
  "entry_cmp lower a b =
     (case (entry_is_dir a, entry_is_dir b) of
        (True, False) \<Rightarrow> Less
      | (False, True) \<Rightarrow> Greater
      | _ \<Rightarrow> compare_names (lower (en_name a)) (lower (en_name b)))"

definition up_link :: "string \<Rightarrow> string" where
  "up_link req_path =
     (if req_path = ''/'' then []
      else ''<li><span class=icon>'' @ folder_icon @ ''</span><a href='' @ quote @ unwrap_or (path_parent req_path) ''/'' @ quote @
           ''>.. (parent)</a></li>'')"

definition entry_line :: "dir_env \<Rightarrow> string \<Rightarrow> string \<Rightarrow> bool \<Rightarrow> u64 \<Rightarrow> string" where
  "entry_line env req_path name is_dir len =
     (let href = req_path @ name in
      if is_dir then
        ''<li><span class=icon>'' @ folder_icon @ ''</span><a href='' @ quote @ href @ ''/'' @ quote @ ''>'' @ name @ ''/</a></li>''
      else
        ''<li><span class=icon>'' @ icon (last (split_on CHR ''.'' name)) @ ''</span><a href='' @ quote @ href @ quote @ ''>'' @ name @
        ''</a><span class=size>('' @ fmt_size len @ '')</span></li>'')"

fun entry_lines :: "dir_env \<Rightarrow> string \<Rightarrow> Entry list \<Rightarrow> string + string" where
  "entry_lines env req_path [] = Inr []"
| "entry_lines env req_path (e # es) =
     (case en_meta e of
        None \<Rightarrow> Inl ''io::metadata failed''
      | Some (is_dir, len) \<Rightarrow>
          (case entry_lines env req_path es of
             Inl x \<Rightarrow> Inl x
           | Inr t \<Rightarrow> Inr (entry_line env req_path (en_name e) is_dir len @ t)))"

lemma compare_names_simps [simp]:
  "compare_names a b = Less \<longleftrightarrow> a < b" "compare_names a b = Equiv \<longleftrightarrow> a = b" "compare_names a b = Greater \<longleftrightarrow> b < a"
  by (auto simp: compare_names_def)

lemma entry_cmp_simps [simp]:
  "entry_cmp lower a b = Less \<longleftrightarrow> entry_is_dir a \<and> \<not> entry_is_dir b \<or>
     (entry_is_dir a \<longleftrightarrow> entry_is_dir b) \<and> lower (en_name a) < lower (en_name b)"
  "entry_cmp lower a b = Equiv \<longleftrightarrow> (entry_is_dir a \<longleftrightarrow> entry_is_dir b) \<and> lower (en_name a) = lower (en_name b)"
  "entry_cmp lower a b = Greater \<longleftrightarrow> entry_is_dir b \<and> \<not> entry_is_dir a \<or>
     (entry_is_dir a \<longleftrightarrow> entry_is_dir b) \<and> lower (en_name b) < lower (en_name a)"
  by (auto simp: entry_cmp_def split: bool.splits)

text \<open>The closure is a total order, as \<open>sort_by\<close> asks for.\<close>

interpretation entry_order: comparator "entry_cmp lower" for lower
  by unfold_locales (auto simp: less_trans)

lift_definition entry_comparator :: "(string \<Rightarrow> string) \<Rightarrow> Entry comparator" is entry_cmp
  by (rule entry_order.comparator_axioms)

definition build_dir_listing :: "dir_env \<Rightarrow> string \<Rightarrow> string \<Rightarrow> string + string" where
  "build_dir_listing env dir req_path =
     (case dv_read_dir env dir of
        Inl e \<Rightarrow> Inl e
      | Inr entries \<Rightarrow>
          (case entry_lines env req_path (Sorting_Algorithms.sort (entry_comparator (dv_lower env)) entries) of
             Inl e \<Rightarrow> Inl e
           | Inr t \<Rightarrow> Inr (listing_head @ up_link req_path @ t @ ''</ul>'')))"

section \<open>Directories and requests\<close>

definition index_names :: "string list" where
  "index_names = [''index.html'', ''index.htm'', ''index.md'']"

definition index_file :: "dir_env \<Rightarrow> string \<Rightarrow> string option" where
  "index_file env dir = List.find (dv_is_file env) (map (path_join dir) index_names)"

definition serve_dir ::
  "dir_env \<Rightarrow> DirServer \<Rightarrow> 'b Request \<Rightarrow> string \<Rightarrow> string \<Rightarrow> string \<Rightarrow> Cache \<Rightarrow> ((string + string Response) \<times> Cache) run" where
  "serve_dir env cfg req dir req_path ck cache =
     (if \<not> ends_with req_path ''/'' then
        Some (build 301 (put_header (dv_lib env) ''location'' (req_path @ ''/'') (Some Map.empty)) EmptyBody, cache)
      else
        (case index_file env dir of
           Some candidate \<Rightarrow> serve_file env cfg req candidate ck cache
         | None \<Rightarrow>
             if \<not> is_set (ds_enable_directory_browsing cfg) then Some (Inr (simple_status 403 ''Directory browsing is disabled''), cache)
             else
               (case build_dir_listing env dir req_path of
                  Inl e \<Rightarrow> Some (Inl e, cache)
                | Inr html \<Rightarrow>
                    (case build_response (dv_lib env) 200 ''text/html; charset=utf-8'' (ds_cache_control_max_age_in_seconds cfg) None html of
                       Inl e \<Rightarrow> Some (Inl e, cache)
                     | Inr resp \<Rightarrow> Some (Inr resp, cache_response env ck ''text/html; charset=utf-8'' resp cache)))))"

definition requested_path :: "DirServer \<Rightarrow> string \<Rightarrow> string" where
  "requested_path target path_decoded = path_join (ds_dir target) (unwrap_or (strip_root path_decoded) path_decoded)"

text \<open>What \<open>handle\<close> does when the cache has no answer.\<close>

definition serve_path ::
  "dir_env \<Rightarrow> DirServer \<Rightarrow> 'b Request \<Rightarrow> string \<Rightarrow> string \<Rightarrow> Cache \<Rightarrow> ((string + string Response) \<times> Cache) run" where
  "serve_path env target req path_decoded ck cache =
     (case dv_canonicalize env (requested_path target path_decoded) of
        Inl None \<Rightarrow> Some (Inr (simple_status 404 ''404 - FILE NOT FOUND''), cache)
      | Inl (Some e) \<Rightarrow> Some (Inl e, cache)
      | Inr full_path \<Rightarrow>
          if \<not> dv_exists env full_path then Some (Inr (simple_status 404 ''404 - NOT FOUND''), cache)
          else if \<not> path_under (ds_dir target) full_path then Some (Inl ''Attempted directory traversal'', cache)
          else if dv_is_file env full_path then serve_file env target req full_path ck cache
          else if dv_is_dir env full_path then serve_dir env target req full_path path_decoded ck cache
          else Some (Inr (simple_status 404 ''Not Found''), cache))"

definition handle_dir ::
  "dir_env \<Rightarrow> DirServer \<Rightarrow> 'b Request \<Rightarrow> Cache \<Rightarrow> ((string + string Response) \<times> Cache) run" where
  "handle_dir env target req cache =
     (case dv_decode env (ur_path (hq_uri req)) of
        Inl e \<Rightarrow> Some (Inl e, cache)
      | Inr path_decoded \<Rightarrow>
          (let ck = cache_key env target req path_decoded; (found, cache) = cached_fresh_response env ck cache in
           case found of
             Inl e \<Rightarrow> Some (Inl e, cache)
           | Inr (Some resp) \<Rightarrow> Some (Inr resp, cache)
           | Inr None \<Rightarrow> serve_path env target req path_decoded ck cache))"

section \<open>Nothing outside the directory\<close>

lemma split_on_not_Nil [simp]: "split_on c s \<noteq> []"
  by (induction s) (auto split: list.splits)

lemma split_on_append: "split_on c (a @ c # b) = split_on c a @ split_on c b"
  by (induction a) (auto split: list.splits)

lemma split_on_single: "c \<notin> set s \<Longrightarrow> split_on c s = [s]"
  by (induction s) auto

lemma path_components_join:
  assumes "CHR ''/'' \<notin> set name" and "name \<noteq> []" and "name \<noteq> ''.''" and "name \<noteq> ''..''"
  shows "path_components (path_join d name) = path_components d @ [Normal name]"
proof -
  have n: "split_on CHR ''/'' name = [name]" using split_on_single [OF assms(1)] .
  have nr: "\<not> starts_with name ''/''" "\<not> starts_with name ''./''"
    using assms(1,2) by (cases name; auto; cases "tl name"; auto)+
  show ?thesis
  proof (cases "d = [] \<or> ends_with d ''/''")
    case True
    then consider "d = []" | e where "d = e @ ''/''" by (auto simp: ends_with_iff)
    then show ?thesis
    proof cases
      case 1
      with n nr assms show ?thesis
        by (simp add: path_join_def path_components_def component_of_def)
    next
      case 2
      have "path_join d name = e @ CHR ''/'' # name"
        using 2 nr True by (simp add: path_join_def)
      moreover have "starts_with (e @ CHR ''/'' # name) ''/'' = starts_with (e @ ''/'') ''/''"
        "(e @ CHR ''/'' # name = ''.'' \<or> starts_with (e @ CHR ''/'' # name) ''./'') =
         (e @ ''/'' = ''.'' \<or> starts_with (e @ ''/'') ''./'')"
        using assms(2) by (cases e; auto; cases "tl e"; auto)+
      ultimately show ?thesis
        using 2 n assms by (simp add: path_components_def component_of_def split_on_append)
    qed
  next
    case False
    then have "path_join d name = d @ CHR ''/'' # name"
      using nr by (simp add: path_join_def)
    moreover have "starts_with (d @ CHR ''/'' # name) ''/'' = starts_with d ''/''"
      "(d @ CHR ''/'' # name = ''.'' \<or> starts_with (d @ CHR ''/'' # name) ''./'') = (d = ''.'' \<or> starts_with d ''./'')"
      using assms(2) False by (cases d; auto; cases "tl d"; auto)+
    ultimately show ?thesis
      using n assms by (simp add: path_components_def component_of_def split_on_append)
  qed
qed

lemma find_in_set: "List.find P xs = Some x \<Longrightarrow> x \<in> set xs"
  by (induction xs) (auto split: if_splits)

lemma index_under:
  assumes "path_under base dir" and "index_file env dir = Some p"
  shows "path_under base p"
proof -
  obtain name where "name \<in> set index_names" "p = path_join dir name"
    using assms(2) by (auto simp: index_file_def dest!: find_in_set)
  then have "path_components p = path_components dir @ [Normal name]"
    by (auto simp: index_names_def intro!: path_components_join)
  with assms(1) show ?thesis by (simp add: path_under_def starts_with_append)
qed

definition same_inside :: "string \<Rightarrow> dir_env \<Rightarrow> dir_env \<Rightarrow> bool" where
  "same_inside base env env' \<longleftrightarrow>
     env' = env\<lparr> dv_metadata := dv_metadata env', dv_read := dv_read env', dv_read_dir := dv_read_dir env' \<rparr> \<and>
     (\<forall>p. path_under base p \<longrightarrow> dv_metadata env' p = dv_metadata env p \<and> dv_read env' p = dv_read env p \<and>
        dv_read_dir env' p = dv_read_dir env p)"

lemma same_inside_fields:
  assumes "same_inside base env env'"
  shows "dv_lib env' = dv_lib env" "dv_now env' = dv_now env" "dv_decode env' = dv_decode env" "dv_cookie env' = dv_cookie env"
    "dv_canonicalize env' = dv_canonicalize env" "dv_exists env' = dv_exists env" "dv_is_file env' = dv_is_file env"
    "dv_is_dir env' = dv_is_dir env" "dv_lossy env' = dv_lossy env" "dv_lower env' = dv_lower env" "dv_mime env' = dv_mime env"
    "dv_fmt_http_date env' = dv_fmt_http_date env" "dv_parse_http_date env' = dv_parse_http_date env"
    "dv_markdown env' = dv_markdown env"
proof -
  have "env' = env\<lparr> dv_metadata := dv_metadata env', dv_read := dv_read env', dv_read_dir := dv_read_dir env' \<rparr>"
    using assms by (simp add: same_inside_def)
  then obtain m r d where "env' = env\<lparr> dv_metadata := m, dv_read := r, dv_read_dir := d \<rparr>" by blast
  then show "dv_lib env' = dv_lib env" "dv_now env' = dv_now env" "dv_decode env' = dv_decode env" "dv_cookie env' = dv_cookie env"
    "dv_canonicalize env' = dv_canonicalize env" "dv_exists env' = dv_exists env" "dv_is_file env' = dv_is_file env"
    "dv_is_dir env' = dv_is_dir env" "dv_lossy env' = dv_lossy env" "dv_lower env' = dv_lower env" "dv_mime env' = dv_mime env"
    "dv_fmt_http_date env' = dv_fmt_http_date env" "dv_parse_http_date env' = dv_parse_http_date env"
    "dv_markdown env' = dv_markdown env"
    by simp_all
qed

lemma same_inside_contents:
  assumes "same_inside base env env'" and "path_under base p"
  shows "dv_metadata env' p = dv_metadata env p" "dv_read env' p = dv_read env p" "dv_read_dir env' p = dv_read_dir env p"
  using assms by (auto simp: same_inside_def)

lemma same_inside_file:
  assumes "same_inside base env env'" and "path_under base p"
  shows "serve_file env' cfg req p ck cache = serve_file env cfg req p ck cache"
  unfolding serve_file_def serve_plain_file_def serve_markdown_def is_not_modified_def cache_response_def theme_from_req_def
    cookie_of_def markdown_to_html_def same_inside_fields [OF assms(1)] same_inside_contents [OF assms] ..

lemma same_inside_dir:
  assumes "same_inside base env env'" and "path_under base p"
  shows "serve_dir env' cfg req p path ck cache = serve_dir env cfg req p path ck cache"
proof -
  have lines: "entry_lines env' path es = entry_lines env path es" for es
  proof (induction es)
    case (Cons e es)
    show ?case unfolding entry_lines.simps Cons entry_line_def same_inside_fields [OF assms(1)] ..
  qed simp
  have "index_file env' p = index_file env p"
    unfolding index_file_def same_inside_fields [OF assms(1)] ..
  moreover have "build_dir_listing env' p path = build_dir_listing env p path"
    unfolding build_dir_listing_def lines same_inside_fields [OF assms(1)] same_inside_contents [OF assms] ..
  ultimately show ?thesis
    using same_inside_file [OF assms(1) index_under [OF assms(2)]]
    unfolding serve_dir_def cache_response_def same_inside_fields [OF assms(1)] by (auto split: option.splits)
qed

text \<open>C15: The answer to a request of a directory site depends on the content, the metadata
  and the listings of paths under the site's directory only: two file systems that agree there (and
  resolve links alike) give the same answer and the same cache, whatever path is asked for.\<close>

theorem served_from_inside:
  assumes "same_inside (ds_dir target) env env'"
  shows "handle_dir env' target req cache = handle_dir env target req cache"
proof -
  have path: "serve_path env' target req path ck c = serve_path env target req path ck c" for path ck c
    using same_inside_file [OF assms] same_inside_dir [OF assms]
    unfolding serve_path_def same_inside_fields [OF assms] by (auto split: sum.split option.split)
  show ?thesis
    unfolding handle_dir_def cached_fresh_response_def cache_key_def cookie_of_def same_inside_fields [OF assms] path ..
qed

section \<open>The cache\<close>

lemma build_Inr: "build st h b = Inr r \<longleftrightarrow> (\<exists>m. h = Some m \<and> r = \<lparr> hr_status = st, hr_headers = m, hr_body = b, hr_upgrade = None \<rparr>)"
  by (auto simp: build_def split: option.splits)

lemma apply_streaming_fields:
  "apply_streaming_headers lib ct a c n r = Some r' \<Longrightarrow> hr_status r' = 200 \<and> hr_body r' = hr_body r"
  by (auto simp: apply_streaming_headers_def)

lemma build_response_fields:
  "build_response lib st ct a c b = Inr r \<Longrightarrow> hr_status r = st \<and> hr_body r = Text b"
  by (auto simp: build_response_def build_Inr)

text \<open>What is put into the cache: the answer that is given, under its key.\<close>

definition answer_cached :: "dir_env \<Rightarrow> string \<Rightarrow> Cache \<Rightarrow> (string + string Response) \<Rightarrow> Cache \<Rightarrow> bool" where
  "answer_cached env ck cache res cache' \<longleftrightarrow>
     cache' = cache \<or>
     (\<exists>r ct resp. res = Inr r \<and> cache' = cache(ck \<mapsto> (ct, dv_now env, resp)) \<and>
        hr_status r = 200 \<and> hr_status resp = 200 \<and> hr_body resp = hr_body r)"

lemma answer_cached_same [simp]: "answer_cached env ck cache res cache"
  by (simp add: answer_cached_def)

lemma answer_cached_new [simp]:
  assumes "hr_status r = 200" and "hr_status resp = 200" and "hr_body resp = hr_body r"
  shows "answer_cached env ck cache (Inr r) (cache(ck \<mapsto> (ct, dv_now env, resp)))"
  using assms unfolding answer_cached_def by blast

lemma answer_cached_built [simp]:
  assumes "Inr x = build_response lib 200 ct a c b"
  shows "answer_cached env ck cache (build_response lib 200 ct a c b) (cache(ck \<mapsto> (k, dv_now env, x)))"
  using build_response_fields [OF assms [symmetric]] by (simp add: assms [symmetric])

lemma serve_markdown_cached:
  "serve_markdown env cfg b e l ck t cache = (res, cache') \<Longrightarrow> answer_cached env ck cache res cache'"
  by (auto simp: serve_markdown_def cache_response_def split: sum.splits dest!: build_response_fields)

lemma serve_plain_file_cases:
  assumes "serve_plain_file env cfg req p meta e l ck cache = Some (res, cache')"
  obtains mime resp where
    "apply_streaming_headers (dv_lib env) mime (ds_cache_control_max_age_in_seconds cfg) (Some (e, l)) (Some (md_len meta))
       (new_response EmptyBody) = Some resp"
    "hq_method req = ''HEAD'' \<and> res = Inr resp \<and> cache' = cache \<or>
     hq_method req \<noteq> ''HEAD'' \<and> \<not> unat (md_len meta) \<le> SMALL_FILE_MAX \<and> res = Inr (resp\<lparr> hr_body := Forwarded p \<rparr>) \<and> cache' = cache \<or>
     hq_method req \<noteq> ''HEAD'' \<and> unat (md_len meta) \<le> SMALL_FILE_MAX \<and>
       (case dv_read env p of
          Inl x \<Rightarrow> res = Inl x \<and> cache' = cache
        | Inr content \<Rightarrow>
            res = Inr (resp\<lparr> hr_body := Text content \<rparr>) \<and>
            cache' = (if 0 < md_len meta then
              (case build_response (dv_lib env) 200 mime (ds_cache_control_max_age_in_seconds cfg) (Some (e, l)) content of
                 Inr cached \<Rightarrow> cache_response env ck mime cached cache | Inl _ \<Rightarrow> cache) else cache))"
  using assms unfolding serve_plain_file_def Let_def bind_eq_Some_conv
  by (elim exE conjE) (auto split: if_splits sum.splits)

lemma serve_plain_file_cached:
  assumes "serve_plain_file env cfg req p meta e l ck cache = Some (res, cache')"
  shows "answer_cached env ck cache res cache'"
proof -
  from assms obtain mime resp where
    "apply_streaming_headers (dv_lib env) mime (ds_cache_control_max_age_in_seconds cfg) (Some (e, l)) (Some (md_len meta))
       (new_response EmptyBody) = Some resp"
    and c: "hq_method req = ''HEAD'' \<and> res = Inr resp \<and> cache' = cache \<or>
     hq_method req \<noteq> ''HEAD'' \<and> \<not> unat (md_len meta) \<le> SMALL_FILE_MAX \<and> res = Inr (resp\<lparr> hr_body := Forwarded p \<rparr>) \<and> cache' = cache \<or>
     hq_method req \<noteq> ''HEAD'' \<and> unat (md_len meta) \<le> SMALL_FILE_MAX \<and>
       (case dv_read env p of
          Inl x \<Rightarrow> res = Inl x \<and> cache' = cache
        | Inr content \<Rightarrow>
            res = Inr (resp\<lparr> hr_body := Text content \<rparr>) \<and>
            cache' = (if 0 < md_len meta then
              (case build_response (dv_lib env) 200 mime (ds_cache_control_max_age_in_seconds cfg) (Some (e, l)) content of
                 Inr cached \<Rightarrow> cache_response env ck mime cached cache | Inl _ \<Rightarrow> cache) else cache))"
    by (rule serve_plain_file_cases)
  then have "hr_status resp = 200" by (simp add: apply_streaming_fields)
  with c show ?thesis
    by (auto simp: cache_response_def split: sum.splits if_splits dest!: build_response_fields)
qed

lemma serve_file_cached:
  "serve_file env cfg req p ck cache = Some (res, cache') \<Longrightarrow> answer_cached env ck cache res cache'"
  by (auto simp: serve_file_def Let_def split: option.splits if_splits sum.splits
      dest: serve_markdown_cached serve_plain_file_cached)

lemma serve_dir_cached:
  "serve_dir env cfg req d p ck cache = Some (res, cache') \<Longrightarrow> answer_cached env ck cache res cache'"
  by (auto simp: serve_dir_def split: option.splits if_splits sum.splits dest: serve_file_cached)
    (auto simp: cache_response_def dest!: build_response_fields)

lemma serve_path_cached:
  "serve_path env t req p ck cache = Some (res, cache') \<Longrightarrow> answer_cached env ck cache res cache'"
  by (auto simp: serve_path_def split: option.splits if_splits sum.splits dest: serve_file_cached serve_dir_cached)

text \<open>C38: For ten seconds a response that was put into the cache answers every request of the
  same key with its status 200 and its body, whatever site, method and conditions that request has;
  the key joins host, cookies and path by hyphens, so requests of different sites can share it.\<close>

theorem cached_answer_by_key:
  assumes "handle_dir env target req cache = Some (res, cache')" and "dv_decode env (ur_path (hq_uri req)) = Inr p"
    and "cache (cache_key env target req p) = None" and "cache' (cache_key env target req p) \<noteq> None"
    and "dv_decode env' (ur_path (hq_uri req')) = Inr p'" and "cache_key env' target' req' p' = cache_key env target req p"
    and "dv_now env' < dv_now env + ten_seconds" and "hl_from_str (dv_lib env') (cache_key env target req p) = Some v"
  shows "\<exists>r r'. res = Inr r \<and> handle_dir env' target' req' cache' = Some (Inr r', cache') \<and>
    hr_status r' = 200 \<and> hr_body r' = hr_body r"
proof -
  let ?ck = "cache_key env target req p"
  have "serve_path env target req p ?ck cache = Some (res, cache')"
    using assms(1-3) by (simp add: handle_dir_def cached_fresh_response_def)
  from serve_path_cached [OF this] assms(3,4) obtain r ct resp where
    r: "res = Inr r" "cache' ?ck = Some (ct, dv_now env, resp)" "hr_status resp = 200" "hr_body resp = hr_body r"
    by (auto simp: answer_cached_def)
  have "dv_now env' - dv_now env < ten_seconds"
    using assms(7) by (simp add: ten_seconds_def)
  with r assms(5,6,8) show ?thesis
    by (auto simp: handle_dir_def cached_fresh_response_def)
qed

section \<open>Dates\<close>

text \<open>A client that sends back the Last-Modified date it was given is answered 304 only if the
  file was changed at a whole second, as the date has no fraction.\<close>

theorem own_date_not_recognised:
  assumes "\<And>u. 0 \<le> u \<Longrightarrow> dv_parse_http_date env (dv_fmt_http_date env u) = Some (u div NANOS * NANOS)" and "0 \<le> t"
    and "header_get ''if-none-match'' (hq_headers req) = None"
    and "header_get ''if-modified-since'' (hq_headers req) = Some hv" and "hl_to_str (dv_lib env) hv = Some (dv_fmt_http_date env t)"
  shows "is_not_modified env req etag (Some t) \<longleftrightarrow> t mod NANOS = 0"
proof -
  have "is_not_modified env req etag (Some t) \<longleftrightarrow> t \<le> t div NANOS * NANOS"
    using assms by (simp add: is_not_modified_def)
  also have "\<dots> \<longleftrightarrow> t mod NANOS = 0"
    unfolding minus_mod_eq_div_mult [symmetric] using pos_mod_sign [of NANOS t] by (auto simp: NANOS_def)
  finally show ?thesis .
qed

section \<open>The redirect to the directory\<close>

lemma trim_front_slash: "trim_front (p @ ''/'') = (if trim_front p = [] then [] else trim_front p @ ''/'')"
proof (induction p)
  case (Cons c p)
  then show ?case by (cases p) auto
qed simp

lemma trim_path_slash: "x \<noteq> [] \<Longrightarrow> trim_path (x @ ''/'') = trim_path x"
  by (subst trim_path.simps) (simp add: ends_with_iff)

lemma requested_path_slash:
  assumes "starts_with p ''/''"
  shows "requested_path target (p @ ''/'') = requested_path target p"
  using assms
  by (simp add: requested_path_def strip_root_def trim_front_slash trim_path_slash starts_with_append)

lemma serve_file_status:
  "serve_file env cfg req p ck cache = Some (Inr r, cache') \<Longrightarrow> hr_status r \<noteq> 301"
  by (auto simp: serve_file_def serve_plain_file_def serve_markdown_def simple_status_def build_response_def build_Inr Let_def
      bind_eq_Some_conv split: option.splits if_splits sum.splits dest!: apply_streaming_fields)

text \<open>A directory asked for without a final slash is redirected to the path with it, which is
  never redirected again.\<close>

theorem redirected_once:
  assumes "serve_path env target req p ck cache = Some (Inr r, cache')" and "hr_status r = 301" and "starts_with p ''/''"
  shows "header_get ''location'' (hr_headers r) = hl_from_str (dv_lib env) (p @ ''/'') \<and>
    (\<forall>req' ck' c r' c'. serve_path env target req' (p @ ''/'') ck' c = Some (Inr r', c') \<longrightarrow> hr_status r' \<noteq> 301)"
proof -
  obtain full where f: "dv_canonicalize env (requested_path target p) = Inr full" "dv_exists env full"
      "path_under (ds_dir target) full" "\<not> dv_is_file env full" "dv_is_dir env full"
    and d: "serve_dir env target req full p ck cache = Some (Inr r, cache')"
    using assms(1,2)
    by (auto simp: serve_path_def simple_status_def split: sum.splits option.splits if_splits dest: serve_file_status)
  from d assms(2) have "header_get ''location'' (hr_headers r) = hl_from_str (dv_lib env) (p @ ''/'')"
    by (auto simp: serve_dir_def simple_status_def build_response_def build_Inr put_header_def header_get_def
        split: if_splits option.splits sum.splits dest: serve_file_status)
  moreover have "hr_status r' \<noteq> 301" if "serve_path env target req' (p @ ''/'') ck' c = Some (Inr r', c')" for req' :: "'b Request" and ck' c r' c'
    using that f requested_path_slash [OF assms(3)]
    by (auto simp: serve_path_def serve_dir_def simple_status_def build_response_def build_Inr ends_with_iff
        split: if_splits option.splits sum.splits dest: serve_file_status)
  ultimately show ?thesis by blast
qed

section \<open>Listings\<close>

lemma not_greater_trans:
  assumes "entry_cmp lower a b \<noteq> Greater" and "entry_cmp lower b c \<noteq> Greater"
  shows "entry_cmp lower a c \<noteq> Greater"
  using assms by (auto simp: not_less)

lemma sorted_wrt_entries:
  "Sorting_Algorithms.sorted (entry_comparator lower) es \<Longrightarrow> sorted_wrt (\<lambda>a b. entry_cmp lower a b \<noteq> Greater) es"
proof (induction es rule: induct_list012)
  case (3 x y zs)
  then have "entry_cmp lower x y \<noteq> Greater" "sorted_wrt (\<lambda>a b. entry_cmp lower a b \<noteq> Greater) (y # zs)"
    by (simp_all add: entry_comparator.rep_eq del: entry_cmp_simps)
  then show ?case
    using not_greater_trans [of lower x y] by (auto simp del: entry_cmp_simps)
qed simp_all

lemma entry_lines_Inr:
  "entry_lines env p es = Inr t \<Longrightarrow>
     (\<forall>e \<in> set es. en_meta e \<noteq> None) \<and>
     t = concat (map (\<lambda>e. case en_meta e of Some (d, n) \<Rightarrow> entry_line env p (en_name e) d n | None \<Rightarrow> []) es)"
  by (induction es arbitrary: t) (auto split: option.splits sum.splits)

text \<open>A listing has every entry of the directory exactly once, directories first, and by
  lower-case name within each kind.\<close>

theorem listing_in_order:
  assumes "build_dir_listing env dir p = Inr t"
  shows "\<exists>entries es. dv_read_dir env dir = Inr entries \<and> mset es = mset entries \<and>
    sorted_wrt (\<lambda>a b. (entry_is_dir b \<longrightarrow> entry_is_dir a) \<and>
      (entry_is_dir a = entry_is_dir b \<longrightarrow> dv_lower env (en_name a) \<le> dv_lower env (en_name b))) es \<and>
    t = listing_head @ up_link p @
      concat (map (\<lambda>e. case en_meta e of Some (d, n) \<Rightarrow> entry_line env p (en_name e) d n | None \<Rightarrow> []) es) @ ''</ul>''"
proof -
  obtain entries where r: "dv_read_dir env dir = Inr entries"
    using assms by (auto simp: build_dir_listing_def split: sum.splits)
  define es where "es = Sorting_Algorithms.sort (entry_comparator (dv_lower env)) entries"
  have "sorted_wrt (\<lambda>a b. entry_cmp (dv_lower env) a b \<noteq> Greater) es"
    unfolding es_def by (intro sorted_wrt_entries) simp
  then have "sorted_wrt (\<lambda>a b. (entry_is_dir b \<longrightarrow> entry_is_dir a) \<and>
      (entry_is_dir a = entry_is_dir b \<longrightarrow> dv_lower env (en_name a) \<le> dv_lower env (en_name b))) es"
    by (rule sorted_wrt_mono_rel [rotated]) auto
  moreover have "mset es = mset entries" by (simp add: es_def)
  moreover obtain lines where "entry_lines env p es = Inr lines" "t = listing_head @ up_link p @ lines @ ''</ul>''"
    using assms r by (auto simp: build_dir_listing_def es_def split: sum.splits)
  ultimately show ?thesis
    using r entry_lines_Inr by (intro exI [of _ entries] exI [of _ es]) blast
qed

section \<open>Cookies\<close>

text \<open>A theme cookie that is not the first cookie of the request has no effect.\<close>

theorem theme_only_in_first_cookie:
  assumes "cookie_of env req = Some raw" and "split_on CHR '';'' raw = c # cs"
    and "dv_cookie env (trim_blanks c) = Some (name, v)" and "name \<noteq> ''theme''"
  shows "theme_from_req env req = Auto"
  using assms by (simp add: theme_from_req_def find_map_def List.map_filter_simps)

section \<open>A file\<close>

text \<open>A file of at most two megabytes is answered with its content, length, date, tag and
  maximal age, and is in the cache afterwards exactly when it is not empty.\<close>

theorem small_file_served:
  assumes "dv_decode env (ur_path (hq_uri req)) = Inr p" and "cache (cache_key env target req p) = None"
    and "dv_canonicalize env (requested_path target p) = Inr full" and "dv_exists env full" and "dv_is_file env full"
    and "path_under (ds_dir target) full" and "dv_metadata env full = Some meta" and "dv_read env full = Inr content"
    and "\<not> is_not_modified env req (file_etag meta (cache_key env target req p)) (md_modified meta)"
    and "\<not> (is_set (ds_render_markdown target) \<and> extension_is_md full)"
    and "hq_method req \<noteq> ''HEAD''" and "unat (md_len meta) \<le> SMALL_FILE_MAX" and "\<And>v. hl_from_str (dv_lib env) v = Some v"
  shows "\<exists>r cache'. handle_dir env target req cache = Some (Inr r, cache') \<and> hr_status r = 200 \<and> hr_body r = Text content \<and>
    header_get ''content-length'' (hr_headers r) = Some (dec (unat (md_len meta))) \<and>
    header_get ''etag'' (hr_headers r) = Some (file_etag meta (cache_key env target req p)) \<and>
    header_get ''last-modified'' (hr_headers r) = Some (dv_fmt_http_date env (unwrap_or (md_modified meta) 0)) \<and>
    header_get ''cache-control'' (hr_headers r) = map_option max_age_text (ds_cache_control_max_age_in_seconds target) \<and>
    (cache' (cache_key env target req p) \<noteq> None \<longleftrightarrow> 0 < md_len meta)"
proof -
  let ?ck = "cache_key env target req p" and ?e = "file_etag meta (cache_key env target req p)"
  let ?l = "dv_fmt_http_date env (unwrap_or (md_modified meta) 0)"
  let ?mime = "if extension_is_md full then ''text/plain; charset=utf-8'' else dv_mime env full"
  have put: "put_header (dv_lib env) k v (Some h) = Some (h(k \<mapsto> [v]))" for k v h
    using assms(13) by (simp add: put_header_def)
  obtain resp :: "string Response" where a: "apply_streaming_headers (dv_lib env) ?mime (ds_cache_control_max_age_in_seconds target) (Some (?e, ?l))
      (Some (md_len meta)) (new_response EmptyBody) = Some resp"
    and h: "header_get ''content-length'' (hr_headers resp) = Some (dec (unat (md_len meta)))"
      "header_get ''etag'' (hr_headers resp) = Some ?e" "header_get ''last-modified'' (hr_headers resp) = Some ?l"
      "header_get ''cache-control'' (hr_headers resp) = map_option max_age_text (ds_cache_control_max_age_in_seconds target)"
    by (cases "ds_cache_control_max_age_in_seconds target")
      (simp_all add: apply_streaming_headers_def put put_conditional_def put_max_age_def new_response_def header_get_def)
  obtain cached where b: "build_response (dv_lib env) 200 ?mime (ds_cache_control_max_age_in_seconds target) (Some (?e, ?l)) content = Inr cached"
    by (cases "ds_cache_control_max_age_in_seconds target")
      (simp_all add: build_response_def put put_conditional_def put_max_age_def build_def)
  have "serve_plain_file env target req full meta ?e ?l ?ck cache =
      Some (Inr (resp\<lparr> hr_body := Text content \<rparr>), if 0 < md_len meta then cache_response env ?ck ?mime cached cache else cache)"
    using a b assms(8,11,12) by (cases "extension_is_md full") (simp_all add: serve_plain_file_def Let_def)
  then have "handle_dir env target req cache =
      Some (Inr (resp\<lparr> hr_body := Text content \<rparr>), if 0 < md_len meta then cache_response env ?ck ?mime cached cache else cache)"
    using assms(1-7,9,10) by (auto simp: handle_dir_def cached_fresh_response_def serve_path_def serve_file_def Let_def)
  then show ?thesis
    using h apply_streaming_fields [OF a] assms(2) by (auto simp: cache_response_def)
qed

section \<open>Examples\<close>

definition dir_sample :: "string \<Rightarrow> DirServer" where
  "dir_sample host =
     \<lparr> ds_dir = ''/srv'', ds_host_name = host, ds_capture_subdomains = None, ds_enable_lets_encrypt = None,
       ds_enable_directory_browsing = Some True, ds_redirect_to_https = None, ds_render_markdown = None,
       ds_cache_control_max_age_in_seconds = Some 60 \<rparr>"

text \<open>A directory \<open>/srv\<close> with a file \<open>a.txt\<close>, which was changed half a second after 1970 began.\<close>

definition dir_env_sample :: "nat \<Rightarrow> string \<Rightarrow> dir_env" where
  "dir_env_sample now content =
     \<lparr> dv_lib = lib_sample, dv_now = now, dv_decode = Inr, dv_cookie = (\<lambda>c. Some (takeWhile (\<lambda>x. x \<noteq> CHR ''='') c, tl (dropWhile (\<lambda>x. x \<noteq> CHR ''='') c))),
       dv_canonicalize = (\<lambda>p. if p \<in> {''/srv/'', ''/srv/a.txt'', ''/srv/d''} then Inr p else Inl None),
       dv_exists = (\<lambda>_. True), dv_is_file = (\<lambda>p. p = ''/srv/a.txt''), dv_is_dir = (\<lambda>p. p \<in> {''/srv/'', ''/srv/d''}),
       dv_metadata = (\<lambda>p. if p = ''/srv/a.txt'' then Some \<lparr> md_len = of_nat (length content), md_modified = Some 500000000 \<rparr> else None),
       dv_read = (\<lambda>p. if p = ''/srv/a.txt'' then Inr content else Inl ''read''),
       dv_read_dir = (\<lambda>p. Inr [\<lparr> en_name = ''a.txt'', en_meta = Some (False, 3) \<rparr>, \<lparr> en_name = ''d'', en_meta = Some (True, 0) \<rparr>]),
       dv_lossy = (\<lambda>s. s), dv_lower = (\<lambda>s. s), dv_mime = (\<lambda>_. ''text/plain''), dv_fmt_http_date = (\<lambda>t. replicate (nat (t div NANOS)) CHR ''s''),
       dv_parse_http_date = (\<lambda>s. Some (int (length s) * NANOS)), dv_markdown = Inr \<rparr>"

lemmas dir_samples = dir_sample_def dir_env_sample_def http_samples

lemma full_path_under: "path_under ''/srv'' ''/srv/a.txt''" "path_under ''/srv'' ''/srv/d''"
  by (simp_all add: path_under_def path_components_def component_of_def)

lemma requested_sample:
  "requested_path (dir_sample h) ''/a.txt'' = ''/srv/a.txt''" "requested_path (dir_sample h) ''/d'' = ''/srv/d''"
  "requested_path (dir_sample h) ''/d/'' = ''/srv/d''"
  by (simp_all add: requested_path_def strip_root_def path_join_def dir_sample_def trim_path.simps ends_with_def)

lemma served_from_inside_witness:
  "same_inside (ds_dir (dir_sample ''a'')) (dir_env_sample 0 ''abc'')
     ((dir_env_sample 0 ''abc'')\<lparr> dv_read := (dv_read (dir_env_sample 0 ''abc''))(''/etc/passwd'' := Inr ''root'') \<rparr>) \<and>
   handle_dir ((dir_env_sample 0 ''abc'')\<lparr> dv_read := (dv_read (dir_env_sample 0 ''abc''))(''/etc/passwd'' := Inr ''root'') \<rparr>)
     (dir_sample ''a'') (request_sample ''/a.txt'' Map.empty) Map.empty =
   handle_dir (dir_env_sample 0 ''abc'') (dir_sample ''a'') (request_sample ''/a.txt'' Map.empty) Map.empty"
proof -
  have "\<not> path_under ''/srv'' ''/etc/passwd''"
    by (simp add: path_under_def path_components_def component_of_def)
  then have s: "same_inside (ds_dir (dir_sample ''a'')) (dir_env_sample 0 ''abc'')
     ((dir_env_sample 0 ''abc'')\<lparr> dv_read := (dv_read (dir_env_sample 0 ''abc''))(''/etc/passwd'' := Inr ''root'') \<rparr>)"
    by (auto simp: same_inside_def dir_sample_def)
  from served_from_inside [OF this] s show ?thesis by blast
qed

lemma own_date_not_recognised_witness:
  "\<not> is_not_modified (dir_env_sample 0 ''abc'') (request_sample ''/a.txt'' [''if-modified-since'' \<mapsto> [dv_fmt_http_date (dir_env_sample 0 ''abc'') 500000000]])
     ''e'' (Some 500000000)"
proof -
  have "is_not_modified (dir_env_sample 0 ''abc'') (request_sample ''/a.txt'' [''if-modified-since'' \<mapsto> [dv_fmt_http_date (dir_env_sample 0 ''abc'') 500000000]])
     ''e'' (Some 500000000) \<longleftrightarrow> 500000000 mod NANOS = 0"
    by (rule own_date_not_recognised)
      (simp_all add: header_get_def dir_env_sample_def request_sample_def lib_sample_def NANOS_def)
  then show ?thesis by (simp add: NANOS_def)
qed

lemma small_file_served_witness:
  "\<exists>r cache'. handle_dir (dir_env_sample 0 ''abc'') (dir_sample ''a'') (request_sample ''/a.txt'' Map.empty) Map.empty = Some (Inr r, cache') \<and>
     hr_body r = Text ''abc'' \<and> header_get ''content-length'' (hr_headers r) = Some ''3'' \<and>
     cache' (cache_key (dir_env_sample 0 ''abc'') (dir_sample ''a'') (request_sample ''/a.txt'' Map.empty) ''/a.txt'') \<noteq> None"
proof -
  have "\<exists>r cache'. handle_dir (dir_env_sample 0 ''abc'') (dir_sample ''a'') (request_sample ''/a.txt'' Map.empty) Map.empty = Some (Inr r, cache') \<and>
      hr_status r = 200 \<and> hr_body r = Text ''abc'' \<and> header_get ''content-length'' (hr_headers r) = Some (dec (unat (3 :: u64))) \<and>
      (cache' (cache_key (dir_env_sample 0 ''abc'') (dir_sample ''a'') (request_sample ''/a.txt'' Map.empty) ''/a.txt'') \<noteq> None \<longleftrightarrow> 0 < (3 :: u64))"
    using small_file_served [where env = "dir_env_sample 0 ''abc''" and target = "dir_sample ''a''" and cache = Map.empty
        and req = "request_sample ''/a.txt'' Map.empty" and p = "''/a.txt''" and full = "''/srv/a.txt''" and content = "''abc''"
        and meta = "\<lparr> md_len = 3, md_modified = Some 500000000 \<rparr>"] full_path_under(1)
    by (auto simp: requested_sample is_not_modified_def header_get_def SMALL_FILE_MAX_def dir_env_sample_def request_sample_def
        lib_sample_def) (auto simp: dir_sample_def)
  then show ?thesis by (auto simp: dec.simps digit_char_def)
qed

text \<open>Two sites, asked with different cookies, have the same key.\<close>

lemma cached_answer_by_key_witness:
  "\<exists>r cache' r'. handle_dir (dir_env_sample 0 ''abc'') (dir_sample ''a'') (request_sample ''/a.txt'' [''cookie'' \<mapsto> [''b-c'']]) Map.empty = Some (Inr r, cache') \<and>
     handle_dir (dir_env_sample 1 ''other'') (dir_sample ''a-b'') (request_sample ''/a.txt'' [''cookie'' \<mapsto> [''c'']]) cache' = Some (Inr r', cache') \<and>
     hr_body r' = Text ''abc''"
proof -
  let ?req = "request_sample ''/a.txt'' [''cookie'' \<mapsto> [''b-c'']]"
  obtain r cache' where r: "handle_dir (dir_env_sample 0 ''abc'') (dir_sample ''a'') ?req Map.empty = Some (Inr r, cache')"
      "hr_body r = Text ''abc''"
      "cache' (cache_key (dir_env_sample 0 ''abc'') (dir_sample ''a'') ?req ''/a.txt'') \<noteq> None"
    using small_file_served [where env = "dir_env_sample 0 ''abc''" and target = "dir_sample ''a''" and cache = Map.empty
        and req = ?req and p = "''/a.txt''" and full = "''/srv/a.txt''" and content = "''abc''"
        and meta = "\<lparr> md_len = 3, md_modified = Some 500000000 \<rparr>"] full_path_under(1)
    by (auto simp: requested_sample is_not_modified_def header_get_def SMALL_FILE_MAX_def dir_env_sample_def request_sample_def
        lib_sample_def) (auto simp: dir_sample_def)
  have "\<exists>x r'. Inr r = (Inr x :: string + string Response) \<and>
      handle_dir (dir_env_sample 1 ''other'') (dir_sample ''a-b'') (request_sample ''/a.txt'' [''cookie'' \<mapsto> [''c'']]) cache' = Some (Inr r', cache') \<and>
      hr_status r' = 200 \<and> hr_body r' = hr_body x"
    by (rule cached_answer_by_key [OF r(1) _ _ r(3)])
      (simp_all add: dir_samples cache_key_def cookie_of_def header_str_def header_get_def ten_seconds_def)
  with r(1,2) show ?thesis by auto
qed

lemma redirected_once_witness:
  "\<exists>r. serve_path (dir_env_sample 0 ''abc'') (dir_sample ''a'') (request_sample ''/d'' Map.empty) ''/d'' ''k'' Map.empty = Some (Inr r, Map.empty) \<and>
     header_get ''location'' (hr_headers r) = Some ''/d/''"
proof -
  obtain r where d: "serve_dir (dir_env_sample 0 ''abc'') (dir_sample ''a'') (request_sample ''/d'' Map.empty) ''/srv/d'' ''/d'' ''k'' Map.empty =
      Some (Inr r, Map.empty)" "hr_status r = 301"
    by (simp add: serve_dir_def dir_env_sample_def build_def put_header_def lib_sample_def ends_with_def)
  have "ds_dir (dir_sample ''a'') = ''/srv''" by (simp add: dir_sample_def)
  with d(1) full_path_under(2) have r:
    "serve_path (dir_env_sample 0 ''abc'') (dir_sample ''a'') (request_sample ''/d'' Map.empty) ''/d'' ''k'' Map.empty = Some (Inr r, Map.empty)"
    unfolding serve_path_def requested_sample by (simp add: dir_env_sample_def)
  have "header_get ''location'' (hr_headers r) = hl_from_str (dv_lib (dir_env_sample 0 ''abc'')) (''/d'' @ ''/'')"
    by (rule conjunct1 [OF redirected_once [OF r d(2)]]) simp
  then have "header_get ''location'' (hr_headers r) = Some ''/d/''"
    by (simp add: dir_env_sample_def lib_sample_def)
  with r show ?thesis by blast
qed

lemma mset_two: "mset xs = {#a, b#} \<Longrightarrow> xs = [a, b] \<or> xs = [b, a]"
proof -
  assume m: "mset xs = {#a, b#}"
  then have "length xs = 2" by (metis size_mset size_add_mset size_empty numeral_2_eq_2)
  then obtain x y where "xs = [x, y]" by (auto simp: numeral_2_eq_2 length_Suc_conv)
  with m show ?thesis by (auto simp: add_eq_conv_ex)
qed

lemma listing_in_order_witness:
  "\<exists>t (es :: Entry list). build_dir_listing (dir_env_sample 0 ''abc'') ''/srv/d'' ''/d/'' = Inr t \<and> map en_name es = [''d'', ''a.txt''] \<and>
     t = listing_head @ up_link ''/d/'' @
       concat (map (\<lambda>e. case en_meta e of Some (d, n) \<Rightarrow> entry_line (dir_env_sample 0 ''abc'') ''/d/'' (en_name e) d n | None \<Rightarrow> []) es) @ ''</ul>''"
proof -
  let ?es = "[\<lparr> en_name = ''a.txt'', en_meta = Some (False, 3) \<rparr>, \<lparr> en_name = ''d'', en_meta = Some (True, 0) \<rparr>]"
  obtain t where t: "build_dir_listing (dir_env_sample 0 ''abc'') ''/srv/d'' ''/d/'' = Inr t"
    by (simp add: build_dir_listing_def dir_env_sample_def entry_comparator.rep_eq insort_def entry_cmp_def entry_is_dir_def)
  from listing_in_order [OF t] obtain es where es: "mset es = mset ?es"
      "sorted_wrt (\<lambda>a b. (entry_is_dir b \<longrightarrow> entry_is_dir a) \<and> (entry_is_dir a = entry_is_dir b \<longrightarrow> en_name a \<le> en_name b)) es"
      "t = listing_head @ up_link ''/d/'' @
       concat (map (\<lambda>e. case en_meta e of Some (d, n) \<Rightarrow> entry_line (dir_env_sample 0 ''abc'') ''/d/'' (en_name e) d n | None \<Rightarrow> []) es) @ ''</ul>''"
    by (auto simp: dir_env_sample_def)
  have "es = [?es ! 1, ?es ! 0]"
    using es(2) mset_two [of es "?es ! 0" "?es ! 1"] es(1) by (auto simp: entry_is_dir_def)
  then have "map en_name es = [''d'', ''a.txt'']" by simp
  with t es(3) show ?thesis by (intro exI [of _ t] exI [of _ es] conjI)
qed

lemma theme_only_in_first_cookie_witness:
  "theme_from_req (dir_env_sample 0 ''abc'') (request_sample ''/'' [''cookie'' \<mapsto> [''a=b; theme=dark'']]) = Auto"
  by (rule theme_only_in_first_cookie [where raw = "''a=b; theme=dark''" and c = "''a=b''" and cs = "['' theme=dark'']" and name = "''a''" and v = "''b''"])
    (simp_all add: cookie_of_def header_str_def header_get_def dir_env_sample_def request_sample_def lib_sample_def trim_blanks_def)

end
