(* ===== verification/Admin_Api.thy ===== *)
theory Admin_Api
  imports Reload Http_Service Dir_Pages
begin

text \<open>
  The admin API, \<open>src/api/mod.rs\<close> and \<open>src/api/controllers\<close>: who may call it, the event stream, and the
  handlers that list, change, delete, start and stop sites and change settings. Handlers write the
  configuration to its file and wait for the reload, so the state has the files, and what other tasks do
  in each hundredth of a second of the wait is the function \<open>ae_world\<close>. The web framework, its pages of
  documentation and the JSON reader are the fields of a request; the files of the web interface are those of
  \<open>ae_webui\<close>. A write that fails is taken to leave its file as it was.
\<close>

section \<open>State and requests\<close>

record ('c, 'k) Api =
  ad_app :: "('c, 'k) App"
  ad_files :: "string \<rightharpoonup> string"
  ad_docker :: "ContainerProxyTarget list"
  ad_sent :: "ProcMessage list"

record ('c, 'k) api_env =
  ae_writable :: "string \<Rightarrow> bool"
  ae_receivers :: bool
  ae_world :: "nat \<Rightarrow> ('c, 'k) Api \<Rightarrow> ('c, 'k) Api"
  ae_statuses :: "(string \<rightharpoonup> ProcState) \<Rightarrow> (string \<times> ProcState) list"
  ae_parse_ip :: "string \<Rightarrow> string option"
  ae_webui :: "string \<Rightarrow> (string \<times> string) option"
  ae_webui_names :: "string list"
  ae_is_docs :: "string \<Rightarrow> bool"

datatype ConfigItem = RemoteSite RemoteSiteConfig | HostedProcess InProcessSiteConfig | DirServerItem DirServer

datatype ConfigurationItem =
    ListedProcess InProcessSiteConfig
  | ListedRemote RemoteSiteConfig
  | ListedDirServer DirServer
  | DockerContainer RemoteSiteConfig

record SaveGlobalConfig =
  sg_lets_encrypt_account_email :: string
  sg_odd_box_url :: string
  sg_odd_box_password :: string
  sg_root_dir :: string
  sg_log_level :: LogLevel
  sg_alpn :: bool
  sg_port_range_start :: u16
  sg_default_log_format :: LogFormat
  sg_ip :: string
  sg_http_port :: u16
  sg_tls_port :: u16
  sg_auto_start :: bool
  sg_env_vars :: "EnvVar list"

record OddBoxConfigGlobalPart = SaveGlobalConfig +
  sg_path :: string

record ApiRequest =
  aq_method :: string
  aq_path :: string
  aq_headers :: Headers
  aq_query :: "string \<rightharpoonup> string"
  aq_item :: "ConfigItem option"
  aq_settings :: "SaveGlobalConfig option"

text \<open>\<open>ApiError\<close> is a response with status 500, \<open>ApiBadRequest\<close> one with 400.\<close>

datatype api_answer =
    ApiSites "ConfigurationItem list"
  | ApiStatuses "(string \<times> ProcState) list"
  | ApiSettings OddBoxConfigGlobalPart
  | ApiText string
  | ApiDone
  | ApiError string
  | ApiBadRequest string
  | ApiForbidden
  | ApiRejected
  | ApiNotAllowed
  | ApiFile string string
  | ApiNotFound string
  | ApiDocs string
  | ApiEvents

abbreviation ad_config :: "('c, 'k) Api \<Rightarrow> ConfigWrapper" where
  "ad_config s \<equiv> sp_config (ap_super (ad_app s))"

section \<open>Writing and waiting\<close>

definition write_config :: "('c, 'k) api_env \<Rightarrow> (string \<rightharpoonup> string) \<Rightarrow> OddBoxV3Config \<Rightarrow> (string \<rightharpoonup> string) option" where
  "write_config env files c =
     (case write_to_disk c of
        Inl _ \<Rightarrow> None
      | Inr (path, t) \<Rightarrow> if ae_writable env path then Some (files(path \<mapsto> t)) else None)"

text \<open>At most so many looks at the version of the active configuration, and whether it has grown.\<close>

fun await_reload :: "('c, 'k) api_env \<Rightarrow> nat \<Rightarrow> nat \<Rightarrow> nat \<Rightarrow> ('c, 'k) Api \<Rightarrow> bool \<times> ('c, 'k) Api" where
  "await_reload env 0 i version s = (False, s)"
| "await_reload env (Suc looks) i version s =
     (if version < internal_version (ad_config s) then (True, s)
      else await_reload env looks (i + 1) version (ae_world env i s))"

declare await_reload.simps [simp del]

definition forget_targets :: "('c, 'k) Api \<Rightarrow> ('c, 'k) Api" where
  "forget_targets s = s\<lparr> ad_app := (ad_app s)\<lparr> ap_targets := Map.empty \<rparr> \<rparr>"

section \<open>Sites\<close>

definition list_handler :: "('c, 'k) Api \<Rightarrow> ConfigurationItem list" where
  "list_handler s =
     (let c = internal_configuration (ad_config s) in
      map ListedProcess (unwrap_or (cfg_hosted_process c) []) @
      map DockerContainer (map generate_remote_config (ad_docker s)) @
      map ListedRemote (unwrap_or (cfg_remote_target c) []) @
      map ListedDirServer (unwrap_or (cfg_dir_server c) []))"

definition item_host :: "ConfigItem \<Rightarrow> string" where
  "item_host item =
     (case item of RemoteSite r \<Rightarrow> rs_host_name r | HostedProcess p \<Rightarrow> hp_host_name p | DirServerItem d \<Rightarrow> ds_host_name d)"

definition add_or_replace :: "(OddBoxV3Config \<Rightarrow> bool) \<Rightarrow> string \<Rightarrow> ConfigItem \<Rightarrow> ConfigWrapper \<Rightarrow> (unit + unit) \<times> ConfigWrapper" where
  "add_or_replace write hostname item w =
     (case item of
        DirServerItem d \<Rightarrow> add_or_replace_dir_site write hostname d w
      | RemoteSite r \<Rightarrow> add_or_replace_remote_site write hostname r w
      | HostedProcess p \<Rightarrow> add_or_replace_hosted_process write hostname p w)"

definition update_handler :: "('c, 'k) api_env \<Rightarrow> string option \<Rightarrow> ConfigItem \<Rightarrow> ('c, 'k) Api \<Rightarrow> api_answer \<times> ('c, 'k) Api" where
  "update_handler env hostname item s =
     (let old_conf = ad_config s in
      if (case hostname of Some h \<Rightarrow> list_ex (\<lambda>c. generate_host_name c = h) (ad_docker s) | None \<Rightarrow> False) then
        (ApiError ''cannot update docker sites as they are managed automatically through their labels'', s)
      else
        (let write = (\<lambda>c. write_config env (ad_files s) c \<noteq> None);
             (result, new_conf) = add_or_replace write (unwrap_or hostname (item_host item)) item old_conf;
             s = (case result of
                    Inr _ \<Rightarrow>
                      forget_targets (s\<lparr> ad_files := unwrap_or (write_config env (ad_files s) (internal_configuration new_conf)) (ad_files s) \<rparr>)
                  | Inl _ \<Rightarrow> s) in
         if config_eq (internal_configuration new_conf) (internal_configuration old_conf) then
           (ApiText ''Received null-change, doing nothing.'', s)
         else
           (case result of
              Inl _ \<Rightarrow> (ApiError ''Failed to write config to disk'', s)
            | Inr _ \<Rightarrow>
                (let (reloaded, s) = await_reload env 1001 0 (internal_version new_conf) s in
                 if reloaded then (ApiText ''Site settings updated'', s)
                 else (ApiError ''Failed to update configuration'', s)))))"

definition without_site :: "string \<Rightarrow> OddBoxV3Config \<Rightarrow> OddBoxV3Config" where
  "without_site host c =
     c\<lparr> cfg_hosted_process := map_option (filter (\<lambda>x. hp_host_name x \<noteq> host)) (cfg_hosted_process c),
        cfg_remote_target := map_option (filter (\<lambda>x. rs_host_name x \<noteq> host)) (cfg_remote_target c),
        cfg_dir_server := map_option (filter (\<lambda>x. ds_host_name x \<noteq> host)) (cfg_dir_server c) \<rparr>"

definition delete_handler :: "('c, 'k) api_env \<Rightarrow> string \<Rightarrow> ('c, 'k) Api \<Rightarrow> api_answer \<times> ('c, 'k) Api" where
  "delete_handler env host s =
     (let w = ad_config s; c = internal_configuration w; new_config = without_site host c in
      if host \<in> set (all_host_names c) then
        (let s = s\<lparr> ad_app := (ad_app s)\<lparr> ap_super := forget_status host (ap_super (ad_app s)) \<rparr> \<rparr> in
         case write_config env (ad_files s) new_config of
           None \<Rightarrow> (ApiError ''Failed to write config to disk'', s)
         | Some files \<Rightarrow>
             (let (reloaded, s) = await_reload env 1001 0 (internal_version w) (s\<lparr> ad_files := files \<rparr>) in
              if reloaded then (ApiDone, forget_targets s) else (ApiError ''Failed to update configuration'', s)))
      else (ApiDone, forget_targets s))"

definition send_signal :: "('c, 'k) api_env \<Rightarrow> ProcMessage \<Rightarrow> ('c, 'k) Api \<Rightarrow> bool \<times> ('c, 'k) Api" where
  "send_signal env m s = (if ae_receivers env then (True, s\<lparr> ad_sent := ad_sent s @ [m] \<rparr>) else (False, s))"

definition sites_stop_handler :: "('c, 'k) api_env \<Rightarrow> string \<Rightarrow> ('c, 'k) Api \<Rightarrow> api_answer \<times> ('c, 'k) Api" where
  "sites_stop_handler env host s =
     (let (ok, s) = send_signal env (if host = ''*'' then StopAll else Stop host) s in (if ok then ApiDone else ApiError ''SendError'', s))"

definition sites_start_handler :: "('c, 'k) api_env \<Rightarrow> string \<Rightarrow> ('c, 'k) Api \<Rightarrow> api_answer \<times> ('c, 'k) Api" where
  "sites_start_handler env host s =
     (let (ok, s) = send_signal env (if host = ''*'' then StartAll else Start host) s in (if ok then ApiDone else ApiError ''SendError'', s))"

section \<open>Settings\<close>

definition get_settings_handler :: "OddBoxV3Config \<Rightarrow> OddBoxConfigGlobalPart" where
  "get_settings_handler c =
     \<lparr> sg_lets_encrypt_account_email = unwrap_or (cfg_lets_encrypt_account_email c) [],
       sg_odd_box_url = unwrap_or (cfg_odd_box_url c) [],
       sg_odd_box_password = unwrap_or (cfg_odd_box_password c) [],
       sg_root_dir = unwrap_or (cfg_root_dir c) [],
       sg_log_level = unwrap_or (cfg_log_level c) Info,
       sg_alpn = unwrap_or (cfg_alpn c) True,
       sg_port_range_start = cfg_port_range_start c,
       sg_default_log_format = cfg_default_log_format c,
       sg_ip = unwrap_or (cfg_ip c) ''127.0.0.1'',
       sg_http_port = unwrap_or (cfg_http_port c) 8080,
       sg_tls_port = unwrap_or (cfg_tls_port c) 4343,
       sg_auto_start = unwrap_or (cfg_auto_start c) True,
       sg_env_vars = cfg_env_vars c,
       sg_path = unwrap_or (cfg_path c) [] \<rparr>"

definition non_empty :: "string \<Rightarrow> string option" where
  "non_empty t = (if 0 < length t then Some t else None)"

text \<open>The configuration with the new settings: \<open>None\<close> when the address cannot be parsed.\<close>

definition with_settings :: "(string \<Rightarrow> string option) \<Rightarrow> 'a SaveGlobalConfig_scheme \<Rightarrow> OddBoxV3Config \<Rightarrow> OddBoxV3Config option" where
  "with_settings parse_ip new c =
     (case parse_ip (sg_ip new) of
        None \<Rightarrow> None
      | Some ip \<Rightarrow>
          Some (c\<lparr> cfg_lets_encrypt_account_email := non_empty (sg_lets_encrypt_account_email new),
                   cfg_odd_box_url := non_empty (sg_odd_box_url new),
                   cfg_odd_box_password := non_empty (sg_odd_box_password new),
                   cfg_http_port := Some (sg_http_port new),
                   cfg_tls_port := Some (sg_tls_port new),
                   cfg_port_range_start := sg_port_range_start new,
                   cfg_alpn := Some (sg_alpn new),
                   cfg_auto_start := Some (sg_auto_start new),
                   cfg_default_log_format := sg_default_log_format new,
                   cfg_env_vars := sg_env_vars new,
                   cfg_ip := Some ip,
                   cfg_log_level := Some (sg_log_level new),
                   cfg_root_dir := (if trim_blanks (sg_root_dir new) = [] then None else Some (sg_root_dir new)) \<rparr>))"

definition set_settings_handler :: "('c, 'k) api_env \<Rightarrow> SaveGlobalConfig \<Rightarrow> ('c, 'k) Api \<Rightarrow> api_answer \<times> ('c, 'k) Api" where
  "set_settings_handler env new s =
     (let w = ad_config s; old = internal_configuration w in
      case with_settings (ae_parse_ip env) new old of
        None \<Rightarrow> (ApiBadRequest ''Invalid IP address provided, refusing to save configuration.'', s)
      | Some c \<Rightarrow>
          if config_eq c old then (ApiDone, s)
          else
            (case write_config env (ad_files s) c of
               None \<Rightarrow> (ApiBadRequest ''Failed to write config to disk'', s)
             | Some files \<Rightarrow> (ApiDone, snd (await_reload env 1000 0 (internal_version w) (s\<lparr> ad_files := files \<rparr>)))))"

section \<open>Who may call\<close>

definition docs_prefixes :: "string list" where
  "docs_prefixes = [''/api-docs/'', ''/swagger-ui'', ''/rapidoc'', ''/redoc'']"

definition validate_request :: "OddBoxV3Config \<Rightarrow> ApiRequest \<Rightarrow> bool" where
  "validate_request c rq \<longleftrightarrow>
     aq_method rq = ''GET'' \<and> list_ex (starts_with (aq_path rq)) docs_prefixes \<or>
     (case cfg_odd_box_password c of
        Some pwd \<Rightarrow> header_get ''authorization'' (aq_headers rq) = Some pwd
      | None \<Rightarrow> True)"

text \<open>The origins that may open the event stream when \<open>ODDBOX_CORS_ALLOWED_ORIGIN\<close> is not set.\<close>

definition valid_origins :: "OddBoxV3Config \<Rightarrow> string list" where
  "valid_origins c =
     (let port = (case cfg_tls_port c of Some p \<Rightarrow> if p = 443 then [] else CHR '':'' # dec (unat p) | None \<Rightarrow> []) in
      [''https://localhost'' @ port, ''https://odd-box.localhost'' @ port, ''https://oddbox.localhost'' @ port]) @
     (case cfg_odd_box_url c of Some u \<Rightarrow> [u] | None \<Rightarrow> [])"

definition origin_allowed :: "OddBoxV3Config \<Rightarrow> string option \<Rightarrow> string \<Rightarrow> bool" where
  "origin_allowed c cors_env_var origin =
     (case cors_env_var of
        Some v \<Rightarrow> v = ''*'' \<or> origin = v
      | None \<Rightarrow> origin \<in> set (valid_origins c))"

text \<open>\<open>ws_log_messages_handler\<close> up to the upgrade; the origin is already in lower case.\<close>

definition event_stream_allowed :: "OddBoxV3Config \<Rightarrow> string option \<Rightarrow> (string \<rightharpoonup> string) \<Rightarrow> string option \<Rightarrow> bool" where
  "event_stream_allowed c cors_env_var query origin \<longleftrightarrow>
     (case cfg_odd_box_password c of Some pwd \<Rightarrow> query ''password'' = Some pwd | None \<Rightarrow> True) \<and>
     (case origin of Some x \<Rightarrow> origin_allowed c cors_env_var x | None \<Rightarrow> True)"

datatype from_client = ClientClosed | ClientError | ClientGone | ClientText string | ClientOther

text \<open>A broadcast that came: its text if it could be written, and whether it could be sent.\<close>

datatype socket_event = FromClient from_client | Broadcast "string option" bool | Lagged | ChannelClosed

text \<open>What is sent over the socket.\<close>

fun handle_socket :: "socket_event list \<Rightarrow> string list" where
  "handle_socket [] = []"
| "handle_socket (FromClient m # evs) =
     (if m \<in> {ClientClosed, ClientError, ClientGone} then [] else handle_socket evs)"
| "handle_socket (Broadcast (Some t) sent # evs) = (if sent then t # handle_socket evs else [])"
| "handle_socket (Broadcast None sent # evs) = handle_socket evs"
| "handle_socket (Lagged # evs) = handle_socket evs"
| "handle_socket (ChannelClosed # evs) = []"

definition set_cors :: "http_lib \<Rightarrow> string \<Rightarrow> 'b Response \<Rightarrow> 'b Response run" where
  "set_cors lib cors_var r =
     map_option (\<lambda>v. r\<lparr> hr_headers := (hr_headers r)(''access-control-allow-origin'' \<mapsto> [v],
       ''access-control-allow-methods'' \<mapsto> [''GET, PUT, POST, DELETE, HEAD, OPTIONS'']) \<rparr>) (hl_from_str lib cors_var)"

section \<open>Routes\<close>

datatype api_route =
    SitesUpdate | SitesList | SitesDelete | SitesStart | SitesStop | SitesStatus | SettingsSave | SettingsGet
  | StopPageRoute | StartPageRoute | DocsRoute | EventStream | StaticFile string

text \<open>A route for \<open>GET\<close> serves \<open>HEAD\<close> too. \<open>None\<close>: the path has no route for the method.\<close>

definition route_of :: "('c, 'k) api_env \<Rightarrow> string \<Rightarrow> string \<Rightarrow> api_route option" where
  "route_of env m path =
     (let get = (m = ''GET'' \<or> m = ''HEAD'') in
      if path = ''/api/sites'' then
        (if m = ''POST'' then Some SitesUpdate else if get then Some SitesList else if m = ''DELETE'' then Some SitesDelete else None)
      else if path = ''/api/sites/start'' then (if m = ''PUT'' then Some SitesStart else None)
      else if path = ''/api/sites/stop'' then (if m = ''PUT'' then Some SitesStop else None)
      else if path = ''/api/sites/status'' then (if get then Some SitesStatus else None)
      else if path = ''/api/settings'' then (if m = ''POST'' then Some SettingsSave else if get then Some SettingsGet else None)
      else if path = ''/STOP'' then (if get then Some StopPageRoute else None)
      else if path = ''/START'' then (if get then Some StartPageRoute else None)
      else if ae_is_docs env path then (if get then Some DocsRoute else None)
      else if path = ''/ws/event_stream'' then (if get then Some EventStream else None)
      else if get then Some (StaticFile (if path = ''/'' then ''index.html'' else drop 1 path))
      else None)"

text \<open>The paths whose routes are added before the layer that validates requests.\<close>

definition guarded :: "('c, 'k) api_env \<Rightarrow> string \<Rightarrow> bool" where
  "guarded env path \<longleftrightarrow>
     path \<in> {''/api/sites'', ''/api/sites/start'', ''/api/sites/stop'', ''/api/sites/status'', ''/api/settings'', ''/STOP'', ''/START''} \<or>
     ae_is_docs env path"

definition serve_static_file :: "('c, 'k) api_env \<Rightarrow> string \<Rightarrow> api_answer" where
  "serve_static_file env file =
     (let file = (if contains_sub file ''.'' then file else ''index.html'') in
      case ae_webui env file of
        Some (mime, content) \<Rightarrow> ApiFile mime content
      | None \<Rightarrow>
          ApiNotFound (''404 - File not found; these exist: '' @ join '', '' (ae_webui_names env) @ ''.. you looked for : '' @ file))"

definition signal_page :: "string \<Rightarrow> bool \<times> ('c, 'k) Api \<Rightarrow> api_answer \<times> ('c, 'k) Api" where
  "signal_page page r = (case r of (ok, s) \<Rightarrow> (if ok then ApiText page else ApiError ''SendError'', s))"

definition stop_page :: string where
  \<open>stop_page = join newline
     [[], ''                <center>'',
      ''                    <h2>Stop signal received.</h2>'',
      ''                    '',
      ''                    <form action='' @ quote @ ''/START'' @ quote @ ''>'',
      ''                        <input type='' @ quote @ ''submit'' @ quote @ '' value='' @ quote @ ''Resume'' @ quote @ '' />'',
      ''                    </form>            '',
      [],
      ''                    <p>The proxy will also resume if you visit any of the stopped sites</p>'',
      ''                </center>'',
      ''            '']\<close>

definition start_page :: string where
  \<open>start_page = join newline
     [[], ''                <center>'',
      ''                    <h2>Start signal received.</h2>'',
      ''                    <form action='' @ quote @ ''/STOP'' @ quote @ ''>'',
      ''                        <input type='' @ quote @ ''submit'' @ quote @ '' value='' @ quote @ ''Stop'' @ quote @ '' />'',
      ''                    </form>            '',
      [],
      ''                </center>'',
      ''            '']\<close>

definition proc_param :: "ApiRequest \<Rightarrow> string" where
  "proc_param rq = unwrap_or (aq_query rq ''proc'') ''all''"

definition handle_route :: "('c, 'k) api_env \<Rightarrow> string option \<Rightarrow> api_route \<Rightarrow> ApiRequest \<Rightarrow> ('c, 'k) Api \<Rightarrow> api_answer \<times> ('c, 'k) Api" where
  "handle_route env cors r rq s =
     (case r of
        SitesUpdate \<Rightarrow> (case aq_item rq of Some item \<Rightarrow> update_handler env (aq_query rq ''hostname'') item s | None \<Rightarrow> (ApiRejected, s))
      | SitesList \<Rightarrow> (ApiSites (list_handler s), s)
      | SitesDelete \<Rightarrow> (case aq_query rq ''hostname'' of Some h \<Rightarrow> delete_handler env h s | None \<Rightarrow> (ApiRejected, s))
      | SitesStart \<Rightarrow> (case aq_query rq ''hostname'' of Some h \<Rightarrow> sites_start_handler env h s | None \<Rightarrow> (ApiRejected, s))
      | SitesStop \<Rightarrow> (case aq_query rq ''hostname'' of Some h \<Rightarrow> sites_stop_handler env h s | None \<Rightarrow> (ApiRejected, s))
      | SitesStatus \<Rightarrow> (ApiStatuses (ae_statuses env (sp_status (ap_super (ad_app s)))), s)
      | SettingsSave \<Rightarrow> (case aq_settings rq of Some new \<Rightarrow> set_settings_handler env new s | None \<Rightarrow> (ApiRejected, s))
      | SettingsGet \<Rightarrow> (ApiSettings (get_settings_handler (internal_configuration (ad_config s))), s)
      | StopPageRoute \<Rightarrow> signal_page stop_page (send_signal env (Stop (proc_param rq)) s)
      | StartPageRoute \<Rightarrow> signal_page start_page (send_signal env (Start (proc_param rq)) s)
      | DocsRoute \<Rightarrow> (ApiDocs (aq_path rq), s)
      | EventStream \<Rightarrow>
          (if event_stream_allowed (internal_configuration (ad_config s)) cors (aq_query rq) (header_get ''origin'' (aq_headers rq))
           then ApiEvents else ApiForbidden, s)
      | StaticFile file \<Rightarrow> (serve_static_file env file, s))"

definition api_call :: "('c, 'k) api_env \<Rightarrow> string option \<Rightarrow> ApiRequest \<Rightarrow> ('c, 'k) Api \<Rightarrow> api_answer \<times> ('c, 'k) Api" where
  "api_call env cors rq s =
     (if guarded env (aq_path rq) \<and> \<not> validate_request (internal_configuration (ad_config s)) rq then (ApiForbidden, s)
      else
        (case route_of env (aq_method rq) (aq_path rq) of
           None \<Rightarrow> (ApiNotAllowed, s)
         | Some r \<Rightarrow> handle_route env cors r rq s))"

section \<open>Access\<close>

lemma static_route_read_only:
  "\<not> guarded env path \<Longrightarrow> route_of env m path = Some r \<Longrightarrow> r = EventStream \<or> (\<exists>f. r = StaticFile f)"
  by (auto simp: guarded_def route_of_def Let_def split: if_splits)

lemma documentation_not_an_operation:
  assumes "list_ex (starts_with path) docs_prefixes"
  shows "path \<notin> {''/api/sites'', ''/api/sites/start'', ''/api/sites/stop'', ''/api/sites/status'', ''/api/settings'', ''/STOP'', ''/START''}"
  using assms by (auto simp: docs_prefixes_def)

text \<open>C10: When a password is set, a request without it in its Authorization header changes
  nothing and is answered by a refusal, a file of the web interface or a page of documentation only;
  the event stream needs the password among the parameters.\<close>

theorem nothing_without_password:
  assumes "cfg_odd_box_password (internal_configuration (ad_config s)) = Some pwd"
    and "header_get ''authorization'' (aq_headers rq) \<noteq> Some pwd"
  shows "snd (api_call env cors rq s) = s \<and>
    (case fst (api_call env cors rq s) of
       ApiForbidden \<Rightarrow> True
     | ApiNotAllowed \<Rightarrow> True
     | ApiFile m t \<Rightarrow> (\<exists>file. ae_webui env file = Some (m, t))
     | ApiNotFound t \<Rightarrow> True
     | ApiDocs path \<Rightarrow> ae_is_docs env path
     | ApiEvents \<Rightarrow> aq_query rq ''password'' = Some pwd
     | _ \<Rightarrow> False)"
proof -
  let ?r = "route_of env (aq_method rq) (aq_path rq)"
  have e: "event_stream_allowed (internal_configuration (ad_config s)) cors q x \<Longrightarrow> q ''password'' = Some pwd" for q x
    using assms(1) by (simp add: event_stream_allowed_def)
  have sf: "case serve_static_file env f of ApiFile m t \<Rightarrow> (\<exists>file. ae_webui env file = Some (m, t)) | ApiNotFound t \<Rightarrow> True | _ \<Rightarrow> False"
    for f by (auto simp: serve_static_file_def Let_def split: option.splits)
  consider "guarded env (aq_path rq)" "\<not> validate_request (internal_configuration (ad_config s)) rq"
    | "?r = None" "\<not> (guarded env (aq_path rq) \<and> \<not> validate_request (internal_configuration (ad_config s)) rq)"
    | r where "?r = Some r" "\<not> guarded env (aq_path rq)"
    | r where "?r = Some r" "guarded env (aq_path rq)" "validate_request (internal_configuration (ad_config s)) rq"
    by (cases ?r) auto
  then show ?thesis
  proof cases
    case 3
    then consider "r = EventStream" | f where "r = StaticFile f"
      using static_route_read_only by blast
    then show ?thesis
    proof cases
      case 1
      with 3 e show ?thesis by (simp add: api_call_def handle_route_def)
    next
      case 2
      with 3 sf [of f] show ?thesis
        by (cases "serve_static_file env f") (auto simp: api_call_def handle_route_def)
    qed
  next
    case 4
    then have "list_ex (starts_with (aq_path rq)) docs_prefixes"
      using assms by (simp add: validate_request_def)
    with 4 have "ae_is_docs env (aq_path rq)" "r = DocsRoute"
      using documentation_not_an_operation by (auto simp: guarded_def route_of_def Let_def split: if_splits)
    with 4 show ?thesis by (simp add: api_call_def handle_route_def)
  qed (simp_all add: api_call_def)
qed

text \<open>The configured address of the admin interface, which is a host name, is never accepted
  as the origin of the event stream, unless it is one of the three local names.\<close>

theorem own_url_origin_refused:
  assumes "cfg_odd_box_url c = Some u"
  shows "origin_allowed c None (''https://'' @ u) \<longleftrightarrow>
    u \<in> (\<lambda>n. n @ (case cfg_tls_port c of Some p \<Rightarrow> if p = 443 then [] else CHR '':'' # dec (unat p) | None \<Rightarrow> [])) `
      {''localhost'', ''odd-box.localhost'', ''oddbox.localhost''}"
proof -
  have "''https://'' @ u \<noteq> u" by (metis append_self_conv2 list.discI)
  then show ?thesis using assms by (auto simp: origin_allowed_def valid_origins_def Let_def)
qed

section \<open>Waiting\<close>

text \<open>The state at the given look.\<close>

fun at_look :: "('c, 'k) api_env \<Rightarrow> nat \<Rightarrow> ('c, 'k) Api \<Rightarrow> ('c, 'k) Api" where
  "at_look env 0 s = s"
| "at_look env (Suc n) s = ae_world env n (at_look env n s)"

definition reloaded_at :: "('c, 'k) api_env \<Rightarrow> nat \<Rightarrow> ('c, 'k) Api \<Rightarrow> nat \<Rightarrow> bool" where
  "reloaded_at env version s k \<longleftrightarrow> version < internal_version (ad_config (at_look env k s))"

lemma await_from:
  "await_reload env n i version (at_look env i s) =
     (case List.find (reloaded_at env version s) [i..<i + n] of
        Some k \<Rightarrow> (True, at_look env k s)
      | None \<Rightarrow> (False, at_look env (i + n) s))"
proof (induction n arbitrary: i)
  case 0
  then show ?case by (simp add: await_reload.simps)
next
  case (Suc n)
  have u: "[i..<i + Suc n] = i # [Suc i..<Suc i + n]" by (simp add: upt_conv_Cons)
  show ?case
  proof (cases "reloaded_at env version s i")
    case True
    then show ?thesis unfolding u by (simp add: await_reload.simps reloaded_at_def)
  next
    case False
    then have "await_reload env (Suc n) i version (at_look env i s) = await_reload env n (Suc i) version (at_look env (Suc i) s)"
      by (simp add: await_reload.simps reloaded_at_def)
    with Suc.IH [of "Suc i"] False show ?thesis unfolding u by (simp del: upt_Suc split: option.splits)
  qed
qed

lemma await_reload_iff:
  "await_reload env n 0 version s =
     (case List.find (reloaded_at env version s) [0..<n] of
        Some k \<Rightarrow> (True, at_look env k s)
      | None \<Rightarrow> (False, at_look env n s))"
  using await_from [of env n 0 version s] by (simp split: option.splits)

lemma await_nothing_happens:
  assumes "\<And>i. ae_world env i s = s" and "internal_version (ad_config s) \<le> version"
  shows "await_reload env n i version s = (False, s)"
  using assms by (induction n arbitrary: i) (simp_all add: await_reload.simps)

section \<open>Changing sites\<close>

lemma forget_targets_fields [simp]:
  "ad_config (forget_targets s) = ad_config s" "ad_files (forget_targets s) = ad_files s" "ad_docker (forget_targets s) = ad_docker s"
  "ap_super (ad_app (forget_targets s)) = ap_super (ad_app s)"
  by (simp_all add: forget_targets_def)

lemma add_or_replace_version [simp]: "internal_version (snd (add_or_replace write host item w)) = internal_version w"
  by (cases item)
    (simp_all add: add_or_replace_def add_or_replace_hosted_process_def add_or_replace_dir_site_def add_or_replace_remote_site_def Let_def)

lemma add_or_replace_written:
  "fst (add_or_replace write host item w) = (if write (internal_configuration (snd (add_or_replace write host item w))) then Inr () else Inl ())"
  by (cases item)
    (simp_all add: add_or_replace_def add_or_replace_hosted_process_def add_or_replace_dir_site_def add_or_replace_remote_site_def Let_def)

text \<open>The configuration an update writes, and the state when it starts to wait.\<close>

definition updated_config :: "string option \<Rightarrow> ConfigItem \<Rightarrow> ('c, 'k) Api \<Rightarrow> OddBoxV3Config" where
  "updated_config host item s =
     internal_configuration (snd (add_or_replace (\<lambda>_. True) (unwrap_or host (item_host item)) item (ad_config s)))"

lemma updated_config_write:
  "internal_configuration (snd (add_or_replace write (unwrap_or host (item_host item)) item (ad_config s))) = updated_config host item s"
  by (cases item)
    (simp_all add: updated_config_def add_or_replace_def add_or_replace_hosted_process_def add_or_replace_dir_site_def
      add_or_replace_remote_site_def Let_def)

definition written_state :: "(string \<rightharpoonup> string) \<Rightarrow> ('c, 'k) Api \<Rightarrow> ('c, 'k) Api" where
  "written_state files s = forget_targets (s\<lparr> ad_files := files \<rparr>)"

lemma update_handler_written:
  assumes "\<And>h. host = Some h \<Longrightarrow> h \<notin> generate_host_name ` set (ad_docker s)"
    and "\<not> config_eq (updated_config host item s) (internal_configuration (ad_config s))"
    and "write_config env (ad_files s) (updated_config host item s) = Some files"
  shows "update_handler env host item s =
    (case await_reload env 1001 0 (internal_version (ad_config s)) (written_state files s) of
       (True, s') \<Rightarrow> (ApiText ''Site settings updated'', s')
     | (False, s') \<Rightarrow> (ApiError ''Failed to update configuration'', s'))"
proof -
  have d: "\<not> (case host of Some h \<Rightarrow> list_ex (\<lambda>c. generate_host_name c = h) (ad_docker s) | None \<Rightarrow> False)"
    using assms(1) by (auto simp: list_ex_iff split: option.splits)
  let ?wr = "\<lambda>c. write_config env (ad_files s) c \<noteq> None"
  obtain r w' where a: "add_or_replace ?wr (unwrap_or host (item_host item)) item (ad_config s) = (r, w')" by fastforce
  have c: "internal_configuration w' = updated_config host item s"
    using updated_config_write [of ?wr host item s] a by simp
  moreover have "r = Inr ()"
    using add_or_replace_written [of ?wr "unwrap_or host (item_host item)" item "ad_config s"] a c assms(3) by simp
  moreover have "internal_version w' = internal_version (ad_config s)"
    using add_or_replace_version [of ?wr "unwrap_or host (item_host item)" item "ad_config s"] unfolding a by simp
  ultimately show ?thesis
    using d assms(2,3) a by (simp add: update_handler_def Let_def written_state_def split: prod.splits bool.splits)
qed

text \<open>An update that was written is answered as done exactly when the version of the active
  configuration has grown at one of the first 1001 looks, and as failed otherwise.\<close>

theorem update_waits_for_reload:
  assumes "\<And>h. host = Some h \<Longrightarrow> h \<notin> generate_host_name ` set (ad_docker s)"
    and "\<not> config_eq (updated_config host item s) (internal_configuration (ad_config s))"
    and "write_config env (ad_files s) (updated_config host item s) = Some files"
  shows "(fst (update_handler env host item s) = ApiText ''Site settings updated'' \<longleftrightarrow>
      (\<exists>k \<le> 1000. internal_version (ad_config s) < internal_version (ad_config (at_look env k (written_state files s))))) \<and>
    (fst (update_handler env host item s) \<noteq> ApiText ''Site settings updated'' \<longrightarrow>
      update_handler env host item s = (ApiError ''Failed to update configuration'', at_look env 1001 (written_state files s)))"
proof -
  let ?p = "reloaded_at env (internal_version (ad_config s)) (written_state files s)"
  have "List.find ?p [0..<1001] = None \<longleftrightarrow> \<not> (\<exists>k \<le> 1000. ?p k)"
    by (auto simp: find_None_iff)
  moreover have "update_handler env host item s =
    (case List.find ?p [0..<1001] of
       Some k \<Rightarrow> (ApiText ''Site settings updated'', at_look env k (written_state files s))
     | None \<Rightarrow> (ApiError ''Failed to update configuration'', at_look env 1001 (written_state files s)))"
    by (simp only: update_handler_written [OF assms] await_reload_iff) (simp split: option.splits)
  ultimately show ?thesis
    unfolding reloaded_at_def [symmetric] by (cases "List.find ?p [0..<1001]") simp_all
qed

section \<open>Reloads of the file that was written\<close>

text \<open>The task that reloads when the file has changed.\<close>

definition reload_step :: "reload_env \<Rightarrow> ('c, 'k) Api \<Rightarrow> ('c, 'k) Api" where
  "reload_step re s =
     (case reload_from_disk (re\<lparr> re_read_file := ad_files s \<rparr>) (ad_app s) of
        Some (_, app) \<Rightarrow> s\<lparr> ad_app := app \<rparr>
      | None \<Rightarrow> s)"

lemma reload_step_rejected:
  assumes "cfg_path (internal_configuration (ad_config s)) = Some p" and "ad_files s p = Some t"
    and "parse_config (re_readers re) t = Inr (V3Config c)" and "is_valid c = Inl e"
  shows "reload_step re s = s"
proof -
  let ?re = "re\<lparr> re_read_file := ad_files s \<rparr>"
  have "load_configuration ?re (ad_config s) = Inl (Invalid e)"
    using assms by (simp add: load_configuration_def try_upgrade_to_latest_version_def)
  then have "reload_from_disk ?re (ad_app s) = Some (Inl (Invalid e), ad_app s)"
    by (simp add: reload_from_disk_def Let_def)
  then show ?thesis by (simp add: reload_step_def)
qed

text \<open>C39: An update whose configuration is not valid is written over the file all the same;
  every reload rejects it, the update fails, and the active configuration differs from the file from
  then on.\<close>

theorem invalid_update_written:
  assumes "\<And>h. host = Some h \<Longrightarrow> h \<notin> generate_host_name ` set (ad_docker s)"
    and "\<not> config_eq (updated_config host item s) (internal_configuration (ad_config s))"
    and "cfg_path (internal_configuration (ad_config s)) = Some p" and "ae_writable env p"
    and "parse_config (re_readers re) (config_to_string (updated_config host item s)) = Inr (V3Config c)" and "is_valid c = Inl e"
    and "\<And>i s. ae_world env i s = reload_step re s"
  shows "\<exists>s'. update_handler env host item s = (ApiError ''Failed to update configuration'', s') \<and>
    ad_files s' = (ad_files s)(p \<mapsto> config_to_string (updated_config host item s)) \<and> ap_super (ad_app s') = ap_super (ad_app s)"
proof -
  let ?files = "(ad_files s)(p \<mapsto> config_to_string (updated_config host item s))"
  let ?s = "written_state ?files s"
  have "cfg_path (updated_config host item s) = Some p"
    using assms(3) by (cases item)
      (auto simp: updated_config_def add_or_replace_def add_or_replace_hosted_process_def add_or_replace_dir_site_def
        add_or_replace_remote_site_def Let_def split: option.splits)
  then have w: "write_config env (ad_files s) (updated_config host item s) = Some ?files"
    using assms(4) by (simp add: write_config_def write_to_disk_def)
  have "reload_step re ?s = ?s"
    by (rule reload_step_rejected [where p = p, OF _ _ assms(5,6)]) (simp_all add: written_state_def assms(3))
  then have "await_reload env 1001 0 (internal_version (ad_config s)) ?s = (False, ?s)"
    by (intro await_nothing_happens) (simp_all add: assms(7) written_state_def)
  then show ?thesis
    using update_handler_written [OF assms(1,2) w] by (simp add: written_state_def)
qed


text \<open>A deletion whose file cannot be written leaves the site in the configuration but removes
  its status.\<close>

theorem failed_delete_forgets_status:
  assumes "host \<in> set (all_host_names (internal_configuration (ad_config s)))"
    and "write_config env (ad_files s) (without_site host (internal_configuration (ad_config s))) = None"
  shows "\<exists>s'. delete_handler env host s = (ApiError ''Failed to write config to disk'', s') \<and>
    ad_config s' = ad_config s \<and> ad_files s' = ad_files s \<and> sp_status (ap_super (ad_app s')) host = None"
  using assms by (simp add: delete_handler_def Let_def forget_status_def)

section \<open>Changing settings\<close>

lemma non_empty_id: "x \<noteq> Some [] \<Longrightarrow> non_empty (unwrap_or x []) = x"
  by (cases x) (auto simp: non_empty_def)

text \<open>Saving the settings as they were read keeps the configuration but for six settings,
  which are written out with their default when they were absent.\<close>

theorem saving_settings_as_read:
  assumes "parse_ip (unwrap_or (cfg_ip c) ''127.0.0.1'') = Some (unwrap_or (cfg_ip c) ''127.0.0.1'')"
    and "cfg_lets_encrypt_account_email c \<noteq> Some []" and "cfg_odd_box_url c \<noteq> Some []" and "cfg_odd_box_password c \<noteq> Some []"
    and "\<And>d. cfg_root_dir c = Some d \<Longrightarrow> trim_blanks d \<noteq> []"
  shows "with_settings parse_ip (get_settings_handler c) c =
    Some (c\<lparr> cfg_log_level := Some (unwrap_or (cfg_log_level c) Info), cfg_alpn := Some (unwrap_or (cfg_alpn c) True),
             cfg_ip := Some (unwrap_or (cfg_ip c) ''127.0.0.1''), cfg_http_port := Some (unwrap_or (cfg_http_port c) 8080),
             cfg_tls_port := Some (unwrap_or (cfg_tls_port c) 4343), cfg_auto_start := Some (unwrap_or (cfg_auto_start c) True) \<rparr>)"
proof -
  have "trim_blanks [] = []" by (simp add: trim_blanks_def)
  then have "trim_blanks (unwrap_or (cfg_root_dir c) []) = [] \<Longrightarrow> cfg_root_dir c = None"
    and "trim_blanks (unwrap_or (cfg_root_dir c) []) \<noteq> [] \<Longrightarrow> Some (unwrap_or (cfg_root_dir c) []) = cfg_root_dir c"
    using assms(5) by (cases "cfg_root_dir c"; force)+
  then show ?thesis
    using assms(1-4) by (cases c) (auto simp: with_settings_def get_settings_handler_def non_empty_id)
qed

section \<open>Examples\<close>

definition api_sample :: "OddBoxV3Config \<Rightarrow> (nat, nat) Api" where
  "api_sample c =
     \<lparr> ad_app = app_sample\<lparr> ap_super := (ap_super app_sample)\<lparr> sp_config := ConfigWrapper_new c \<rparr> \<rparr>,
       ad_files = Map.empty, ad_docker = [], ad_sent = [] \<rparr>"

definition api_env_sample :: "bool \<Rightarrow> (nat \<Rightarrow> (nat, nat) Api \<Rightarrow> (nat, nat) Api) \<Rightarrow> (nat, nat) api_env" where
  "api_env_sample writable world =
     \<lparr> ae_writable = (\<lambda>_. writable), ae_receivers = True, ae_world = world, ae_statuses = (\<lambda>_. []), ae_parse_ip = Some,
       ae_webui = (\<lambda>_. None), ae_webui_names = [], ae_is_docs = (\<lambda>p. list_ex (starts_with p) docs_prefixes) \<rparr>"

definition only_a :: OddBoxV3Config where
  "only_a = config_sample None (Some [process_sample ''a'' None])"

lemma api_sample_fields [simp]:
  "ad_config (api_sample c) = ConfigWrapper_new c" "ad_docker (api_sample c) = []" "ad_files (api_sample c) = Map.empty"
  "internal_configuration (ConfigWrapper_new c) = c"
  by (simp_all add: api_sample_def ConfigWrapper_new_def)

lemma nothing_without_password_witness:
  "snd (api_call (api_env_sample True (\<lambda>_ s. s)) None
      \<lparr> aq_method = ''DELETE'', aq_path = ''/api/sites'', aq_headers = Map.empty, aq_query = [''hostname'' \<mapsto> ''a''], aq_item = None, aq_settings = None \<rparr>
      (api_sample (only_a\<lparr> cfg_odd_box_password := Some ''secret'' \<rparr>))) =
    api_sample (only_a\<lparr> cfg_odd_box_password := Some ''secret'' \<rparr>)"
  by (rule conjunct1 [OF nothing_without_password [where pwd = "''secret''"]]) (simp_all add: header_get_def)

lemma own_url_origin_refused_witness:
  "\<not> origin_allowed (only_a\<lparr> cfg_odd_box_url := Some ''admin.example.com'' \<rparr>) None (''https://'' @ ''admin.example.com'')"
  by (subst own_url_origin_refused) (simp_all add: only_a_def config_sample_def)

lemma sample_update:
  "updated_config None (HostedProcess (process_sample ''b'' None)) (api_sample only_a) = with_b"
  by (simp add: updated_config_def add_or_replace_def item_host_def add_or_replace_hosted_process_def only_a_def with_b_def Let_def sample_fields)
    (simp add: config_sample_def)

lemma with_b_not_a: "\<not> config_eq with_b only_a"
  by (simp add: only_a_def with_b_def config_eq_def sites_eq_def sample_fields)

lemma sample_path: "cfg_path only_a = Some ''/etc/odd/odd-box.toml''" "cfg_path with_b = Some ''/etc/odd/odd-box.toml''"
  by (simp_all add: only_a_def with_b_def config_sample_def)

lemma update_waits_for_reload_witness:
  "fst (update_handler (api_env_sample True (\<lambda>_ s. s)) None (HostedProcess (process_sample ''b'' None)) (api_sample only_a)) \<noteq>
     ApiText ''Site settings updated''"
proof -
  let ?env = "api_env_sample True (\<lambda>_ s. s)"
  have "at_look ?env k x = x" for k x by (induction k) (simp_all add: api_env_sample_def)
  then show ?thesis
    using update_waits_for_reload [of None "api_sample only_a" "HostedProcess (process_sample ''b'' None)" ?env
        "[''/etc/odd/odd-box.toml'' \<mapsto> config_to_string with_b]"]
    by (simp add: sample_update with_b_not_a write_config_def write_to_disk_def sample_path api_env_sample_def written_state_def)
qed

text \<open>A remote site of the name of a process.\<close>

lemma invalid_update_written_witness:
  "\<exists>re s'. update_handler (api_env_sample True (\<lambda>_. reload_step re)) None (RemoteSite (remote_sample [])) (api_sample (config_sample None (Some [process_sample (rs_host_name (remote_sample [])) None]))) =
     (ApiError ''Failed to update configuration'', s') \<and> ad_files s' ''/etc/odd/odd-box.toml'' \<noteq> None"
proof -
  let ?s = "api_sample (config_sample None (Some [process_sample (rs_host_name (remote_sample [])) None]))"
  let ?item = "RemoteSite (remote_sample [])"
  let ?c = "updated_config None ?item ?s"
  have c: "?c = config_sample (Some [remote_sample []]) (Some [process_sample (rs_host_name (remote_sample [])) None])"
    by (simp add: updated_config_def add_or_replace_def item_host_def add_or_replace_remote_site_def Let_def sample_fields)
      (simp add: config_sample_def)
  have "is_valid ?c \<noteq> Inr ()"
    unfolding valid_iff c by (simp add: all_host_names_def sample_fields)
  then obtain e where e: "is_valid ?c = Inl e" by (cases "is_valid ?c") auto
  have "\<exists>s'. update_handler (api_env_sample True (\<lambda>_. reload_step (reload_env_sample ?c))) None ?item ?s =
      (ApiError ''Failed to update configuration'', s') \<and>
    ad_files s' = (ad_files ?s)(''/etc/odd/odd-box.toml'' \<mapsto> config_to_string ?c) \<and> ap_super (ad_app s') = ap_super (ad_app ?s)"
    by (rule invalid_update_written [OF _ _ _ _ _ e])
      (simp_all add: c config_eq_def sites_eq_def sample_fields api_env_sample_def reload_env_sample_def parse_config_def,
        simp add: config_sample_def)
  then show ?thesis by (intro exI [of _ "reload_env_sample ?c"]) auto
qed

lemma reload_from_disk_cong:
  assumes "load_configuration (re\<lparr> re_read_file := f \<rparr>) (sp_config (ap_super app)) = load_configuration re (sp_config (ap_super app))"
  shows "reload_from_disk (re\<lparr> re_read_file := f \<rparr>) app = reload_from_disk re app"
proof -
  have f: "re_os (re\<lparr> re_read_file := f \<rparr>) = re_os re" "re_entries (re\<lparr> re_read_file := f \<rparr>) = re_entries re"
    "re_wait (re\<lparr> re_read_file := f \<rparr>) = re_wait re" by simp_all
  show ?thesis unfolding reload_from_disk_def Let_def assms f ..
qed


lemma failed_delete_forgets_status_witness:
  "\<exists>s'. delete_handler (api_env_sample False (\<lambda>_ s. s)) ''a'' (api_sample only_a) = (ApiError ''Failed to write config to disk'', s') \<and>
     internal_configuration (ad_config s') = only_a \<and> sp_status (ap_super (ad_app (api_sample only_a))) ''a'' = Some Running \<and>
     sp_status (ap_super (ad_app s')) ''a'' = None"
proof -
  have "''a'' \<in> set (all_host_names (internal_configuration (ad_config (api_sample only_a))))"
    by (simp add: all_host_names_def only_a_def sample_fields)
  moreover have "write_config (api_env_sample False (\<lambda>_ s. s)) (ad_files (api_sample only_a))
      (without_site ''a'' (internal_configuration (ad_config (api_sample only_a)))) = None"
    by (simp add: write_config_def write_to_disk_def without_site_def sample_path api_env_sample_def)
  ultimately obtain s' where "delete_handler (api_env_sample False (\<lambda>_ s. s)) ''a'' (api_sample only_a) = (ApiError ''Failed to write config to disk'', s')"
      "ad_config s' = ad_config (api_sample only_a)" "sp_status (ap_super (ad_app s')) ''a'' = None"
    using failed_delete_forgets_status by blast
  then show ?thesis by (intro exI [of _ s']) (simp add: api_sample_def app_sample_def)
qed

lemma saving_settings_as_read_witness:
  "\<exists>c'. with_settings Some (get_settings_handler only_a) only_a = Some c' \<and> cfg_http_port c' = Some 8080 \<and>
     cfg_hosted_process c' = cfg_hosted_process only_a"
  by (subst saving_settings_as_read) (simp_all add: only_a_def config_sample_def)

end
