(* ===== verification/Text_Layout.thy ===== *)
theory Text_Layout
  imports Prelude
begin

text \<open>
  Characters of a UTF-8 string and the layout of text in the terminal: \<open>str::trim\<close>,
  \<open>split_whitespace\<close> and \<open>is_char_boundary\<close> of the standard library, and \<open>wrap_string\<close>,
  \<open>split_string_into_chunks\<close> (\<open>src/tui/mod.rs\<close>) and \<open>trim_to_max_chars\<close> (\<open>src/tui/logs_widget.rs\<close>).
  The lemmas say when wrapping ends, that every line then fits, and that no letter is lost.
\<close>

section \<open>Characters\<close>

text \<open>A string is its bytes; a character is a first byte and the continuation bytes after it.\<close>

definition cont :: "char \<Rightarrow> bool" where
  "cont c = utf8_cont (byte_of_char c)"

function chars :: "string \<Rightarrow> string list" where
  "chars [] = []"
| "chars (c # cs) = (c # takeWhile cont cs) # chars (dropWhile cont cs)"
  by pat_completeness auto

termination chars by (relation "measure length") (auto simp: le_imp_less_Suc length_dropWhile_le)

text \<open>\<open>char::is_whitespace\<close>, the characters with the Unicode property White_Space.\<close>

definition white_codes :: "nat list list" where
  "white_codes =
     map (\<lambda>n. [n]) [9, 10, 11, 12, 13, 32] @ [[0xC2, 0x85], [0xC2, 0xA0], [0xE1, 0x9A, 0x80]] @
     map (\<lambda>n. [0xE2, 0x80, n]) [0x80 ..< 0x8B] @ [[0xE2, 0x80, 0xA8], [0xE2, 0x80, 0xA9], [0xE2, 0x80, 0xAF],
       [0xE2, 0x81, 0x9F], [0xE3, 0x80, 0x80]]"

definition white :: "string \<Rightarrow> bool" where
  "white c = (map of_char c \<in> set white_codes)"

definition trim :: "string \<Rightarrow> string" where
  "trim s = concat (rev (dropWhile white (rev (dropWhile white (chars s)))))"

fun words_of :: "string list \<Rightarrow> string \<Rightarrow> string list" where
  "words_of [] w = (if w = [] then [] else [w])"
| "words_of (c # cs) w = (if white c then (if w = [] then [] else [w]) @ words_of cs [] else words_of cs (w @ c))"

definition split_whitespace :: "string \<Rightarrow> string list" where
  "split_whitespace s = words_of (chars s) []"

definition is_char_boundary :: "string \<Rightarrow> nat \<Rightarrow> bool" where
  "is_char_boundary s i = (i = 0 \<or> i = length s \<or> i < length s \<and> \<not> cont (s ! i))"

section \<open>Wrapping\<close>

fun boundary_before :: "string \<Rightarrow> nat \<Rightarrow> nat" where
  "boundary_before s 0 = 0"
| "boundary_before s (Suc n) = (if is_char_boundary s (Suc n) then Suc n else boundary_before s n)"

definition chunk_end :: "string \<Rightarrow> nat \<Rightarrow> nat \<Rightarrow> nat" where
  "chunk_end s cap start = (if start + cap > length s then length s else boundary_before s (start + cap))"

text \<open>The loop does not end when a chunk is empty.\<close>

partial_function (option) chunks_from :: "string \<Rightarrow> nat \<Rightarrow> nat \<Rightarrow> string list run" where
  "chunks_from s cap start =
     (if start < length s then
        do { c \<leftarrow> slice s start (chunk_end s cap start);
             cs \<leftarrow> chunks_from s cap (chunk_end s cap start);
             Some (c # cs) }
      else Some [])"

definition split_string_into_chunks :: "string \<Rightarrow> nat \<Rightarrow> string list run" where
  "split_string_into_chunks s cap = chunks_from s cap 0"

fun wrap_words :: "nat \<Rightarrow> string list \<Rightarrow> string list \<Rightarrow> string \<Rightarrow> string list run" where
  "wrap_words m [] lines line = Some (if line = [] then lines else lines @ [line])"
| "wrap_words m (w # ws) lines line =
     (if length w \<le> m then
        (if line \<noteq> [] then
           (if length line + 1 + length w > m then wrap_words m ws (lines @ [line]) w
            else wrap_words m ws lines (line @ '' '' @ w))
         else wrap_words m ws lines w)
      else
        do { cs \<leftarrow> split_string_into_chunks w m;
             wrap_words m ws ((if line = [] then lines else lines @ [line]) @ cs) [] })"

definition wrap_string :: "string \<Rightarrow> nat \<Rightarrow> string list run" where
  "wrap_string s max_length = wrap_words max_length (split_whitespace s) [] []"

text \<open>\<open>trim_to_max_chars\<close>: the loop leaves the position of the last of the first \<open>n\<close> characters.\<close>

definition char_indices :: "string list \<Rightarrow> nat list" where
  "char_indices cs = map (\<lambda>k. length (concat (take k cs))) [0 ..< length cs]"

definition trim_to_max_chars :: "string \<Rightarrow> nat \<Rightarrow> string run" where
  "trim_to_max_chars s max_chars =
     (let cs = chars s; last_at = foldl (\<lambda>_ i. i) (length s) (take max_chars (char_indices cs)) in
      if length cs > max_chars then map_option (\<lambda>t. t @ ''..'') (slice s 0 last_at) else Some s)"

section \<open>Characters, proved\<close>

lemma concat_chars [simp]: "concat (chars s) = s"
  by (induction s rule: chars.induct) auto

lemma chars_not_Nil: "c \<in> set (chars s) \<Longrightarrow> c \<noteq> []"
  by (induction s rule: chars.induct) auto

lemma chars_tail_cont: "c \<in> set (chars s) \<Longrightarrow> list_all cont (tl c)"
  by (induction s rule: chars.induct) (auto simp: list_all_iff dest: set_takeWhileD)

text \<open>Text in which every byte starts a character, ASCII for one.\<close>

lemma chars_plain: "list_all (\<lambda>c. \<not> cont c) s \<Longrightarrow> chars s = map (\<lambda>c. [c]) s"
proof (induction s)
  case (Cons c cs)
  then have "takeWhile cont cs = []" "dropWhile cont cs = cs" by (cases cs; simp)+
  with Cons show ?case by simp
qed simp

lemma words_of_letters:
  "concat (words_of cs w) = w @ concat (filter (\<lambda>c. \<not> white c) cs)"
  by (induction cs w rule: words_of.induct) auto

lemma words_of_not_Nil: "x \<in> set (words_of cs w) \<Longrightarrow> x \<noteq> []"
  by (induction cs w rule: words_of.induct) (auto split: if_splits)

lemma boundary_before_le: "boundary_before s n \<le> n"
  by (induction n) auto

lemma boundary_before_reaches: "k \<le> n \<Longrightarrow> is_char_boundary s k \<Longrightarrow> k \<le> boundary_before s n"
  by (induction n) (auto simp: le_Suc_eq)

lemma boundary_before_boundary: "is_char_boundary s (boundary_before s n)"
  by (induction n) (auto simp: is_char_boundary_def)

lemma chunk_end_bounds:
  assumes "is_char_boundary s start" and "start \<le> length s"
  shows "start \<le> chunk_end s cap start" and "chunk_end s cap start \<le> length s"
    and "chunk_end s cap start \<le> start + cap" and "is_char_boundary s (chunk_end s cap start)"
proof -
  show "start \<le> chunk_end s cap start"
    using assms boundary_before_reaches [of start "start + cap" s] by (simp add: chunk_end_def)
  show "chunk_end s cap start \<le> length s"
    using boundary_before_le [of s "start + cap"] by (auto simp: chunk_end_def)
  show "chunk_end s cap start \<le> start + cap"
    using boundary_before_le [of s "start + cap"] by (auto simp: chunk_end_def)
  show "is_char_boundary s (chunk_end s cap start)"
    using boundary_before_boundary [of s "start + cap"] by (auto simp: chunk_end_def is_char_boundary_def)
qed

section \<open>When splitting ends\<close>

text \<open>A chunk that takes nothing is taken again and again.\<close>

lemma chunks_from_stuck: "chunks_from s cap start = Some cs \<Longrightarrow> \<not> (start < length s \<and> chunk_end s cap start = start)"
  by (rule chunks_from.raw_induct [where P = "\<lambda>s cap start cs. \<not> (start < length s \<and> chunk_end s cap start = start)"])
    (auto split: if_splits bind_splits)

text \<open>The characters of a string are at most \<open>k\<close> bytes long.\<close>

definition narrow_chars :: "nat \<Rightarrow> string \<Rightarrow> bool" where
  "narrow_chars k s = (\<forall>i. is_char_boundary s i \<and> i < length s \<longrightarrow> (\<exists>j. i < j \<and> j \<le> i + k \<and> is_char_boundary s j \<and> j \<le> length s))"

lemma chunk_end_progress:
  assumes "narrow_chars cap s" and "is_char_boundary s start" and "start < length s"
  shows "start < chunk_end s cap start"
proof (cases "start + cap > length s")
  case False
  obtain j where "start < j" "j \<le> start + cap" "is_char_boundary s j" using assms by (auto simp: narrow_chars_def)
  then show ?thesis using False boundary_before_reaches [of j "start + cap" s] by (simp add: chunk_end_def)
qed (use assms in \<open>simp add: chunk_end_def\<close>)

lemma take_drop_join: "i \<le> j \<Longrightarrow> take (j - i) (drop i s) @ drop j s = drop i s"
  by (metis append_take_drop_id drop_drop le_add_diff_inverse2)

lemma chunks_from_ends:
  assumes "narrow_chars cap s" and "is_char_boundary s start" and "start \<le> length s"
  shows "\<exists>cs. chunks_from s cap start = Some cs \<and> concat cs = drop start s \<and> (\<forall>c \<in> set cs. c \<noteq> [] \<and> length c \<le> cap)"
  using assms(2,3)
proof (induction "length s - start" arbitrary: start rule: less_induct)
  case less
  show ?case
  proof (cases "start < length s")
    case True
    let ?e = "chunk_end s cap start"
    note b = chunk_end_bounds [OF less.prems, of cap]
    have p: "start < ?e" by (rule chunk_end_progress [OF assms(1) less.prems(1) True])
    obtain cs where cs: "chunks_from s cap ?e = Some cs" "concat cs = drop ?e s" "\<forall>c \<in> set cs. c \<noteq> [] \<and> length c \<le> cap"
      using less.hyps [OF _ b(4) b(2)] diff_less_mono2 [OF p True] by blast
    have "chunks_from s cap start = Some (take (?e - start) (drop start s) # cs)"
      using True b cs(1) by (subst chunks_from.simps) simp
    then show ?thesis using cs p b take_drop_join [of start ?e s] True by auto
  next
    case False
    have "chunks_from s cap start = Some []" by (subst chunks_from.simps) (simp add: False)
    then show ?thesis using less.prems False by (intro exI [of _ "[]"]) simp
  qed
qed

lemma split_string_into_chunks_ends:
  "narrow_chars cap s \<Longrightarrow>
    \<exists>cs. split_string_into_chunks s cap = Some cs \<and> concat cs = s \<and> (\<forall>c \<in> set cs. c \<noteq> [] \<and> length c \<le> cap)"
  using chunks_from_ends [of cap s 0] by (simp add: split_string_into_chunks_def is_char_boundary_def)

lemma split_into_nothing: "s \<noteq> [] \<Longrightarrow> split_string_into_chunks s 0 = None"
  using chunks_from_stuck [of s 0 0] by (cases "split_string_into_chunks s 0") (auto simp: split_string_into_chunks_def chunk_end_def)

section \<open>Characters of a few bytes\<close>

text \<open>A character of at most \<open>k\<close> bytes; in well-formed UTF-8 every character has at most four.\<close>

definition char_ok :: "nat \<Rightarrow> string \<Rightarrow> bool" where
  "char_ok k c = (c \<noteq> [] \<and> \<not> cont (hd c) \<and> list_all cont (tl c) \<and> length c \<le> k)"

definition text_ok :: "nat \<Rightarrow> string \<Rightarrow> bool" where
  "text_ok k s = list_all (char_ok k) (chars s)"

lemma boundary_append:
  "c \<noteq> [] \<Longrightarrow> is_char_boundary (c @ w) (length c + j) \<longleftrightarrow> (if j = 0 then w = [] \<or> \<not> cont (hd w) else is_char_boundary w j)"
  by (auto simp: is_char_boundary_def nth_append hd_conv_nth)

lemma boundary_inside: "char_ok k c \<Longrightarrow> is_char_boundary (c @ w) i \<Longrightarrow> 0 < i \<Longrightarrow> length c \<le> i"
  by (cases i; cases c) (auto simp: is_char_boundary_def char_ok_def nth_append list_all_length not_less [symmetric] split: if_splits)

lemma char_ok_head: "list_all (char_ok k) cs \<Longrightarrow> concat cs = [] \<or> \<not> cont (hd (concat cs))"
  by (cases cs) (auto simp: char_ok_def)

lemma narrow_concat: "list_all (char_ok k) cs \<Longrightarrow> narrow_chars k (concat cs)"
proof (induction cs)
  case (Cons c cs)
  let ?w = "concat cs"
  have c: "char_ok k c" and cs: "list_all (char_ok k) cs" using Cons.prems by auto
  have ne: "c \<noteq> []" using c by (simp add: char_ok_def)
  show ?case
    unfolding narrow_chars_def
  proof (intro allI impI)
    fix i
    assume i: "is_char_boundary (concat (c # cs)) i \<and> i < length (concat (c # cs))"
    show "\<exists>j. i < j \<and> j \<le> i + k \<and> is_char_boundary (concat (c # cs)) j \<and> j \<le> length (concat (c # cs))"
    proof (cases "i = 0")
      case True
      have "is_char_boundary (c @ ?w) (length c)"
        using boundary_append [OF ne, of ?w 0] char_ok_head [OF cs] by simp
      then show ?thesis using c True by (intro exI [of _ "length c"]) (auto simp: char_ok_def)
    next
      case False
      then have "length c \<le> i" using boundary_inside [OF c, of ?w i] i by simp
      then obtain n where n: "i = length c + n" by (auto simp: le_iff_add)
      have "is_char_boundary ?w n \<and> n < length ?w"
        using i boundary_append [OF ne, of ?w n] n by (cases "n = 0") (auto simp: is_char_boundary_def)
      then obtain j where "n < j" "j \<le> n + k" "is_char_boundary ?w j" "j \<le> length ?w"
        using Cons.IH [OF cs] by (auto simp: narrow_chars_def)
      then show ?thesis using boundary_append [OF ne, of ?w j] n by (intro exI [of _ "length c + j"]) auto
    qed
  qed
qed (simp add: narrow_chars_def)

lemma words_of_narrow:
  "list_all (char_ok k) cs \<Longrightarrow> list_all (char_ok k) ds \<Longrightarrow> x \<in> set (words_of cs (concat ds)) \<Longrightarrow> narrow_chars k x"
proof (induction cs arbitrary: ds)
  case (Cons c cs)
  show ?case
  proof (cases "white c")
    case True
    then show ?thesis using Cons.IH [of "[]"] Cons.prems narrow_concat [of k ds] by (auto split: if_splits)
  next
    case False
    then show ?thesis using Cons.IH [of "ds @ [c]"] Cons.prems by simp
  qed
qed (auto split: if_splits intro: narrow_concat)

lemma chars_text:
  assumes "c \<noteq> []" and "\<not> cont (hd c)" and "list_all cont (tl c)" and "s = [] \<or> \<not> cont (hd s)"
  shows "chars (c @ s) = c # chars s"
proof -
  obtain b bs where c: "c = b # bs" using assms(1) by (cases c) auto
  have "takeWhile cont (bs @ s) = bs" "dropWhile cont (bs @ s) = s"
    using assms(3,4) by (cases s; auto simp: c takeWhile_append list_all_iff dropWhile_append)+
  then show ?thesis by (simp add: c)
qed

lemma cont_bytes: "cont c \<longleftrightarrow> utf8_cont (byte_of_char c)"
  by (simp add: cont_def)

lemma first_byte_not_cont: "utf8_valid bs \<Longrightarrow> bs = [] \<or> \<not> utf8_cont (hd bs)"
  by (cases bs) (auto simp: utf8_valid.simps(2) utf8_cont_def word_le_nat_alt word_less_nat_alt split: if_splits)

lemma second_cont: "utf8_second3 a b \<Longrightarrow> utf8_cont b" "utf8_second4 a b \<Longrightarrow> utf8_cont b"
  by (auto simp: utf8_second3_def utf8_second4_def utf8_cont_def word_le_nat_alt split: if_splits)

lemma text_ok_append: "char_ok k c \<Longrightarrow> text_ok k s \<Longrightarrow> s = [] \<or> \<not> cont (hd s) \<Longrightarrow> text_ok k (c @ s)"
  using chars_text [of c s] by (simp add: text_ok_def char_ok_def)

lemma utf8_step:
  assumes "utf8_valid (b0 # bs)"
  shows "utf8_valid bs \<or> (\<exists>b1 r. bs = b1 # r \<and> utf8_cont b1 \<and> utf8_valid r) \<or>
    (\<exists>b1 b2 r. bs = b1 # b2 # r \<and> utf8_cont b1 \<and> utf8_cont b2 \<and> utf8_valid r) \<or>
    (\<exists>b1 b2 b3 r. bs = b1 # b2 # b3 # r \<and> utf8_cont b1 \<and> utf8_cont b2 \<and> utf8_cont b3 \<and> utf8_valid r)"
    (is "?one \<or> ?two \<or> ?three \<or> ?four")
proof -
  note v = assms [unfolded utf8_valid.simps(2) [of b0 bs]]
  consider (a) "utf8_valid bs"
    | (b) "case bs of b1 # r \<Rightarrow> utf8_cont b1 \<and> utf8_valid r | _ \<Rightarrow> False"
    | (c) "case bs of b1 # b2 # r \<Rightarrow> utf8_second3 b0 b1 \<and> utf8_cont b2 \<and> utf8_valid r | _ \<Rightarrow> False"
    | (d) "case bs of b1 # b2 # b3 # r \<Rightarrow> utf8_second4 b0 b1 \<and> utf8_cont b2 \<and> utf8_cont b3 \<and> utf8_valid r | _ \<Rightarrow> False"
    using v by argo
  then show ?thesis
  proof cases
    case b
    then have ?two by (cases bs) auto
    then show ?thesis by blast
  next
    case c
    then have ?three using second_cont(1) [of b0] by (cases bs; cases "tl bs") auto
    then show ?thesis by blast
  next
    case d
    then have ?four using second_cont(2) [of b0] by (cases bs; cases "tl bs"; cases "tl (tl bs)") auto
    then show ?thesis by blast
  qed blast
qed

lemma utf8_text_ok: "utf8_valid (as_bytes s) \<Longrightarrow> text_ok 4 s"
proof (induction "length s" arbitrary: s rule: less_induct)
  case less
  have step: "text_ok 4 (c @ r)"
    if "s = c @ r" "c \<noteq> []" "\<not> utf8_cont (byte_of_char (hd c))" "list_all cont (tl c)" "length c \<le> 4" "utf8_valid (as_bytes r)" for c r
  proof (rule text_ok_append)
    show "text_ok 4 r" using less.hyps [of r] that by simp
    show "r = [] \<or> \<not> cont (hd r)" using first_byte_not_cont [OF that(6)] by (cases r) (auto simp: as_bytes_def cont_def)
    show "char_ok 4 c" using that by (simp add: char_ok_def cont_def)
  qed
  show ?case
  proof (cases s)
    case Nil
    then show ?thesis by (simp add: text_ok_def)
  next
    case (Cons a t)
    have v: "utf8_valid (byte_of_char a # as_bytes t)" using less.prems Cons by (simp add: as_bytes_def)
    have h: "\<not> utf8_cont (byte_of_char a)" using first_byte_not_cont [OF v] by simp
    consider (one) "utf8_valid (as_bytes t)"
      | (two) b r where "t = b # r" "cont b" "utf8_valid (as_bytes r)"
      | (three) b c r where "t = b # c # r" "cont b" "cont c" "utf8_valid (as_bytes r)"
      | (four) b c d r where "t = b # c # d # r" "cont b" "cont c" "cont d" "utf8_valid (as_bytes r)"
      using utf8_step [OF v] by (auto simp: as_bytes_def cont_def map_eq_Cons_conv)
    then show ?thesis
    proof cases
      case one
      then show ?thesis using step [of "[a]" t] h Cons by simp
    next
      case (two b r)
      then show ?thesis using step [of "[a, b]" r] h Cons by simp
    next
      case (three b c r)
      then show ?thesis using step [of "[a, b, c]" r] h Cons by simp
    next
      case (four b c d r)
      then show ?thesis using step [of "[a, b, c, d]" r] h Cons by simp
    qed
  qed
qed

section \<open>What wrapping promises\<close>

definition letters :: "string \<Rightarrow> string" where
  "letters s = filter (\<lambda>c. c \<noteq> CHR '' '') s"

lemma letters_append [simp]: "letters (s @ t) = letters s @ letters t" "letters ('' '' @ t) = letters t" "letters [] = []"
  "letters (CHR '' '' # t) = letters t"
  by (simp_all add: letters_def)

definition lines_fit :: "nat \<Rightarrow> string list \<Rightarrow> bool" where
  "lines_fit m ls = list_all (\<lambda>l. l \<noteq> [] \<and> length l \<le> m) ls"

lemma lines_fit_append [simp]: "lines_fit m (a @ b) \<longleftrightarrow> lines_fit m a \<and> lines_fit m b"
  "lines_fit m []" "lines_fit m (l # ls) \<longleftrightarrow> l \<noteq> [] \<and> length l \<le> m \<and> lines_fit m ls"
  by (auto simp: lines_fit_def)

lemma wrap_words_fit:
  assumes "\<forall>w \<in> set ws. w \<noteq> [] \<and> narrow_chars m w" and "lines_fit m lines" and "length line \<le> m"
  shows "\<exists>ls. wrap_words m ws lines line = Some ls \<and> lines_fit m ls \<and>
    letters (concat ls) = letters (concat lines @ line @ concat ws)"
  using assms
proof (induction m ws lines line rule: wrap_words.induct)
  case (2 m w ws lines line)
  show ?case
  proof (cases "length w \<le> m")
    case True
    then show ?thesis using 2 by (auto simp: lines_fit_def)
  next
    case False
    obtain cs where cs: "split_string_into_chunks w m = Some cs" "concat cs = w" "\<forall>c \<in> set cs. c \<noteq> [] \<and> length c \<le> m"
      using split_string_into_chunks_ends [of m w] 2(5) by auto
    let ?lines = "(if line = [] then lines else lines @ [line]) @ cs"
    have "lines_fit m ?lines" using cs(3) 2(6,7) by (auto simp: lines_fit_def list_all_iff)
    then show ?thesis using 2(4) [OF False, of cs] 2(5) cs False by auto
  qed
qed simp

lemma wrap_string_fits:
  assumes "text_ok m s"
  shows "\<exists>ls. wrap_string s m = Some ls \<and> lines_fit m ls \<and>
    letters (concat ls) = letters (concat (filter (\<lambda>c. \<not> white c) (chars s)))"
proof -
  have "narrow_chars m w \<and> w \<noteq> []" if "w \<in> set (split_whitespace s)" for w
    using words_of_narrow [of m "chars s" "[]" w] words_of_not_Nil [of w "chars s" "[]"] that assms
    by (auto simp: split_whitespace_def text_ok_def)
  then show ?thesis
    using wrap_words_fit [of "split_whitespace s" m "[]" "[]"] words_of_letters [of "chars s" "[]"]
    by (auto simp: wrap_string_def split_whitespace_def)
qed

lemma wrap_words_nothing: "ws \<noteq> [] \<Longrightarrow> [] \<notin> set ws \<Longrightarrow> wrap_words 0 ws lines line = None"
  by (cases ws) (auto simp: split_into_nothing)

lemma wrap_string_hangs:
  assumes "c \<in> set (chars s)" and "\<not> white c"
  shows "wrap_string s 0 = None"
proof -
  have "concat (split_whitespace s) \<noteq> []"
    using words_of_letters [of "chars s" "[]"] chars_not_Nil [OF assms(1)] assms by (auto simp: split_whitespace_def)
  then show ?thesis
    using words_of_not_Nil [of "[]" "chars s" "[]"]
    by (auto simp: wrap_string_def split_whitespace_def intro!: wrap_words_nothing)
qed

text \<open>A text that is too long keeps one character less than it may, and is cut to itself again.\<close>

lemma trim_to_max_chars_long:
  assumes "0 < n" and "n < length (chars s)"
  shows "trim_to_max_chars s n = Some (concat (take (n - 1) (chars s)) @ ''..'')"
proof -
  let ?cs = "chars s"
  obtain k where k: "n = Suc k" using assms(1) by (cases n) auto
  have l: "take n (char_indices ?cs) = map (\<lambda>i. length (concat (take i ?cs))) [0 ..< k] @ [length (concat (take k ?cs))]"
    using assms(2) by (simp add: char_indices_def take_map k)
  have "take (length (concat (take k ?cs))) s = concat (take k ?cs)"
    using append_take_drop_id [of k ?cs] concat_append [of "take k ?cs" "drop k ?cs"] by (metis append_eq_conv_conj concat_chars)
  moreover have "length (concat (take k ?cs)) \<le> length s"
    using concat_append [of "take k ?cs" "drop k ?cs"] by (metis append_take_drop_id concat_chars le_add1 length_append)
  ultimately show ?thesis using assms(2) unfolding trim_to_max_chars_def Let_def l by (simp add: k)
qed

lemma trim_to_max_chars_short: "length (chars s) \<le> n \<Longrightarrow> trim_to_max_chars s n = Some s"
  by (simp add: trim_to_max_chars_def)

lemma trim_to_max_chars_total: "0 < n \<Longrightarrow> trim_to_max_chars s n \<noteq> None"
  by (cases "n < length (chars s)") (simp_all add: trim_to_max_chars_long trim_to_max_chars_short)

end
