(* ===== verification/Logging.thy ===== *)
theory Logging
  imports Text_Layout Config_V3 Config_Text
begin

text \<open>
  \<open>src/logging.rs\<close>: how an event of the tracing library becomes a log message, in a terminal session
  (\<open>TuiLoggerLayer\<close>) and without one (\<open>NonTuiLoggerLayer\<close>), and the buffer of messages that the
  terminal shows. The order in which the map of an event's fields lists its keys is an argument; \<open>thread\<close>
  is the name of the thread that logs.
\<close>

section \<open>Messages\<close>

record LogMsg =
  lm_msg :: string
  lm_lvl :: LogLevel
  lm_src :: string
  lm_thread :: "string option"

record log_event =
  le_target :: string
  le_level :: LogLevel
  le_module :: "string option"
  le_fields :: "(string \<times> string) list"

text \<open>\<open>LogVisitor\<close>: \<open>record_str\<close> and \<open>record_debug\<close> insert the text of a field.\<close>

definition visited :: "(string \<times> string) list \<Rightarrow> (string \<rightharpoonup> string)" where
  "visited named = foldl (\<lambda>m (k, v). m(k \<mapsto> v)) Map.empty named"

definition visitor_result :: "((string \<rightharpoonup> string) \<Rightarrow> string list) \<Rightarrow> (string \<rightharpoonup> string) \<Rightarrow> string" where
  "visitor_result keys named = join '', '' (List.map_filter named (keys named))"

text \<open>A message that begins with a name in brackets is from the source of that name.\<close>

definition split_source :: "string \<Rightarrow> string \<times> string" where
  "split_source msg =
     (if starts_with msg ''['' then
        (case find_sub msg '']'' of
           Some at \<Rightarrow> (trim (take (at - 1) (drop 1 msg)), trim (drop (at + 1) msg))
         | None \<Rightarrow> ([], msg))
      else ([], msg))"

definition source_of :: "log_event \<Rightarrow> string \<Rightarrow> string" where
  "source_of e src = (if src = [] \<and> \<not> ends_with (le_target e) ''proc_host'' then le_target e else src)"

definition worker_thread :: string where
  "worker_thread = ''tokio-runtime-worker''"

definition plain_log_message ::
  "((string \<rightharpoonup> string) \<Rightarrow> string list) \<Rightarrow> string option \<Rightarrow> log_event \<Rightarrow> LogMsg" where
  "plain_log_message keys thread e =
     (let (src, msg) = split_source (visitor_result keys (visited (le_fields e)));
          src = source_of e src;
          name = unwrap_or thread ''HAH!'';
          skip_src = (name = worker_thread) in
      \<lparr> lm_msg = msg, lm_lvl = le_level e, lm_src = (if skip_src then [] else src),
        lm_thread = Some (if skip_src then src else name) \<rparr>)"

definition tui_log_message ::
  "((string \<rightharpoonup> string) \<Rightarrow> string list) \<Rightarrow> string option \<Rightarrow> log_event \<Rightarrow> LogMsg" where
  "tui_log_message keys thread e =
     (let m = plain_log_message keys thread e in
      if lm_thread m = Some [] \<and> unwrap_or thread ''HAH!'' = worker_thread
      then m\<lparr> lm_thread := Some (unwrap_or (le_module e) []) \<rparr> else m)"

section \<open>The buffer\<close>

record SharedLogBuffer =
  lb_logs :: "LogMsg list"
  lb_limit :: "nat option"
  lb_pause :: bool

definition SharedLogBuffer_new :: SharedLogBuffer where
  "SharedLogBuffer_new = \<lparr> lb_logs = [], lb_limit = Some 500, lb_pause = False \<rparr>"

text \<open>Popping from the front while there are more than \<open>n\<close>.\<close>

definition keep_last :: "nat \<Rightarrow> 'a list \<Rightarrow> 'a list" where
  "keep_last n xs = drop (length xs - n) xs"

definition buffer_push :: "LogMsg \<Rightarrow> SharedLogBuffer \<Rightarrow> SharedLogBuffer" where
  "buffer_push m b =
     (if lb_pause b then b
      else b\<lparr> lb_logs := keep_last (unwrap_or (lb_limit b) 1000) (lb_logs b @ [m]) \<rparr>)"

text \<open>\<open>on_event\<close>: the message is sent to the clients of the admin API, and to the buffer of a terminal.\<close>

record log_sinks =
  ls_sent :: "LogMsg list"
  ls_buffer :: SharedLogBuffer

definition tui_on_event ::
  "((string \<rightharpoonup> string) \<Rightarrow> string list) \<Rightarrow> string option \<Rightarrow> log_event \<Rightarrow> log_sinks \<Rightarrow> log_sinks" where
  "tui_on_event keys thread e s =
     (let m = tui_log_message keys thread e in
      \<lparr> ls_sent = ls_sent s @ [m], ls_buffer = buffer_push m (ls_buffer s) \<rparr>)"

definition non_tui_on_event ::
  "((string \<rightharpoonup> string) \<Rightarrow> string list) \<Rightarrow> string option \<Rightarrow> log_event \<Rightarrow> log_sinks \<Rightarrow> log_sinks" where
  "non_tui_on_event keys thread e s = s\<lparr> ls_sent := ls_sent s @ [plain_log_message keys thread e] \<rparr>"

section \<open>What the messages say\<close>

lemma keep_last_length [simp]: "length (keep_last n xs) = min n (length xs)"
  by (simp add: keep_last_def)

lemma keep_last_suffix: "\<exists>a. xs = a @ keep_last n xs"
  unfolding keep_last_def by (metis append_take_drop_id)

lemma find_bracket: "CHR '']'' \<notin> set a \<Longrightarrow> find_sub (a @ '']'' @ b) '']'' = Some (length a)"
  by (induction a) auto

lemma split_source_tagged:
  assumes "CHR '']'' \<notin> set name"
  shows "split_source (''['' @ name @ '']'' @ text) = (trim name, trim text)"
  using find_bracket [of "''['' @ name" "text"] assms by (simp add: split_source_def)

lemma split_source_plain: "\<not> starts_with msg ''['' \<Longrightarrow> split_source msg = ([], msg)"
  by (simp add: split_source_def)

text \<open>A line of a hosted process, logged as [name] text by a worker of the runtime, is shown
  under the name of the process, in the terminal and to the clients of the admin API; no other field
  of the event tells the process.\<close>

theorem process_line_shown_under_its_name:
  assumes "le_fields e = [(''message'', ''['' @ name @ '']'' @ text)]" and "CHR '']'' \<notin> set name"
    and "keys [''message'' \<mapsto> ''['' @ name @ '']'' @ text] = [''message'']" and "trim name \<noteq> []"
  shows "tui_on_event keys (Some worker_thread) e s =
    (let m = \<lparr> lm_msg = trim text, lm_lvl = le_level e, lm_src = [], lm_thread = Some (trim name) \<rparr> in
     \<lparr> ls_sent = ls_sent s @ [m], ls_buffer = buffer_push m (ls_buffer s) \<rparr>)"
proof -
  have r: "visitor_result keys (visited (le_fields e)) = ''['' @ name @ '']'' @ text"
    using assms(3) by (simp add: assms(1) visited_def visitor_result_def map_filter_simps)
  have "plain_log_message keys (Some worker_thread) e =
      \<lparr> lm_msg = trim text, lm_lvl = le_level e, lm_src = [], lm_thread = Some (trim name) \<rparr>"
    unfolding plain_log_message_def r split_source_tagged [OF assms(2)] using assms(4) by (simp add: source_of_def)
  then show ?thesis using assms(4) by (simp add: tui_on_event_def tui_log_message_def Let_def)
qed

text \<open>Events pushed one after the other.\<close>

fun buffer_pushes :: "LogMsg list \<Rightarrow> SharedLogBuffer \<Rightarrow> SharedLogBuffer" where
  "buffer_pushes [] b = b"
| "buffer_pushes (m # ms) b = buffer_pushes ms (buffer_push m b)"

lemma keep_last_again: "keep_last n (keep_last n xs @ ys) = keep_last n (xs @ ys)"
proof (cases "length xs \<le> n")
  case False
  then have "drop (length xs - n) xs @ ys = drop (length xs - n) (xs @ ys)" by simp
  then show ?thesis using False by (simp add: keep_last_def add.commute del: drop_append)
qed (simp add: keep_last_def)

lemma buffer_pushes_kept:
  "\<not> lb_pause b \<Longrightarrow> ms \<noteq> [] \<Longrightarrow> buffer_pushes ms b = b\<lparr> lb_logs := keep_last (unwrap_or (lb_limit b) 1000) (lb_logs b @ ms) \<rparr>"
proof (induction ms arbitrary: b)
  case (Cons m ms)
  show ?case
  proof (cases "ms = []")
    case False
    then show ?thesis using Cons.IH [of "buffer_push m b"] Cons.prems by (simp add: buffer_push_def keep_last_again)
  qed (use Cons.prems in \<open>simp add: buffer_push_def\<close>)
qed simp

text \<open>While logging is not paused, the buffer holds the last messages in their order: 500 of
  them while the end is followed, 1000 while the page is scrolled.\<close>

theorem buffer_holds_the_last_messages:
  assumes "\<not> lb_pause b" and "ms \<noteq> []"
  shows "lb_logs (buffer_pushes ms b) = keep_last (case lb_limit b of Some n \<Rightarrow> n | None \<Rightarrow> 1000) (lb_logs b @ ms)"
  using buffer_pushes_kept [OF assms] by (simp add: unwrap_or_def)

section \<open>Examples\<close>

definition message_sample :: "string \<Rightarrow> LogMsg" where
  "message_sample t = \<lparr> lm_msg = t, lm_lvl = Info, lm_src = [], lm_thread = Some ''odd_box'' \<rparr>"

lemma process_line_shown_under_its_name_witness:
  "lm_thread (last (ls_sent (tui_on_event (\<lambda>_. [''message'']) (Some worker_thread)
     \<lparr> le_target = ''odd_box::proc_host'', le_level = Info, le_module = None, le_fields = [(''message'', ''[a] hi'')] \<rparr>
     \<lparr> ls_sent = [], ls_buffer = SharedLogBuffer_new \<rparr>))) = Some ''a''"
proof -
  have "trim ''a'' = ''a''" by code_simp
  then show ?thesis
    using process_line_shown_under_its_name [of
        "\<lparr> le_target = ''odd_box::proc_host'', le_level = Info, le_module = None, le_fields = [(''message'', ''[a] hi'')] \<rparr>"
        "''a''" "'' hi''" "\<lambda>_. [''message'']" "\<lparr> ls_sent = [], ls_buffer = SharedLogBuffer_new \<rparr>"]
    by (simp add: Let_def)
qed

lemma buffer_holds_the_last_messages_witness:
  "lb_logs (buffer_pushes [message_sample ''a'', message_sample ''b''] (SharedLogBuffer_new\<lparr> lb_limit := Some 1 \<rparr>)) = [message_sample ''b'']"
  using buffer_holds_the_last_messages [of "SharedLogBuffer_new\<lparr> lb_limit := Some 1 \<rparr>" "[message_sample ''a'', message_sample ''b'']"]
  by (simp add: SharedLogBuffer_new_def keep_last_def)

end
