(* ===== verification/Terminal.thy ===== *)
theory Terminal
  imports Complex_Main Logging Monitoring Proc_Host "HOL-Library.List_Lexorder" "HOL-Library.Char_ord"
begin

text \<open>
  The terminal interface: the scroll state of a page (\<open>src/tui/scroll_state_wrapper.rs\<close>), the state of
  the interface (\<open>src/types/tui_state.rs\<close>), what its pages show (\<open>src/tui/logs_widget.rs\<close>,
  \<open>connections_widget.rs\<close>, \<open>threads_widget.rs\<close>) and the loop that draws and handles events
  (\<open>src/tui/mod.rs\<close>). Styles are left out, and so is the library's drawing state of a scroll bar, which only
  its drawing reads. \<open>None\<close> is a panic or a loop that never ends. How the screen is divided is an argument.
\<close>

section \<open>Floating point\<close>

text \<open>
  A value of a binary format with \<open>p\<close> bits, 24 for \<open>f32\<close> and 53 for \<open>f64\<close>: the nearest one, ties to
  even. The numbers here are far from the limits of the exponents.
\<close>

fun bit_len :: "nat \<Rightarrow> nat" where
  "bit_len n = (if n = 0 then 0 else Suc (bit_len (n div 2)))"

declare bit_len.simps [simp del]

definition floor_log2 :: "rat \<Rightarrow> int" where
  "floor_log2 x =
     (let (a, b) = quotient_of x; k = int (bit_len (nat a)) - int (bit_len (nat b)) in
      if 2 powi k \<le> x then k else k - 1)"

definition half_even :: "rat \<Rightarrow> int" where
  "half_even x = (let f = \<lfloor>x\<rfloor>; d = x - of_int f in if 1 / 2 < d \<or> d = 1 / 2 \<and> odd f then f + 1 else f)"

definition float_abs :: "nat \<Rightarrow> rat \<Rightarrow> rat" where
  "float_abs p x = (if x = 0 then 0 else let e = floor_log2 x - int p + 1 in of_int (half_even (x / 2 powi e)) * 2 powi e)"

definition float :: "nat \<Rightarrow> rat \<Rightarrow> rat" where
  "float p x = (if x < 0 then - float_abs p (- x) else float_abs p x)"

abbreviation f32 :: "rat \<Rightarrow> rat" where "f32 \<equiv> float 24"

abbreviation f64 :: "rat \<Rightarrow> rat" where "f64 \<equiv> float 53"

section \<open>Scrolling\<close>

text \<open>\<open>vertical_scroll\<close> is the first row that is shown; \<open>None\<close> follows the end.\<close>

record ScrollStateWrapper =
  sw_vertical_scroll :: "nat option"
  sw_total_rows :: nat
  sw_visible_rows :: nat
  sw_area_height :: nat
  sw_area_width :: nat
  sw_scroll_bar_hovered :: bool
  sw_last_mouse_down_y_pos :: nat

definition scroll_max :: "ScrollStateWrapper \<Rightarrow> nat" where
  "scroll_max s = sw_total_rows s - sw_area_height s"

definition scroll_up :: "nat option \<Rightarrow> ScrollStateWrapper \<Rightarrow> ScrollStateWrapper" where
  "scroll_up n s =
     (case sw_vertical_scroll s of
        Some current \<Rightarrow> if 0 < current then s\<lparr> sw_vertical_scroll := Some (current - unwrap_or n 1) \<rparr> else s
      | None \<Rightarrow> s\<lparr> sw_vertical_scroll := Some (scroll_max s - unwrap_or n 1) \<rparr>)"

definition scroll_down :: "nat option \<Rightarrow> ScrollStateWrapper \<Rightarrow> ScrollStateWrapper" where
  "scroll_down n s =
     (let current = unwrap_or (sw_vertical_scroll s) (scroll_max s) in
      if current < scroll_max s then s\<lparr> sw_vertical_scroll := Some (min (current + unwrap_or n 1) (scroll_max s)) \<rparr>
      else s\<lparr> sw_vertical_scroll := None \<rparr>)"

definition calculate_thumb_size :: "ScrollStateWrapper \<Rightarrow> rat" where
  "calculate_thumb_size s =
     (let total = of_nat (sw_total_rows s); height = of_nat (sw_area_height s) in
      if sw_total_rows s \<le> sw_area_height s then f32 height
      else f32 (of_int \<lceil>f64 (f64 (f64 height / f64 total) * f64 height)\<rceil>))"

definition handle_mouse_move :: "nat \<Rightarrow> nat \<Rightarrow> ScrollStateWrapper \<Rightarrow> ScrollStateWrapper" where
  "handle_mouse_move column row s =
     (let total = of_nat (sw_total_rows s); height = of_nat (sw_area_height s);
          thumb_size = max (calculate_thumb_size s) 1;
          vscroll = of_nat (unwrap_or (sw_vertical_scroll s) (scroll_max s));
          thumb_position = max 1
            (if sw_area_height s < sw_total_rows s
             then f32 (f32 (f32 vscroll / f32 (f32 total - f32 height)) * f32 (f32 height - thumb_size)) else 1);
          horizontal_match = (sw_area_width s - 1 \<le> column \<and> column \<le> sw_area_width s + 1);
          vertical_match = (\<lfloor>thumb_position\<rfloor> - 2 \<le> int row \<and> int row \<le> \<lfloor>f32 (f32 (thumb_position + thumb_size) + 1)\<rfloor>) in
      s\<lparr> sw_scroll_bar_hovered := horizontal_match \<and> vertical_match \<rparr>)"

text \<open>\<open>f32::round\<close> rounds a half up; \<open>0 / 0\<close> is not a number, which becomes the row 0, as the 0 does here.\<close>

definition handle_mouse_drag :: "nat \<Rightarrow> ScrollStateWrapper \<Rightarrow> ScrollStateWrapper" where
  "handle_mouse_drag row s =
     (if sw_scroll_bar_hovered s then
        (let click_position = min row (sw_area_height s);
             percentage = f32 (f32 (of_nat click_position) / f32 (of_nat (sw_area_height s)));
             scroll_to = nat \<lfloor>f32 (percentage * f32 (of_nat (sw_total_rows s))) + 1 / 2\<rfloor>;
             new_val = min scroll_to (scroll_max s) in
         s\<lparr> sw_vertical_scroll := (if new_val = scroll_max s then None else Some new_val) \<rparr>)
      else s\<lparr> sw_last_mouse_down_y_pos := row \<rparr>)"

text \<open>Dragging to the bottom follows the end, whatever the rounding does.\<close>

definition in_range :: "ScrollStateWrapper \<Rightarrow> bool" where
  "in_range s = (case sw_vertical_scroll s of Some n \<Rightarrow> n \<le> scroll_max s | None \<Rightarrow> True)"

lemma scroll_max_update [simp]: "scroll_max (s\<lparr> sw_vertical_scroll := v \<rparr>) = scroll_max s"
  "scroll_max (s\<lparr> sw_scroll_bar_hovered := h \<rparr>) = scroll_max s" "scroll_max (s\<lparr> sw_last_mouse_down_y_pos := r \<rparr>) = scroll_max s"
  by (simp_all add: scroll_max_def)

lemma scrolling_in_range:
  assumes "in_range s"
  shows "in_range (scroll_up n s)" "in_range (scroll_down n s)" "in_range (handle_mouse_drag row s)"
    "in_range (handle_mouse_move column row s)"
  using assms
  by (auto simp: in_range_def scroll_up_def scroll_down_def handle_mouse_drag_def handle_mouse_move_def Let_def split: option.splits)

section \<open>State of the interface\<close>

datatype TuiSiteWindowState = Hide | Small | Medium | Large

fun next_window :: "TuiSiteWindowState \<Rightarrow> TuiSiteWindowState" where
  "next_window Hide = Small"
| "next_window Small = Medium"
| "next_window Medium = Large"
| "next_window Large = Hide"

datatype Page = Logs | Statistics | ConnectionsPage | Threads

record Rect =
  rt_x :: nat
  rt_y :: nat
  rt_width :: nat
  rt_height :: nat

record TuiState =
  ts_site_rects :: "(Rect \<times> string) list"
  ts_app_window_state :: TuiSiteWindowState
  ts_hovered :: "string option"
  ts_current_page :: Page
  ts_connections :: ScrollStateWrapper
  ts_threads :: ScrollStateWrapper
  ts_logs :: ScrollStateWrapper

definition scroll_start :: "nat option \<Rightarrow> ScrollStateWrapper" where
  "scroll_start v =
     \<lparr> sw_vertical_scroll = v, sw_total_rows = 0, sw_visible_rows = 0, sw_area_height = 0, sw_area_width = 0,
       sw_scroll_bar_hovered = False, sw_last_mouse_down_y_pos = 0 \<rparr>"

definition TuiState_new :: TuiState where
  "TuiState_new =
     \<lparr> ts_site_rects = [], ts_app_window_state = Small, ts_hovered = None, ts_current_page = Logs,
       ts_connections = scroll_start (Some 0), ts_threads = scroll_start (Some 0), ts_logs = scroll_start None \<rparr>"

text \<open>The columns \<open>left\<close> and \<open>right\<close> of a rectangle (\<open>right\<close> is the first one beyond it), both included here.\<close>

definition sites_handle_mouse_hover :: "nat \<Rightarrow> nat \<Rightarrow> TuiState \<Rightarrow> TuiState" where
  "sites_handle_mouse_hover column row s =
     s\<lparr> ts_hovered := map_option snd (List.find (\<lambda>(r, site). rt_x r \<le> column \<and> column \<le> rt_x r + rt_width r \<and> row = rt_y r)
          (ts_site_rects s)) \<rparr>"

text \<open>
  The whole of it. \<open>te_filter\<close> is the filter of the log that was set last: its level, and whether the
  observer's messages are limited to warnings. \<open>te_disabled\<close> is \<open>disabled_items\<close>.
\<close>

datatype Theme = DarkTheme | LightTheme

record Terminal =
  te_tui :: TuiState
  te_buffer :: SharedLogBuffer
  te_theme :: Theme
  te_manual_theme :: "Theme option"
  te_count :: nat
  te_level :: LogLevel
  te_filter :: "LogLevel \<times> bool"
  te_inspection :: bool
  te_exit :: bool
  te_status :: "string \<rightharpoonup> ProcState"
  te_sent :: "ProcMessage list"
  te_disabled :: "string list"

text \<open>A broadcast fails when nobody receives (\<open>receivers\<close>); here that is a panic.\<close>

definition tell :: "bool \<Rightarrow> ProcMessage \<Rightarrow> Terminal \<Rightarrow> Terminal run" where
  "tell receivers m t = (if receivers then Some (t\<lparr> te_sent := te_sent t @ [m] \<rparr>) else None)"

definition sites_handle_mouse_click :: "bool \<Rightarrow> Terminal \<Rightarrow> Terminal run" where
  "sites_handle_mouse_click receivers t =
     (case ts_hovered (te_tui t) of
        None \<Rightarrow> Some t
      | Some site \<Rightarrow>
          (case te_status t site of
             Some Faulty \<Rightarrow> tell receivers (Stop site) (t\<lparr> te_status := (te_status t)(site \<mapsto> Stopped) \<rparr>)
           | Some Stopped \<Rightarrow> tell receivers (Start site) (t\<lparr> te_status := (te_status t)(site \<mapsto> Starting) \<rparr>)
           | Some Running \<Rightarrow> tell receivers (Stop site) (t\<lparr> te_status := (te_status t)(site \<mapsto> Stopping) \<rparr>)
           | _ \<Rightarrow> Some t))"

section \<open>Keys and mouse\<close>

datatype KeyCode =
    CharKey char
  | Esc
  | Enter
  | UpKey
  | DownKey
  | LeftKey
  | RightKey
  | PageUp
  | PageDown
  | Tab
  | BackTab
  | OtherKey

datatype mouse_kind = MouseMoved | LeftDown | LeftDrag | WheelDown | WheelUp | OtherMouse

datatype modifiers = NoModifiers | Control | OtherModifiers

datatype tui_event = KeyEvent KeyCode modifiers | MouseEvent mouse_kind nat nat | OtherTuiEvent

text \<open>The log levels that the key \<open>l\<close> goes through.\<close>

fun next_level :: "LogLevel \<Rightarrow> LogLevel" where
  "next_level Trace = Info"
| "next_level Info = Warn"
| "next_level Warn = Error"
| "next_level Error = Debug"
| "next_level Debug = Trace"

fun next_page :: "Page \<Rightarrow> Page" where
  "next_page Logs = ConnectionsPage"
| "next_page ConnectionsPage = Statistics"
| "next_page Statistics = Threads"
| "next_page Threads = Logs"

fun previous_page :: "Page \<Rightarrow> Page" where
  "previous_page Logs = Threads"
| "previous_page Threads = Statistics"
| "previous_page Statistics = ConnectionsPage"
| "previous_page ConnectionsPage = Logs"

definition other_theme :: "Theme \<Rightarrow> Theme" where
  "other_theme theme = (case theme of LightTheme \<Rightarrow> DarkTheme | DarkTheme \<Rightarrow> LightTheme)"

text \<open>\<open>False\<close> ends the loop.\<close>

definition mode_key :: "KeyCode \<Rightarrow> Terminal \<Rightarrow> bool \<times> Terminal" where
  "mode_key code t =
     (if code = CharKey (CHR ''l'') then
        (True, t\<lparr> te_level := next_level (te_level t), te_filter := (next_level (te_level t), True) \<rparr>)
      else if code = CharKey (CHR ''o'') then
        (True, if te_inspection t then t\<lparr> te_inspection := False, te_filter := (te_level t, True) \<rparr>
               else t\<lparr> te_inspection := True, te_filter := (te_level t, False) \<rparr>)
      else if code = Esc \<or> code = CharKey (CHR ''q'') then (False, t\<lparr> te_exit := True \<rparr>)
      else if code = CharKey (CHR ''t'') then
        (let new = (case te_manual_theme t of None \<Rightarrow> other_theme (te_theme t) | Some m \<Rightarrow> other_theme m) in
         (True, t\<lparr> te_manual_theme := Some new, te_theme := new \<rparr>))
      else (True, t))"

abbreviation on_tui :: "(TuiState \<Rightarrow> TuiState) \<Rightarrow> Terminal \<Rightarrow> Terminal" where
  "on_tui f t \<equiv> t\<lparr> te_tui := f (te_tui t) \<rparr>"

definition on_logs :: "(ScrollStateWrapper \<Rightarrow> ScrollStateWrapper) \<Rightarrow> Terminal \<Rightarrow> Terminal" where
  "on_logs f = on_tui (\<lambda>s. s\<lparr> ts_logs := f (ts_logs s) \<rparr>)"

definition on_threads :: "(ScrollStateWrapper \<Rightarrow> ScrollStateWrapper) \<Rightarrow> Terminal \<Rightarrow> Terminal" where
  "on_threads f = on_tui (\<lambda>s. s\<lparr> ts_threads := f (ts_threads s) \<rparr>)"

definition on_connections :: "(ScrollStateWrapper \<Rightarrow> ScrollStateWrapper) \<Rightarrow> Terminal \<Rightarrow> Terminal" where
  "on_connections f = on_tui (\<lambda>s. s\<lparr> ts_connections := f (ts_connections s) \<rparr>)"

definition set_logs :: "(LogMsg list \<Rightarrow> LogMsg list) \<Rightarrow> Terminal \<Rightarrow> Terminal" where
  "set_logs f t = t\<lparr> te_buffer := (te_buffer t)\<lparr> lb_logs := f (lb_logs (te_buffer t)) \<rparr> \<rparr>"

definition threads_key :: "KeyCode \<Rightarrow> Terminal \<Rightarrow> Terminal" where
  "threads_key code =
     (case code of
        PageUp \<Rightarrow> on_threads (scroll_up (Some 10))
      | PageDown \<Rightarrow> on_threads (scroll_down (Some 10))
      | UpKey \<Rightarrow> on_threads (scroll_up None)
      | DownKey \<Rightarrow> on_threads (scroll_down None)
      | _ \<Rightarrow> (\<lambda>t. t))"

definition logs_key :: "KeyCode \<Rightarrow> Terminal \<Rightarrow> Terminal" where
  "logs_key code t =
     (let half = sw_area_height (ts_logs (te_tui t)) div 2 in
      case code of
        Enter \<Rightarrow>
          (let t = on_logs (\<lambda>s. s\<lparr> sw_vertical_scroll := None \<rparr>) t in
           case lb_limit (te_buffer t) of Some n \<Rightarrow> set_logs (keep_last n) t | None \<Rightarrow> t)
      | UpKey \<Rightarrow> on_logs (scroll_up (Some 1)) t
      | DownKey \<Rightarrow> on_logs (scroll_down (Some 1)) t
      | PageUp \<Rightarrow> if 0 < half then on_logs (scroll_up (Some half)) t else t
      | PageDown \<Rightarrow> if 0 < half then on_logs (scroll_down (Some half)) t else t
      | CharKey c \<Rightarrow>
          if c = CHR ''c'' then
            set_logs (\<lambda>_. []) (on_logs (\<lambda>s. s\<lparr> sw_total_rows := 0, sw_vertical_scroll := None \<rparr>) t)
          else t
      | _ \<Rightarrow> t)"

definition connections_key :: "KeyCode \<Rightarrow> Terminal \<Rightarrow> Terminal" where
  "connections_key code t =
     (case code of
        PageUp \<Rightarrow> on_connections (scroll_up (Some 10)) t
      | PageDown \<Rightarrow> on_connections (scroll_down (Some 10)) t
      | UpKey \<Rightarrow> if 0 < sw_area_height (ts_connections (te_tui t)) div 2 then on_connections (scroll_up None) t else t
      | DownKey \<Rightarrow> on_connections (scroll_down None) t
      | _ \<Rightarrow> t)"

definition page_key :: "Page \<Rightarrow> KeyCode \<Rightarrow> Terminal \<Rightarrow> Terminal" where
  "page_key current_page code =
     (case current_page of
        Threads \<Rightarrow> threads_key code
      | Logs \<Rightarrow> logs_key code
      | Statistics \<Rightarrow> (\<lambda>t. t)
      | ConnectionsPage \<Rightarrow> connections_key code)"

definition stop_all :: "bool \<Rightarrow> Terminal \<Rightarrow> Terminal run" where
  "stop_all receivers t =
     tell receivers StopAll
       (t\<lparr> te_status := (\<lambda>h. map_option (\<lambda>s. if s = Faulty \<or> s = Running then Stopping else s) (te_status t h)) \<rparr>)"

definition start_all :: "bool \<Rightarrow> Terminal \<Rightarrow> Terminal run" where
  "start_all receivers t =
     tell receivers StartAll
       (t\<lparr> te_status := (\<lambda>h. map_option (\<lambda>s. if h \<notin> set (te_disabled t) \<and> s = Running then Starting else s) (te_status t h)) \<rparr>)"

definition global_key :: "bool \<Rightarrow> KeyCode \<Rightarrow> Terminal \<Rightarrow> Terminal run" where
  "global_key receivers code t =
     (let to = (\<lambda>p. Some (on_tui (\<lambda>s. s\<lparr> ts_current_page := p (ts_current_page s) \<rparr>) t)) in
      if code = CharKey (CHR ''1'') then to (\<lambda>_. Logs)
      else if code = CharKey (CHR ''2'') then to (\<lambda>_. ConnectionsPage)
      else if code = CharKey (CHR ''3'') then to (\<lambda>_. Statistics)
      else if code = CharKey (CHR ''4'') then to (\<lambda>_. Threads)
      else if code = BackTab \<or> code = LeftKey then to previous_page
      else if code = Tab \<or> code = RightKey then to next_page
      else if code = CharKey (CHR ''z'') then stop_all receivers t
      else if code = CharKey (CHR ''s'') then start_all receivers t
      else if code = CharKey (CHR ''a'') then
        Some (on_tui (\<lambda>s. s\<lparr> ts_app_window_state := next_window (ts_app_window_state s) \<rparr>) t)
      else Some t)"

definition handle_key :: "bool \<Rightarrow> KeyCode \<Rightarrow> Terminal \<Rightarrow> (bool \<times> Terminal) run" where
  "handle_key receivers code t =
     (let current_page = ts_current_page (te_tui t) in
      case mode_key code t of
        (False, t) \<Rightarrow> Some (False, t)
      | (True, t) \<Rightarrow> map_option (\<lambda>t. (True, t)) (global_key receivers code (page_key current_page code t)))"

definition toggle_pause :: "Terminal \<Rightarrow> Terminal" where
  "toggle_pause t =
     (let paused = (\<not> lb_pause (te_buffer t));
          m = \<lparr> lm_msg = (if paused then ''LOGGING PAUSED! PRESS SPACE TO RESUME.'' else ''LOGGING RESUMED! PRESS SPACE TO PAUSE.''),
                lm_lvl = Warn, lm_src = [], lm_thread = Some ''odd_box::tracing'' \<rparr> in
      t\<lparr> te_buffer := (te_buffer t)\<lparr> lb_pause := paused, lb_logs := lb_logs (te_buffer t) @ [m] \<rparr> \<rparr>)"

definition scroll_mouse :: "mouse_kind \<Rightarrow> nat \<Rightarrow> nat \<Rightarrow> ScrollStateWrapper \<Rightarrow> ScrollStateWrapper" where
  "scroll_mouse kind column row =
     (case kind of
        LeftDrag \<Rightarrow> handle_mouse_drag row
      | MouseMoved \<Rightarrow> handle_mouse_move column row
      | WheelDown \<Rightarrow> scroll_down (Some 10)
      | WheelUp \<Rightarrow> scroll_up (Some 10)
      | _ \<Rightarrow> (\<lambda>s. s))"

definition handle_mouse :: "bool \<Rightarrow> mouse_kind \<Rightarrow> nat \<Rightarrow> nat \<Rightarrow> Terminal \<Rightarrow> Terminal run" where
  "handle_mouse receivers kind column row t =
     do { t \<leftarrow> (if ts_app_window_state (te_tui t) \<noteq> Hide then
                 (case kind of
                    MouseMoved \<Rightarrow> Some (on_tui (sites_handle_mouse_hover column row) t)
                  | LeftDown \<Rightarrow> sites_handle_mouse_click receivers t
                  | _ \<Rightarrow> Some t)
               else Some t);
          Some (case ts_current_page (te_tui t) of
                  Statistics \<Rightarrow> t
                | Logs \<Rightarrow> on_logs (scroll_mouse kind column row) t
                | Threads \<Rightarrow> on_threads (scroll_mouse kind column row) t
                | ConnectionsPage \<Rightarrow> on_connections (scroll_mouse kind column row) t) }"

definition handle_event :: "bool \<Rightarrow> tui_event \<Rightarrow> Terminal \<Rightarrow> (bool \<times> Terminal) run" where
  "handle_event receivers evt t =
     (case evt of
        KeyEvent code modifiers \<Rightarrow>
          (if code = CharKey (CHR '' '') \<and> modifiers = NoModifiers \<and> ts_current_page (te_tui t) = Logs
           then Some (True, toggle_pause t)
           else if code = CharKey (CHR ''c'') \<and> modifiers = Control then Some (False, t\<lparr> te_exit := True \<rparr>)
           else handle_key receivers code t)
      | MouseEvent kind column row \<Rightarrow> map_option (\<lambda>t. (True, t)) (handle_mouse receivers kind column row t)
      | OtherTuiEvent \<Rightarrow> Some (True, t))"

section \<open>What the pages show\<close>

definition spaces :: "nat \<Rightarrow> string" where
  "spaces n = replicate n (CHR '' '')"

definition utf8_text :: "nat list \<Rightarrow> string" where
  "utf8_text = map char_of"

definition level_emoji :: "LogLevel \<Rightarrow> string" where
  "level_emoji lvl =
     utf8_text (case lvl of
        Info \<Rightarrow> [0xF0, 0x9F, 0xA5, 0x9D]
      | Trace \<Rightarrow> [0xF0, 0x9F, 0xA5, 0xB8]
      | Debug \<Rightarrow> [0xF0, 0x9F, 0x91, 0x80]
      | Error \<Rightarrow> [0xF0, 0x9F, 0x91, 0xBA]
      | Warn \<Rightarrow> [0xF0, 0x9F, 0xA5, 0xA6])"

definition level_str :: "bool \<Rightarrow> LogLevel \<Rightarrow> string" where
  "level_str system_message lvl =
     (case lvl of Info \<Rightarrow> ''INF '' | Trace \<Rightarrow> ''TRC '' | Debug \<Rightarrow> ''DBG '' | Error \<Rightarrow> ''ERR '' | Warn \<Rightarrow> ''WRN '') @
     (if system_message then utf8_text [0xF0, 0x9F, 0xA7, 0x8A] else level_emoji lvl) @ '' ''"

definition thread_str :: "nat \<Rightarrow> string option \<Rightarrow> string" where
  "thread_str max_site_len thread =
     (case thread of Some n \<Rightarrow> n @ spaces (max_site_len - length n) @ ''  '' | None \<Rightarrow> '' -'')"

text \<open>The texts of the spans of one line of a message; \<open>k\<close> is the number of the line.\<close>

definition message_row :: "nat \<Rightarrow> string \<Rightarrow> string \<Rightarrow> string \<Rightarrow> nat \<Rightarrow> string \<Rightarrow> string list run" where
  "message_row max_width nr lvl thread k m =
     (if length m \<le> max_width then
        (let m = m @ spaces (max_width - length m) in
         Some (if k = 0 then [nr, lvl, thread, m] else [nr, spaces (length lvl + length thread - 2), [], [], m]))
      else None)"

definition message_rows :: "nat \<Rightarrow> nat \<Rightarrow> nat \<Rightarrow> nat \<Rightarrow> LogMsg \<Rightarrow> (LogMsg \<times> string list list) run" where
  "message_rows width item_count_len max_site_len i x =
     (let n = dec (i + 1);
          nr = spaces (item_count_len - length n) @ n @ '' | '';
          lvl = level_str (starts_with (unwrap_or (lm_thread x) []) ''odd_box'') (lm_lvl x);
          thread = thread_str max_site_len (lm_thread x);
          max_width = width - 4 - (length nr + length lvl + length thread) in
      do { msg \<leftarrow> trim_to_max_chars (trim (lm_msg x)) 2000;
           wrapped \<leftarrow> wrap_string msg max_width;
           rows \<leftarrow> those (map (\<lambda>(k, m). message_row max_width nr lvl thread k m) (List.enumerate 0 wrapped));
           Some (x\<lparr> lm_msg := msg \<rparr>, rows) })"

text \<open>What a page draws: a text, nothing, or rows of texts.\<close>

datatype drawn = Squeezed | Nothing | Rows "string list list"

definition follow_scroll :: "nat option \<Rightarrow> nat option \<Rightarrow> nat option" where
  "follow_scroll scroll limit =
     (if scroll = None \<and> limit = None then Some 500 else if scroll \<noteq> None \<and> limit \<noteq> None then None else limit)"

definition logs_shown :: "nat \<Rightarrow> Terminal \<Rightarrow> (LogMsg \<times> string list list) list run" where
  "logs_shown width t =
     (let logs = lb_logs (te_buffer t);
          item_count_len = max 6 (length (dec (length logs)));
          max_site_len = foldr max (map (length \<circ> snd) (ts_site_rects (te_tui t))) 0 in
      those (map (\<lambda>(i, x). message_rows width item_count_len max_site_len i x) (List.enumerate 0 logs)))"

definition logs_draw :: "nat \<Rightarrow> nat \<Rightarrow> Terminal \<Rightarrow> (drawn \<times> Terminal) run" where
  "logs_draw width height t =
     (if height < 10 \<or> width < 80 then Some (Squeezed, t)
      else
        (let s = ts_logs (te_tui t);
             b = (te_buffer t)\<lparr> lb_limit := follow_scroll (sw_vertical_scroll s) (lb_limit (te_buffer t)) \<rparr> in
         do { shown \<leftarrow> logs_shown width t;
              let rows = concat (map snd shown);
              let s = s\<lparr> sw_total_rows := length rows, sw_area_height := height, sw_area_width := width \<rparr>;
              let start = unwrap_or (sw_vertical_scroll s) (length rows - height);
              let end = min (start + height) (length rows);
              let t = on_tui (\<lambda>u. u\<lparr> ts_logs := s \<rparr>) (t\<lparr> te_buffer := b\<lparr> lb_logs := map fst shown \<rparr> \<rparr>);
              Some (if start > length rows \<or> end > length rows \<or> start \<ge> end then Nothing else Rows (take (end - start) (drop start rows)), t) }))"

text \<open>The pages of connections and of threads: the rows from the scroll position on.\<close>

definition table_page :: "nat \<Rightarrow> nat \<Rightarrow> string list list \<Rightarrow> ScrollStateWrapper \<Rightarrow> (drawn \<times> ScrollStateWrapper) run" where
  "table_page width height rows s =
     (if height < 10 \<or> width < 10 then Some (Nothing, s)
      else
        (let s = s\<lparr> sw_total_rows := length rows, sw_area_height := height, sw_area_width := width \<rparr>;
             start = unwrap_or (sw_vertical_scroll s) (length rows - (height - 1)) in
         map_option (\<lambda>shown. (Rows shown, s\<lparr> sw_visible_rows := length shown \<rparr>))
           (slice rows start (min (start + height) (length rows)))))"

definition int_text :: "int \<Rightarrow> string" where
  "int_text n = (if n < 0 then ''-'' @ dec (nat (- n)) else dec (nat n))"

definition connection_row ::
  "(bool \<Rightarrow> bool \<Rightarrow> bool \<Rightarrow> OutgoingTunnelType option \<Rightarrow> string) \<Rightarrow> (ConnectionKey \<rightharpoonup> TCPConnection) \<Rightarrow> ProxyActiveTCPConnection \<Rightarrow> string list" where
  "connection_row dbg monitored c =
     (let tracked = monitored (pc_connection_key c);
          src = (case Option.bind tracked tc_local_process_name_and_pid of
                   Some (n, p) \<Rightarrow> pc_client_addr_string c @ '' ('' @ n @ '' *'' @ int_text p @ ''*)''
                 | None \<Rightarrow> pc_client_addr_string c);
          tags = (if is_set (pc_is_grpc c) then ''[gRPC] '' else []) @ (if is_set (pc_is_websocket c) then ''[WS] '' else []);
          trans = (case tracked of
                     Some v \<Rightarrow> if tc_bytes_rec v = 0 \<and> tc_bytes_sent v = 0 then ''-''
                               else dec (tc_bytes_rec v) @ '' bytes / '' @ dec (tc_bytes_sent v) @ '' bytes ''
                   | None \<Rightarrow> ''not tracked'') in
      [src, trans, tags @ connection_type_to_string dbg (get_connection_type c)])"

definition connection_rows ::
  "(bool \<Rightarrow> bool \<Rightarrow> bool \<Rightarrow> OutgoingTunnelType option \<Rightarrow> string) \<Rightarrow> (ConnectionKey \<rightharpoonup> TCPConnection) \<Rightarrow> ProxyActiveTCPConnection list \<Rightarrow> string list list" where
  "connection_rows dbg monitored cs = sort_key hd (map (connection_row dbg monitored) cs)"

definition format_duration :: "string \<Rightarrow> nat \<Rightarrow> string" where
  "format_duration label total_secs =
     (let days = total_secs div 86400; hours = total_secs mod 86400 div 3600;
          minutes = total_secs mod 3600 div 60; seconds = total_secs mod 60 in
      label @
      (if 0 < days then dec days @ '' days, '' @ dec hours @ '' hours, '' @ dec minutes @ '' minutes''
       else if 0 < hours then dec hours @ '' hours, '' @ dec minutes @ '' minutes''
       else if 0 < minutes then dec minutes @ '' minutes, '' @ dec seconds @ '' seconds''
       else dec seconds @ '' seconds''))"

text \<open>A hosted process with the seconds since it started, when the clock can tell; a worker with its name,
  its status and whether it is dead.\<close>

definition process_row :: "ProcInfo \<times> nat option \<Rightarrow> string list" where
  "process_row e =
     (let (info, elapsed) = e in
      [''[PROC_HOST] '' @ fr_host_name (pi_config info),
       if pi_pid info \<noteq> None then (case elapsed of Some d \<Rightarrow> format_duration [] d | None \<Rightarrow> ''-'') else ''-'',
       unwrap_or (pi_pid info) [],
       ''selected port: '' @ (case fr_active_port (pi_config info) of Some p \<Rightarrow> ''Some('' @ dec (unat p) @ '')'' | None \<Rightarrow> ''None'')])"

definition worker_row :: "string \<times> string \<times> bool \<Rightarrow> string list" where
  "worker_row e =
     (let (name, status, is_dead) = e in
      [''[BG_WORKER] '' @ name, ''-'', if is_dead then ''This task has exited.'' else ''Status: '' @ status, ''-''])"

definition thread_rows :: "(ProcInfo \<times> nat option) list \<Rightarrow> (string \<times> string \<times> bool) list \<Rightarrow> string list list" where
  "thread_rows hosts workers = sort_key hd (map process_row hosts @ map worker_row workers)"

definition statistics_draw :: "nat \<Rightarrow> nat \<Rightarrow> nat \<Rightarrow> string list \<Rightarrow> drawn" where
  "statistics_draw width height accepted hosts =
     (if height < 20 \<or> width < 50 then Nothing
      else Rows [[''Total accepted TCP connections: '' @ dec accepted],
                 [''Number of unique hostnames seen: '' @ dec (length (remdups hosts))],
                 [''... This page will have more data in the future :-)'']])"

section \<open>The list of sites\<close>

definition status_text :: "ProcState \<Rightarrow> string" where
  "status_text s =
     (case s of
        Running \<Rightarrow> '' Running''
      | Faulty \<Rightarrow> '' Faulty (retrying in 5s)''
      | Starting \<Rightarrow> '' Starting''
      | Stopped \<Rightarrow> '' Stopped''
      | Stopping \<Rightarrow> '' Stopping..''
      | Remote \<Rightarrow> '' Remote''
      | DirServerState \<Rightarrow> '' DirServer''
      | DockerState \<Rightarrow> '' Docker'')"

text \<open>The quotient of the two numbers as \<open>f32\<close>, rounded up; exact below \<open>2 ^ 24\<close> sites.\<close>

definition columns_needed :: "nat \<Rightarrow> nat \<Rightarrow> nat" where
  "columns_needed sites_count height = max 1 ((sites_count + height - 1) div height)"

definition site_column :: "nat \<Rightarrow> (string \<times> ProcState) list \<Rightarrow> nat \<Rightarrow> Rect \<Rightarrow> ((Rect \<times> string) \<times> string list) list run" where
  "site_column height procly col_idx col =
     map_option (\<lambda>part. map (\<lambda>(index, id, state).
         ((\<lparr> rt_x = rt_x col, rt_y = rt_y col + index + 1, rt_width = rt_width col, rt_height = 1 \<rparr>, id),
          ['' '' @ id @ '' '', status_text state])) (List.enumerate 0 part))
       (slice procly (col_idx * height) (min ((col_idx + 1) * height) (length procly)))"

text \<open>What the frame knows: its size, the areas the library divides it into, and what the other tasks show.\<close>

record screen =
  sc_width :: nat
  sc_height :: nat
  sc_page_width :: nat
  sc_page_height :: nat
  sc_sites_height :: nat
  sc_columns :: "nat \<Rightarrow> Rect list"
  sc_keys :: "(string \<rightharpoonup> ProcState) \<Rightarrow> string list"
  sc_active :: "ProxyActiveTCPConnection list"
  sc_monitored :: "ConnectionKey \<rightharpoonup> TCPConnection"
  sc_debug :: "bool \<Rightarrow> bool \<Rightarrow> bool \<Rightarrow> OutgoingTunnelType option \<Rightarrow> string"
  sc_hosts :: "(ProcInfo \<times> nat option) list"
  sc_workers :: "(string \<times> string \<times> bool) list"
  sc_accepted :: nat
  sc_host_names :: "string list"
  sc_version :: string
  sc_uptime :: "nat option"

definition sorted_sites :: "screen \<Rightarrow> (string \<rightharpoonup> ProcState) \<Rightarrow> (string \<times> ProcState) list" where
  "sorted_sites sc m = sort_key fst (List.map_filter (\<lambda>h. map_option (\<lambda>s. (h, s)) (m h)) (sc_keys sc m))"

definition site_columns :: "screen \<Rightarrow> (string \<rightharpoonup> ProcState) \<Rightarrow> ((Rect \<times> string) \<times> string list) list run" where
  "site_columns sc m =
     (let height = sc_sites_height sc - 2; procly = sorted_sites sc m in
      map_option concat (those (map (\<lambda>(k, col). site_column height procly k col)
        (List.enumerate 0 (sc_columns sc (columns_needed (length procly) height))))))"

section \<open>A frame\<close>

text \<open>The arrows of the help bar are U+2191 and U+2193.\<close>

definition help_bar_text :: "TuiState \<Rightarrow> string list" where
  "help_bar_text s =
     [''q: Quit | '', ''a: Tgl Sites | '', ''s: Start all | '', ''z: Stop all | '',
      utf8_text [0xE2, 0x86, 0x91] @ ''/'' @ utf8_text [0xE2, 0x86, 0x93] @ '': Scroll | ''] @
     (if ts_current_page s = Logs then
        [''c: CLS | '', ''tab: Nxt tab ''] @ (if sw_vertical_scroll (ts_logs s) \<noteq> None then [''| rtrn: Tail ''] else []) @
        [''| space: Un/Paus log '', ''| l: LogLvl'']
      else [''| tab: Tgl page '']) @
     [''| t: theme'']"

definition help_bar_title :: "screen \<Rightarrow> string" where
  "help_bar_title sc =
     '' ODD-BOX v'' @ sc_version sc @ '' '' @ (case sc_uptime sc of Some d \<Rightarrow> format_duration '' - uptime: '' d | None \<Rightarrow> []) @ '' ''"

definition page_draw :: "screen \<Rightarrow> Terminal \<Rightarrow> (drawn \<times> Terminal) run" where
  "page_draw sc t =
     (let w = sc_page_width sc; h = sc_page_height sc in
      case ts_current_page (te_tui t) of
        Logs \<Rightarrow> logs_draw w h t
      | Statistics \<Rightarrow> Some (statistics_draw w h (sc_accepted sc) (sc_host_names sc), t)
      | ConnectionsPage \<Rightarrow>
          map_option (\<lambda>(d, s). (d, on_connections (\<lambda>_. s) t))
            (table_page w h (connection_rows (sc_debug sc) (sc_monitored sc) (sc_active sc)) (ts_connections (te_tui t)))
      | Threads \<Rightarrow>
          map_option (\<lambda>(d, s). (d, on_threads (\<lambda>_. s) t))
            (table_page w h (thread_rows (sc_hosts sc) (sc_workers sc)) (ts_threads (te_tui t))))"

text \<open>\<open>draw_ui\<close>: the page, the lines of the sites, and the help bar with its title.\<close>

definition draw_ui :: "screen \<Rightarrow> Terminal \<Rightarrow> ((drawn \<times> string list list \<times> string list) \<times> Terminal) run" where
  "draw_ui sc t =
     (if sc_height sc < 10 \<or> sc_width sc < 10 then Some ((Nothing, [], []), t)
      else
        do { (page, t) \<leftarrow> page_draw sc t;
             let help = help_bar_title sc # help_bar_text (te_tui t);
             if 15 \<le> sc_height sc \<and> ts_app_window_state (te_tui t) \<noteq> Hide then
               (if sc_sites_height sc - 2 = 0 then Some ((page, [], []), t)
                else
                  do { sites \<leftarrow> site_columns sc (te_status t);
                       Some ((page, map snd sites, help), on_tui (\<lambda>u. u\<lparr> ts_site_rects := map fst sites \<rparr>) t) })
             else Some ((page, [], help), t) })"

section \<open>The loop\<close>

text \<open>
  A turn of the loop of \<open>run\<close>: what the screen is, the theme of the desktop, what other tasks did to the
  shared state before the frame and while waiting for the event, the event if there is one, and whether
  any process host receives the messages.
\<close>

record tui_turn =
  tt_screen :: screen
  tt_theme :: Theme
  tt_before :: "Terminal \<Rightarrow> Terminal"
  tt_while :: "Terminal \<Rightarrow> Terminal"
  tt_event :: "tui_event option"
  tt_receivers :: bool

definition something_runs :: "screen \<Rightarrow> (string \<rightharpoonup> ProcState) \<Rightarrow> bool" where
  "something_runs sc m = list_ex (\<lambda>h. m h = Some Stopping \<or> m h = Some Running \<or> m h = Some Starting) (sc_keys sc m)"

definition after_frame :: "tui_turn \<Rightarrow> Terminal \<Rightarrow> (bool \<times> Terminal) run" where
  "after_frame turn t =
     (if te_exit t \<and> \<not> something_runs (tt_screen turn) (te_status t) then Some (False, t)
      else
        (case tt_event turn of
           Some evt \<Rightarrow> handle_event (tt_receivers turn) evt (tt_while turn t)
         | None \<Rightarrow> Some (True, tt_while turn t)))"

definition tui_turn_of :: "tui_turn \<Rightarrow> Terminal \<Rightarrow> (bool \<times> Terminal) run" where
  "tui_turn_of turn t =
     (let t = tt_before turn t;
          t = (if 100 < te_count t \<and> te_manual_theme t = None then t\<lparr> te_theme := tt_theme turn, te_count := 0 \<rparr> else t) in
      do { (_, t) \<leftarrow> draw_ui (tt_screen turn) t; after_frame turn t })"

fun tui_run :: "tui_turn list \<Rightarrow> Terminal \<Rightarrow> (bool \<times> Terminal) run" where
  "tui_run [] t = Some (True, t)"
| "tui_run (turn # turns) t =
     (case tui_turn_of turn t of
        None \<Rightarrow> None
      | Some (True, t) \<Rightarrow> tui_run turns t
      | Some (False, t) \<Rightarrow> Some (False, t))"

text \<open>The state when the loop begins; \<open>level\<close> is the log level of the configuration.\<close>

definition tui_start :: "OddBoxV3Config \<Rightarrow> LogLevel \<Rightarrow> Theme \<Rightarrow> (string \<rightharpoonup> ProcState) \<Rightarrow> bool \<Rightarrow> Terminal" where
  "tui_start config level theme status inspection =
     \<lparr> te_tui = TuiState_new, te_buffer = SharedLogBuffer_new, te_theme = theme, te_manual_theme = None, te_count = 0,
       te_level = Trace, te_filter = (level, True), te_inspection = inspection, te_exit = False, te_status = status,
       te_sent = [], te_disabled = List.map_filter (\<lambda>p. if is_set (hp_auto_start p) then Some (hp_host_name p) else None)
         (unwrap_or (cfg_hosted_process config) []) \<rparr>"

section \<open>The page of the log\<close>

lemma those_None: "those xs = None \<longleftrightarrow> None \<in> set xs"
  by (induction xs) (auto split: option.splits)

lemma length_level_str: "length (level_str system lvl) = 9"
  by (cases lvl) (simp_all add: level_str_def level_emoji_def utf8_text_def)

lemma length_thread_str: "length n + 2 \<le> length (thread_str k (Some n))"
  by (simp add: thread_str_def)

text \<open>The columns left for the text of a message.\<close>

definition text_columns :: "nat \<Rightarrow> nat \<Rightarrow> nat \<Rightarrow> nat \<Rightarrow> LogMsg \<Rightarrow> nat" where
  "text_columns width count_len max_site i x =
     width - 4 - (max count_len (length (dec (i + 1))) + 3 + 9 + length (thread_str max_site (lm_thread x)))"

lemma message_rows_columns:
  assumes "trim_to_max_chars (trim (lm_msg x)) 2000 = Some msg"
  shows "message_rows width count_len max_site i x =
    do { wrapped \<leftarrow> wrap_string msg (text_columns width count_len max_site i x);
         rows \<leftarrow> those (map (\<lambda>(k, m). message_row (text_columns width count_len max_site i x)
           (spaces (count_len - length (dec (i + 1))) @ dec (i + 1) @ '' | '')
           (level_str (starts_with (unwrap_or (lm_thread x) []) ''odd_box'') (lm_lvl x)) (thread_str max_site (lm_thread x)) k m)
           (List.enumerate 0 wrapped));
         Some (x\<lparr> lm_msg := msg \<rparr>, rows) }"
proof -
  have e: "length (spaces (count_len - length (dec (i + 1))) @ dec (i + 1) @ '' | '') = max count_len (length (dec (i + 1))) + 3"
    by (simp add: spaces_def)
  show ?thesis
    unfolding message_rows_def text_columns_def Let_def assms length_level_str e by simp
qed

lemma message_rows_hang:
  assumes "trim_to_max_chars (trim (lm_msg x)) 2000 = Some msg" and "c \<in> set (chars msg)" and "\<not> white c"
    and "lm_thread x = Some n" and "width \<le> length n + 24" and "6 \<le> count_len"
  shows "message_rows width count_len max_site i x = None"
proof -
  have "text_columns width count_len max_site i x = 0"
    using length_thread_str [of n max_site] assms(4-6) by (simp add: text_columns_def)
  then show ?thesis
    using wrap_string_hangs [OF assms(2,3)] by (simp add: message_rows_columns [OF assms(1)])
qed

text \<open>C36: When a log message stands under a name so long that no column is left for its text,
  drawing the page of the log never ends: the terminal hangs.\<close>

theorem long_name_hangs_terminal:
  assumes "x \<in> set (lb_logs (te_buffer t))" and "lm_thread x = Some n" and "sc_page_width sc \<le> length n + 24"
    and "trim_to_max_chars (trim (lm_msg x)) 2000 = Some msg" and "c \<in> set (chars msg)" and "\<not> white c"
    and "ts_current_page (te_tui t) = Logs" and "10 \<le> sc_page_height sc" and "80 \<le> sc_page_width sc"
    and "10 \<le> sc_height sc" and "10 \<le> sc_width sc"
  shows "draw_ui sc t = None"
proof -
  let ?logs = "lb_logs (te_buffer t)"
  obtain i where i: "i < length ?logs" "x = ?logs ! i" using assms(1) by (auto simp: in_set_conv_nth)
  then have "(i, x) \<in> set (List.enumerate 0 ?logs)" by (auto simp: in_set_enumerate_eq)
  moreover have "message_rows (sc_page_width sc) (max 6 (length (dec (length ?logs)))) m i x = None" for m
    using message_rows_hang [OF assms(4-6,2,3)] by simp
  ultimately have "logs_shown (sc_page_width sc) t = None"
    by (auto simp: logs_shown_def those_None Let_def image_iff intro: bexI [of _ "(i, x)"])
  then show ?thesis using assms(7-11) by (simp add: draw_ui_def page_draw_def logs_draw_def Let_def)
qed

lemma those_map_all:
  "(\<And>y. y \<in> set ys \<Longrightarrow> \<exists>z. f y = Some z \<and> P y z) \<Longrightarrow> \<exists>zs. those (map f ys) = Some zs \<and> list_all2 P ys zs"
proof (induction ys)
  case (Cons y ys)
  obtain z where "f y = Some z" "P y z" using Cons.prems [of y] by auto
  moreover obtain zs where "those (map f ys) = Some zs" "list_all2 P ys zs" using Cons by auto
  ultimately show ?case by auto
qed simp

lemma enumerate_snd: "y \<in> set (List.enumerate n xs) \<Longrightarrow> snd y \<in> set xs"
  unfolding in_set_enumerate_eq by (metis add.commute less_diff_conv2 nth_mem)

lemma message_row_fits:
  "length m \<le> w \<Longrightarrow> 2 \<le> length lvl + length th \<Longrightarrow>
    \<exists>r. message_row w nr lvl th k m = Some r \<and> length (concat r) \<le> length nr + length lvl + length th + w"
  by (auto simp: message_row_def spaces_def Let_def)

lemma message_rows_fit:
  assumes "text_ok 4 msg" and "trim_to_max_chars (trim (lm_msg x)) 2000 = Some msg" and "4 \<le> text_columns width count_len max_site i x"
  shows "\<exists>rows. message_rows width count_len max_site i x = Some (x\<lparr> lm_msg := msg \<rparr>, rows) \<and>
    (\<forall>r \<in> set rows. length (concat r) \<le> width - 4)"
proof -
  let ?w = "text_columns width count_len max_site i x" and ?th = "thread_str max_site (lm_thread x)"
    and ?nr = "spaces (count_len - length (dec (i + 1))) @ dec (i + 1) @ '' | ''"
    and ?lvl = "level_str (starts_with (unwrap_or (lm_thread x) []) ''odd_box'') (lm_lvl x)"
  have "text_ok ?w msg" using assms(1,3) by (auto simp: text_ok_def char_ok_def list_all_iff)
  then obtain ls where ls: "wrap_string msg ?w = Some ls" "lines_fit ?w ls" using wrap_string_fits by blast
  have row: "\<exists>r. (case y of (k, m) \<Rightarrow> message_row ?w ?nr ?lvl ?th k m) = Some r \<and> length (concat r) \<le> length ?nr + length ?lvl + length ?th + ?w"
    if "y \<in> set (List.enumerate 0 ls)" for y
  proof -
    have "snd y \<in> set ls" by (rule enumerate_snd [OF that])
    then obtain k m where y: "y = (k, m)" "m \<in> set ls" by (cases y) auto
    then have "length m \<le> ?w" using ls(2) by (auto simp: lines_fit_def list_all_iff)
    then show ?thesis using message_row_fits [of m ?w ?lvl ?th ?nr k] length_level_str by (simp add: y)
  qed
  obtain rows where
    rows: "those (map (\<lambda>(k, m). message_row ?w ?nr ?lvl ?th k m) (List.enumerate 0 ls)) = Some rows"
      "list_all2 (\<lambda>_ r. length (concat r) \<le> length ?nr + length ?lvl + length ?th + ?w) (List.enumerate 0 ls) rows"
    using those_map_all [of "List.enumerate 0 ls" "\<lambda>(k, m). message_row ?w ?nr ?lvl ?th k m"
        "\<lambda>_ r. length (concat r) \<le> length ?nr + length ?lvl + length ?th + ?w"] row by blast
  have "length ?nr = max count_len (length (dec (i + 1))) + 3" by (simp add: spaces_def)
  then have "length ?nr + length ?lvl + length ?th + ?w = width - 4"
    using assms(3) length_level_str by (simp add: text_columns_def)
  then have "\<forall>r \<in> set rows. length (concat r) \<le> width - 4"
    using rows(2) by (auto simp: list_all2_conv_all_nth in_set_conv_nth)
  then show ?thesis using rows(1) ls(1) by (simp add: message_rows_columns [OF assms(2)])
qed

text \<open>There is room for every message.\<close>

definition messages_fit :: "nat \<Rightarrow> Terminal \<Rightarrow> bool" where
  "messages_fit width t =
     (let logs = lb_logs (te_buffer t) in
      list_all (\<lambda>(i, x). \<exists>msg. trim_to_max_chars (trim (lm_msg x)) 2000 = Some msg \<and> text_ok 4 msg \<and>
        4 \<le> text_columns width (max 6 (length (dec (length logs)))) (foldr max (map (length \<circ> snd) (ts_site_rects (te_tui t))) 0) i x)
        (List.enumerate 0 logs))"

lemma logs_shown_fit:
  assumes "messages_fit width t"
  shows "\<exists>shown. logs_shown width t = Some shown \<and> length shown = length (lb_logs (te_buffer t)) \<and>
    (\<forall>r \<in> set (concat (map snd shown)). length (concat r) \<le> width - 4)"
proof -
  let ?logs = "lb_logs (te_buffer t)" and ?m = "foldr max (map (length \<circ> snd) (ts_site_rects (te_tui t))) 0"
  let ?f = "\<lambda>(i, x). message_rows width (max 6 (length (dec (length ?logs)))) ?m i x"
  have row: "\<exists>z. ?f y = Some z \<and> (\<forall>r \<in> set (snd z). length (concat r) \<le> width - 4)" if "y \<in> set (List.enumerate 0 ?logs)" for y
    using assms that message_rows_fit by (fastforce simp: messages_fit_def list_all_iff Let_def)
  obtain shown where "those (map ?f (List.enumerate 0 ?logs)) = Some shown"
    "list_all2 (\<lambda>_ z. \<forall>r \<in> set (snd z). length (concat r) \<le> width - 4) (List.enumerate 0 ?logs) shown"
    using those_map_all [of "List.enumerate 0 ?logs" ?f "\<lambda>_ z. \<forall>r \<in> set (snd z). length (concat r) \<le> width - 4"] row by blast
  then show ?thesis by (fastforce simp: logs_shown_def Let_def list_all2_conv_all_nth in_set_conv_nth)
qed

text \<open>C16: When every message has room for its text, the page of the log is drawn, no line is
  wider than the page, and while the end is followed the page shows exactly the last lines that fit.\<close>

theorem log_page_shows_the_end:
  assumes "messages_fit width t" and "10 \<le> height" and "80 \<le> width" and "sw_vertical_scroll (ts_logs (te_tui t)) = None"
  shows "\<exists>shown t'. logs_shown width t = Some shown \<and>
    logs_draw width height t =
      Some (let rows = concat (map snd shown) in if rows = [] then Nothing else Rows (keep_last height rows), t') \<and>
    length (lb_logs (te_buffer t')) = length (lb_logs (te_buffer t)) \<and> lb_limit (te_buffer t') \<noteq> None \<and>
    (\<forall>r \<in> set (concat (map snd shown)). length (concat r) \<le> width)"
proof -
  obtain shown where s: "logs_shown width t = Some shown" "length shown = length (lb_logs (te_buffer t))"
    "\<forall>r \<in> set (concat (map snd shown)). length (concat r) \<le> width - 4"
    using logs_shown_fit [OF assms(1)] by blast
  define rows where rows: "rows = concat (map snd shown)"
  let ?b = "(te_buffer t)\<lparr> lb_limit := follow_scroll None (lb_limit (te_buffer t)), lb_logs := map fst shown \<rparr>"
  let ?s = "(ts_logs (te_tui t))\<lparr> sw_total_rows := length rows, sw_area_height := height, sw_area_width := width \<rparr>"
  let ?t' = "on_tui (\<lambda>u. u\<lparr> ts_logs := ?s \<rparr>) (t\<lparr> te_buffer := ?b \<rparr>)"
  have "logs_draw width height t = Some (if rows = [] then Nothing else Rows (keep_last height rows), ?t')"
    unfolding logs_draw_def Let_def s(1) bind.bind_lunit rows [symmetric] using assms(2-4)
    by (cases "rows = []") (auto simp: keep_last_def length_greater_0_conv [symmetric] simp del: length_greater_0_conv)
  moreover have "lb_limit ?b \<noteq> None" by (simp add: follow_scroll_def)
  moreover have "\<forall>r \<in> set rows. length (concat r) \<le> width"
    using s(3) unfolding rows [symmetric] by (meson diff_le_self le_trans)
  ultimately show ?thesis using s(1,2)
    by (intro exI [of _ shown] exI [of _ ?t']) (simp add: Let_def rows [symmetric])
qed

section \<open>The pages of connections and threads\<close>

text \<open>A page of connections or threads panics exactly when it is scrolled beyond the rows
  there are: every other scroll position is drawn.\<close>

theorem scrolled_beyond_rows_panics:
  "table_page width height rows s = None \<longleftrightarrow>
    10 \<le> height \<and> 10 \<le> width \<and> (\<exists>n. sw_vertical_scroll s = Some n \<and> length rows < n)"
  by (cases "sw_vertical_scroll s") (auto simp: table_page_def slice_def Let_def)

text \<open>The connections that were listed are closed while the page is scrolled to its end: the
  next frame panics.\<close>

theorem closed_connections_end_terminal:
  assumes "sw_vertical_scroll (ts_connections (te_tui t)) = Some n" and "length (sc_active sc) < n"
    and "ts_current_page (te_tui t) = ConnectionsPage"
    and "10 \<le> sc_page_height sc" and "10 \<le> sc_page_width sc" and "10 \<le> sc_height sc" and "10 \<le> sc_width sc"
  shows "draw_ui sc t = None"
proof -
  have "length (connection_rows (sc_debug sc) (sc_monitored sc) (sc_active sc)) < n"
    using assms(2) by (simp add: connection_rows_def)
  then have "table_page (sc_page_width sc) (sc_page_height sc) (connection_rows (sc_debug sc) (sc_monitored sc) (sc_active sc)) (ts_connections (te_tui t)) = None"
    using assms(1,4,5) scrolled_beyond_rows_panics by blast
  then show ?thesis using assms(3,6,7) by (simp add: draw_ui_def page_draw_def Let_def)
qed

section \<open>Events keep the scroll positions\<close>

definition pages_in_range :: "Terminal \<Rightarrow> bool" where
  "pages_in_range t =
     (in_range (ts_logs (te_tui t)) \<and> in_range (ts_threads (te_tui t)) \<and> in_range (ts_connections (te_tui t)))"

lemma pages_in_range_unmoved:
  "ts_logs (te_tui t') = ts_logs (te_tui t) \<Longrightarrow> ts_threads (te_tui t') = ts_threads (te_tui t) \<Longrightarrow>
    ts_connections (te_tui t') = ts_connections (te_tui t) \<Longrightarrow> pages_in_range t \<Longrightarrow> pages_in_range t'"
  by (simp add: pages_in_range_def)

lemma pages_in_range_moved:
  assumes "pages_in_range t"
  shows "(\<And>s. in_range s \<Longrightarrow> in_range (f s)) \<Longrightarrow> pages_in_range (on_logs f t)"
    "(\<And>s. in_range s \<Longrightarrow> in_range (f s)) \<Longrightarrow> pages_in_range (on_threads f t)"
    "(\<And>s. in_range s \<Longrightarrow> in_range (f s)) \<Longrightarrow> pages_in_range (on_connections f t)"
  using assms by (simp_all add: pages_in_range_def on_logs_def on_threads_def on_connections_def)

lemma in_range_tail: "in_range (s\<lparr> sw_vertical_scroll := None \<rparr>)" "in_range (s\<lparr> sw_total_rows := n, sw_vertical_scroll := None \<rparr>)"
  by (simp_all add: in_range_def)

lemma scroll_mouse_in_range: "in_range s \<Longrightarrow> in_range (scroll_mouse kind column row s)"
  by (cases kind) (simp_all add: scroll_mouse_def scrolling_in_range)

lemma page_key_in_range:
  assumes "pages_in_range t"
  shows "pages_in_range (page_key page code t)"
proof (cases page)
  case Logs
  have m: "pages_in_range (set_logs g u)" if "pages_in_range u" for g u
    using that by (simp add: pages_in_range_def set_logs_def)
  show ?thesis
    using assms by (cases code)
      (auto simp: Logs page_key_def logs_key_def Let_def scrolling_in_range in_range_tail intro!: pages_in_range_moved m split: option.splits)
next
  case Threads
  then show ?thesis
    using assms by (cases code) (auto simp: page_key_def threads_key_def scrolling_in_range intro!: pages_in_range_moved)
next
  case ConnectionsPage
  then show ?thesis
    using assms by (cases code) (auto simp: page_key_def connections_key_def scrolling_in_range intro!: pages_in_range_moved)
qed (use assms in \<open>simp add: page_key_def\<close>)

lemma mode_key_tui: "te_tui (snd (mode_key code t)) = te_tui t"
  by (simp add: mode_key_def Let_def)

lemma tell_tui: "tell receivers m t = Some t' \<Longrightarrow> te_tui t' = te_tui t"
  by (auto simp: tell_def split: if_splits)

lemma global_key_scroll:
  "global_key receivers code t = Some t' \<Longrightarrow>
    ts_logs (te_tui t') = ts_logs (te_tui t) \<and> ts_threads (te_tui t') = ts_threads (te_tui t) \<and>
    ts_connections (te_tui t') = ts_connections (te_tui t)"
  by (auto simp: global_key_def stop_all_def start_all_def Let_def dest!: tell_tui split: if_splits)

lemma click_tui: "sites_handle_mouse_click receivers t = Some t' \<Longrightarrow> te_tui t' = te_tui t"
  by (auto simp: sites_handle_mouse_click_def dest: tell_tui split: option.splits ProcState.splits)


section \<open>The list of sites, proved\<close>

lemma site_column_part:
  assumes "k * height \<le> length procly"
  shows "\<exists>part. site_column height procly k col = Some part \<and>
    map (snd \<circ> fst) part = map fst (take height (drop (k * height) procly))"
proof -
  let ?part = "take height (drop (k * height) procly)"
  have s: "slice procly (k * height) (min ((k + 1) * height) (length procly)) = Some ?part"
    using assms by (auto simp: slice_def min_def algebra_simps)
  have "map (snd \<circ> fst) (map (\<lambda>(index, id, state).
         ((\<lparr> rt_x = rt_x col, rt_y = rt_y col + index + 1, rt_width = rt_width col, rt_height = 1 \<rparr>, id),
          ['' '' @ id @ '' '', status_text state])) (List.enumerate n xs)) = map fst xs" for n and xs :: "(string \<times> ProcState) list"
    by (induction xs arbitrary: n) auto
  then show ?thesis unfolding site_column_def s by simp
qed

lemma columns_of_sites:
  "concat (map (\<lambda>k. take h (drop (k * h) xs)) [0 ..< n]) = take (n * h) xs"
proof (induction n)
  case (Suc n)
  have "take (n * h) xs @ take h (drop (n * h) xs) = take (n * h + h) xs" by (simp add: take_add)
  then show ?case using Suc by (simp add: add.commute)
qed simp

lemma columns_enough:
  assumes "0 < h"
  shows "n \<le> columns_needed n h * h" and "k < columns_needed n h \<Longrightarrow> k * h \<le> n"
proof -
  have d: "(n + h - 1) div h * h + (n + h - 1) mod h = n + h - 1" by simp
  have m: "(n + h - 1) mod h < h" using assms by simp
  have "n \<le> (n + h - 1) div h * h" using d m by linarith
  then show "n \<le> columns_needed n h * h"
    unfolding columns_needed_def by (meson le_trans max.cobounded2 mult_le_mono1)
  show "k * h \<le> n" if "k < columns_needed n h"
  proof (cases "k = 0")
    case False
    then have "Suc k \<le> (n + h - 1) div h" using that by (auto simp: columns_needed_def)
    then have "Suc k * h \<le> (n + h - 1) div h * h" by (rule mult_le_mono1)
    also have "\<dots> \<le> n + h - 1" by (rule div_times_less_eq_dividend)
    finally show ?thesis using assms by simp
  qed simp
qed

text \<open>The columns of the list of sites show every site exactly once, in the order of their
  names.\<close>

theorem every_site_listed_once:
  assumes "2 < sc_sites_height sc" and "\<And>n. length (sc_columns sc n) = n"
  shows "\<exists>sites. site_columns sc m = Some sites \<and> map (snd \<circ> fst) sites = map fst (sorted_sites sc m)"
proof -
  let ?h = "sc_sites_height sc - 2" and ?p = "sorted_sites sc m"
  let ?n = "columns_needed (length ?p) ?h"
  let ?cols = "List.enumerate 0 (sc_columns sc ?n)"
  let ?f = "\<lambda>(k, col). site_column ?h ?p k col"
  have h: "0 < ?h" using assms(1) by simp
  have part: "\<exists>part. ?f y = Some part \<and> map (snd \<circ> fst) part = map fst (take ?h (drop (fst y * ?h) ?p))" if "y \<in> set ?cols" for y
  proof -
    have "fst y < ?n" using that assms(2) by (auto simp: in_set_enumerate_eq)
    then show ?thesis using site_column_part columns_enough(2) [OF h] by (cases y) auto
  qed
  have all: "those (map ?f ?cols) = Some (map (\<lambda>y. the (?f y)) ?cols)" by (rule those_map_Some) (use part in force)
  have "map (snd \<circ> fst) (concat (map (\<lambda>y. the (?f y)) ?cols)) = concat (map (\<lambda>y. map (snd \<circ> fst) (the (?f y))) ?cols)"
    by (simp add: map_concat o_def)
  also have "\<dots> = concat (map (\<lambda>y. map fst (take ?h (drop (fst y * ?h) ?p))) ?cols)"
    using part by (intro arg_cong [where f = concat] map_cong) force+
  also have "\<dots> = map fst (concat (map (\<lambda>k. take ?h (drop (k * ?h) ?p)) (map fst ?cols)))"
    by (simp only: map_concat map_map o_def)
  also have "map fst ?cols = [0 ..< ?n]" using assms(2) by (simp add: enumerate_eq_zip)
  also have "concat (map (\<lambda>k. take ?h (drop (k * ?h) ?p)) [0 ..< ?n]) = take (?n * ?h) ?p"
    by (rule columns_of_sites)
  also have "\<dots> = ?p" using columns_enough(1) [OF h, of "length ?p"] by simp
  finally show ?thesis unfolding site_columns_def Let_def all option.map by blast
qed

section \<open>The end of the loop\<close>

lemma page_draw_keeps:
  assumes "page_draw sc t = Some (d, t')"
  shows "te_exit t' = te_exit t" "te_count t' = te_count t" "te_status t' = te_status t" "te_theme t' = te_theme t"
    "te_manual_theme t' = te_manual_theme t"
  using assms
  by (auto simp: page_draw_def logs_draw_def Let_def on_connections_def on_threads_def bind_eq_Some_conv split: Page.splits if_splits)

lemma draw_ui_keeps:
  assumes "draw_ui sc t = Some (p, t')"
  shows "te_exit t' = te_exit t" "te_count t' = te_count t" "te_status t' = te_status t" "te_theme t' = te_theme t"
    "te_manual_theme t' = te_manual_theme t"
  using assms
  by (auto simp: draw_ui_def Let_def bind_eq_Some_conv dest: page_draw_keeps split: if_splits)

lemma page_key_keeps:
  "te_exit (page_key p code t) = te_exit t" "te_count (page_key p code t) = te_count t"
  by (cases p; cases code;
      simp add: page_key_def logs_key_def threads_key_def connections_key_def Let_def on_logs_def on_threads_def
        on_connections_def set_logs_def split: option.splits)+

lemma global_key_keeps:
  "global_key receivers code t = Some t' \<Longrightarrow> te_exit t' = te_exit t \<and> te_count t' = te_count t"
  by (auto simp: global_key_def stop_all_def start_all_def tell_def Let_def split: if_splits)

lemma mode_key_keeps:
  "mode_key code t = (goes_on, t') \<Longrightarrow> te_count t' = te_count t \<and> te_exit t' = (te_exit t \<or> \<not> goes_on)"
  by (auto simp: mode_key_def Let_def split: if_splits)

lemma handle_mouse_keeps:
  "handle_mouse receivers kind column row t = Some t' \<Longrightarrow> te_exit t' = te_exit t \<and> te_count t' = te_count t"
  by (auto simp: handle_mouse_def bind_eq_Some_conv sites_handle_mouse_click_def tell_def on_logs_def on_threads_def on_connections_def
      split: if_splits mouse_kind.splits option.splits ProcState.splits Page.splits)

lemma handle_event_keeps:
  assumes "handle_event receivers evt t = Some (goes_on, t')"
  shows "te_count t' = te_count t \<and> te_exit t' = (te_exit t \<or> \<not> goes_on)"
proof (cases evt)
  case (KeyEvent code modifiers)
  obtain b u where u: "mode_key code t = (b, u)" by fastforce
  show ?thesis
    using assms KeyEvent mode_key_keeps [OF u] page_key_keeps [of "ts_current_page (te_tui t)" code u]
    by (cases b) (auto simp: handle_event_def handle_key_def toggle_pause_def Let_def u dest!: global_key_keeps split: if_splits)
next
  case (MouseEvent kind column row)
  then show ?thesis using assms by (auto simp: handle_event_def dest: handle_mouse_keeps)
qed (use assms in \<open>simp add: handle_event_def\<close>)

text \<open>What the other tasks do leaves the variables of the loop alone.\<close>

definition keeps_count :: "tui_turn \<Rightarrow> bool" where
  "keeps_count turn \<longleftrightarrow> (\<forall>t. te_count (tt_before turn t) = te_count t \<and> te_count (tt_while turn t) = te_count t)"

lemma tui_turn_count:
  assumes "tui_turn_of turn t = Some (goes_on, t')" and "keeps_count turn" and "te_count t \<le> 100"
  shows "te_count t' = te_count t"
proof -
  let ?t = "tt_before turn t"
  have c: "te_count ?t = te_count t" using assms(2) by (simp add: keeps_count_def)
  then obtain p u where u: "draw_ui (tt_screen turn) ?t = Some (p, u)"
    and r: "after_frame turn u = Some (goes_on, t')"
    using assms(1,3) by (auto simp: tui_turn_of_def Let_def bind_eq_Some_conv)
  have "te_count u = te_count t" using draw_ui_keeps(2) [OF u] c by simp
  then show ?thesis
    using r assms(2) by (auto simp: after_frame_def keeps_count_def dest: handle_event_keeps split: if_splits option.splits)
qed

lemma after_frame_theme: "after_frame (turn\<lparr> tt_theme := x \<rparr>) = after_frame turn"
  by (simp add: after_frame_def fun_eq_iff cong: if_cong option.case_cong)

text \<open>The theme of the desktop is not followed: from the start of the loop on, nothing that
  happens depends on what the desktop answers in a turn.\<close>

theorem desktop_theme_not_followed:
  assumes "list_all keeps_count turns" and "te_count t \<le> 100"
  shows "tui_run (map (\<lambda>turn. turn\<lparr> tt_theme := f turn \<rparr>) turns) t = tui_run turns t"
  using assms
proof (induction turns arbitrary: t)
  case (Cons turn turns)
  have c: "te_count (tt_before turn t) \<le> 100" using Cons.prems by (simp add: keeps_count_def)
  have s: "tui_turn_of (turn\<lparr> tt_theme := f turn \<rparr>) t = tui_turn_of turn t"
    using c by (simp add: tui_turn_of_def after_frame_theme Let_def)
  have "te_count t' \<le> 100" if "tui_turn_of turn t = Some (b, t')" for b t'
    using tui_turn_count [OF that] Cons.prems by simp
  then show ?case using Cons.IH Cons.prems by (auto simp: s split: option.splits bool.splits)
qed simp

text \<open>The loop ends only when an exit was asked for, and when it ends without a key having
  asked for it in that very turn, no site is running, starting or stopping.\<close>

theorem terminal_waits_for_processes:
  assumes "tui_turn_of turn t = Some (False, t')"
  shows "te_exit t' \<and> (tt_event turn = None \<longrightarrow> \<not> something_runs (tt_screen turn) (te_status t'))"
proof -
  let ?t = "if 100 < te_count (tt_before turn t) \<and> te_manual_theme (tt_before turn t) = None
    then (tt_before turn t)\<lparr> te_theme := tt_theme turn, te_count := 0 \<rparr> else tt_before turn t"
  obtain p u where "draw_ui (tt_screen turn) ?t = Some (p, u)"
    and r: "after_frame turn u = Some (False, t')"
    using assms by (auto simp: tui_turn_of_def Let_def bind_eq_Some_conv)
  then show ?thesis using r by (auto simp: after_frame_def dest: handle_event_keeps split: if_splits option.splits)
qed

section \<open>Starting and stopping everything\<close>

text \<open>The key that starts all sites shows each running site as starting, unless it is one that
  starts by itself, and leaves the sites that are stopped as they are.\<close>

theorem start_all_shows_running_as_starting:
  assumes "handle_event receivers (KeyEvent (CharKey (CHR ''s'')) modifiers) t = Some (goes_on, t')"
  shows "te_status t' = (\<lambda>h. if te_status t h = Some Running \<and> h \<notin> set (te_disabled t) then Some Starting else te_status t h) \<and>
    te_sent t' = te_sent t @ [StartAll]"
proof -
  have k: "page_key p (CharKey (CHR ''s'')) t = t" for p
    by (cases p) (simp_all add: page_key_def logs_key_def threads_key_def connections_key_def)
  have "start_all receivers t = Some t'"
    using assms by (simp add: handle_event_def handle_key_def mode_key_def global_key_def k Let_def)
  then show ?thesis
    by (auto simp: start_all_def tell_def fun_eq_iff map_option_case split: if_splits option.splits)
qed

text \<open>With no process host to receive the message, both keys end the task of the terminal.\<close>

theorem keys_without_hosts_panic:
  assumes "code = CharKey (CHR ''s'') \<or> code = CharKey (CHR ''z'')"
  shows "handle_event False (KeyEvent code modifiers) t = None"
proof -
  have k: "page_key p code t = t" for p
    using assms by (cases p) (auto simp: page_key_def logs_key_def threads_key_def connections_key_def)
  show ?thesis
    using assms by (auto simp: handle_event_def handle_key_def mode_key_def global_key_def k Let_def start_all_def stop_all_def tell_def)
qed

section \<open>Examples\<close>

definition screen_sample :: "nat \<Rightarrow> nat \<Rightarrow> screen" where
  "screen_sample w h =
     \<lparr> sc_width = w, sc_height = h, sc_page_width = w, sc_page_height = h, sc_sites_height = 5,
       sc_columns = (\<lambda>n. replicate n \<lparr> rt_x = 0, rt_y = 0, rt_width = w, rt_height = 5 \<rparr>), sc_keys = (\<lambda>_. [''a'']),
       sc_active = [], sc_monitored = Map.empty, sc_debug = (\<lambda>_ _ _ _. []), sc_hosts = [], sc_workers = [],
       sc_accepted = 0, sc_host_names = [], sc_version = ''0'', sc_uptime = None \<rparr>"

text \<open>The site \<open>a\<close> runs; one message \<open>hi\<close> stands in the log under the name \<open>n\<close>.\<close>

definition message_under :: "string \<Rightarrow> LogMsg" where
  "message_under n = \<lparr> lm_msg = ''hi'', lm_lvl = Info, lm_src = [], lm_thread = Some n \<rparr>"

definition terminal_sample :: "string \<Rightarrow> Terminal" where
  "terminal_sample n =
     \<lparr> te_tui = TuiState_new, te_buffer = SharedLogBuffer_new\<lparr> lb_logs := [message_under n] \<rparr>, te_theme = DarkTheme,
       te_manual_theme = None, te_count = 0, te_level = Trace, te_filter = (Info, True), te_inspection = False,
       te_exit = False, te_status = [''a'' \<mapsto> Running], te_sent = [], te_disabled = [] \<rparr>"

definition turn_quiet :: "tui_event option \<Rightarrow> tui_turn" where
  "turn_quiet evt =
     \<lparr> tt_screen = screen_sample 5 5, tt_theme = LightTheme, tt_before = (\<lambda>t. t), tt_while = (\<lambda>t. t), tt_event = evt, tt_receivers = True \<rparr>"

lemma sample_message:
  "trim_to_max_chars (trim (lm_msg (message_under n))) 2000 = Some ''hi''" "chars ''hi'' = [''h'', ''i'']" "\<not> white ''h''" "text_ok 4 ''hi''"
proof -
  have c: "chars ''hi'' = [''h'', ''i'']" by code_simp
  have t: "trim ''hi'' = ''hi''" by code_simp
  show "trim_to_max_chars (trim (lm_msg (message_under n))) 2000 = Some ''hi''"
    unfolding message_under_def LogMsg.simps t by (rule trim_to_max_chars_short) (unfold c, simp)
  show "chars ''hi'' = [''h'', ''i'']" by (rule c)
  show "\<not> white ''h''" by code_simp
  show "text_ok 4 ''hi''" by code_simp
qed

lemma long_name_hangs_terminal_witness: "draw_ui (screen_sample 80 10) (terminal_sample (replicate 60 (CHR ''n''))) = None"
proof (rule long_name_hangs_terminal [OF _ _ _ sample_message(1) _ sample_message(3)])
  let ?n = "replicate 60 (CHR ''n'')"
  show "''h'' \<in> set (chars ''hi'')" unfolding sample_message(2) by simp
  show "message_under ?n \<in> set (lb_logs (te_buffer (terminal_sample ?n)))" by (simp add: terminal_sample_def)
  show "lm_thread (message_under ?n) = Some ?n" by (simp add: message_under_def)
qed (simp_all add: terminal_sample_def screen_sample_def TuiState_new_def)

lemma log_page_shows_the_end_witness:
  "\<exists>rows t'. logs_draw 100 10 (terminal_sample ''odd_box'') = Some (rows, t') \<and> length (lb_logs (te_buffer t')) = 1"
proof -
  let ?m = "message_under ''odd_box''"
  have d: "length (dec 1) = 1" by (subst dec.simps) simp
  have "4 \<le> text_columns 100 (max 6 (length (dec 1))) 0 0 ?m"
    by (simp add: text_columns_def d [simplified] thread_str_def message_under_def spaces_def)
  then have "messages_fit 100 (terminal_sample ''odd_box'')"
    using sample_message(1,4) by (auto simp: messages_fit_def terminal_sample_def TuiState_new_def)
  from log_page_shows_the_end [OF this, of 10] show ?thesis
    by (auto simp: terminal_sample_def TuiState_new_def scroll_start_def)
qed

lemma closed_connections_end_terminal_witness:
  "draw_ui (screen_sample 20 20)
    (on_connections (\<lambda>s. s\<lparr> sw_vertical_scroll := Some 5 \<rparr>) (on_tui (\<lambda>s. s\<lparr> ts_current_page := ConnectionsPage \<rparr>) (terminal_sample []))) = None"
  by (rule closed_connections_end_terminal [of _ 5]) (simp_all add: on_connections_def screen_sample_def)


lemma every_site_listed_once_witness:
  "\<exists>sites. site_columns (screen_sample 20 20) [''a'' \<mapsto> Running] = Some sites \<and> map (snd \<circ> fst) sites = [''a'']"
proof -
  have "map fst (sorted_sites (screen_sample 20 20) [''a'' \<mapsto> Running]) = [''a'']"
    by (simp add: sorted_sites_def screen_sample_def map_filter_simps)
  then show ?thesis
    using every_site_listed_once [of "screen_sample 20 20" "[''a'' \<mapsto> Running]"] by (simp add: screen_sample_def)
qed

lemma desktop_theme_not_followed_witness:
  "tui_run [(turn_quiet None)\<lparr> tt_theme := DarkTheme \<rparr>] (terminal_sample []) = tui_run [turn_quiet None] (terminal_sample [])"
  using desktop_theme_not_followed [of "[turn_quiet None]" "terminal_sample []" "\<lambda>_. DarkTheme"]
  by (simp add: keeps_count_def turn_quiet_def terminal_sample_def)

lemma terminal_waits_for_processes_witness:
  "\<exists>t'. tui_turn_of (turn_quiet (Some (KeyEvent Esc NoModifiers))) (terminal_sample []) = Some (False, t') \<and> te_exit t'"
proof -
  obtain t' where t: "tui_turn_of (turn_quiet (Some (KeyEvent Esc NoModifiers))) (terminal_sample []) = Some (False, t')"
    by (simp add: tui_turn_of_def draw_ui_def after_frame_def turn_quiet_def screen_sample_def handle_event_def handle_key_def
        mode_key_def terminal_sample_def Let_def)
  then show ?thesis using terminal_waits_for_processes [OF t] by blast
qed

lemma start_all_shows_running_as_starting_witness:
  "\<exists>goes_on t'. handle_event True (KeyEvent (CharKey (CHR ''s'')) NoModifiers) (terminal_sample []) = Some (goes_on, t') \<and>
    te_status t' ''a'' = Some Starting \<and> te_sent t' = [StartAll]"
proof -
  obtain t' where t: "handle_event True (KeyEvent (CharKey (CHR ''s'')) NoModifiers) (terminal_sample []) = Some (True, t')"
    by (simp add: handle_event_def handle_key_def mode_key_def global_key_def start_all_def tell_def Let_def)
  have "te_status t' ''a'' = Some Starting \<and> te_sent t' = [StartAll]"
    using start_all_shows_running_as_starting [OF t] by (simp add: terminal_sample_def)
  with t show ?thesis by blast
qed

lemma keys_without_hosts_panic_witness: "handle_event False (KeyEvent (CharKey (CHR ''z'')) NoModifiers) (terminal_sample []) = None"
  by (rule keys_without_hosts_panic) simp

end
