(* ===== verification/Docker_Scan.thy ===== *)
theory Docker_Scan
  imports Http_Service Proc_Host
begin

text \<open>
  The containers that are proxied: \<open>get_container_proxy_targets\<close> of \<open>src/docker.rs\<close>, which reads them
  from the labels of running containers, and \<open>docker_thread\<close> of \<open>src/main.rs\<close>, which looks every ten
  seconds and keeps the map of containers and the status of sites. What docker answers is the list of
  summaries; a network is listed with its address in the order of the map. \<open>low\<close> is \<open>str::to_lowercase\<close>.
\<close>

section \<open>A container\<close>

record docker_port =
  dp_private_port :: u16
  dp_public_port :: "u16 option"
  dp_tcp :: bool

record ContainerSummary =
  cs_id :: "string option"
  cs_names :: "string list option"
  cs_image :: "string option"
  cs_state :: "string option"
  cs_labels :: "(string \<rightharpoonup> string) option"
  cs_ports :: "docker_port list option"
  cs_networks :: "(string \<times> string option) list option"

definition container_name_of :: "ContainerSummary \<Rightarrow> string option" where
  "container_name_of c =
     (case cs_names c of
        Some (name # _) \<Rightarrow> Some (dropWhile (\<lambda>x. x = CHR ''/'') name)
      | _ \<Rightarrow> cs_id c)"

text \<open>An address of a network other than \<open>bridge\<close>, else the one of \<open>bridge\<close>; an empty one does not count.\<close>

definition any_network_ip :: "(string \<times> string option) list option \<Rightarrow> string option" where
  "any_network_ip networks =
     (case networks of
        None \<Rightarrow> None
      | Some nets \<Rightarrow>
          (case List.find (\<lambda>(name, ip). name \<noteq> ''bridge'' \<and> ip \<noteq> None \<and> ip \<noteq> Some []) nets of
             Some (_, ip) \<Rightarrow> ip
           | None \<Rightarrow> (case map_of nets ''bridge'' of Some (Some ip) \<Rightarrow> if ip = [] then None else Some ip | _ \<Rightarrow> None)))"

text \<open>A port published by the host, else the port of the container in a network that can be reached.\<close>

definition container_address :: "u16 \<Rightarrow> ContainerSummary \<Rightarrow> (string \<times> u16) option" where
  "container_address container_port c =
     (let inside = map_option (\<lambda>ip. (ip, container_port)) (any_network_ip (cs_networks c)) in
      case cs_ports c of
        Some ports \<Rightarrow>
          (case List.find (\<lambda>p. dp_private_port p = container_port \<and> dp_tcp p \<and> dp_public_port p \<noteq> None) ports of
             Some p \<Rightarrow> Some (''127.0.0.1'', the (dp_public_port p))
           | None \<Rightarrow> inside)
      | None \<Rightarrow> inside)"

definition hint_of_label :: "string \<Rightarrow> Hint option" where
  "hint_of_label x =
     (if x = ''h2'' then Some H2 else if x = ''h2c'' then Some H2C else if x = ''h2cpk'' then Some H2CPK else None)"

definition hints_of_label :: "(string \<Rightarrow> string) \<Rightarrow> string option \<Rightarrow> Hint list" where
  "hints_of_label low l =
     (case l of Some h \<Rightarrow> List.map_filter hint_of_label (split_on (CHR '','') (low h)) | None \<Rightarrow> [])"

definition container_target :: "(string \<Rightarrow> string) \<Rightarrow> ContainerSummary \<Rightarrow> ContainerProxyTarget option" where
  "container_target low c =
     (let labels = unwrap_or (cs_labels c) Map.empty;
          flag = (\<lambda>name. map_option (\<lambda>x. low x = ''true'') (labels name)) in
      do { container_name \<leftarrow> container_name_of c;
           _ \<leftarrow> (if cs_state c = Some ''running'' then Some () else None);
           port_str \<leftarrow> labels ''odd_box_port'';
           p \<leftarrow> parse_uint 16 port_str;
           (target_addr, target_port) \<leftarrow> container_address (of_nat p) c;
           Some \<lparr> ct_container_name = container_name, ct_image_name = unwrap_or (cs_image c) [],
             ct_host_name_label = labels ''odd_box_host_name'', ct_running = True, ct_target_addr = target_addr,
             ct_tls = (labels ''odd_box_is_tls'' = Some ''true''), ct_hints = hints_of_label low (labels ''odd_box_hints''),
             ct_port = target_port, ct_capture_subdomains = flag ''odd_box_capture_subdomains'',
             ct_terminate_tls = flag ''odd_box_terminate_tls'', ct_terminate_http = flag ''odd_box_terminate_http'',
             ct_forward_subdomains = flag ''odd_box_forward_subdomains'',
             ct_enable_lets_encrypt = flag ''odd_box_enable_lets_encrypt'',
             ct_keep_original_host_header = flag ''odd_box_keep_original_host_header'', ct_redirect_to_https = None \<rparr> })"

definition get_container_proxy_targets :: "(string \<Rightarrow> string) \<Rightarrow> ContainerSummary list option \<Rightarrow> ContainerProxyTarget list option" where
  "get_container_proxy_targets low answer = map_option (List.map_filter (container_target low)) answer"

section \<open>The loop\<close>

record DockerState =
  dk_status :: "string \<rightharpoonup> ProcState"
  dk_containers :: "string \<rightharpoonup> ContainerProxyTarget"

text \<open>A look: \<open>None\<close> when docker cannot be reached, \<open>Some None\<close> when it answers with an error.\<close>

definition docker_turn :: "(string \<Rightarrow> string) \<Rightarrow> ContainerSummary list option option \<Rightarrow> DockerState \<Rightarrow> DockerState" where
  "docker_turn low look s =
     (case look of
        None \<Rightarrow> s
      | Some answer \<Rightarrow>
          (let targets = unwrap_or (get_container_proxy_targets low answer) [];
               containers = foldl (\<lambda>m x. m(generate_host_name x \<mapsto> x)) Map.empty targets;
               kept = (\<lambda>h. if dk_status s h \<noteq> Some DockerState \<or> containers h \<noteq> None then dk_status s h else None) in
           \<lparr> dk_status = (\<lambda>h. if containers h \<noteq> None then Some DockerState else kept h), dk_containers = containers \<rparr>))"

text \<open>What other tasks do to the state meanwhile is a function for each look.\<close>

fun docker_thread :: "(string \<Rightarrow> string) \<Rightarrow> (ContainerSummary list option option \<times> (DockerState \<Rightarrow> DockerState)) list \<Rightarrow> DockerState \<Rightarrow> DockerState" where
  "docker_thread low [] s = s"
| "docker_thread low ((look, others) # looks) s = docker_thread low looks (others (docker_turn low look s))"

section \<open>What a look promises\<close>

lemma find_member: "List.find P xs = Some x \<Longrightarrow> x \<in> set xs \<and> P x"
  by (metis find_Some_iff nth_mem)

lemma network_ip: "any_network_ip nets = Some ip \<Longrightarrow> ip \<noteq> [] \<and> (\<exists>net. (net, Some ip) \<in> set (unwrap_or nets []))"
  by (auto simp: any_network_ip_def dest!: find_member dest: map_of_SomeD split: option.splits if_splits prod.splits)

text \<open>C24: A container is proxied only when it runs and its label names a port, and then at a
  TCP port that the host publishes for this port, or, when there is none, at this port of one of its
  networks.\<close>

theorem container_reached_where_it_listens:
  assumes "container_target low c = Some t"
  shows "cs_state c = Some ''running'' \<and>
    (\<exists>p. parse_uint 16 (the (unwrap_or (cs_labels c) Map.empty ''odd_box_port'')) = Some p \<and>
      (if \<exists>d \<in> set (unwrap_or (cs_ports c) []). dp_private_port d = of_nat p \<and> dp_tcp d \<and> dp_public_port d \<noteq> None
       then ct_target_addr t = ''127.0.0.1'' \<and>
         (\<exists>d \<in> set (unwrap_or (cs_ports c) []). dp_private_port d = of_nat p \<and> dp_tcp d \<and> dp_public_port d = Some (ct_port t))
       else ct_port t = of_nat p \<and> ct_target_addr t \<noteq> [] \<and>
         (\<exists>net. (net, Some (ct_target_addr t)) \<in> set (unwrap_or (cs_networks c) []))))"
proof -
  obtain p l where l: "unwrap_or (cs_labels c) Map.empty ''odd_box_port'' = Some l" "parse_uint 16 l = Some p"
    and a: "container_address (of_nat p) c = Some (ct_target_addr t, ct_port t)" and r: "cs_state c = Some ''running''"
    using assms by (auto simp: container_target_def Let_def bind_eq_Some_conv split: if_splits)
  let ?ok = "\<lambda>d. dp_private_port d = of_nat p \<and> dp_tcp d \<and> dp_public_port d \<noteq> None"
  let ?ports = "unwrap_or (cs_ports c) []"
  have f: "container_address (of_nat p) c =
      (case List.find ?ok ?ports of Some d \<Rightarrow> Some (''127.0.0.1'', the (dp_public_port d))
       | None \<Rightarrow> map_option (\<lambda>ip. (ip, of_nat p)) (any_network_ip (cs_networks c)))"
    by (simp add: container_address_def Let_def split: option.splits)
  show ?thesis
  proof (cases "List.find ?ok ?ports")
    case None
    then have "\<not> (\<exists>d \<in> set ?ports. ?ok d)" by (auto simp: find_None_iff)
    moreover have "ct_port t = of_nat p" "any_network_ip (cs_networks c) = Some (ct_target_addr t)" using a f None by auto
    ultimately show ?thesis
      using l r network_ip by auto
  next
    case (Some d)
    then have "d \<in> set ?ports" "?ok d" using find_member [OF Some] by auto
    moreover have "ct_target_addr t = ''127.0.0.1''" "ct_port t = the (dp_public_port d)" using a f Some by auto
    ultimately show ?thesis using l r by force
  qed
qed

text \<open>A look that reaches docker gives exactly the host names of the containers it finds the
  status of a container, takes that status away from every other name, and changes no other status.\<close>

theorem status_matches_containers:
  "dk_status (docker_turn low (Some answer) s) h =
    (if dk_containers (docker_turn low (Some answer) s) h \<noteq> None then Some DockerState
     else if dk_status s h = Some DockerState then None else dk_status s h)"
  by (simp add: docker_turn_def Let_def)

text \<open>A container with the host name of a configured site takes over the status of the site;
  when it stops, the site has no status any more.\<close>

theorem container_takes_status_away:
  assumes "container_target low c = Some t"
  shows "dk_status (docker_turn low (Some (Some [c])) s) (generate_host_name t) = Some DockerState \<and>
    dk_status (docker_thread low [(Some (Some [c]), \<lambda>s. s), (Some (Some []), \<lambda>s. s)] s) (generate_host_name t) = None"
  using assms by (simp add: docker_turn_def get_container_proxy_targets_def map_filter_simps Let_def)

text \<open>A hint after a comma and a blank is not understood.\<close>

lemma hints_with_blanks_dropped: "hints_of_label (\<lambda>x. x) (Some ''h2, h2c'') = [H2]"
  by (simp add: hints_of_label_def hint_of_label_def map_filter_simps)

section \<open>Examples\<close>

definition summary_sample :: ContainerSummary where
  "summary_sample =
     \<lparr> cs_id = Some ''1'', cs_names = Some [''/web''], cs_image = Some ''img'', cs_state = Some ''running'',
       cs_labels = Some [''odd_box_port'' \<mapsto> ''80''],
       cs_ports = Some [\<lparr> dp_private_port = 80, dp_public_port = Some 8080, dp_tcp = True \<rparr>], cs_networks = None \<rparr>"

lemma summary_found:
  "\<exists>t. container_target (\<lambda>x. x) summary_sample = Some t \<and> ct_target_addr t = ''127.0.0.1'' \<and> ct_port t = 8080 \<and>
    generate_host_name t = ''web.odd-box.localhost''"
  by (simp add: container_target_def summary_sample_def container_name_of_def parse_uint_def is_digit_def container_address_def
      generate_host_name_def Let_def)

lemma container_reached_where_it_listens_witness:
  "\<exists>t. container_target (\<lambda>x. x) summary_sample = Some t \<and> cs_state summary_sample = Some ''running''"
proof -
  obtain t where t: "container_target (\<lambda>x. x) summary_sample = Some t" using summary_found by blast
  then show ?thesis using container_reached_where_it_listens [OF t] by blast
qed

lemma container_takes_status_away_witness:
  "dk_status (docker_thread (\<lambda>x. x) [(Some (Some [summary_sample]), \<lambda>s. s), (Some (Some []), \<lambda>s. s)]
     \<lparr> dk_status = [''web.odd-box.localhost'' \<mapsto> Running], dk_containers = Map.empty \<rparr>) ''web.odd-box.localhost'' = None"
proof -
  obtain t where t: "container_target (\<lambda>x. x) summary_sample = Some t" "generate_host_name t = ''web.odd-box.localhost''"
    using summary_found by blast
  show ?thesis using container_takes_status_away [OF t(1)] t(2) by simp
qed

end
