(* ===== verification/Startup.thy ===== *)
theory Startup
  imports Reload Dir_Server
begin

text \<open>
  The start and the end of the program, \<open>src/main.rs\<close>: the arguments (\<open>src/types/args.rs\<close>), finding, reading
  and upgrading the configuration file, writing a first one, the state in which the proxy starts, the
  janitor that drops dead tasks and old responses, and the wait for the hosted processes at the end. Files
  are a map from the paths they are opened under; \<open>se_writable\<close> says which can be written.
\<close>

section \<open>Arguments and environment\<close>

record Args =
  ar_configuration :: "string option"
  ar_tui :: "bool option"
  ar_update :: bool
  ar_init :: bool
  ar_config_schema :: bool

type_synonym file_map = "string \<rightharpoonup> string"

record start_env =
  se_os :: os
  se_readers :: toml_readers
  se_fresh :: "nat \<Rightarrow> nat \<Rightarrow> ProcId"
  se_writable :: "string \<Rightarrow> bool"
  se_init_config :: string
  se_macos :: bool

datatype start_error =
    CannotRead string
  | CannotParse string
  | NotValid config_error
  | NoDiskPath
  | AlreadyExists string
  | CannotWrite string
  | NotSaved string
  | NoWorkingDirectory

definition write_file :: "start_env \<Rightarrow> string \<Rightarrow> string \<Rightarrow> file_map \<Rightarrow> start_error option \<times> file_map" where
  "write_file env p text files = (if se_writable env p then (None, files(p \<mapsto> text)) else (Some (CannotWrite p), files))"

section \<open>A first configuration\<close>

definition example_backend :: "string \<Rightarrow> Backend" where
  "example_backend address = \<lparr> bk_address = address, bk_port = 443, bk_https = Some True, bk_hints = None \<rparr>"

definition example_env_vars :: "EnvVar list" where
  "example_env_vars =
     [\<lparr> ev_key = ''some_key'', ev_value = ''some_val'' \<rparr>, \<lparr> ev_key = ''another_key'', ev_value = ''another_val'' \<rparr>]"

definition example_remote :: "string \<Rightarrow> string \<Rightarrow> bool option \<Rightarrow> bool \<Rightarrow> RemoteSiteConfig" where
  "example_remote host address fwd terminate_tls =
     \<lparr> rs_host_name = host, rs_backends = [example_backend address], rs_capture_subdomains = Some False,
       rs_terminate_tls = Some terminate_tls, rs_terminate_http = None, rs_forward_subdomains = fwd,
       rs_enable_lets_encrypt = Some False, rs_keep_original_host_header = None, rs_redirect_to_https = Some True \<rparr>"

definition example_process :: "ProcId \<Rightarrow> InProcessSiteConfig" where
  "example_process i =
     \<lparr> hp_proc_id = i, hp_active_port = None, hp_terminate_tls = Some False, hp_terminate_http = None, hp_hints = None,
       hp_host_name = ''some_host.local'', hp_dir = None, hp_bin = ''my_bin'', hp_args = Some [''--test''],
       hp_env_vars = Some example_env_vars, hp_log_format = Some standard, hp_auto_start = Some True, hp_port = Some 443,
       hp_https = Some True, hp_capture_subdomains = None, hp_forward_subdomains = None,
       hp_exclude_from_start_all = None, hp_enable_lets_encrypt = Some False, hp_log_level = None,
       hp_redirect_to_https = Some True \<rparr>"

definition example_config :: "ProcId \<Rightarrow> OddBoxV3Config" where
  "example_config i =
     \<lparr> cfg_path = None, cfg_root_dir = Some ''/tmp'', cfg_log_level = Some Info, cfg_alpn = Some False,
       cfg_port_range_start = 4200, cfg_default_log_format = standard, cfg_ip = Some ''0.0.0.0'',
       cfg_http_port = Some 80, cfg_tls_port = Some 443, cfg_auto_start = Some True, cfg_env_vars = example_env_vars,
       cfg_remote_target =
         Some [example_remote ''lobsters.local'' ''lobste.rs'' None False, example_remote ''google.local'' ''google.com'' (Some True) True],
       cfg_hosted_process = Some [example_process i], cfg_dir_server = None, cfg_lets_encrypt_account_email = None,
       cfg_odd_box_url = None, cfg_odd_box_password = None, cfg_use_loopback_ip_for_procs = None \<rparr>"

definition initial_text :: "start_env \<Rightarrow> string" where
  "initial_text env =
     (if se_macos env then
        replace_str ''http_port = 8080'' ''http_port = 80''
          (replace_str ''tls_port = 4343'' ''tls_port = 443''
            (replace_str (''ip = '' @ quote @ ''127.0.0.1'' @ quote @ '' '') (''ip = '' @ quote @ ''0.0.0.0'' @ quote @ '' '') (se_init_config env)))
      else se_init_config env)"

text \<open>A write of the text, when a file name was given.\<close>

definition write_if_named ::
  "start_env \<Rightarrow> string option \<Rightarrow> string \<Rightarrow> OddBoxV3Config \<Rightarrow> file_map \<Rightarrow> (start_error + OddBoxV3Config) \<times> file_map" where
  "write_if_named env path text c files =
     (case path of
        None \<Rightarrow> (Inr c, files)
      | Some p \<Rightarrow> (case write_file env p text files of (Some e, files) \<Rightarrow> (Inl e, files) | (None, files) \<Rightarrow> (Inr c, files)))"

definition generate_config ::
  "start_env \<Rightarrow> string option \<Rightarrow> bool \<Rightarrow> file_map \<Rightarrow> (start_error + OddBoxV3Config) \<times> file_map" where
  "generate_config env file_name fill_example files =
     (case current_dir (se_os env) of
        None \<Rightarrow> (Inl NoWorkingDirectory, files)
      | Some cwd \<Rightarrow>
          (let path = map_option (path_join cwd) file_name in
           if (case path of Some p \<Rightarrow> files p \<noteq> None | None \<Rightarrow> False) then (Inl (AlreadyExists (the path)), files)
           else if \<not> fill_example then
             (case parse_config (se_readers env) (initial_text env) of
                Inr (V3Config c) \<Rightarrow> write_if_named env path (initial_text env) c files
              | Inr _ \<Rightarrow> (Inl (CannotParse ''Failed to parse initial configuration''), files)
              | Inl e \<Rightarrow> (Inl (CannotParse e), files))
           else
             (let c = example_config (se_fresh env 3 0) in write_if_named env path (config_to_string c) c files)))"

section \<open>The configuration file\<close>

definition configuration_path :: "start_env \<Rightarrow> Args \<Rightarrow> file_map \<Rightarrow> string" where
  "configuration_path env args files =
     (let at = (\<lambda>p. case current_dir (se_os env) of Some cwd \<Rightarrow> path_join cwd p | None \<Rightarrow> p) in
      at (case ar_configuration args of
            Some c \<Rightarrow> c
          | None \<Rightarrow>
              if files (at ''odd-box.toml'') \<noteq> None then ''odd-box.toml''
              else if files (at ''oddbox.toml'') \<noteq> None then ''oddbox.toml''
              else ''Config.toml''))"

definition initialize_configuration ::
  "start_env \<Rightarrow> Args \<Rightarrow> file_map \<Rightarrow> start_error + ConfigWrapper \<times> OddBoxConfigVersion \<times> bool" where
  "initialize_configuration env args files =
     (let p = configuration_path env args files in
      case files p of
        None \<Rightarrow> Inl (CannotRead p)
      | Some contents \<Rightarrow>
          (case parse_config (se_readers env) contents of
             Inl e \<Rightarrow> Inl (CannotParse e)
           | Inr configuration \<Rightarrow>
               (case try_upgrade_to_latest_version (se_fresh env) configuration of
                  Inl e \<Rightarrow> Inl (CannotParse e)
                | Inr (c, original_version, was_upgraded) \<Rightarrow>
                    (case is_valid c of
                       Inl e \<Rightarrow> Inl (NotValid e)
                     | Inr _ \<Rightarrow>
                         (case canonicalize (se_os env) p of
                            None \<Rightarrow> Inl NoDiskPath
                          | Some full \<Rightarrow>
                              Inr ((ConfigWrapper_new c)\<lparr> internal_configuration := c\<lparr> cfg_path := Some full \<rparr> \<rparr>,
                                original_version, was_upgraded))))))"

text \<open>The first name of the form \<open>path.backup1\<close>, \<open>path.backup2\<close>, \<dots> that is free; an error of the file system
  counts as free.\<close>

definition backup_name :: "string \<Rightarrow> nat \<Rightarrow> string" where
  "backup_name p i = p @ ''.backup'' @ dec i"

partial_function (option) free_backup :: "(string \<Rightarrow> bool) \<Rightarrow> string \<Rightarrow> nat \<Rightarrow> string run" where
  "free_backup exists p i = (if exists (backup_name p i) then free_backup exists p (i + 1) else Some (backup_name p i))"

text \<open>The old file is copied, and the upgraded configuration written in its place.\<close>

definition upgrade_file :: "start_env \<Rightarrow> OddBoxV3Config \<Rightarrow> file_map \<Rightarrow> (start_error option \<times> file_map) run" where
  "upgrade_file env c files =
     do { original_path \<leftarrow> cfg_path c;
          new_path \<leftarrow> free_backup (\<lambda>p. files p \<noteq> None) original_path 1;
          Some (case files original_path of
                  None \<Rightarrow> (Some (CannotRead original_path), files)
                | Some old \<Rightarrow>
                    (case write_file env new_path old files of
                       (Some e, files) \<Rightarrow> (Some e, files)
                     | (None, files) \<Rightarrow>
                         (case write_to_disk c of
                            Inl e \<Rightarrow> (Some (NotSaved e), files)
                          | Inr (p, text) \<Rightarrow> write_file env p text files))) }"

datatype started = PrintedSchema | RanUpdate | WroteInitial | NotStarted start_error | Ready ConfigWrapper

definition main_prepare :: "start_env \<Rightarrow> Args \<Rightarrow> file_map \<Rightarrow> (started \<times> file_map) run" where
  "main_prepare env args files =
     (if ar_config_schema args then Some (PrintedSchema, files)
      else if ar_update args then Some (RanUpdate, files)
      else if ar_init args then
        Some (case generate_config env (Some ''odd-box.toml'') False files of
                (Inl e, files) \<Rightarrow> (NotStarted e, files)
              | (Inr _, files) \<Rightarrow> (WroteInitial, files))
      else
        (case initialize_configuration env args files of
           Inl e \<Rightarrow> Some (NotStarted e, files)
         | Inr (config, _, was_upgraded) \<Rightarrow>
             if was_upgraded then
               map_option (\<lambda>(failed, files). (case failed of Some e \<Rightarrow> NotStarted e | None \<Rightarrow> Ready config, files))
                 (upgrade_file env (internal_configuration config) files)
             else Some (Ready config, files)))"

section \<open>The state in which the proxy starts\<close>

definition listen_addr :: "OddBoxV3Config \<Rightarrow> u16 \<Rightarrow> string" where
  "listen_addr c port =
     (let ip = unwrap_or (cfg_ip c) ''127.0.0.1'';
          ip = (if CHR '':'' \<in> set ip then ''['' @ ip @ '']'' else ip) in
      ip @ '':'' @ dec (unat port))"

definition http_addr :: "OddBoxV3Config \<Rightarrow> string" where
  "http_addr c = listen_addr c (unwrap_or (cfg_http_port c) 8080)"

definition https_addr :: "OddBoxV3Config \<Rightarrow> string" where
  "https_addr c = listen_addr c (unwrap_or (cfg_tls_port c) 4343)"

definition tui_flag :: "Args \<Rightarrow> bool" where
  "tui_flag args = unwrap_or (ar_tui args) True"

definition initial_statuses :: "OddBoxV3Config \<Rightarrow> (string \<rightharpoonup> ProcState)" where
  "initial_statuses c =
     (let m = foldl (\<lambda>m x. m(rs_host_name x \<mapsto> Remote)) Map.empty (unwrap_or (cfg_remote_target c) []) in
      foldl (\<lambda>m x. m(ds_host_name x \<mapsto> DirServerState)) m (unwrap_or (cfg_dir_server c) []))"

text \<open>The hosts that were spawned run on when a later process cannot be resolved and \<open>main\<close> fails.\<close>

definition main_start :: "os \<Rightarrow> ConfigWrapper \<Rightarrow> reload_error option \<times> ('c, 'k) App" where
  "main_start sys config =
     (let c = internal_configuration config;
          (failed, hosts) = spawn_hosts sys c (unwrap_or (cfg_hosted_process c) []) in
      (failed,
       \<lparr> ap_super = \<lparr> sp_config = config, sp_threads = Map.empty, sp_status = initial_statuses c, sp_emitted = [],
           sp_started = [], sp_children = {}, sp_confirmed = [] \<rparr>,
         ap_hosts = hosts, ap_log_level = unwrap_or (cfg_log_level c) Info,
         ap_resolver = DynamicCertResolver_new (cfg_lets_encrypt_account_email c \<noteq> None), ap_targets = Map.empty \<rparr>))"

section \<open>The janitor\<close>

text \<open>The booleans say whether the task of an entry is alive; times are in nanoseconds.\<close>

record Janitor =
  ja_counter :: nat
  ja_procs :: "ProcId \<rightharpoonup> ProcInfo \<times> bool"
  ja_workers :: "string \<rightharpoonup> string \<times> bool"
  ja_cache :: Cache

definition retain :: "('v \<Rightarrow> bool) \<Rightarrow> ('k \<rightharpoonup> 'v) \<Rightarrow> ('k \<rightharpoonup> 'v)" where
  "retain keep m = (\<lambda>k. case m k of Some v \<Rightarrow> if keep v then Some v else None | None \<Rightarrow> None)"

definition second :: nat where
  "second = 1000000000"

definition janitor_turn :: "nat \<Rightarrow> Janitor \<Rightarrow> Janitor" where
  "janitor_turn now s =
     (let n = ja_counter s + 1;
          s = s\<lparr> ja_counter := n, ja_procs := retain snd (ja_procs s), ja_workers := retain snd (ja_workers s) \<rparr> in
      if 30 < n then
        s\<lparr> ja_counter := 0, ja_cache := retain (\<lambda>(_, inserted, _). \<not> 30 < (now - inserted) div second) (ja_cache s) \<rparr>
      else s)"

text \<open>A turn each second; the other tasks change the maps in between.\<close>

fun janitor :: "(nat \<times> (Janitor \<Rightarrow> Janitor)) list \<Rightarrow> Janitor \<Rightarrow> Janitor" where
  "janitor [] s = s"
| "janitor ((now, others) # turns) s = janitor turns (others (janitor_turn now s))"

section \<open>The end of the program\<close>

datatype shutdown = StillWaiting | AllStopped | Mismatch

text \<open>What a look sees: how many hosts still receive messages, and whether the table of processes is empty.\<close>

fun await_shutdown :: "(nat \<times> bool) list \<Rightarrow> nat \<Rightarrow> shutdown" where
  "await_shutdown [] i = StillWaiting"
| "await_shutdown ((receivers, no_procs) # looks) i =
     (if receivers = 0 then AllStopped
      else if 30 < i then (if no_procs then Mismatch else await_shutdown looks 0)
      else await_shutdown looks (i + 1))"

section \<open>Upgrading the file\<close>

lemma digit_value: "d < 10 \<Longrightarrow> of_char (digit_char d) = 48 + d"
proof -
  have "\<forall>d \<in> set [0 ..< 10]. of_char (digit_char d) = (48 + d :: nat)" by code_simp
  then show "d < 10 \<Longrightarrow> of_char (digit_char d) = 48 + d" by simp
qed

lemma dec_value: "foldl (\<lambda>acc c. acc * 10 + (of_char c - 48)) 0 (dec n) = n"
proof (induction n rule: dec.induct)
  case (1 n)
  show ?case
  proof (cases "n < 10")
    case True
    then show ?thesis using digit_value [of n] by (subst dec.simps) simp
  next
    case False
    then show ?thesis using 1 digit_value [of "n mod 10"] by (subst dec.simps) simp
  qed
qed

lemma backup_name_inj: "inj (backup_name p)"
proof (rule injI)
  fix m n
  assume "backup_name p m = backup_name p n"
  then have "dec m = dec n" by (simp add: backup_name_def)
  then have "foldl (\<lambda>acc c. acc * 10 + (of_char c - 48 :: nat)) 0 (dec m) = foldl (\<lambda>acc c. acc * 10 + (of_char c - 48)) 0 (dec n)"
    by (rule arg_cong)
  then show "m = n" by (simp only: dec_value)
qed

lemma free_backup_step:
  "exists (backup_name p i) \<Longrightarrow> free_backup exists p i = free_backup exists p (i + 1)"
  "\<not> exists (backup_name p i) \<Longrightarrow> free_backup exists p i = Some (backup_name p i)"
  by (subst free_backup.simps, simp)+

text \<open>Among finitely many files some name is free, and the search finds the first one.\<close>

lemma free_backup_found:
  assumes "finite {p. exists p}"
  shows "\<exists>n. free_backup exists p i = Some (backup_name p n) \<and> \<not> exists (backup_name p n)"
proof -
  have "finite {n. exists (backup_name p n)}"
    using finite_vimageI [OF assms backup_name_inj [of p]] by (simp add: vimage_def)
  then obtain m where m: "\<forall>n. exists (backup_name p n) \<longrightarrow> n < m"
    unfolding finite_nat_set_iff_bounded by auto
  show ?thesis
  proof (induction "m - i" arbitrary: i rule: less_induct)
    case less
    show ?case
    proof (cases "exists (backup_name p i)")
      case True
      with m have "m - (i + 1) < m - i" by auto
      from less [OF this] show ?thesis using free_backup_step(1) [of "exists" p i] True by auto
    qed (use free_backup_step(2) in blast)
  qed
qed

lemma write_file_cases: "write_file env p text files = (None, files') \<Longrightarrow> files' = files(p \<mapsto> text)"
  by (auto simp: write_file_def split: if_splits)

lemma backup_found:
  assumes "finite (dom files)"
  shows "\<exists>b. free_backup (\<lambda>p. \<exists>y. files p = Some y) p (Suc 0) = Some b \<and> files b = None"
proof -
  have "finite {p. \<exists>y. files p = Some y}" using assms by (simp add: dom_def)
  from free_backup_found [OF this, of p "Suc 0"] show ?thesis by auto
qed

lemma upgrade_file_returns:
  assumes "finite (dom files)" and "cfg_path c \<noteq> None"
  shows "upgrade_file env c files \<noteq> None"
proof -
  obtain p where p: "cfg_path c = Some p" using assms(2) by auto
  then show ?thesis using backup_found [OF assms(1), of p] by (auto simp: upgrade_file_def)
qed

lemma upgrade_file_done:
  assumes "finite (dom files)" and "upgrade_file env c files = Some (None, files')"
  shows "\<exists>b p old. cfg_path c = Some p \<and> files p = Some old \<and> files b = None \<and> files' = files(b \<mapsto> old, p \<mapsto> config_to_string c)"
proof -
  obtain p where p: "cfg_path c = Some p" using assms(2) by (auto simp: upgrade_file_def bind_eq_Some_conv)
  obtain b where "free_backup (\<lambda>p. \<exists>y. files p = Some y) p (Suc 0) = Some b" "files b = None"
    using backup_found [OF assms(1)] by blast
  then show ?thesis
    using assms(2) p
    by (auto simp: upgrade_file_def write_to_disk_def intro!: exI [of _ b] dest!: write_file_cases split: option.splits prod.splits sum.splits)
qed

lemma initialize_configuration_ok:
  assumes "initialize_configuration env args files = Inr (config, v, upgraded)"
  shows "is_valid (internal_configuration config) = Inr () \<and> cfg_path (internal_configuration config) \<noteq> None"
proof -
  have "is_valid (c\<lparr> cfg_path := x \<rparr>) = Inr () \<longleftrightarrow> is_valid c = Inr ()" for c x
    by (simp add: valid_iff all_host_names_def)
  then show ?thesis using assms by (auto simp: initialize_configuration_def Let_def split: option.splits sum.splits)
qed


section \<open>The first configuration\<close>

lemma write_if_named_keeps:
  "write_if_named env path text c files = (r, files') \<Longrightarrow> (\<forall>p. path = Some p \<longrightarrow> files p = None) \<Longrightarrow> files \<subseteq>\<^sub>m files'"
  by (auto simp: write_if_named_def write_file_def map_le_def split: option.splits if_splits)

text \<open>Writing a first configuration changes no file that exists: neither when it is asked for
  on the command line, nor under any other name, nor for the example.\<close>

theorem first_configuration_overwrites_nothing:
  assumes "generate_config env file_name fill_example files = (r, files')"
  shows "files \<subseteq>\<^sub>m files'"
proof -
  have r: "files \<subseteq>\<^sub>m files" by (rule map_le_refl)
  show ?thesis
    using assms r
    by (auto simp: generate_config_def Let_def split: option.splits if_splits sum.splits AnyOddBoxConfig.splits dest!: write_if_named_keeps)
qed

text \<open>The example configuration is valid, although its process asks for the port of the TLS
  listener: the check of ports compares the processes with each other only.\<close>

theorem example_process_takes_listener_port:
  "is_valid (example_config i) = Inr () \<and>
    (\<exists>p \<in> set (unwrap_or (cfg_hosted_process (example_config i)) []). hp_port p = cfg_tls_port (example_config i))"
proof
  have n: "\<not> str_eq_ignore_case ''some_key'' ''port''" "\<not> str_eq_ignore_case ''another_key'' ''port''"
    by (auto dest: str_eq_ignore_case_length)
  show "is_valid (example_config i) = Inr ()"
    by (simp add: valid_iff example_config_def example_env_vars_def n example_remote_def example_process_def lets_encrypt_ok_def
        port_variables_ok_def all_host_names_def configured_ports_def)
  show "\<exists>p \<in> set (unwrap_or (cfg_hosted_process (example_config i)) []). hp_port p = cfg_tls_port (example_config i)"
    by (simp add: example_config_def example_process_def)
qed

section \<open>The sites at the start\<close>

lemma fold_status: "foldl (\<lambda>m x. m(f x \<mapsto> v)) m xs h = (if h \<in> f ` set xs then Some v else m h)"
  by (induction xs arbitrary: m) auto

lemma resolve_names:
  "resolve_process_configuration sys c p = Inr r \<Longrightarrow> fr_host_name r = hp_host_name p"
  by (auto simp: resolve_process_configuration_def Let_def split: option.splits sum.splits)

text \<open>When the program starts with a valid configuration, every remote site and every
  directory site has the status of its kind, no other name has one, and every hosted process has its
  host.\<close>

theorem sites_at_the_start:
  assumes "main_start sys config = (None, app)" and "is_valid (internal_configuration config) = Inr ()"
  shows "(\<forall>h. sp_status (ap_super app) h =
      (if h \<in> rs_host_name ` set (unwrap_or (cfg_remote_target (internal_configuration config)) []) then Some Remote
       else if h \<in> ds_host_name ` set (unwrap_or (cfg_dir_server (internal_configuration config)) []) then Some DirServerState
       else None)) \<and>
    map fr_host_name (ap_hosts app) = map hp_host_name (unwrap_or (cfg_hosted_process (internal_configuration config)) [])"
proof -
  let ?c = "internal_configuration config"
  have d: "rs_host_name ` set (unwrap_or (cfg_remote_target ?c) []) \<inter> ds_host_name ` set (unwrap_or (cfg_dir_server ?c) []) = {}"
    using assms(2) by (auto simp: valid_iff all_host_names_def)
  have s: "spawn_hosts sys ?c (unwrap_or (cfg_hosted_process ?c) []) = (None, ap_hosts app)"
    and a: "sp_status (ap_super app) = initial_statuses ?c"
    using assms(1) by (auto simp: main_start_def Let_def split: prod.splits)
  have "map fr_host_name hosts = map hp_host_name ps" if "map Inr hosts = map (resolve_process_configuration sys ?c) ps" for hosts ps
    using that by (induction ps arbitrary: hosts) (auto simp: map_eq_Cons_conv dest: resolve_names [OF sym])
  then show ?thesis
    using spawn_hosts_done [OF s] d by (auto simp: a initial_statuses_def fold_status)
qed

section \<open>The janitor, proved\<close>

lemma retain_None [simp]: "m k = None \<Longrightarrow> retain keep m k = None"
  by (simp add: retain_def)

definition leaves_alone :: "string \<Rightarrow> (Janitor \<Rightarrow> Janitor) \<Rightarrow> bool" where
  "leaves_alone k g \<longleftrightarrow> (\<forall>s. ja_cache (g s) k = ja_cache s k \<and> ja_counter (g s) = ja_counter s)"

lemma leaves_aloneD: "leaves_alone k g \<Longrightarrow> ja_cache (g s) k = ja_cache s k" "leaves_alone k g \<Longrightarrow> ja_counter (g s) = ja_counter s"
  by (simp_all add: leaves_alone_def)

lemma janitor_forgotten: "ja_cache s k = None \<Longrightarrow> list_all (\<lambda>(_, g). leaves_alone k g) turns \<Longrightarrow> ja_cache (janitor turns s) k = None"
proof (induction turns arbitrary: s)
  case (Cons turn turns)
  obtain now g where t: "turn = (now, g)" by (cases turn)
  have "ja_cache (janitor_turn now s) k = None"
    using Cons.prems(1) by (simp add: janitor_turn_def Let_def)
  then show ?case using Cons by (simp add: t leaves_aloneD)
qed simp

text \<open>C37: A cached response that nothing renews leaves the cache within 31 turns of the
  janitor once it is 31 seconds old.\<close>

theorem old_response_dropped:
  assumes "ja_counter s \<le> 30" and "31 \<le> length turns + ja_counter s" and "ja_cache s k = Some (content, inserted, response)"
    and "list_all (\<lambda>(now, g). inserted + 31 * second \<le> now \<and> leaves_alone k g) turns"
  shows "ja_cache (janitor turns s) k = None"
  using assms
proof (induction turns arbitrary: s)
  case (Cons turn turns)
  obtain now g where t: "turn = (now, g)" by (cases turn)
  let ?s = "g (janitor_turn now s)"
  have g: "ja_cache ?s k = ja_cache (janitor_turn now s) k" "ja_counter ?s = ja_counter (janitor_turn now s)"
    and alone: "list_all (\<lambda>(_, g). leaves_alone k g) turns"
    using Cons.prems(4) by (auto simp: t leaves_aloneD list_all_iff)
  show ?case
  proof (cases "ja_counter s = 30")
    case True
    have "31 * second \<le> now - inserted" using Cons.prems(4) by (auto simp: t)
    then have "31 * second div second \<le> (now - inserted) div second" by (rule div_le_mono)
    then have "\<not> (now - inserted) div second \<le> 30" by (simp add: second_def)
    then have "ja_cache ?s k = None"
      using Cons.prems(3) True unfolding g(1) by (simp add: janitor_turn_def retain_def Let_def)
    then show ?thesis using janitor_forgotten [OF _ alone] by (simp add: t)
  next
    case False
    then have "ja_counter ?s = ja_counter s + 1" "ja_cache ?s k = ja_cache s k"
      using Cons.prems(1) unfolding g by (simp_all add: janitor_turn_def Let_def)
    then show ?thesis using Cons.IH [of ?s] Cons.prems False by (simp add: t)
  qed
qed simp

text \<open>What is alive is never dropped.\<close>

lemma alive_kept:
  "ja_procs s k = Some (p, True) \<Longrightarrow> ja_procs (janitor_turn now s) k = Some (p, True)"
  "ja_workers s w = Some (x, True) \<Longrightarrow> ja_workers (janitor_turn now s) w = Some (x, True)"
  by (simp_all add: janitor_turn_def retain_def Let_def)

section \<open>The end, proved\<close>

text \<open>Once no process is left in the table, the program stops waiting within 32 looks, whether
  or not a host still receives messages.\<close>

theorem shutdown_ends_without_processes:
  assumes "i \<le> 31" and "31 < length looks + i" and "list_all snd looks"
  shows "await_shutdown looks i \<noteq> StillWaiting"
  using assms by (induction looks i rule: await_shutdown.induct) (auto split: if_splits)

text \<open>The program does not end while hosts receive and a process is in the table.\<close>

theorem never_ends_while_processes_run:
  assumes "list_all (\<lambda>(receivers, no_procs). 0 < receivers \<and> \<not> no_procs) looks"
  shows "await_shutdown looks i = StillWaiting"
  using assms by (induction looks i rule: await_shutdown.induct) auto

section \<open>Examples\<close>

definition start_sample :: start_env where
  "start_sample =
     \<lparr> se_os = os_sample\<lparr> current_dir := Some ''/w'', canonicalize := Some \<rparr>,
       se_readers = \<lparr> read_v3 = (\<lambda>_. Inl []), read_v2 = (\<lambda>_. Inl []), read_v1 = (\<lambda>_. Inl []), read_legacy = (\<lambda>_. Inl []) \<rparr>,
       se_fresh = (\<lambda>_ _. []), se_writable = (\<lambda>_. True), se_init_config = [], se_macos = False \<rparr>"

definition args_sample :: "bool \<Rightarrow> Args" where
  "args_sample init = \<lparr> ar_configuration = None, ar_tui = None, ar_update = False, ar_init = init, ar_config_schema = False \<rparr>"


lemma first_configuration_overwrites_nothing_witness:
  "snd (generate_config start_sample (Some ''odd-box.toml'') True [''/w/odd-box.toml'' \<mapsto> ''mine'']) ''/w/odd-box.toml'' = Some ''mine''"
proof -
  obtain r files' where g: "generate_config start_sample (Some ''odd-box.toml'') True [''/w/odd-box.toml'' \<mapsto> ''mine''] = (r, files')"
    by fastforce
  have "[''/w/odd-box.toml'' \<mapsto> ''mine''] \<subseteq>\<^sub>m files'" by (rule first_configuration_overwrites_nothing [OF g])
  then have "\<forall>a \<in> dom [''/w/odd-box.toml'' \<mapsto> ''mine'']. [''/w/odd-box.toml'' \<mapsto> ''mine''] a = files' a" by (simp only: map_le_def)
  from bspec [OF this, of "''/w/odd-box.toml''"] have "files' ''/w/odd-box.toml'' = Some ''mine''" by (simp only: dom_fun_upd fun_upd_same) simp
  then show ?thesis unfolding g by simp
qed

lemma sites_at_the_start_witness:
  "\<exists>app :: (nat, nat) App. main_start os_sample (ConfigWrapper_new (config_sample None (Some [process_sample ''b'' None]))) = (None, app) \<and>
    map fr_host_name (ap_hosts app) = [''b'']"
proof -
  let ?c = "config_sample None (Some [process_sample ''b'' None])"
  have h: "cfg_hosted_process ?c = Some [process_sample ''b'' None]" "hp_host_name (process_sample ''b'' None) = ''b''"
    by (simp_all add: config_sample_def process_sample_def)
  obtain app :: "(nat, nat) App" where a: "main_start os_sample (ConfigWrapper_new ?c) = (None, app)"
    by (simp add: main_start_def ConfigWrapper_new_def h resolve_sample Let_def)
  have v: "is_valid ?c = Inr ()"
    by (simp add: valid_iff config_sample_def process_sample_def all_host_names_def configured_ports_def lets_encrypt_ok_def port_variables_ok_def)
  show ?thesis using a sites_at_the_start [OF a] v h by (auto simp: ConfigWrapper_new_def)
qed

definition janitor_sample :: Janitor where
  "janitor_sample =
     \<lparr> ja_counter = 0, ja_procs = Map.empty, ja_workers = Map.empty, ja_cache = [''k'' \<mapsto> ([], 0, simple_status 200 [])] \<rparr>"

lemma old_response_dropped_witness: "ja_cache (janitor (replicate 31 (40 * second, \<lambda>s. s)) janitor_sample) ''k'' = None"
  by (rule old_response_dropped [of _ _ _ "[]" 0 "simple_status 200 []"]) (simp_all add: janitor_sample_def leaves_alone_def list_all_iff)

lemma shutdown_ends_without_processes_witness: "await_shutdown (replicate 32 (1, True)) 0 \<noteq> StillWaiting"
  by (rule shutdown_ends_without_processes) (simp_all add: list_all_iff)

lemma never_ends_while_processes_run_witness: "await_shutdown (replicate 100 (1, False)) 0 = StillWaiting"
  by (rule never_ends_while_processes_run) (simp add: list_all_iff)

end
