(* ===== verification/Process_Output.thy ===== *)
theory Process_Output
  imports Terminal Configuration
begin

text \<open>
  What a hosted process writes (the two threads in \<open>host\<close> of \<open>src/proc_host.rs\<close>): its lines become events
  of the log, with a level of their own when its log format is that of .NET. The threads carry the name
  of the process, so Logging shows the lines under it. \<open>strip\<close> removes what the regular expression
  \<open>^\d* *\[.*?\] .*? - \<close> matches, as the third-party library does.
\<close>

section \<open>Lines\<close>

text \<open>\<open>BufRead::lines\<close>: the end of a line is removed, and a carriage return before it; \<open>cs\<close> is the line so far.\<close>

definition line_feed :: char where
  "line_feed = CHR 0x0A"

definition strip_cr :: "string \<Rightarrow> string" where
  "strip_cr l = (if l \<noteq> [] \<and> last l = CHR 0x0D then butlast l else l)"

fun split_lines :: "string \<Rightarrow> string \<Rightarrow> string list" where
  "split_lines [] cs = (if cs = [] then [] else [cs])"
| "split_lines (c # rest) cs = (if c = line_feed then strip_cr cs # split_lines rest [] else split_lines rest (cs @ [c]))"

text \<open>A line that is not UTF-8 is an error, and skipped; the reader goes on with the next line.\<close>

definition output_lines :: "string \<Rightarrow> string list" where
  "output_lines out = filter (\<lambda>l. utf8_valid (as_bytes l)) (split_lines out [])"

section \<open>Levels\<close>

fun min_level :: "LogLevel \<Rightarrow> nat" where
  "min_level Trace = 1"
| "min_level Debug = 2"
| "min_level Info = 3"
| "min_level Warn = 4"
| "min_level Error = 5"

definition level_of_number :: "nat \<Rightarrow> LogLevel" where
  "level_of_number n = (if n = 1 then Trace else if n = 2 then Debug else if n = 4 then Warn else if n = 5 then Error else Info)"

text \<open>The level that a line of .NET says it has, if any.\<close>

definition marked_level :: "string \<Rightarrow> nat option" where
  "marked_level t =
     (if contains_sub t '' WARN '' \<or> contains_sub t ''warn:'' then Some 4
      else if contains_sub t ''ERROR'' \<or> contains_sub t ''error:'' then Some 5
      else if contains_sub t ''DEBUG'' \<or> contains_sub t ''debug:'' \<or> contains_sub t ''dbug:'' then Some 2
      else if contains_sub t ''INFO'' \<or> contains_sub t ''info:'' then Some 3
      else None)"

text \<open>Only the marker of the level info is removed; for the others the code drops the result of the replacement.\<close>

definition shown_text :: "string \<Rightarrow> string" where
  "shown_text t = (if marked_level t = Some 3 then trim (replace_str ''info:'' [] t) else t)"

section \<open>The threads\<close>

text \<open>A line of the standard output, with the level the lines before it left.\<close>

definition dotnet_line :: "(string \<Rightarrow> string) \<Rightarrow> nat \<Rightarrow> string \<Rightarrow> nat \<Rightarrow> nat \<times> (LogLevel \<times> string) list" where
  "dotnet_line strip least line current =
     (if line = [] then (0, [])
      else
        (let t = strip line; current = unwrap_or (marked_level t) current in
         (current,
          if least \<le> current then [(level_of_number current, shown_text t)]
          else if current = 0 then [(Info, shown_text t)] else [])))"

definition stdout_line ::
  "(string \<Rightarrow> string) \<Rightarrow> LogFormat \<Rightarrow> nat \<Rightarrow> string \<Rightarrow> nat \<Rightarrow> nat \<times> (LogLevel \<times> string) list" where
  "stdout_line strip log_format least line current =
     (case log_format of
        dotnet \<Rightarrow> dotnet_line strip least line current
      | standard \<Rightarrow> (current, [(Info, line)]))"

fun stdout_lines ::
  "(string \<Rightarrow> string) \<Rightarrow> LogFormat \<Rightarrow> nat \<Rightarrow> string list \<Rightarrow> nat \<Rightarrow> (LogLevel \<times> string) list" where
  "stdout_lines strip log_format least [] current = []"
| "stdout_lines strip log_format least (line # lines) current =
     (let (current, shown) = stdout_line strip log_format least line current in
      shown @ stdout_lines strip log_format least lines current)"

definition stdout_thread ::
  "(string \<Rightarrow> string) \<Rightarrow> LogFormat \<Rightarrow> FullyResolvedInProcessSiteConfig \<Rightarrow> string \<Rightarrow> (LogLevel \<times> string) list" where
  "stdout_thread strip default_log_format proc out =
     stdout_lines strip (unwrap_or (fr_log_format proc) default_log_format)
       (min_level (unwrap_or (fr_log_level proc) Info)) (output_lines out) 0"

definition stderr_thread :: "string \<Rightarrow> (LogLevel \<times> string) list" where
  "stderr_thread out = map (\<lambda>l. (Error, trim l)) (filter (\<lambda>l. l \<noteq> []) (output_lines out))"

text \<open>The events of the log that the thread of the process makes.\<close>

definition proc_event :: "LogLevel \<times> string \<Rightarrow> log_event" where
  "proc_event = (\<lambda>(lvl, t).
     \<lparr> le_target = ''odd_box::proc_host'', le_level = lvl, le_module = Some ''odd_box::proc_host'', le_fields = [(''message'', t)] \<rparr>)"

definition log_output ::
  "((string \<rightharpoonup> string) \<Rightarrow> string list) \<Rightarrow> FullyResolvedInProcessSiteConfig \<Rightarrow> (LogLevel \<times> string) list \<Rightarrow> log_sinks \<Rightarrow> log_sinks" where
  "log_output keys proc shown s = foldl (\<lambda>s e. tui_on_event keys (Some (fr_host_name proc)) (proc_event e) s) s shown"

section \<open>Lines, proved\<close>

lemma split_lines_line:
  "line_feed \<notin> set l \<Longrightarrow> split_lines (l @ line_feed # rest) cs = strip_cr (cs @ l) # split_lines rest []"
  by (induction l arbitrary: cs) auto

definition plain_line :: "string \<Rightarrow> bool" where
  "plain_line l = (line_feed \<notin> set l \<and> strip_cr l = l \<and> utf8_valid (as_bytes l))"

text \<open>Lines of UTF-8 text that a process writes are read back as they were written, in order.\<close>

theorem output_lines_roundtrip:
  assumes "list_all plain_line ls"
  shows "output_lines (concat (map (\<lambda>l. l @ [line_feed]) ls)) = ls"
  using assms by (induction ls) (simp_all add: output_lines_def plain_line_def split_lines_line)

section \<open>Levels, proved\<close>

text \<open>The level in effect after some lines: the last level a line said it has, behind the last empty line; 0 is none.\<close>

definition level_after :: "(string \<Rightarrow> string) \<Rightarrow> string list \<Rightarrow> nat" where
  "level_after strip ls =
     (case List.map_filter (marked_level \<circ> strip) (takeWhile (\<lambda>l. l \<noteq> []) (rev ls)) of [] \<Rightarrow> 0 | n # _ \<Rightarrow> n)"

definition dotnet_shown :: "(string \<Rightarrow> string) \<Rightarrow> nat \<Rightarrow> string list \<Rightarrow> (LogLevel \<times> string) list" where
  "dotnet_shown strip least ls =
     List.map_filter (\<lambda>i.
       (let n = level_after strip (take (Suc i) ls) in
        if ls ! i \<noteq> [] \<and> (n = 0 \<or> least \<le> n) then Some (level_of_number n, shown_text (strip (ls ! i))) else None))
     [0 ..< length ls]"

lemma level_after_snoc:
  "level_after strip (ls @ [l]) = (if l = [] then 0 else unwrap_or (marked_level (strip l)) (level_after strip ls))"
  by (auto simp: level_after_def map_filter_simps unwrap_or_def split: option.splits list.splits)

lemma stdout_lines_append:
  "stdout_lines strip dotnet least (ls @ [l]) 0 =
    stdout_lines strip dotnet least ls 0 @ snd (dotnet_line strip least l (level_after strip ls))"
proof -
  have "stdout_lines strip dotnet least (ls @ [l]) (level_after strip pre) =
      stdout_lines strip dotnet least ls (level_after strip pre) @ snd (dotnet_line strip least l (level_after strip (pre @ ls)))" for pre
  proof (induction ls arbitrary: pre)
    case (Cons x ls)
    have "fst (dotnet_line strip least x (level_after strip pre)) = level_after strip (pre @ [x])"
      by (simp add: dotnet_line_def level_after_snoc Let_def)
    then show ?case using Cons.IH [of "pre @ [x]"] by (simp add: stdout_line_def case_prod_beta)
  qed (simp add: stdout_line_def split: prod.splits)
  from this [of "[]"] show ?thesis by (simp add: level_after_def map_filter_simps)
qed

lemma map_filter_same: "(\<And>x. x \<in> set xs \<Longrightarrow> f x = g x) \<Longrightarrow> List.map_filter f xs = List.map_filter g xs"
  by (induction xs) (auto simp: map_filter_simps split: option.splits)

lemma map_filter_snoc: "List.map_filter f (xs @ [x]) = List.map_filter f xs @ (case f x of Some y \<Rightarrow> [y] | None \<Rightarrow> [])"
  by (induction xs) (simp_all add: map_filter_simps split: option.splits)

lemma dotnet_shown_append:
  "dotnet_shown strip least (ls @ [l]) =
    dotnet_shown strip least ls @ (let n = level_after strip (ls @ [l]) in
      if l \<noteq> [] \<and> (n = 0 \<or> least \<le> n) then [(level_of_number n, shown_text (strip l))] else [])"
proof -
  have "List.map_filter (\<lambda>i. let n = level_after strip (take (Suc i) (ls @ [l])) in
        if (ls @ [l]) ! i \<noteq> [] \<and> (n = 0 \<or> least \<le> n) then Some (level_of_number n, shown_text (strip ((ls @ [l]) ! i))) else None)
      [0 ..< length ls] = dotnet_shown strip least ls"
    unfolding dotnet_shown_def by (rule map_filter_same) (auto simp: nth_append Let_def)
  then show ?thesis by (simp add: dotnet_shown_def [of _ _ "ls @ [l]"] map_filter_snoc Let_def)
qed

text \<open>C33: Of a process that logs as .NET does, exactly those lines are shown that are not
  empty and whose level is at least that of the process, or that have none, where the level of a
  line is the last one that a line said it has, itself included, since the last empty line.\<close>

theorem dotnet_lines_shown:
  assumes "0 < least"
  shows "stdout_lines strip dotnet least ls 0 = dotnet_shown strip least ls"
proof (induction ls rule: rev_induct)
  case (snoc l ls)
  have "snd (dotnet_line strip least l (level_after strip ls)) = (let n = level_after strip (ls @ [l]) in
      if l \<noteq> [] \<and> (n = 0 \<or> least \<le> n) then [(level_of_number n, shown_text (strip l))] else [])"
    using assms by (auto simp: dotnet_line_def level_after_snoc level_of_number_def Let_def)
  then show ?case by (simp add: stdout_lines_append dotnet_shown_append snoc)
qed (simp add: dotnet_shown_def map_filter_simps)

section \<open>In the log\<close>

lemma message_of_output:
  assumes "keys [''message'' \<mapsto> t] = [''message'']" and "name \<noteq> worker_thread"
  shows "tui_log_message keys (Some name) (proc_event (lvl, t)) =
    \<lparr> lm_msg = snd (split_source t), lm_lvl = lvl, lm_src = fst (split_source t), lm_thread = Some name \<rparr>"
proof -
  have "visitor_result keys (visited [(''message'', t)]) = t"
    using assms(1) by (simp add: visited_def visitor_result_def map_filter_simps)
  moreover have "ends_with ''odd_box::proc_host'' ''proc_host''" by (simp add: ends_with_def)
  ultimately show ?thesis
    using assms(2) by (simp add: tui_log_message_def plain_log_message_def proc_event_def source_of_def split: prod.splits)
qed

lemma log_output_pushes:
  "log_output keys proc shown s =
    (let ms = map (\<lambda>e. tui_log_message keys (Some (fr_host_name proc)) (proc_event e)) shown in
     \<lparr> ls_sent = ls_sent s @ ms, ls_buffer = buffer_pushes ms (ls_buffer s) \<rparr>)"
  by (induction shown arbitrary: s) (simp_all add: log_output_def tui_on_event_def Let_def)

text \<open>What a process with the standard format writes is shown line by line, unchanged and in
  order, under the name of the process, as long as no line begins with a bracket: the terminal keeps
  the last lines.\<close>

theorem output_shown_under_the_process:
  assumes "unwrap_or (fr_log_format proc) default_log_format = standard" and "fr_host_name proc \<noteq> worker_thread"
    and "\<And>t. keys [''message'' \<mapsto> t] = [''message'']" and "list_all plain_line ls"
    and "list_all (\<lambda>l. \<not> starts_with l ''['') ls" and "ls \<noteq> []" and "\<not> lb_pause (ls_buffer s)"
  shows "(let ms = map (\<lambda>l. \<lparr> lm_msg = l, lm_lvl = Info, lm_src = [], lm_thread = Some (fr_host_name proc) \<rparr>) ls;
            s' = log_output keys proc (stdout_thread strip default_log_format proc (concat (map (\<lambda>l. l @ [line_feed]) ls))) s in
      ls_sent s' = ls_sent s @ ms \<and>
      lb_logs (ls_buffer s') = keep_last (unwrap_or (lb_limit (ls_buffer s)) 1000) (lb_logs (ls_buffer s) @ ms))"
proof -
  have r: "output_lines (concat (map (\<lambda>l. l @ [line_feed]) ls)) = ls"
    using assms(4) by (induction ls) (simp_all add: output_lines_def plain_line_def split_lines_line)
  have "stdout_lines strip standard n ls c = map (Pair Info) ls" for n c
    by (induction ls) (simp_all add: stdout_line_def)
  then have o: "stdout_thread strip default_log_format proc (concat (map (\<lambda>l. l @ [line_feed]) ls)) = map (Pair Info) ls"
    by (simp add: stdout_thread_def assms(1) r)
  have e: "tui_log_message keys (Some (fr_host_name proc)) (proc_event (lvl, t)) =
      \<lparr> lm_msg = snd (split_source t), lm_lvl = lvl, lm_src = fst (split_source t), lm_thread = Some (fr_host_name proc) \<rparr>" for lvl t
    by (rule message_of_output) (use assms(2,3) in simp_all)
  have m: "map (\<lambda>e. tui_log_message keys (Some (fr_host_name proc)) (proc_event e)) (map (Pair Info) ls) =
      map (\<lambda>l. \<lparr> lm_msg = l, lm_lvl = Info, lm_src = [], lm_thread = Some (fr_host_name proc) \<rparr>) ls"
    using assms(5) by (auto simp: e split_source_plain list_all_iff)
  show ?thesis
    unfolding o log_output_pushes m Let_def using assms(6,7) by (simp add: buffer_pushes_kept)
qed

text \<open>A tag in brackets at the beginning of a line that a process writes is not shown: the
  terminal shows the same lines whatever the tag.\<close>

theorem tag_of_line_not_shown:
  assumes "name \<noteq> worker_thread" and "\<And>t. keys [''message'' \<mapsto> t] = [''message'']"
    and "CHR '']'' \<notin> set tag" and "CHR '']'' \<notin> set tag'"
  shows "map_option snd (message_rows width count_len site_len i
      (tui_log_message keys (Some name) (proc_event (lvl, ''['' @ tag @ '']'' @ rest)))) =
    map_option snd (message_rows width count_len site_len i
      (tui_log_message keys (Some name) (proc_event (lvl, ''['' @ tag' @ '']'' @ rest))))"
proof -
  let ?m = "\<lambda>t. \<lparr> lm_msg = trim rest, lm_lvl = lvl, lm_src = trim t, lm_thread = Some name \<rparr>"
  have "tui_log_message keys (Some name) (proc_event (lvl, ''['' @ t @ '']'' @ rest)) = ?m t"
    if "CHR '']'' \<notin> set t" for t
    using message_of_output [of keys "''['' @ t @ '']'' @ rest" name lvl] assms(1,2) split_source_tagged [OF that] by simp
  moreover have "map_option snd (message_rows width count_len site_len i (?m t)) = map_option snd (message_rows width count_len site_len i (?m t'))" for t t'
    by (simp add: message_rows_def Let_def map_option_bind comp_def)
  ultimately show ?thesis using assms(3,4) by simp
qed

text \<open>The marker of a warning stays in the text, that of an information does not.\<close>

lemma warn_marker_stays:
  "stdout_lines (\<lambda>l. l) dotnet 3 [''warn: a'', ''info: b''] 0 = [(Warn, ''warn: a''), (Info, ''b'')]"
  by code_simp

section \<open>Examples\<close>

lemma output_lines_roundtrip_witness: "output_lines (concat (map (\<lambda>l. l @ [line_feed]) [''a'', [], ''b''])) = [''a'', [], ''b'']"
  by (rule output_lines_roundtrip) code_simp

lemma dotnet_lines_shown_witness:
  "stdout_lines (\<lambda>l. l) dotnet 3 [''a'', ''debug: b'', ''c'', '''', ''d''] 0 = dotnet_shown (\<lambda>l. l) 3 [''a'', ''debug: b'', ''c'', '''', ''d'']"
  by (rule dotnet_lines_shown) simp

definition output_process :: FullyResolvedInProcessSiteConfig where
  "output_process =
     \<lparr> fr_excluded_from_start_all = False, fr_proc_id = ''i'', fr_active_port = None, fr_terminate_tls = None, fr_hints = None,
       fr_host_name = ''p'', fr_dir = None, fr_bin = ''b'', fr_args = None, fr_env_vars = None, fr_log_format = None,
       fr_log_level = None, fr_auto_start = None, fr_port = None, fr_https = None, fr_capture_subdomains = None, fr_forward_subdomains = None \<rparr>"

lemma output_shown_under_the_process_witness:
  "ls_sent (log_output (\<lambda>_. [''message'']) output_process (stdout_thread (\<lambda>l. l) standard output_process (concat (map (\<lambda>l. l @ [line_feed]) [''a''])))
     \<lparr> ls_sent = [], ls_buffer = SharedLogBuffer_new \<rparr>) =
   [\<lparr> lm_msg = ''a'', lm_lvl = Info, lm_src = [], lm_thread = Some ''p'' \<rparr>]"
proof -
  have p: "list_all plain_line [''a'']" by code_simp
  show ?thesis
    using output_shown_under_the_process [of output_process standard "\<lambda>_. [''message'']" "[''a'']" "\<lparr> ls_sent = [], ls_buffer = SharedLogBuffer_new \<rparr>" "\<lambda>l. l"] p
    by (simp add: output_process_def worker_thread_def unwrap_or_def SharedLogBuffer_new_def Let_def)
qed

lemma tag_of_line_not_shown_witness:
  "map_option snd (message_rows 100 6 1 0 (tui_log_message (\<lambda>_. [''message'']) (Some ''p'') (proc_event (Info, ''['' @ ''x'' @ '']'' @ ''a'')))) =
    map_option snd (message_rows 100 6 1 0 (tui_log_message (\<lambda>_. [''message'']) (Some ''p'') (proc_event (Info, ''['' @ ''y'' @ '']'' @ ''a''))))"
  by (rule tag_of_line_not_shown) (simp_all add: worker_thread_def)

end
