(* ===== verification/Ws_Relay.thy ===== *)
theory Ws_Relay
  imports Http_Service
begin

text \<open>
  The relay of a WebSocket, \<open>handle_ws\<close> of \<open>src/http_proxy/websockets.rs\<close>: two loops, one for each
  direction, that run at the same time until both have ended. A message is what the third-party library
  delivers, also when it asks to close; whether a send succeeds is part of an event.
\<close>

section \<open>The two loops\<close>

record 'm Relay =
  ry_client_reads :: bool
  ry_backend_reads :: bool
  ry_from_client :: "'m list"
  ry_from_backend :: "'m list"
  ry_to_backend :: "'m list"
  ry_to_client :: "'m list"

text \<open>A read that gives a message, or an error or the end (\<open>None\<close>), and whether the message can be sent on.\<close>

datatype 'm relay_event = ClientSays "'m option" bool | BackendSays "'m option" bool

definition relay_new :: "'m Relay" where
  "relay_new =
     \<lparr> ry_client_reads = True, ry_backend_reads = True, ry_from_client = [], ry_from_backend = [], ry_to_backend = [], ry_to_client = [] \<rparr>"

text \<open>A loop that has ended reads nothing more.\<close>

definition relay_step :: "'m relay_event \<Rightarrow> 'm Relay \<Rightarrow> 'm Relay" where
  "relay_step e r =
     (case e of
        ClientSays m sent \<Rightarrow>
          if \<not> ry_client_reads r then r
          else (case m of
                  None \<Rightarrow> r\<lparr> ry_client_reads := False \<rparr>
                | Some x \<Rightarrow>
                    (let r = r\<lparr> ry_from_client := ry_from_client r @ [x] \<rparr> in
                     if sent then r\<lparr> ry_to_backend := ry_to_backend r @ [x] \<rparr> else r\<lparr> ry_client_reads := False \<rparr>))
      | BackendSays m sent \<Rightarrow>
          if \<not> ry_backend_reads r then r
          else (case m of
                  None \<Rightarrow> r\<lparr> ry_backend_reads := False \<rparr>
                | Some x \<Rightarrow>
                    (let r = r\<lparr> ry_from_backend := ry_from_backend r @ [x] \<rparr> in
                     if sent then r\<lparr> ry_to_client := ry_to_client r @ [x] \<rparr> else r\<lparr> ry_backend_reads := False \<rparr>)))"

definition relay :: "'m relay_event list \<Rightarrow> 'm Relay \<Rightarrow> 'm Relay" where
  "relay es r = fold relay_step es r"

text \<open>\<open>join!\<close>: the relay is over when both loops are.\<close>

definition relay_over :: "'m Relay \<Rightarrow> bool" where
  "relay_over r = (\<not> ry_client_reads r \<and> \<not> ry_backend_reads r)"

section \<open>The whole of it\<close>

datatype ws_error = NoWsTarget service_error | BackendUnreachable string | ClientNotUpgraded

text \<open>The client has been answered by now; \<open>connects\<close> says which backends can be reached, \<open>upgraded\<close> whether
  the client has switched to the WebSocket protocol.\<close>

definition handle_ws ::
  "'b http_env \<Rightarrow> (string \<Rightarrow> bool) \<Rightarrow> bool \<Rightarrow> 'b incoming \<Rightarrow> BalancerState \<Rightarrow> 'm relay_event list \<Rightarrow> ws_error + string \<times> 'm Relay" where
  "handle_ws env connects upgraded inc b es =
     (case ws_url env inc b of
        Inl e \<Rightarrow> Inl (NoWsTarget e)
      | Inr url \<Rightarrow>
          if \<not> connects url then Inl (BackendUnreachable url)
          else if \<not> upgraded then Inl ClientNotUpgraded
          else Inr (url, relay es relay_new))"

section \<open>Messages arrive in order\<close>

text \<open>What a direction has sent is what it has read, but for a last message that could not be sent.\<close>

definition relayed :: "bool \<Rightarrow> 'm list \<Rightarrow> 'm list \<Rightarrow> bool" where
  "relayed running read sent = (if running then sent = read else sent = read \<or> (\<exists>x. read = sent @ [x]))"

definition relay_inv :: "'m Relay \<Rightarrow> bool" where
  "relay_inv r =
     (relayed (ry_client_reads r) (ry_from_client r) (ry_to_backend r) \<and>
      relayed (ry_backend_reads r) (ry_from_backend r) (ry_to_client r))"

lemma relay_step_inv: "relay_inv r \<Longrightarrow> relay_inv (relay_step e r)"
  by (auto simp: relay_inv_def relayed_def relay_step_def Let_def split: relay_event.splits option.splits)

lemma relay_inv: "relay_inv r \<Longrightarrow> relay_inv (relay es r)"
  by (induction es arbitrary: r) (simp_all add: relay_def relay_step_inv)

text \<open>A WebSocket is relayed to a backend of its site that could be reached, and whatever
  happens, each side has been sent what the other said, in order and once, but for a last message
  that could not be sent.\<close>

theorem websocket_messages_in_order:
  assumes "handle_ws env connects upgraded inc b es = Inr (url, r)"
  shows "ws_url env inc b = Inr url \<and> connects url \<and>
    relayed (ry_client_reads r) (ry_from_client r) (ry_to_backend r) \<and>
    relayed (ry_backend_reads r) (ry_from_backend r) (ry_to_client r)"
proof -
  have "relay_inv (relay_new :: 'c Relay)" by (simp add: relay_inv_def relay_new_def relayed_def)
  then have "relay_inv (relay es relay_new)" by (rule relay_inv)
  then show ?thesis using assms by (auto simp: handle_ws_def relay_inv_def split: sum.splits if_splits)
qed

section \<open>A client that vanishes\<close>

definition by_client :: "'m relay_event \<Rightarrow> bool" where
  "by_client e = (case e of ClientSays _ _ \<Rightarrow> True | BackendSays _ _ \<Rightarrow> False)"

lemma client_alone:
  "list_all by_client es \<Longrightarrow> ry_backend_reads (relay es r) = ry_backend_reads r \<and> ry_to_client (relay es r) = ry_to_client r"
proof (induction es arbitrary: r)
  case (Cons e es)
  have "ry_backend_reads (relay_step e r) = ry_backend_reads r \<and> ry_to_client (relay_step e r) = ry_to_client r"
    using Cons.prems by (auto simp: by_client_def relay_step_def Let_def split: relay_event.splits option.splits)
  then show ?case using Cons.IH [of "relay_step e r"] Cons.prems by (simp add: relay_def)
qed (simp add: relay_def)

text \<open>A client that vanishes does not end its relay: as long as the backend says nothing, the
  relay and its connection to the backend go on.\<close>

theorem relay_outlives_its_client:
  assumes "list_all by_client es"
  shows "\<not> relay_over (relay (es @ [ClientSays None sent]) relay_new) \<and>
    (\<exists>rest. relay_over (relay (es @ ClientSays None sent # rest) relay_new))"
proof
  show "\<not> relay_over (relay (es @ [ClientSays None sent]) relay_new)"
    using client_alone [of "es @ [ClientSays None sent]" relay_new] assms
    by (simp add: relay_over_def by_client_def relay_new_def)
  have "relay_over (relay [ClientSays None sent, BackendSays None True] r)" for r :: "'a Relay"
    by (simp add: relay_def relay_over_def relay_step_def)
  then have "relay_over (relay (es @ ClientSays None sent # [BackendSays None True]) relay_new)"
    by (simp add: relay_def)
  then show "\<exists>rest. relay_over (relay (es @ ClientSays None sent # rest) relay_new)" by blast
qed

section \<open>Examples\<close>

lemma websocket_messages_in_order_witness:
  "\<exists>url. handle_ws ((http_env_sample (response_sample 200 Map.empty))\<lparr> he_configuration := config_sample (Some [two_backends]) None \<rparr>)
     (\<lambda>_. True) True (incoming_sample ''/'' [''host'' \<mapsto> [''a.dev'']] True) (tn_balancer (counted_sample 0))
     [ClientSays (Some ''hi'') True] = Inr (url, relay [ClientSays (Some ''hi'') True] relay_new) \<and>
   relayed True (ry_from_client (relay [ClientSays (Some ''hi'') True] relay_new)) (ry_to_backend (relay [ClientSays (Some ''hi'') True] relay_new))"
proof -
  let ?env = "(http_env_sample (response_sample 200 Map.empty))\<lparr> he_configuration := config_sample (Some [two_backends]) None \<rparr>"
  let ?inc = "incoming_sample ''/'' [''host'' \<mapsto> [''a.dev'']] True"
  obtain url where r: "ws_url ?env ?inc (tn_balancer (counted_sample 0)) = Inr url"
    by (simp add: ws_url_def resolved_host_name_def header_get_def before_colon_def serves_name_def remote_next_backend_def
        pick_backend_def filter_backend_def http_samples Let_def)
  then have h: "handle_ws ?env (\<lambda>_. True) True ?inc (tn_balancer (counted_sample 0)) [ClientSays (Some ''hi'') True] =
      Inr (url, relay [ClientSays (Some ''hi'') True] relay_new)"
    by (simp add: handle_ws_def)
  have c: "ry_client_reads (relay [ClientSays (Some ''hi'') True] relay_new)"
    by (simp add: relay_def relay_step_def relay_new_def)
  from websocket_messages_in_order [OF h] h c show ?thesis by auto
qed

lemma relay_outlives_its_client_witness:
  "\<not> relay_over (relay [ClientSays (Some ''hi'') True, ClientSays None True] relay_new)"
  using relay_outlives_its_client [of "[ClientSays (Some ''hi'') True]" True] by (simp add: by_client_def)

end
