(* ===== verification/Host_Tools.thy ===== *)
theory Host_Tools
  imports Process_Output Monitoring
begin

text \<open>
  The process behind a connection (\<open>src/tcp_pid.rs\<close>), which the observer asks for, and the update of the
  program (\<open>src/self_update.rs\<close>). The answers of \<open>lsof\<close>, of the table of processes and of GitHub are
  arguments; installing a release is done by a third-party library.
\<close>

section \<open>The process behind a connection\<close>

text \<open>Whether a client's address is of this machine, its text for \<open>lsof\<close>, what \<open>lsof\<close> answers for it (whether it
  succeeded and its output; \<open>None\<close> when it cannot be run), and the name of the file of a process, which may
  not be UTF-8.\<close>

record process_env =
  ho_own_pid :: nat
  ho_is_loopback :: "string \<Rightarrow> bool"
  ho_address :: "string \<Rightarrow> string"
  ho_lsof :: "string \<Rightarrow> (bool \<times> string) option"
  ho_exe_name :: "nat \<Rightarrow> string option option"

definition get_pid_via_lsof :: "process_env \<Rightarrow> string \<Rightarrow> nat option option" where
  "get_pid_via_lsof env address =
     map_option (\<lambda>(success, stdout).
       if \<not> success \<or> trim stdout = [] then None
       else List.find (\<lambda>pid. pid \<noteq> ho_own_pid env) (List.map_filter (\<lambda>l. parse_uint 32 (trim l)) (split_lines stdout [])))
     (ho_lsof env address)"

text \<open>\<open>pid as i32\<close>\<close>

definition as_i32 :: "nat \<Rightarrow> int" where
  "as_i32 n = sint (of_nat n :: u32)"

definition get_process_by_socket :: "process_env \<Rightarrow> string \<Rightarrow> string \<Rightarrow> (string \<times> int) option" where
  "get_process_by_socket env client own =
     (if \<not> ho_is_loopback env client then None
      else
        (case get_pid_via_lsof env (ho_address env client) of
           Some (Some pid) \<Rightarrow> map_option (\<lambda>name. (unwrap_or name ''?'', as_i32 pid)) (ho_exe_name env pid)
         | _ \<Rightarrow> None))"

lemma lsof_pid:
  assumes "get_pid_via_lsof env address = Some (Some pid)"
  shows "pid \<noteq> ho_own_pid env \<and> pid < 2 ^ 32"
proof -
  obtain out where "List.find (\<lambda>pid. pid \<noteq> ho_own_pid env) (List.map_filter (\<lambda>l. parse_uint 32 (trim l)) (split_lines out [])) = Some pid"
    using assms by (auto simp: get_pid_via_lsof_def split: if_splits)
  then have "pid \<in> set (List.map_filter (\<lambda>l. parse_uint 32 (trim l)) (split_lines out []))" and p: "pid \<noteq> ho_own_pid env"
    by (auto simp: find_Some_iff)
  then obtain l where "parse_uint 32 l = Some pid" by (auto simp: List.map_filter_def)
  then show ?thesis using p by (auto simp: parse_uint_def Let_def split: if_splits)
qed

text \<open>The observer names a process behind a new connection only when its client is on this
  machine, and never names the program itself.\<close>

theorem process_named_for_local_clients:
  assumes "push_event (env\<lparr> env_process := get_process_by_socket procs \<rparr>) now (Opened c) s = Some s'" and "s' \<noteq> s"
  shows "\<exists>client pid name. pc_client_socket_address c = Some client \<and> ho_is_loopback procs client \<and>
    pid \<noteq> ho_own_pid procs \<and> ho_exe_name procs pid \<noteq> None \<and>
    s' = update_connection (pc_connection_key c) (\<lambda>t. t\<lparr> tc_local_process_name_and_pid := Some (name, as_i32 pid) \<rparr>) s"
proof -
  obtain client own p where p: "pc_client_socket_address c = Some client" "get_process_by_socket procs client own = Some p"
    "s' = update_connection (pc_connection_key c) (\<lambda>t. t\<lparr> tc_local_process_name_and_pid := Some p \<rparr>) s"
    using assms by (auto simp: push_event_def split: option.splits)
  then obtain pid name where "ho_is_loopback procs client" "get_pid_via_lsof procs (ho_address procs client) = Some (Some pid)"
    "ho_exe_name procs pid \<noteq> None" "p = (name, as_i32 pid)"
    by (auto simp: get_process_by_socket_def split: if_splits option.splits)
  then show ?thesis using p lsof_pid by blast
qed

section \<open>Updating the program\<close>

text \<open>The environment variables are Unicode text; \<open>lower\<close> is \<open>str::to_lowercase\<close>; of a release only the tag is read.\<close>

definition allow_preview :: "(string \<Rightarrow> string) \<Rightarrow> bool \<Rightarrow> (string \<times> string) list \<Rightarrow> bool" where
  "allow_preview lower include_pre vars =
     (include_pre \<or>
      str_eq_ignore_case (case List.find (\<lambda>(k, _). k = ''ODDBOX_ALLOW_PREVIEW'') vars of Some (_, v) \<Rightarrow> lower v | None \<Rightarrow> []) ''true'')"

definition preview_marks :: "string list" where
  "preview_marks = [''-preview'', ''-alpha'', ''-beta'', ''-rc'']"

definition find_latest_version ::
  "(string \<Rightarrow> string) \<Rightarrow> bool \<Rightarrow> (string \<times> string) list \<Rightarrow> string option list option \<Rightarrow> string option" where
  "find_latest_version lower include_pre vars releases =
     do { tags \<leftarrow> releases;
          unwrap_or (List.find (\<lambda>x. case x of
              Some t \<Rightarrow> allow_preview lower include_pre vars \<or> list_all (\<lambda>mark. \<not> contains_sub (lower t) mark) preview_marks
            | None \<Rightarrow> False) tags) None }"

datatype update_result = UpdateFailed | AlreadyLatest | Installs string

definition update :: "(string \<Rightarrow> string) \<Rightarrow> string \<Rightarrow> (string \<times> string) list \<Rightarrow> string option list option \<Rightarrow> update_result" where
  "update lower current_version vars releases =
     (case find_latest_version lower False vars releases of
        None \<Rightarrow> UpdateFailed
      | Some latest \<Rightarrow> if CHR ''v'' # current_version = latest then AlreadyLatest else Installs latest)"

text \<open>Without the variable that allows previews, an update installs the first listed release
  that is not a preview, unless it is the running one; a newer version that runs is replaced by the
  older release.\<close>

theorem update_installs_first_release:
  assumes "\<not> allow_preview lower False vars"
    and "releases = before @ Some tag # later" and "list_all (\<lambda>mark. \<not> contains_sub (lower tag) mark) preview_marks"
    and "list_all (\<lambda>x. case x of Some t \<Rightarrow> list_ex (contains_sub (lower t)) preview_marks | None \<Rightarrow> True) before"
  shows "update lower current vars (Some releases) = (if CHR ''v'' # current = tag then AlreadyLatest else Installs tag)"
proof -
  have "List.find (\<lambda>x. case x of
      Some t \<Rightarrow> allow_preview lower False vars \<or> list_all (\<lambda>mark. \<not> contains_sub (lower t) mark) preview_marks
    | None \<Rightarrow> False) (before @ Some tag # later) = Some (Some tag)"
    using assms(1,3,4)
  proof (induction before)
    case (Cons x before)
    then have "\<not> (case x of Some t \<Rightarrow> allow_preview lower False vars \<or> list_all (\<lambda>mark. \<not> contains_sub (lower t) mark) preview_marks
        | None \<Rightarrow> False)"
      by (auto simp: list_all_iff list_ex_iff split: option.splits)
    then show ?case using Cons by simp
  qed simp
  then show ?thesis by (simp add: update_def find_latest_version_def assms(2) unwrap_or_def)
qed

lemma update_goes_back: "update (\<lambda>x. x) ''0.2.0-rc1'' [] (Some [Some ''v0.2.0-rc1'', Some ''v0.1.9'']) = Installs ''v0.1.9''"
  by code_simp

section \<open>Examples\<close>

definition tools_sample :: process_env where
  "tools_sample =
     \<lparr> ho_own_pid = 1, ho_is_loopback = (\<lambda>_. True), ho_address = (\<lambda>a. a),
       ho_lsof = (\<lambda>_. Some (True, ''1'' @ [line_feed] @ ''7'' @ [line_feed])), ho_exe_name = (\<lambda>_. Some (Some ''curl'')) \<rparr>"

lemma lsof_sample: "get_process_by_socket tools_sample ''127.0.0.1:9'' own = Some (''curl'', 7)"
proof -
  let ?out = "''1'' @ [line_feed] @ ''7'' @ [line_feed]"
  have o: "split_lines ?out [] = [''1'', ''7'']" by code_simp
  have w: "trim ?out \<noteq> []" "trim ''1'' = ''1''" "trim ''7'' = ''7''" by code_simp+
  have n: "parse_uint 32 ''1'' = Some 1" "parse_uint 32 ''7'' = Some 7" by (simp_all add: parse_uint_def is_digit_def)
  have "get_pid_via_lsof tools_sample ''127.0.0.1:9'' = Some (Some 7)"
    using w(1) unfolding get_pid_via_lsof_def tools_sample_def process_env.simps option.map prod.case o by (simp add: map_filter_simps w n)
  moreover have "as_i32 7 = 7" by (simp add: as_i32_def)
  ultimately show ?thesis by (simp add: get_process_by_socket_def tools_sample_def unwrap_or_def)
qed

lemma process_named_for_local_clients_witness:
  "\<exists>c s s'. push_event (env_sample\<lparr> env_process := get_process_by_socket tools_sample \<rparr>) 0 (Opened c) s = Some s' \<and> s' \<noteq> s \<and>
    (\<exists>pid name. pid \<noteq> 1 \<and> s' = update_connection (pc_connection_key c) (\<lambda>t. t\<lparr> tc_local_process_name_and_pid := Some (name, as_i32 pid) \<rparr>) s)"
proof -
  obtain t where t: "monitored_connections station_sample 7 = Some t" using station_sample_fields(3) by blast
  let ?c = "(connection_sample 7)\<lparr> pc_client_socket_address := Some ''127.0.0.1:9'', pc_odd_box_socket := Some ''127.0.0.1:80'' \<rparr>"
  let ?s = "station_sample\<lparr> monitored_connections := (monitored_connections station_sample)(7 \<mapsto> t\<lparr> tc_local_process_name_and_pid := None \<rparr>) \<rparr>"
  let ?s' = "update_connection 7 (\<lambda>t. t\<lparr> tc_local_process_name_and_pid := Some (''curl'', 7) \<rparr>) ?s"
  have p: "push_event (env_sample\<lparr> env_process := get_process_by_socket tools_sample \<rparr>) 0 (Opened ?c) ?s = Some ?s'"
    by (simp add: push_event_def env_sample_def lsof_sample connection_sample_def)
  have n: "?s' \<noteq> ?s"
  proof
    assume "?s' = ?s"
    then have "monitored_connections ?s' 7 = monitored_connections ?s 7" by simp
    then have "t\<lparr> tc_local_process_name_and_pid := Some (''curl'', 7) \<rparr> = t\<lparr> tc_local_process_name_and_pid := None \<rparr>"
      by (simp add: update_connection_def)
    then have "tc_local_process_name_and_pid (t\<lparr> tc_local_process_name_and_pid := Some (''curl'', 7) \<rparr>) =
        tc_local_process_name_and_pid (t\<lparr> tc_local_process_name_and_pid := None \<rparr>)" by (rule arg_cong)
    then show False by simp
  qed
  have k: "ho_own_pid tools_sample = 1" by (simp add: tools_sample_def)
  from process_named_for_local_clients [OF p n] p n show ?thesis unfolding k by blast
qed

lemma update_installs_first_release_witness: "update (\<lambda>x. x) ''0.1.8'' [] (Some [Some ''v0.2.0-rc1'', Some ''v0.1.9'']) = Installs ''v0.1.9''"
proof -
  have "\<not> allow_preview (\<lambda>x. x) False []" "list_all (\<lambda>mark. \<not> contains_sub ''v0.1.9'' mark) preview_marks"
    "list_ex (contains_sub ''v0.2.0-rc1'') preview_marks"
    by code_simp+
  then show ?thesis
    using update_installs_first_release [of "\<lambda>x. x" "[]" "[Some ''v0.2.0-rc1'', Some ''v0.1.9'']" "[Some ''v0.2.0-rc1'']" "''v0.1.9''" "[]" "''0.1.8''"]
    by simp
qed

end
