(* ===== verification/Old_Configs.thy ===== *)
theory Old_Configs
  imports Config_Upgrade Startup
begin

text \<open>
  What else the older schemas have: equality of sites and the text written for a configuration
  (\<open>to_string\<close>) in version 2, \<open>src/configuration/v2.rs\<close>, and the examples of version 2, of version 1
  (\<open>v1.rs\<close>) and of the first schema (\<open>legacy.rs\<close>). The records have no field for the version, which is
  that of their type; the check for another one is left out.
\<close>

section \<open>Equality of sites\<close>

definition v2_process_eq :: "V2_InProcessSiteConfig \<Rightarrow> V2_InProcessSiteConfig \<Rightarrow> bool" where
  "v2_process_eq a b =
     (p2_log_level a = p2_log_level b \<and>
      compare_option_bool (p2_disable_tcp_tunnel_mode a) (p2_disable_tcp_tunnel_mode b) \<and>
      p2_hints a = p2_hints b \<and> p2_host_name a = p2_host_name b \<and> p2_dir a = p2_dir b \<and> p2_bin a = p2_bin b \<and>
      p2_args a = p2_args b \<and> p2_env_vars a = p2_env_vars b \<and>
      compare_option_log_format (p2_log_format a) (p2_log_format b) \<and>
      compare_option_bool (p2_auto_start a) (p2_auto_start b) \<and>
      p2_port a = p2_port b \<and> p2_https a = p2_https b \<and>
      compare_option_bool (p2_capture_subdomains a) (p2_capture_subdomains b) \<and>
      compare_option_bool (p2_forward_subdomains a) (p2_forward_subdomains b) \<and>
      compare_option_bool (p2_exclude_from_start_all a) (p2_exclude_from_start_all b))"

definition v2_remote_eq :: "V2_RemoteSiteConfig \<Rightarrow> V2_RemoteSiteConfig \<Rightarrow> bool" where
  "v2_remote_eq a b =
     (r2_host_name a = r2_host_name b \<and> r2_backends a = r2_backends b \<and>
      compare_option_bool (r2_keep_original_host_header a) (r2_keep_original_host_header b) \<and>
      compare_option_bool (r2_enable_lets_encrypt a) (r2_enable_lets_encrypt b) \<and>
      compare_option_bool (r2_capture_subdomains a) (r2_capture_subdomains b) \<and>
      compare_option_bool (r2_disable_tcp_tunnel_mode a) (r2_disable_tcp_tunnel_mode b) \<and>
      compare_option_bool (r2_forward_subdomains a) (r2_forward_subdomains b))"

section \<open>Writing\<close>

definition v2_hint_text :: "V2_Hint \<Rightarrow> string" where
  "v2_hint_text h = (case h of V2_H2 \<Rightarrow> ''H2'' | V2_H2C \<Rightarrow> ''H2C'' | V2_H2CPK \<Rightarrow> ''H2CPK'' | NOH2 \<Rightarrow> ''NOH2'')"

definition v2_hint_list_text :: "V2_Hint list \<Rightarrow> string" where
  "v2_hint_list_text hints = join '', '' (map (\<lambda>h. [CHR 0x27] @ v2_hint_text h @ [CHR 0x27]) hints)"

definition v2_global_lines :: "OddBoxV2Config \<Rightarrow> string list" where
  "v2_global_lines cfg =
     [''#:schema https://raw.githubusercontent.com/OlofBlomqvist/odd-box/main/odd-box-schema-v2.2.json'',
      setting ''version'' (quote @ ''V2'' @ quote)] @
     [setting ''alpn'' (case c2_alpn cfg of Some a \<Rightarrow> bool_text a | None \<Rightarrow> ''false'')] @
     opt_line (\<lambda>p. setting ''http_port'' (dec (unat p))) (c2_http_port cfg) @
     opt_line (\<lambda>p. setting ''admin_api_port'' (dec (unat p))) (c2_admin_api_port cfg) @
     [setting ''ip'' (case c2_ip cfg of Some ip \<Rightarrow> quote @ ip @ quote | None \<Rightarrow> quote @ ''127.0.0.1'' @ quote)] @
     opt_line (\<lambda>p. setting ''tls_port'' (dec (unat p))) (c2_tls_port cfg) @
     [setting ''auto_start'' (case c2_auto_start cfg of Some a \<Rightarrow> bool_text a | None \<Rightarrow> ''false'')] @
     [setting ''root_dir'' (case c2_root_dir cfg of Some d \<Rightarrow> debug_str d | None \<Rightarrow> quote @ ''~'' @ quote)] @
     opt_line (\<lambda>l. setting ''log_level'' (quote @ log_level_text l @ quote)) (c2_log_level cfg) @
     [setting ''port_range_start'' (dec (unat (c2_port_range_start cfg))),
      setting ''default_log_format'' (quote @ log_format_text (c2_default_log_format cfg) @ quote)] @
     opt_line (\<lambda>e. setting ''lets_encrypt_account_email'' (quote @ e @ quote)) (c2_lets_encrypt_account_email cfg) @
     (if 0 < length (c2_env_vars cfg) then env_var_lines (c2_env_vars cfg) else [''env_vars = []''])"

definition v2_dir_server_lines :: "V2_DirServer \<Rightarrow> string list" where
  "v2_dir_server_lines s =
     [newline @ ''[[dir_server]]'', setting ''host_name'' (debug_str (d2_host_name s)),
      setting ''dir'' (debug_str (d2_dir s))] @
     flag_line ''capture_subdomains'' (d2_capture_subdomains s) @
     flag_line ''enable_directory_browsing'' (d2_enable_directory_browsing s) @
     flag_line ''enable_lets_encrypt'' (d2_enable_lets_encrypt s) @
     flag_line ''render_markdown'' (d2_render_markdown s) @
     flag_line ''redirect_to_https'' (d2_redirect_to_https s)"

definition v2_backend_text :: "V2_Backend \<Rightarrow> string" where
  "v2_backend_text b =
     [CHR 0x09] @ ''{ '' @ (if b2_https b = Some True then ''https = true, '' else []) @
     ''address='' @ quote @ b2_address b @ quote @ '', port='' @ dec (unat (b2_port b)) @
     (case b2_hints b of Some hints \<Rightarrow> '', hints = ['' @ v2_hint_list_text hints @ '']'' | None \<Rightarrow> []) @ ''}''"

definition v2_remote_lines :: "V2_RemoteSiteConfig \<Rightarrow> string list" where
  "v2_remote_lines site =
     [newline @ ''[[remote_target]]'', setting ''host_name'' (debug_str (r2_host_name site))] @
     flag_line ''forward_subdomains'' (r2_forward_subdomains site) @
     flag_line ''capture_subdomains'' (r2_capture_subdomains site) @
     flag_line ''disable_tcp_tunnel_mode'' (r2_disable_tcp_tunnel_mode site) @
     flag_line ''enable_lets_encrypt'' (r2_enable_lets_encrypt site) @
     [''backends = ['', join ('','' @ newline) (map v2_backend_text (r2_backends site)), '']'']"

definition v2_process_lines :: "V2_InProcessSiteConfig \<Rightarrow> string list" where
  "v2_process_lines p =
     [newline @ ''[[hosted_process]]'', setting ''host_name'' (debug_str (p2_host_name p))] @
     opt_line (\<lambda>d. setting ''dir'' (debug_str d)) (p2_dir p) @
     [setting ''bin'' (debug_str (p2_bin p))] @
     (case p2_hints p of Some hints \<Rightarrow> [''hints = ['', v2_hint_list_text hints, '']''] | None \<Rightarrow> []) @
     [''args = ['' @ join '', '' (map (\<lambda>a. newline @ ''  '' @ debug_str a) (unwrap_or (p2_args p) [])) @ newline @ '']''] @
     opt_line (\<lambda>a. setting ''auto_start'' (bool_text a)) (p2_auto_start p) @
     opt_line (\<lambda>l. setting ''log_level'' (quote @ log_level_text l @ quote)) (p2_log_level p) @
     flag_line ''enable_lets_encrypt'' (p2_enable_lets_encrypt p) @
     flag_line ''exclude_from_start_all'' (p2_exclude_from_start_all p) @
     opt_line (\<lambda>b. setting ''https'' (bool_text b)) (p2_https p) @
     opt_line (\<lambda>n. setting ''port'' (dec (unat n))) (p2_port p) @
     flag_line ''capture_subdomains'' (p2_capture_subdomains p) @
     (case p2_env_vars p of Some vs \<Rightarrow> env_var_lines vs | None \<Rightarrow> [])"

definition v2_config_lines :: "OddBoxV2Config \<Rightarrow> string list" where
  "v2_config_lines cfg =
     v2_global_lines cfg @
     concat (map v2_dir_server_lines (unwrap_or (c2_dir_server cfg) [])) @
     concat (map v2_remote_lines (unwrap_or (c2_remote_target cfg) [])) @
     concat (map v2_process_lines (unwrap_or (c2_hosted_process cfg) []))"

definition v2_to_string :: "OddBoxV2Config \<Rightarrow> string" where
  "v2_to_string cfg = join newline (v2_config_lines cfg)"

section \<open>The example\<close>

definition v2_example_remote :: "string \<Rightarrow> string \<Rightarrow> bool option \<Rightarrow> bool \<Rightarrow> V2_RemoteSiteConfig" where
  "v2_example_remote host address fwd disable_tunnel =
     \<lparr> r2_host_name = host, r2_backends = [\<lparr> b2_address = address, b2_port = 443, b2_https = Some True, b2_hints = None \<rparr>],
       r2_capture_subdomains = Some False, r2_disable_tcp_tunnel_mode = Some disable_tunnel, r2_forward_subdomains = fwd,
       r2_enable_lets_encrypt = Some False, r2_keep_original_host_header = None \<rparr>"

definition v2_example_process :: "ProcId \<Rightarrow> V2_InProcessSiteConfig" where
  "v2_example_process i =
     \<lparr> p2_proc_id = i, p2_active_port = None, p2_disable_tcp_tunnel_mode = Some False, p2_hints = None,
       p2_host_name = ''some_host.local'', p2_dir = None, p2_bin = ''my_bin'', p2_args = Some [''--test''],
       p2_env_vars = Some example_env_vars, p2_log_format = Some standard, p2_auto_start = Some True, p2_port = Some 443,
       p2_https = Some True, p2_capture_subdomains = None, p2_forward_subdomains = None,
       p2_exclude_from_start_all = None, p2_enable_lets_encrypt = Some False, p2_log_level = None \<rparr>"

definition v2_example :: "ProcId \<Rightarrow> OddBoxV2Config" where
  "v2_example i =
     \<lparr> c2_path = None, c2_root_dir = Some ''/tmp'', c2_log_level = Some Info, c2_alpn = Some False,
       c2_port_range_start = 4200, c2_default_log_format = standard, c2_ip = Some ''0.0.0.0'',
       c2_http_port = Some 80, c2_tls_port = Some 443, c2_auto_start = Some True, c2_env_vars = example_env_vars,
       c2_remote_target =
         Some [v2_example_remote ''lobsters.local'' ''lobste.rs'' None False, v2_example_remote ''google.local'' ''google.com'' (Some True) True],
       c2_hosted_process = Some [v2_example_process i], c2_dir_server = None, c2_admin_api_port = None,
       c2_lets_encrypt_account_email = None, c2_odd_box_url = None, c2_odd_box_password = None \<rparr>"

definition v1_example :: OddBoxV1Config where
  "v1_example =
     \<lparr> c1_root_dir = Some ''/tmp'', c1_log_level = Some Info, c1_alpn = Some False, c1_port_range_start = 4200,
       c1_default_log_format = standard, c1_ip = Some ''0.0.0.0'', c1_http_port = Some 80, c1_tls_port = Some 443,
       c1_auto_start = Some True, c1_env_vars = example_env_vars,
       c1_remote_target = Some
         [\<lparr> r1_h2_hint = None, r1_host_name = ''lobsters.local'', r1_target_hostname = ''lobste.rs'', r1_port = None,
            r1_https = Some True, r1_capture_subdomains = Some False, r1_disable_tcp_tunnel_mode = Some False,
            r1_forward_subdomains = None \<rparr>,
          \<lparr> r1_h2_hint = None, r1_host_name = ''google.local'', r1_target_hostname = ''google.com'', r1_port = Some 443,
            r1_https = Some True, r1_capture_subdomains = Some False, r1_disable_tcp_tunnel_mode = Some True,
            r1_forward_subdomains = Some True \<rparr>],
       c1_hosted_process = Some
         [\<lparr> p1_disable_tcp_tunnel_mode = Some False, p1_h2_hint = None, p1_host_name = ''some_host.local'', p1_dir = ''/tmp'',
            p1_bin = ''my_bin'', p1_args = [''--test''], p1_env_vars = example_env_vars, p1_log_format = Some standard,
            p1_auto_start = Some True, p1_port = Some 443, p1_https = Some True, p1_capture_subdomains = None,
            p1_forward_subdomains = None, p1_disabled = None \<rparr>],
       c1_admin_api_port = None, c1_path = None \<rparr>"

definition legacy_example_remote :: "string \<Rightarrow> string \<Rightarrow> V1_RemoteSiteConfig" where
  "legacy_example_remote host target =
     \<lparr> r1_h2_hint = None, r1_host_name = host, r1_target_hostname = target, r1_port = Some 443, r1_https = Some True,
       r1_capture_subdomains = Some False, r1_disable_tcp_tunnel_mode = Some True, r1_forward_subdomains = None \<rparr>"

definition legacy_example :: OddBoxLegacyConfig where
  "legacy_example =
     \<lparr> lc_processes =
         [\<lparr> l_host_name = ''some_host.local'', l_path = ''/tmp'', l_bin = ''my_bin'', l_args = [''--test''],
            l_env_vars = example_env_vars, l_log_format = Some standard, l_auto_start = Some True, l_https = Some True,
            l_capture_subdomains = None, l_port = 443, l_h2_hint = None, l_disable_tcp_tunnel_mode = Some False \<rparr>],
       lc_env_vars = example_env_vars, lc_root_dir = Some ''/tmp'', lc_log_level = Some Info, lc_port_range_start = 4200,
       lc_default_log_format = Some standard, lc_port = Some 80, lc_tls_port = Some 443, lc_auto_start = Some True,
       lc_ip = Some ''0.0.0.0'',
       lc_remote_sites = Some
         [legacy_example_remote ''lobsters.localtest.me'' ''lobsters.rs'', legacy_example_remote ''google.localtest.me'' ''google.com''] \<rparr>"

section \<open>Equality, proved\<close>

text \<open>Equality of sites of version 2 is an equivalence that leaves out the identity and the port in use of a process
  and its Let's Encrypt setting, and cannot tell an absent flag from one that is off.\<close>

theorem v2_site_equality:
  "equivp v2_process_eq \<and> equivp v2_remote_eq \<and>
    v2_process_eq p (p\<lparr> p2_proc_id := i, p2_active_port := port, p2_enable_lets_encrypt := le \<rparr>)"
proof (intro conjI)
  show "equivp v2_process_eq" by (rule equivpI) (auto simp: reflp_def symp_def transp_def v2_process_eq_def compare_option_bool_iff compare_option_log_format_iff)
  show "equivp v2_remote_eq" by (rule equivpI) (auto simp: reflp_def symp_def transp_def v2_remote_eq_def compare_option_bool_iff compare_option_log_format_iff)
  show "v2_process_eq p (p\<lparr> p2_proc_id := i, p2_active_port := port, p2_enable_lets_encrypt := le \<rparr>)"
    by (simp add: v2_process_eq_def compare_option_bool_iff compare_option_log_format_iff)
qed

section \<open>The text, proved\<close>

text \<open>Version 2 of the configuration is written without the address and the password of the
  admin interface, original host headers, and tunnel mode, forwarding of subdomains and log format
  of processes.\<close>

theorem saved_v2_text_forgets_settings:
  "v2_to_string cfg = v2_to_string (cfg\<lparr>
     c2_odd_box_url := None, c2_odd_box_password := None,
     c2_remote_target := map_option (map (\<lambda>r. r\<lparr> r2_keep_original_host_header := None \<rparr>)) (c2_remote_target cfg),
     c2_hosted_process := map_option (map (\<lambda>p. p\<lparr> p2_disable_tcp_tunnel_mode := None, p2_forward_subdomains := None,
       p2_log_format := None \<rparr>)) (c2_hosted_process cfg) \<rparr>)"
proof -
  have "v2_remote_lines (r\<lparr> r2_keep_original_host_header := None \<rparr>) = v2_remote_lines r" for r :: V2_RemoteSiteConfig
    by (simp add: v2_remote_lines_def)
  moreover have "v2_process_lines (p\<lparr> p2_disable_tcp_tunnel_mode := None, p2_forward_subdomains := None, p2_log_format := None \<rparr>) =
      v2_process_lines p" for p :: V2_InProcessSiteConfig
    by (simp add: v2_process_lines_def)
  ultimately show ?thesis
    by (cases "c2_remote_target cfg"; cases "c2_hosted_process cfg")
       (simp_all add: v2_to_string_def v2_config_lines_def v2_global_lines_def comp_def)
qed

text \<open>The example of version 2, upgraded, is the example of version 3 without the redirects to
  HTTPS, and with requests terminated where TLS is.\<close>

theorem upgraded_v2_example:
  "v2_to_v3 fresh (v2_example i) =
    (let c = example_config (fresh 0) in c\<lparr>
       cfg_remote_target := map_option (map (\<lambda>r. r\<lparr> rs_terminate_http := rs_terminate_tls r, rs_redirect_to_https := None \<rparr>)) (cfg_remote_target c),
       cfg_hosted_process := map_option (map (\<lambda>p. p\<lparr> hp_redirect_to_https := None \<rparr>)) (cfg_hosted_process c) \<rparr>)"
proof -
  have "v2_remote_to_v3 (v2_example_remote h a f d) =
      (let r = example_remote h a f d in r\<lparr> rs_terminate_http := rs_terminate_tls r, rs_redirect_to_https := None \<rparr>)" for h a f d
    by (simp add: v2_remote_to_v3_def v2_example_remote_def v2_backend_to_v3_def v2_hints_def example_remote_def example_backend_def map_filter_simps)
  moreover have "v2_process_to_v3 j (v2_example_process i) = (example_process j)\<lparr> hp_redirect_to_https := None \<rparr>" for j
    by (simp add: v2_process_to_v3_def v2_example_process_def v2_hints_def example_process_def map_filter_simps)
  ultimately show ?thesis by (simp add: v2_to_v3_def v2_example_def example_config_def Let_def)
qed

text \<open>The example of every older schema is upgraded to a valid configuration with the same
  three sites, in the same order, whose process keeps its port 443.\<close>

theorem older_examples_upgraded:
  assumes "c \<in> {LegacyConfig legacy_example, V1Config v1_example, V2Config (v2_example i)}"
  shows "\<exists>c' v. try_upgrade_to_latest_version fresh c = Inr (c', v, True) \<and> is_valid c' = Inr () \<and>
    map (takeWhile (\<lambda>x. x \<noteq> CHR ''.'') \<circ> rs_host_name) (unwrap_or (cfg_remote_target c') []) = [''lobsters'', ''google''] \<and>
    map (\<lambda>p. (hp_host_name p, hp_port p)) (unwrap_or (cfg_hosted_process c') []) = [(''some_host.local'', Some 443)]"
proof -
  have n: "\<not> str_eq_ignore_case ''some_key'' ''port''" "\<not> str_eq_ignore_case ''another_key'' ''port''"
    by (auto dest: str_eq_ignore_case_length)
  show ?thesis
    using assms
    by (auto simp: try_upgrade_to_latest_version_def legacy_to_v1_def legacy_example_def legacy_process_to_v1_def legacy_example_remote_def
        v1_example_def v1_to_v2_def v1_remote_to_v2_def v1_process_to_v2_def v1_hints_def v2_example_def v2_example_remote_def
        v2_example_process_def v2_to_v3_def v2_remote_to_v3_def v2_process_to_v3_def valid_iff lets_encrypt_ok_def
        port_variables_ok_def all_host_names_def configured_ports_def example_env_vars_def n unwrap_or_def)
qed

lemma older_examples_upgraded_witness:
  "\<exists>c' v. try_upgrade_to_latest_version (\<lambda>_ _. []) (V1Config v1_example) = Inr (c', v, True) \<and> is_valid c' = Inr ()"
  using older_examples_upgraded [of "V1Config v1_example" "''i''" "\<lambda>_ _. []"] by blast

end
